(* ===== verification/Prelude.thy ===== *)
theory Prelude
  imports Complex_Main "HOL-Library.AList"
begin

text \<open>
  Shared vocabulary of the development: Python floats with their special values, insertion-ordered
  dictionaries, JSON values, the string operations of \<open>str\<close> the sources use (on Latin-1 text,
  one \<open>char\<close> per code point), the number parsers behind \<open>int()\<close> and \<open>float()\<close>, and the generic
  lemmas the component theories share.  A finite float is an exact rational: rounding, overflow to
  infinity and the sign of zero are not modelled; NaN and the infinities are.
\<close>

named_theorems fl_simps "comparisons and arithmetic of Python floats"
named_theorems dict_simps "lookup after store or removal"
named_theorems wf_intros "well-formedness is kept by an operation"

section \<open>Exceptions\<close>

text \<open>The exception classes that can leave a modelled function, as the left summand of its result.\<close>

datatype py_exc = ValueError | TypeError | KeyError | IndexError | ZeroDivisionError |
  OverflowError | RuntimeError

section \<open>Floats\<close>

datatype fl = Fin rat | PInf | NInf | NaN

definition fl_isnan :: "fl \<Rightarrow> bool" where
  "fl_isnan x \<longleftrightarrow> x = NaN"

definition fl_isinf :: "fl \<Rightarrow> bool" where
  "fl_isinf x \<longleftrightarrow> x = PInf \<or> x = NInf"

fun fl_lt :: "fl \<Rightarrow> fl \<Rightarrow> bool" where
  "fl_lt NaN y = False"
| "fl_lt x NaN = False"
| "fl_lt (Fin a) (Fin b) = (a < b)"
| "fl_lt NInf NInf = False"
| "fl_lt NInf y = True"
| "fl_lt PInf y = False"
| "fl_lt (Fin a) PInf = True"
| "fl_lt (Fin a) NInf = False"

fun fl_le :: "fl \<Rightarrow> fl \<Rightarrow> bool" where
  "fl_le NaN y = False"
| "fl_le x NaN = False"
| "fl_le x y = (\<not> fl_lt y x)"

fun fl_add :: "fl \<Rightarrow> fl \<Rightarrow> fl" where
  "fl_add NaN y = NaN"
| "fl_add x NaN = NaN"
| "fl_add (Fin a) (Fin b) = Fin (a + b)"
| "fl_add PInf NInf = NaN"
| "fl_add NInf PInf = NaN"
| "fl_add PInf y = PInf"
| "fl_add NInf y = NInf"
| "fl_add x PInf = PInf"
| "fl_add x NInf = NInf"

fun fl_neg :: "fl \<Rightarrow> fl" where
  "fl_neg (Fin a) = Fin (- a)"
| "fl_neg PInf = NInf"
| "fl_neg NInf = PInf"
| "fl_neg NaN = NaN"

fun fl_mul :: "fl \<Rightarrow> fl \<Rightarrow> fl" where
  "fl_mul NaN y = NaN"
| "fl_mul x NaN = NaN"
| "fl_mul (Fin a) (Fin b) = Fin (a * b)"
| "fl_mul (Fin a) y = (if a = 0 then NaN else if 0 < a then y else fl_neg y)"
| "fl_mul x (Fin b) = (if b = 0 then NaN else if 0 < b then x else fl_neg x)"
| "fl_mul x y = (if x = y then PInf else NInf)"

definition fl_sub :: "fl \<Rightarrow> fl \<Rightarrow> fl" where
  "fl_sub x y = fl_add x (fl_neg y)"

text \<open>Truth value of a float: only zero is false (NaN is true).\<close>

definition fl_truthy :: "fl \<Rightarrow> bool" where
  "fl_truthy x \<longleftrightarrow> x \<noteq> Fin 0"

text \<open>\<open>max(a, b)\<close> and \<open>min(a, b)\<close> keep the first argument unless the second compares strictly better.\<close>

definition py_max :: "fl \<Rightarrow> fl \<Rightarrow> fl" where
  "py_max a b = (if fl_lt a b then b else a)"

definition py_min :: "fl \<Rightarrow> fl \<Rightarrow> fl" where
  "py_min a b = (if fl_lt b a then b else a)"

lemma fl_lt_Fin_Fin [fl_simps]: "fl_lt (Fin a) (Fin b) \<longleftrightarrow> a < b" by simp
lemma fl_le_Fin_Fin [fl_simps]: "fl_le (Fin a) (Fin b) \<longleftrightarrow> a \<le> b" by auto
lemma fl_sub_Fin_Fin [fl_simps]: "fl_sub (Fin a) (Fin b) = Fin (a - b)" by (simp add: fl_sub_def)

lemma fl_isnan_simps [fl_simps, simp]:
  "\<not> fl_isnan (Fin a)" "\<not> fl_isnan PInf" "\<not> fl_isnan NInf" "fl_isnan NaN"
  by (simp_all add: fl_isnan_def)

lemma fl_isinf_simps [fl_simps, simp]:
  "\<not> fl_isinf (Fin a)" "fl_isinf PInf" "fl_isinf NInf" "\<not> fl_isinf NaN"
  by (simp_all add: fl_isinf_def)

lemma py_max_zero_cases:
  "py_max (Fin 0) x = (case x of Fin r \<Rightarrow> Fin (max 0 r) | PInf \<Rightarrow> PInf | NInf \<Rightarrow> Fin 0 | NaN \<Rightarrow> Fin 0)"
  by (cases x) (auto simp: py_max_def max_def)

lemma py_max_zero_nonneg: "fl_le (Fin 0) (py_max (Fin 0) x)"
  by (cases x) (auto simp: py_max_def)

lemma fl_lt_irrefl [simp]: "\<not> fl_lt x x"
  by (cases x) auto

lemma fl_le_not_lt: "fl_le x y \<Longrightarrow> \<not> fl_lt y x"
  by (cases x; cases y) auto

section \<open>Dictionaries\<close>

text \<open>
  A Python dictionary keeps insertion order: storing an existing key keeps its place, a new key
  goes to the end.  \<open>AList.update\<close> and \<open>AList.delete\<close> do the same on association lists.
\<close>

type_synonym ('k, 'v) dict = "('k \<times> 'v) list"

abbreviation dget :: "('k, 'v) dict \<Rightarrow> 'k \<Rightarrow> 'v option" where
  "dget m k \<equiv> map_of m k"

abbreviation dput :: "'k \<Rightarrow> 'v \<Rightarrow> ('k, 'v) dict \<Rightarrow> ('k, 'v) dict" where
  "dput k v m \<equiv> AList.update k v m"

abbreviation dpop :: "'k \<Rightarrow> ('k, 'v) dict \<Rightarrow> ('k, 'v) dict" where
  "dpop k m \<equiv> AList.delete k m"

abbreviation dkeys :: "('k, 'v) dict \<Rightarrow> 'k list" where
  "dkeys m \<equiv> map fst m"

abbreviation dvals :: "('k, 'v) dict \<Rightarrow> 'v list" where
  "dvals m \<equiv> map snd m"

definition dict_wf :: "('k, 'v) dict \<Rightarrow> bool" where
  "dict_wf m \<longleftrightarrow> distinct (dkeys m)"

text \<open>What a client of a keyed store relies on.\<close>

locale keyed_store =
  fixes lookup :: "'m \<Rightarrow> 'k \<Rightarrow> 'v option"
    and store :: "'k \<Rightarrow> 'v \<Rightarrow> 'm \<Rightarrow> 'm"
    and remove :: "'k \<Rightarrow> 'm \<Rightarrow> 'm"
    and wf :: "'m \<Rightarrow> bool"
  assumes lookup_store: "lookup (store k v m) k' = (if k' = k then Some v else lookup m k')"
    and lookup_remove: "lookup (remove k m) k' = (if k' = k then None else lookup m k')"
    and wf_store: "wf m \<Longrightarrow> wf (store k v m)"
    and wf_remove: "wf m \<Longrightarrow> wf (remove k m)"
begin

text \<open>\<open>d.setdefault(k, v)\<close>: the value found and the store after the call.\<close>

definition setdefault :: "'k \<Rightarrow> 'v \<Rightarrow> 'm \<Rightarrow> 'v \<times> 'm" where
  "setdefault k v m = (case lookup m k of Some w \<Rightarrow> (w, m) | None \<Rightarrow> (v, store k v m))"

lemma lookup_store_same: "lookup (store k v m) k = Some v"
  by (simp add: lookup_store)

lemma lookup_store_other: "k' \<noteq> k \<Longrightarrow> lookup (store k v m) k' = lookup m k'"
  by (simp add: lookup_store)

lemma lookup_remove_same: "lookup (remove k m) k = None"
  by (simp add: lookup_remove)

lemma lookup_remove_other: "k' \<noteq> k \<Longrightarrow> lookup (remove k m) k' = lookup m k'"
  by (simp add: lookup_remove)

lemma store_store: "lookup (store k v (store k w m)) k' = lookup (store k v m) k'"
  by (simp add: lookup_store)

lemma remove_remove: "lookup (remove k (remove k m)) k' = lookup (remove k m) k'"
  by (simp add: lookup_remove)

lemma setdefault_found: "lookup (snd (setdefault k v m)) k = Some (fst (setdefault k v m))"
  by (simp add: setdefault_def lookup_store split: option.splits)

lemma setdefault_other: "k' \<noteq> k \<Longrightarrow> lookup (snd (setdefault k v m)) k' = lookup m k'"
  by (simp add: setdefault_def lookup_store split: option.splits)

lemma setdefault_wf: "wf m \<Longrightarrow> wf (snd (setdefault k v m))"
  by (simp add: setdefault_def wf_store split: option.splits)

end

interpretation dct: keyed_store "map_of" "AList.update" "AList.delete" dict_wf
  by unfold_locales (auto simp: update_conv' delete_conv' dict_wf_def distinct_update distinct_delete)

lemmas dget_same_simps [dict_simps, simp] = dct.lookup_store_same dct.lookup_remove_same
lemmas dget_simps [dict_simps] = dct.lookup_store dct.lookup_remove
lemmas dict_wf_intros [wf_intros] = dct.wf_store dct.wf_remove

lemma dict_wf_Nil [simp]: "dict_wf []"
  by (simp add: dict_wf_def)

lemma dict_wf_map: "dict_wf m \<Longrightarrow> dict_wf (map (\<lambda>(k, v). (k, f k v)) m)"
  by (simp add: dict_wf_def comp_def split_beta)

lemma dict_wf_filter: "dict_wf m \<Longrightarrow> dict_wf (filter P m)"
  by (simp add: dict_wf_def distinct_map_filter)

lemma set_dput_subset: "set (dput k v m) \<subseteq> insert (k, v) (set m)"
  by (induction m) auto

lemma set_dpop_subset: "set (dpop k m) \<subseteq> set m"
  by (auto simp: AList.delete_eq)

lemma dict_wf_get: "dict_wf m \<Longrightarrow> (k, v) \<in> set m \<longleftrightarrow> dget m k = Some v"
  by (simp add: dict_wf_def)

lemma dget_in_set: "dget m k = Some v \<Longrightarrow> (k, v) \<in> set m"
  by (rule map_of_SomeD)

lemma dget_None_iff: "dget m k = None \<longleftrightarrow> k \<notin> set (dkeys m)"
  by (simp add: map_of_eq_None_iff)

lemma dpop_absent: "dget m k = None \<Longrightarrow> dpop k m = m"
  by (induction m) (auto split: if_splits)

lemma dget_map_vals: "dget (map (\<lambda>(k, v). (k, f k v)) m) k' = map_option (f k') (dget m k')"
  by (induction m) auto

lemma sum_list_dput:
  fixes g :: "'v \<Rightarrow> 'a::ab_group_add"
  assumes "dict_wf m"
  shows "sum_list (map g (dvals (dput k v m))) =
    sum_list (map g (dvals m)) - (case dget m k of None \<Rightarrow> 0 | Some w \<Rightarrow> g w) + g v"
  using assms
proof (induction m)
  case Nil
  then show ?case by simp
next
  case (Cons p m)
  then have "k = fst p \<Longrightarrow> dget m k = None"
    by (auto simp: dict_wf_def map_of_eq_None_iff)
  with Cons show ?case
    by (auto simp: dict_wf_def algebra_simps split: option.splits)
qed

section \<open>Lists\<close>

text \<open>\<open>xs.index(x)\<close>: the first position, \<open>None\<close> for the \<open>ValueError\<close>.\<close>

fun index_of :: "'a \<Rightarrow> 'a list \<Rightarrow> nat option" where
  "index_of x [] = None"
| "index_of x (y # ys) = (if x = y then Some 0 else map_option Suc (index_of x ys))"

lemma index_of_None: "index_of x xs = None \<longleftrightarrow> x \<notin> set xs"
  by (induction xs) auto

lemma index_of_SomeD: "index_of x xs = Some i \<Longrightarrow> i < length xs \<and> xs ! i = x"
  by (induction xs arbitrary: i) (auto split: if_splits)

lemma index_of_distinct:
  "distinct xs \<Longrightarrow> i < length xs \<Longrightarrow> index_of (xs ! i) xs = Some i"
proof (induction xs arbitrary: i)
  case (Cons x xs)
  then show ?case by (cases i) auto
qed simp

text \<open>Running sums over lists of rationals and integers.\<close>

lemma sum_list_nonneg_map:
  fixes f :: "'a \<Rightarrow> 'b::ordered_comm_monoid_add"
  shows "(\<And>x. x \<in> set xs \<Longrightarrow> 0 \<le> f x) \<Longrightarrow> 0 \<le> sum_list (map f xs)"
  by (induction xs) auto

lemma sum_list_mono_map:
  fixes f g :: "'a \<Rightarrow> 'b::ordered_comm_monoid_add"
  shows "(\<And>x. x \<in> set xs \<Longrightarrow> f x \<le> g x) \<Longrightarrow> sum_list (map f xs) \<le> sum_list (map g xs)"
  by (induction xs) (auto intro: add_mono)

lemma sum_list_scale:
  fixes c :: rat
  shows "sum_list (map (\<lambda>x. c * f x) xs) = c * sum_list (map f xs)"
  by (induction xs) (auto simp: algebra_simps)

lemma sum_list_divide:
  fixes c :: rat
  shows "sum_list (map (\<lambda>x. f x / c) xs) = sum_list (map f xs) / c"
  by (induction xs) (auto simp: add_divide_distrib)

lemma unit_convex:
  fixes a x y :: rat
  assumes "0 \<le> a" "a \<le> 1" "lo \<le> x" "x \<le> hi" "lo \<le> y" "y \<le> hi"
  shows "lo \<le> (1 - a) * x + a * y \<and> (1 - a) * x + a * y \<le> hi"
proof -
  have "(1 - a) * lo + a * lo \<le> (1 - a) * x + a * y"
    using assms by (intro add_mono mult_left_mono) auto
  moreover have "(1 - a) * x + a * y \<le> (1 - a) * hi + a * hi"
    using assms by (intro add_mono mult_left_mono) auto
  ultimately show ?thesis by (simp add: algebra_simps)
qed

section \<open>Interfaces of state and of work\<close>

text \<open>
  A state that survives restarts in a file: \<open>kept\<close> is what loading makes of a state that was saved.
\<close>

locale persisted =
  fixes save :: "'s \<Rightarrow> 'f" and load :: "'f \<Rightarrow> 's option" and kept :: "'s \<Rightarrow> 's" and storable :: "'s \<Rightarrow> bool"
  assumes load_save: "storable s \<Longrightarrow> load (save s) = Some (kept s)"
    and kept_storable: "storable s \<Longrightarrow> storable (kept s)"
    and kept_kept: "storable s \<Longrightarrow> kept (kept s) = kept s"
begin

lemma restarts_settle:
  "storable s \<Longrightarrow> ((\<lambda>m. Option.bind m (\<lambda>s. load (save s))) ^^ Suc n) (Some s) = Some (kept s)"
proof (induction n)
  case (Suc n)
  then show ?case by (simp add: load_save kept_storable kept_kept)
qed (simp add: load_save)

lemma file_determines: "storable s \<Longrightarrow> storable s' \<Longrightarrow> save s = save s' \<Longrightarrow> kept s = kept s'"
  using load_save by (metis option.inject)

end

text \<open>
  Work that is done in turns: every turn keeps the invariant, goes on from where the last one stopped and,
  when something is left, leaves less.
\<close>

locale draining =
  fixes turn :: "'s \<Rightarrow> 's" and good :: "'s \<Rightarrow> bool" and remaining :: "'s \<Rightarrow> nat" and onward :: "'s \<Rightarrow> 's \<Rightarrow> bool"
  assumes onward_refl: "onward s s"
    and onward_trans: "onward s t \<Longrightarrow> onward t u \<Longrightarrow> onward s u"
    and turn_good: "good s \<Longrightarrow> good (turn s) \<and> onward s (turn s)"
    and turn_works: "good s \<Longrightarrow> remaining s \<noteq> 0 \<Longrightarrow> remaining (turn s) < remaining s"
    and turn_idles: "good s \<Longrightarrow> remaining s = 0 \<Longrightarrow> remaining (turn s) = 0"
begin

lemma drains:
  "good s \<Longrightarrow> remaining s \<le> n \<Longrightarrow>
   good ((turn ^^ n) s) \<and> onward s ((turn ^^ n) s) \<and> remaining ((turn ^^ n) s) = 0"
proof (induction n arbitrary: s)
  case (Suc n)
  have "remaining (turn s) \<le> n"
    using turn_works [OF Suc.prems(1)] turn_idles [OF Suc.prems(1)] Suc.prems(2)
    by (cases "remaining s = 0") auto
  with Suc.IH [of "turn s"] turn_good [OF Suc.prems(1)] show ?case
    by (auto simp: funpow_swap1 intro: onward_trans)
qed (simp add: onward_refl)

end

end
