(* ===== verification/Py_Text.thy ===== *)
theory Py_Text
  imports Prelude
begin

text \<open>
  The \<open>str\<close> operations, number parsers and JSON values the sources use.  Text is Latin-1: a
  \<open>char\<close> stands for the code point with the same number.
\<close>

section \<open>Characters\<close>

abbreviation code :: "char \<Rightarrow> nat" where
  "code c \<equiv> of_char c"

text \<open>\<open>str.isspace\<close> and \<open>str.isdigit\<close> on one Latin-1 character; the superscript digits
  (178, 179, 185) count as digits although \<open>int\<close> refuses them.\<close>

definition is_space :: "char \<Rightarrow> bool" where
  "is_space c \<longleftrightarrow> (9 \<le> code c \<and> code c \<le> 13) \<or> (28 \<le> code c \<and> code c \<le> 32) \<or>
     code c = 133 \<or> code c = 160"

definition is_decimal :: "char \<Rightarrow> bool" where
  "is_decimal c \<longleftrightarrow> 48 \<le> code c \<and> code c \<le> 57"

definition is_digit :: "char \<Rightarrow> bool" where
  "is_digit c \<longleftrightarrow> is_decimal c \<or> code c = 178 \<or> code c = 179 \<or> code c = 185"

definition is_upper_latin1 :: "char \<Rightarrow> bool" where
  "is_upper_latin1 c \<longleftrightarrow> (65 \<le> code c \<and> code c \<le> 90) \<or>
     (192 \<le> code c \<and> code c \<le> 222 \<and> code c \<noteq> 215)"

definition lower_char :: "char \<Rightarrow> char" where
  "lower_char c = (if is_upper_latin1 c then char_of (code c + 32 :: nat) else c)"

definition is_alpha_ascii :: "char \<Rightarrow> bool" where
  "is_alpha_ascii c \<longleftrightarrow> (65 \<le> code c \<and> code c \<le> 90) \<or> (97 \<le> code c \<and> code c \<le> 122)"

section \<open>Strings\<close>

definition py_lstrip :: "string \<Rightarrow> string" where
  "py_lstrip s = dropWhile is_space s"

definition py_rstrip :: "string \<Rightarrow> string" where
  "py_rstrip s = rev (dropWhile is_space (rev s))"

definition py_strip :: "string \<Rightarrow> string" where
  "py_strip s = py_rstrip (py_lstrip s)"

text \<open>\<open>s.strip("/")\<close>, \<open>s.rstrip("/")\<close>.\<close>

definition strip_chars :: "(char \<Rightarrow> bool) \<Rightarrow> string \<Rightarrow> string" where
  "strip_chars p s = rev (dropWhile p (rev (dropWhile p s)))"

definition rstrip_chars :: "(char \<Rightarrow> bool) \<Rightarrow> string \<Rightarrow> string" where
  "rstrip_chars p s = rev (dropWhile p (rev s))"

definition py_lower :: "string \<Rightarrow> string" where
  "py_lower s = map lower_char s"

text \<open>\<open>str.upper\<close>: lower case letters lose 32, \<open>\<sharp>s\<close> (223) becomes two characters; the two
  letters whose capital is outside Latin-1 (181, 255) stay.\<close>

definition upper_char :: "char \<Rightarrow> string" where
  "upper_char c =
     (if (97 \<le> code c \<and> code c \<le> 122) \<or>
         (224 \<le> code c \<and> code c \<le> 254 \<and> code c \<noteq> 247)
      then [char_of (code c - 32 :: nat)]
      else if code c = 223 then ''SS'' else [c])"

definition py_upper :: "string \<Rightarrow> string" where
  "py_upper s = concat (map upper_char s)"

fun starts_with :: "string \<Rightarrow> string \<Rightarrow> bool" where
  "starts_with s [] = True"
| "starts_with [] (p # ps) = False"
| "starts_with (c # cs) (p # ps) = (c = p \<and> starts_with cs ps)"

definition ends_with :: "string \<Rightarrow> string \<Rightarrow> bool" where
  "ends_with s p = starts_with (rev s) (rev p)"

text \<open>\<open>needle in hay\<close>.\<close>

fun contains :: "string \<Rightarrow> string \<Rightarrow> bool" where
  "contains hay needle = (starts_with hay needle \<or>
     (case hay of [] \<Rightarrow> False | c # cs \<Rightarrow> contains cs needle))"

declare contains.simps [simp del]

definition isdigit :: "string \<Rightarrow> bool" where
  "isdigit s \<longleftrightarrow> s \<noteq> [] \<and> list_all is_digit s"

text \<open>\<open>str.splitlines\<close>: the line separators are LF, CR, CR LF, VT, FF, FS, GS, RS and NEL.\<close>

definition is_linebreak :: "char \<Rightarrow> bool" where
  "is_linebreak c \<longleftrightarrow> (10 \<le> code c \<and> code c \<le> 13) \<or> (28 \<le> code c \<and> code c \<le> 30) \<or> code c = 133"

fun splitlines_from :: "string \<Rightarrow> string \<Rightarrow> string list" where
  "splitlines_from acc [] = (if acc = [] then [] else [rev acc])"
| "splitlines_from acc [c] = (if is_linebreak c then [rev acc] else [rev (c # acc)])"
| "splitlines_from acc (c # d # cs) =
     (if code c = 13 \<and> code d = 10 then rev acc # splitlines_from [] cs
      else if is_linebreak c then rev acc # splitlines_from [] (d # cs)
      else splitlines_from (c # acc) (d # cs))"

definition splitlines :: "string \<Rightarrow> string list" where
  "splitlines s = splitlines_from [] s"

text \<open>\<open>sep.join(parts)\<close>.\<close>

fun py_join :: "string \<Rightarrow> string list \<Rightarrow> string" where
  "py_join sep [] = []"
| "py_join sep [p] = p"
| "py_join sep (p # q # ps) = p @ sep @ py_join sep (q # ps)"

section \<open>Integers in decimal\<close>

fun show_nat :: "nat \<Rightarrow> string" where
  "show_nat n = (if n < 10 then [char_of (48 + n)]
     else show_nat (n div 10) @ [char_of (48 + n mod 10)])"

declare show_nat.simps [simp del]

text \<open>The digit characters.\<close>

lemma char_of_digits [simp]:
  "char_of (48 :: nat) = CHR ''0''"
  "char_of (49 :: nat) = CHR ''1''"
  "char_of (50 :: nat) = CHR ''2''"
  "char_of (51 :: nat) = CHR ''3''"
  "char_of (52 :: nat) = CHR ''4''"
  "char_of (53 :: nat) = CHR ''5''"
  "char_of (54 :: nat) = CHR ''6''"
  "char_of (55 :: nat) = CHR ''7''"
  "char_of (56 :: nat) = CHR ''8''"
  "char_of (57 :: nat) = CHR ''9''"
  by code_simp+

definition show_int :: "int \<Rightarrow> string" where
  "show_int i = (if i < 0 then ''-'' @ show_nat (nat (- i)) else show_nat (nat i))"

text \<open>\<open>f"{x:.2f}"\<close> of a finite float: two decimals, ties to even.\<close>

definition round_half_even :: "rat \<Rightarrow> int" where
  "round_half_even x = (let n = \<lfloor>x\<rfloor>; d = x - of_int n in
     if d < 1/2 then n else if 1/2 < d then n + 1 else if even n then n else n + 1)"

definition show_fixed2 :: "rat \<Rightarrow> string" where
  "show_fixed2 x = (let a = nat (round_half_even (\<bar>x\<bar> * 100))
     in (if x < 0 then ''-'' else []) @ show_nat (a div 100) @ ''.''
        @ show_nat (a mod 100 div 10) @ show_nat (a mod 10))"

text \<open>Underscores may stand between two digits only; \<open>None\<close> if one stands elsewhere.\<close>

fun drop_underscores :: "bool \<Rightarrow> string \<Rightarrow> string option" where
  "drop_underscores prev [] = Some []"
| "drop_underscores prev (c # cs) =
     (if c = CHR ''_''
      then (if prev \<and> cs \<noteq> [] \<and> is_decimal (hd cs) then drop_underscores False cs else None)
      else map_option (Cons c) (drop_underscores (is_decimal c) cs))"

definition digits_value :: "string \<Rightarrow> nat" where
  "digits_value ds = foldl (\<lambda>v d. 10 * v + (code d - 48)) 0 ds"

text \<open>\<open>int(text)\<close>; \<open>None\<close> is the \<open>ValueError\<close>.  More than 4300 digits are refused.\<close>

definition split_sign :: "string \<Rightarrow> bool \<times> string" where
  "split_sign s = (case s of
      c # cs \<Rightarrow> if c = CHR ''-'' then (True, cs) else if c = CHR ''+'' then (False, cs) else (False, s)
    | [] \<Rightarrow> (False, []))"

definition py_int :: "string \<Rightarrow> int option" where
  "py_int s = (case split_sign (py_strip s) of (neg, body) \<Rightarrow>
     (case drop_underscores False body of
        None \<Rightarrow> None
      | Some ds \<Rightarrow>
          if ds \<noteq> [] \<and> list_all is_decimal ds \<and> length ds \<le> 4300
          then Some (if neg then - int (digits_value ds) else int (digits_value ds))
          else None))"

section \<open>Floats in decimal\<close>

text \<open>\<open>float(text)\<close>; \<open>None\<close> is the \<open>ValueError\<close>.\<close>

definition float_mantissa :: "string \<Rightarrow> (rat \<times> string) option" where
  "float_mantissa s =
     (let whole = takeWhile is_decimal s; rest = dropWhile is_decimal s
      in case rest of
           c # cs \<Rightarrow>
             if c = CHR ''.'' then
               (let frac = takeWhile is_decimal cs in
                if whole = [] \<and> frac = [] then None
                else Some (of_nat (digits_value (whole @ frac)) / 10 ^ length frac,
                           dropWhile is_decimal cs))
             else if whole = [] then None else Some (of_nat (digits_value whole), rest)
         | [] \<Rightarrow> if whole = [] then None else Some (of_nat (digits_value whole), []))"

definition float_exponent :: "rat \<Rightarrow> string \<Rightarrow> rat option" where
  "float_exponent m s = (case s of
      [] \<Rightarrow> Some m
    | c # cs \<Rightarrow>
        if c = CHR ''e'' \<or> c = CHR ''E'' then
          (case split_sign cs of (neg, ds) \<Rightarrow>
             if ds \<noteq> [] \<and> list_all is_decimal ds
             then Some (if neg then m / 10 ^ digits_value ds else m * 10 ^ digits_value ds)
             else None)
        else None)"

definition py_float :: "string \<Rightarrow> fl option" where
  "py_float s = (case drop_underscores False (py_strip s) of
      None \<Rightarrow> None
    | Some t \<Rightarrow> (case split_sign t of (neg, body) \<Rightarrow>
        if py_lower body \<in> {''inf'', ''infinity''} then Some (if neg then NInf else PInf)
        else if py_lower body = ''nan'' then Some NaN
        else (case float_mantissa body of
            None \<Rightarrow> None
          | Some (m, rest) \<Rightarrow>
              map_option (\<lambda>v. Fin (if neg then - v else v)) (float_exponent m rest))))"

section \<open>The process environment\<close>

text \<open>\<open>os.environ\<close>, and the three readers the modules define over it.  A default is used when the
  variable is unset or does not parse.\<close>

type_synonym env = "string \<Rightarrow> string option"

definition env_float :: "env \<Rightarrow> string \<Rightarrow> fl \<Rightarrow> fl" where
  "env_float e name dflt = (case e name of
      None \<Rightarrow> dflt
    | Some t \<Rightarrow> (case py_float t of None \<Rightarrow> dflt | Some v \<Rightarrow> v))"

definition env_int :: "env \<Rightarrow> string \<Rightarrow> int \<Rightarrow> int" where
  "env_int e name dflt = (case e name of
      None \<Rightarrow> dflt
    | Some t \<Rightarrow> (case py_int t of None \<Rightarrow> dflt | Some v \<Rightarrow> v))"

definition env_text :: "env \<Rightarrow> string \<Rightarrow> string" where
  "env_text e name = (case e name of None \<Rightarrow> [] | Some t \<Rightarrow> t)"

definition env_flag_on :: "env \<Rightarrow> string \<Rightarrow> bool \<Rightarrow> bool" where
  "env_flag_on e name dflt = (case e name of
      None \<Rightarrow> dflt
    | Some t \<Rightarrow> py_lower (py_strip t) \<in> {''1'', ''true'', ''yes'', ''on''})"

definition env_flag_not_off :: "env \<Rightarrow> string \<Rightarrow> bool \<Rightarrow> bool" where
  "env_flag_not_off e name dflt = (case e name of
      None \<Rightarrow> dflt
    | Some t \<Rightarrow> py_lower (py_strip t) \<notin> {''0'', ''false'', ''no'', ''off''})"

abbreviation no_env :: env where
  "no_env \<equiv> (\<lambda>_. None)"

section \<open>JSON values\<close>

datatype json =
    JNull
  | JBool bool
  | JInt int
  | JFloat fl
  | JStr string
  | JList "json list"
  | JDict "(string \<times> json) list"

text \<open>\<open>json.loads\<close>: a value, a \<open>JSONDecodeError\<close>, the plain \<open>ValueError\<close> of an integer of more than
  4300 digits, or the \<open>RecursionError\<close> (a \<open>RuntimeError\<close>) of nesting past the limit.\<close>

datatype json_outcome = Json json | Json_Decode_Error | Json_Value_Error | Json_Recursion_Error

text \<open>\<open>str(value)\<close>: exact for text, booleans, \<open>None\<close> and integers; \<open>rp\<close> is the interpreter's
  \<open>repr\<close> for floats and containers.\<close>

fun py_str :: "(json \<Rightarrow> string) \<Rightarrow> json \<Rightarrow> string" where
  "py_str rp (JStr s) = s"
| "py_str rp JNull = ''None''"
| "py_str rp (JBool b) = (if b then ''True'' else ''False'')"
| "py_str rp (JInt i) = show_int i"
| "py_str rp j = rp j"

fun json_truthy :: "json \<Rightarrow> bool" where
  "json_truthy JNull = False"
| "json_truthy (JBool b) = b"
| "json_truthy (JInt i) = (i \<noteq> 0)"
| "json_truthy (JFloat x) = fl_truthy x"
| "json_truthy (JStr s) = (s \<noteq> [])"
| "json_truthy (JList xs) = (xs \<noteq> [])"
| "json_truthy (JDict d) = (d \<noteq> [])"

text \<open>\<open>isinstance(v, int)\<close> and the integer it counts as: a Python \<open>bool\<close> is an \<open>int\<close>.\<close>

fun as_int :: "json \<Rightarrow> int option" where
  "as_int (JInt i) = Some i"
| "as_int (JBool b) = Some (if b then 1 else 0)"
| "as_int _ = None"

section \<open>Facts about text\<close>

lemma starts_with_append: "starts_with (p @ s) p"
  by (induction p) auto

lemma starts_with_iff: "starts_with s p \<longleftrightarrow> take (length p) s = p"
  by (induction s p rule: starts_with.induct) auto

lemma py_strip_idem_empty: "py_strip [] = []"
  by (simp add: py_strip_def py_rstrip_def py_lstrip_def)

lemma dropWhile_id: "(s = [] \<or> \<not> P (hd s)) \<Longrightarrow> dropWhile P s = s"
  by (cases s) auto

lemma rev_dropWhile_rev_id: "(s = [] \<or> \<not> P (last s)) \<Longrightarrow> rev (dropWhile P (rev s)) = s"
  by (cases s rule: rev_cases) auto

lemma py_strip_id:
  assumes "s \<noteq> []" "\<not> is_space (hd s)" "\<not> is_space (last s)"
  shows "py_strip s = s"
  using assms by (simp add: py_strip_def py_rstrip_def py_lstrip_def dropWhile_id rev_dropWhile_rev_id)

lemma rev_dropWhile_rev_prefix: "\<exists>ys. s = rev (dropWhile P (rev s)) @ ys"
  by (metis rev_append rev_rev_ident takeWhile_dropWhile_id)

lemma py_strip_ends:
  assumes "py_strip s \<noteq> []"
  shows "\<not> is_space (hd (py_strip s)) \<and> \<not> is_space (last (py_strip s))"
proof -
  let ?l = "dropWhile is_space s"
  let ?r = "rev (dropWhile is_space (rev ?l))"
  have r: "py_strip s = ?r" by (simp add: py_strip_def py_rstrip_def py_lstrip_def)
  have ne: "dropWhile is_space (rev ?l) \<noteq> []"
    using assms unfolding r rev_is_Nil_conv .
  have "last ?r = hd (dropWhile is_space (rev ?l))"
    using ne by (simp add: last_rev)
  then have "\<not> is_space (last ?r)" using ne hd_dropWhile by metis
  moreover obtain ys where "?l = ?r @ ys" using rev_dropWhile_rev_prefix by blast
  then have "hd ?r = hd ?l" using ne by (metis Nil_is_rev_conv hd_append2)
  moreover have "?l \<noteq> []" using ne by (metis dropWhile.simps(1) rev.simps(1))
  then have "\<not> is_space (hd ?l)" by (rule hd_dropWhile)
  ultimately show ?thesis by (simp add: r)
qed

lemma py_strip_idem: "py_strip (py_strip s) = py_strip s"
proof (cases "py_strip s = []")
  case False
  with py_strip_ends [OF this] show ?thesis by (intro py_strip_id) auto
qed (simp add: py_strip_idem_empty)

section \<open>Decimal round trip\<close>

lemma is_decimal_char_of: "d < 10 \<Longrightarrow> is_decimal (char_of (48 + d :: nat))"
  by (simp add: is_decimal_def)

lemma show_nat_decimal: "list_all is_decimal (show_nat n)"
proof (induction n rule: show_nat.induct)
  case (1 n)
  then show ?case
    by (subst show_nat.simps) (auto simp: is_decimal_char_of)
qed

lemma show_nat_nonempty: "show_nat n \<noteq> []"
  by (subst show_nat.simps) simp

lemma digits_value_append: "digits_value (xs @ [c]) = 10 * digits_value xs + (code c - 48)"
  by (simp add: digits_value_def)

lemma digits_value_show_nat: "digits_value (show_nat n) = n"
proof (induction n rule: show_nat.induct)
  case (1 n)
  show ?case
  proof (cases "n < 10")
    case True
    then show ?thesis by (subst show_nat.simps) (simp add: digits_value_def)
  next
    case False
    have "code (char_of (48 + n mod 10)) - 48 = n mod 10" by simp
    with False 1 show ?thesis by (subst show_nat.simps) (simp add: digits_value_append)
  qed
qed

lemma length_show_nat: "n < 10 ^ Suc k \<Longrightarrow> length (show_nat n) \<le> Suc k"
proof (induction k arbitrary: n)
  case 0
  then show ?case by (subst show_nat.simps) simp
next
  case (Suc k)
  show ?case
  proof (cases "n < 10")
    case True
    then show ?thesis by (subst show_nat.simps) simp
  next
    case False
    have "n div 10 < 10 ^ Suc k" using Suc.prems by simp
    from Suc.IH [OF this] False show ?thesis by (subst show_nat.simps) simp
  qed
qed

lemma is_decimal_not:
  assumes "is_decimal c"
  shows "\<not> is_space c" "c \<noteq> CHR ''-''" "c \<noteq> CHR ''+''" "c \<noteq> CHR ''_''"
  using assms by (auto simp: is_decimal_def is_space_def)

lemma drop_underscores_decimal: "list_all is_decimal ds \<Longrightarrow> drop_underscores prev ds = Some ds"
  by (induction ds arbitrary: prev) (auto dest: is_decimal_not(4))

lemma py_int_decimal:
  assumes "list_all is_decimal ds" "ds \<noteq> []" "length ds \<le> 4300"
  shows "py_int ds = Some (int (digits_value ds))"
proof -
  have "is_decimal (hd ds)" "is_decimal (last ds)" using assms(1,2) by (auto simp: list_all_iff)
  note nots = is_decimal_not [OF this(1)] is_decimal_not [OF this(2)]
  then have strip: "py_strip ds = ds" using assms(2) by (intro py_strip_id)
  have "split_sign ds = (False, ds)" using nots assms(2) by (cases ds) (auto simp: split_sign_def)
  with strip assms show ?thesis by (simp add: py_int_def drop_underscores_decimal)
qed

lemma py_int_show_nat:
  assumes "n < 10 ^ Suc k" "k < 4300"
  shows "py_int (show_nat n) = Some (int n)"
  using py_int_decimal [OF show_nat_decimal show_nat_nonempty, of n] length_show_nat [OF assms(1)] assms(2)
  by (simp add: digits_value_show_nat)

lemma py_int_show_uid: "0 \<le> i \<Longrightarrow> i < 65536 \<Longrightarrow> py_int (show_int i) = Some i"
  using py_int_show_nat [of "nat i" 4] by (simp add: show_int_def)

lemma show_nat_inj: "show_nat m = show_nat n \<Longrightarrow> m = n"
  by (metis digits_value_show_nat)

section \<open>Hexadecimal digits\<close>

text \<open>The digit \<open>bytes.hex\<close> and \<open>json.dumps\<close> write, and the value of one that is read.\<close>

definition hex_lower :: "nat \<Rightarrow> char" where
  "hex_lower n = char_of (if n < 10 then 48 + n else 87 + n)"

definition hex_value :: "char \<Rightarrow> nat option" where
  "hex_value ch = (let c = code ch in
     if 48 \<le> c \<and> c \<le> 57 then Some (c - 48) else if 65 \<le> c \<and> c \<le> 70 then Some (c - 55)
     else if 97 \<le> c \<and> c \<le> 102 then Some (c - 87) else None)"

lemma code_div_16: "code c div 16 < 16"
proof -
  have "code c < 16 * 16" using nat_of_char_less_256 [of c] by simp
  then show ?thesis by (rule less_mult_imp_div_less)
qed

lemma hex_value_lower: "n < 16 \<Longrightarrow> hex_value (hex_lower n) = Some n"
  by (auto simp: hex_lower_def hex_value_def Let_def)

section \<open>Splitting\<close>

text \<open>\<open>str.split\<close> on one character.\<close>

fun split_char :: "char \<Rightarrow> string \<Rightarrow> string list" where
  "split_char sep [] = [[]]"
| "split_char sep (c # cs) =
     (if c = sep then [] # split_char sep cs
      else case split_char sep cs of p # ps \<Rightarrow> (c # p) # ps | [] \<Rightarrow> [[c]])"

lemma split_char_none: "sep \<notin> set s \<Longrightarrow> split_char sep s = [s]"
  by (induction s) auto

end
