(* ===== verification/Constants.thy ===== *)
theory Constants
  imports Py_Text
begin

text \<open>
  \<open>masxai/constants.py\<close>: the subnet constants the modelled code reads.  A value the process
  environment may override is looked up by the caller (\<open>env_float\<close>, \<open>env_int\<close>) under its name with
  the default below; the burn target and share are read once at import.
\<close>

section \<open>Mechanisms, burn, participation\<close>

definition LLM_KEY_MECHID :: int where "LLM_KEY_MECHID = 0"
definition SECURITY_MECHID :: int where "SECURITY_MECHID = 1"

text \<open>\<open>int(os.getenv(..., "25"))\<close> and \<open>float(os.getenv(..., "1.0"))\<close>; \<open>None\<close>: the import fails.\<close>

definition BURN_UID :: "env \<Rightarrow> int option" where
  "BURN_UID e = (case e ''MASXAI_BURN_UID'' of None \<Rightarrow> Some 25 | Some t \<Rightarrow> py_int t)"

definition BURN_PERCENTAGE :: "env \<Rightarrow> fl option" where
  "BURN_PERCENTAGE e = (case e ''MASXAI_BURN_PERCENTAGE'' of None \<Rightarrow> Some (Fin 1) | Some t \<Rightarrow> py_float t)"

definition PARTICIPATION_EMA_ALPHA :: fl where "PARTICIPATION_EMA_ALPHA = Fin (1/5)"
definition PARTICIPATION_REWARD :: fl where "PARTICIPATION_REWARD = Fin 1"

section \<open>The LLM-key pipeline\<close>

definition LLM_KEY_MAX_KEYS_PER_HOTKEY :: nat where "LLM_KEY_MAX_KEYS_PER_HOTKEY = 5"
definition LLM_KEY_MIN_KEYS_PER_HOTKEY :: nat where "LLM_KEY_MIN_KEYS_PER_HOTKEY = 5"

definition LLM_KEY_MAX_RETRIES :: int where "LLM_KEY_MAX_RETRIES = 3"
definition LLM_KEY_RETRY_AFTER_MAX_SECONDS :: fl where "LLM_KEY_RETRY_AFTER_MAX_SECONDS = Fin 30"

definition LLM_KEY_SUBMISSION_INTERVAL_SECONDS :: fl where
  "LLM_KEY_SUBMISSION_INTERVAL_SECONDS = Fin (4 * 60 * 60)"
definition LLM_KEY_REPORT_POLL_INTERVAL_SECONDS :: fl where
  "LLM_KEY_REPORT_POLL_INTERVAL_SECONDS = Fin (10 * 60)"
definition LLM_KEY_ASK_FAILURE_BACKOFF_SECONDS :: fl where
  "LLM_KEY_ASK_FAILURE_BACKOFF_SECONDS = Fin (5 * 60)"
definition LLM_KEY_REPORT_POLL_FAILURE_BACKOFF_SECONDS :: fl where
  "LLM_KEY_REPORT_POLL_FAILURE_BACKOFF_SECONDS = Fin 30"
definition LLM_KEY_HOTKEY_STATUS_EVICTION_GRACE_SECONDS :: fl where
  "LLM_KEY_HOTKEY_STATUS_EVICTION_GRACE_SECONDS = Fin (24 * 60 * 60)"

text \<open>The composite's weights, the latency ceiling and the volume target.\<close>

definition LLM_KEY_RELIABILITY_WEIGHT :: rat where "LLM_KEY_RELIABILITY_WEIGHT = 2/5"
definition LLM_KEY_QUALITY_WEIGHT :: rat where "LLM_KEY_QUALITY_WEIGHT = 1/5"
definition LLM_KEY_LATENCY_WEIGHT :: rat where "LLM_KEY_LATENCY_WEIGHT = 1/5"
definition LLM_KEY_VOLUME_WEIGHT :: rat where "LLM_KEY_VOLUME_WEIGHT = 1/5"
definition LLM_KEY_LATENCY_CEILING_SECONDS :: rat where "LLM_KEY_LATENCY_CEILING_SECONDS = 5"
definition LLM_KEY_VOLUME_TARGET_CALLS :: rat where "LLM_KEY_VOLUME_TARGET_CALLS = 50"

definition LLM_KEY_MIN_CALLS_FOR_SCORING :: int where "LLM_KEY_MIN_CALLS_FOR_SCORING = 5"
definition LLM_KEY_RELIABILITY_HARD_FLOOR :: fl where "LLM_KEY_RELIABILITY_HARD_FLOOR = Fin (1/2)"
definition LLM_KEY_QUALITY_HARD_FLOOR :: fl where "LLM_KEY_QUALITY_HARD_FLOOR = Fin (35/100)"
definition LLM_KEY_QUALITY_FLOOR_MIN_GRADED :: int where "LLM_KEY_QUALITY_FLOOR_MIN_GRADED = 3"

text \<open>\<open>error_categories\<close> values that mean the key itself is unusable.\<close>

definition LLM_KEY_FATAL_ERROR_CATEGORIES :: "string list" where
  "LLM_KEY_FATAL_ERROR_CATEGORIES =
     [''invalid_key'', ''no_funds_or_budget'', ''permission_or_region'',
      ''authenticationerror'', ''permissiondeniederror'']"

definition LLM_KEY_MODEL_TIER_WEIGHTS :: "(string, rat) dict" where
  "LLM_KEY_MODEL_TIER_WEIGHTS =
     [(''openai/gpt-4o'', 1),
      (''openai/gpt-4o-mini'', 6/10),
      (''anthropic/claude-3-5-sonnet-20241022'', 1),
      (''anthropic/claude-3-5-haiku-20241022'', 6/10),
      (''deepseek/deepseek-chat'', 5/10)]"

definition LLM_KEY_MODEL_TIER_DEFAULT_WEIGHT :: rat where "LLM_KEY_MODEL_TIER_DEFAULT_WEIGHT = 1/2"

section \<open>The security track\<close>

definition SECURITY_SUBMISSION_INTERVAL_SECONDS :: fl where "SECURITY_SUBMISSION_INTERVAL_SECONDS = Fin 300"
definition SECURITY_ACTIVE_CATEGORIES :: "string list" where "SECURITY_ACTIVE_CATEGORIES = [''sqli'']"
definition SECURITY_BLOB_MAX_BYTES :: nat where "SECURITY_BLOB_MAX_BYTES = 2 * 1024 ^ 3 + 16 * 1024 ^ 2"

definition MARKETPLACE_MAX_RETRIES :: int where "MARKETPLACE_MAX_RETRIES = 3"
definition MARKETPLACE_MIN_SCORE :: rat where "MARKETPLACE_MIN_SCORE = 1"
definition MARKETPLACE_SCORE_TOLERANCE :: rat where "MARKETPLACE_SCORE_TOLERANCE = 1/1000"

section \<open>Facts about the table\<close>

text \<open>The tier a provider/model pair is worth: the table's value or the default.\<close>

lemma tier_table_bounds:
  "dget LLM_KEY_MODEL_TIER_WEIGHTS m = Some t \<Longrightarrow> 1/2 \<le> t \<and> t \<le> 1"
  by (auto simp: LLM_KEY_MODEL_TIER_WEIGHTS_def split: if_splits)

lemmas composite_weights =
  LLM_KEY_RELIABILITY_WEIGHT_def LLM_KEY_QUALITY_WEIGHT_def
  LLM_KEY_LATENCY_WEIGHT_def LLM_KEY_VOLUME_WEIGHT_def

lemma composite_weights_sum:
  "LLM_KEY_RELIABILITY_WEIGHT + LLM_KEY_QUALITY_WEIGHT
     + LLM_KEY_LATENCY_WEIGHT + LLM_KEY_VOLUME_WEIGHT = 1"
  by (simp add: composite_weights)

end
