(* ===== verification/Scoring.thy ===== *)
theory Scoring
  imports Constants
begin

text \<open>
  \<open>masxai/scoring.py\<close>: the efficiency reward of one usage window, the sanitizers of reported
  figures and the exponential moving average.
\<close>

section \<open>Operations\<close>

definition ema_update :: "fl \<Rightarrow> fl \<Rightarrow> fl \<Rightarrow> fl" where
  "ema_update prev_score new_reward alpha =
     fl_add (fl_mul (fl_sub (Fin 1) alpha) prev_score) (fl_mul alpha new_reward)"

text \<open>Not reported, NaN, infinite and negative readings all become "no figure".\<close>

fun sanitize_latency_ms :: "fl option \<Rightarrow> rat option" where
  "sanitize_latency_ms None = None"
| "sanitize_latency_ms (Some NaN) = None"
| "sanitize_latency_ms (Some PInf) = None"
| "sanitize_latency_ms (Some NInf) = None"
| "sanitize_latency_ms (Some (Fin v)) = (if v < 0 then None else Some v)"

fun sanitize_quality_score :: "fl option \<Rightarrow> rat option" where
  "sanitize_quality_score None = None"
| "sanitize_quality_score (Some NaN) = None"
| "sanitize_quality_score (Some PInf) = None"
| "sanitize_quality_score (Some NInf) = None"
| "sanitize_quality_score (Some (Fin v)) = (if \<not> (0 \<le> v \<and> v \<le> 1) then None else Some v)"

definition has_fatal_error_category :: "string list option \<Rightarrow> bool" where
  "has_fatal_error_category error_categories = (case error_categories of
      None \<Rightarrow> False
    | Some cats \<Rightarrow> list_ex
        (\<lambda>category. py_lower (py_strip category) \<in> set LLM_KEY_FATAL_ERROR_CATEGORIES) cats)"

text \<open>A floor that is NaN or infinite is replaced by the compiled-in one.\<close>

definition usable_or :: "fl \<Rightarrow> fl \<Rightarrow> fl" where
  "usable_or dflt x = (if fl_isnan x \<or> fl_isinf x then dflt else x)"

definition latency_component :: "rat option \<Rightarrow> rat" where
  "latency_component avg_latency_s = (case avg_latency_s of
      None \<Rightarrow> 1/2
    | Some l \<Rightarrow> max 0 (min 1 (1 - l / LLM_KEY_LATENCY_CEILING_SECONDS)))"

definition tier_factor :: "fl \<Rightarrow> rat" where
  "tier_factor w = (case w of
      Fin t \<Rightarrow> max 0 (min 1 t)
    | _ \<Rightarrow> max 0 (min 1 LLM_KEY_MODEL_TIER_DEFAULT_WEIGHT))"

text \<open>
  \<open>llm_key_efficiency_score\<close>.  \<open>Inr None\<close> is "skip this window"; the only exception is the
  division by an empty window, which needs a non-positive call floor.
\<close>

definition llm_key_efficiency_score ::
  "int \<Rightarrow> int \<Rightarrow> fl option \<Rightarrow> bool \<Rightarrow> fl option \<Rightarrow> fl \<Rightarrow> int \<Rightarrow> int option \<Rightarrow> fl \<Rightarrow> fl \<Rightarrow> int
     \<Rightarrow> py_exc + rat option" where
  "llm_key_efficiency_score success_count failure_count avg_latency_s key_active quality_score
     model_tier_weight min_calls_for_scoring quality_call_count reliability_floor quality_floor
     quality_floor_min_graded =
   (if \<not> key_active then Inr (Some 0)
    else if success_count < 0 \<or> failure_count < 0 then Inr None
    else
      let total = success_count + failure_count in
      if total < min_calls_for_scoring then Inr None
      else if total = 0 then Inl ZeroDivisionError
      else
        let reliability = of_int success_count / of_int total :: rat;
            reliability_floor = usable_or LLM_KEY_RELIABILITY_HARD_FLOOR reliability_floor
        in
        if fl_lt (Fin reliability) reliability_floor then Inr (Some 0)
        else
          let quality_score = sanitize_quality_score quality_score;
              quality = (case quality_score of None \<Rightarrow> 1/2 | Some q \<Rightarrow> q);
              quality_floor = usable_or LLM_KEY_QUALITY_HARD_FLOOR quality_floor
          in
          if (case quality_score of None \<Rightarrow> False | Some q \<Rightarrow> fl_lt (Fin q) quality_floor)
             \<and> (case quality_call_count of None \<Rightarrow> True | Some n \<Rightarrow> quality_floor_min_graded \<le> n)
          then Inr (Some 0)
          else
            let latency_score = latency_component (sanitize_latency_ms avg_latency_s);
                volume_score = min 1 (of_int success_count / LLM_KEY_VOLUME_TARGET_CALLS);
                composite = LLM_KEY_RELIABILITY_WEIGHT * reliability
                          + LLM_KEY_QUALITY_WEIGHT * quality
                          + LLM_KEY_LATENCY_WEIGHT * latency_score
                          + LLM_KEY_VOLUME_WEIGHT * volume_score
            in Inr (Some (composite * tier_factor model_tier_weight)))"

section \<open>Lemmas\<close>

lemma ema_update_Fin: "ema_update (Fin p) (Fin n) (Fin a) = Fin ((1 - a) * p + a * n)"
  by (simp add: ema_update_def fl_sub_def)

lemma sanitize_latency_nonneg: "sanitize_latency_ms v = Some l \<Longrightarrow> 0 \<le> l"
  by (cases v rule: sanitize_latency_ms.cases) (auto split: if_splits)

lemma sanitize_quality_unit: "sanitize_quality_score v = Some q \<Longrightarrow> 0 \<le> q \<and> q \<le> 1"
  by (cases v rule: sanitize_quality_score.cases) (auto split: if_splits)

lemma sanitize_latency_Some_Fin [simp]: "0 \<le> l \<Longrightarrow> sanitize_latency_ms (Some (Fin l)) = Some l"
  by simp

lemma latency_component_unit: "0 \<le> latency_component l \<and> latency_component l \<le> 1"
  by (auto simp: latency_component_def split: option.splits)

lemma tier_factor_unit: "0 \<le> tier_factor w \<and> tier_factor w \<le> 1"
  by (auto simp: tier_factor_def LLM_KEY_MODEL_TIER_DEFAULT_WEIGHT_def split: fl.splits)

lemma tier_factor_Fin: "0 \<le> t \<Longrightarrow> t \<le> 1 \<Longrightarrow> tier_factor (Fin t) = t"
  by (simp add: tier_factor_def)

text \<open>The composite of four figures in the unit interval, as the code weighs them.\<close>

definition composite_of :: "rat \<Rightarrow> rat \<Rightarrow> rat \<Rightarrow> rat \<Rightarrow> rat" where
  "composite_of r q l v = 2/5 * r + 1/5 * q + 1/5 * l + 1/5 * v"

lemma composite_of_code:
  "LLM_KEY_RELIABILITY_WEIGHT * r + LLM_KEY_QUALITY_WEIGHT * q
     + LLM_KEY_LATENCY_WEIGHT * l + LLM_KEY_VOLUME_WEIGHT * v = composite_of r q l v"
  by (simp add: composite_weights composite_of_def)

lemma composite_of_unit:
  assumes "0 \<le> r" "r \<le> 1" "0 \<le> q" "q \<le> 1" "0 \<le> l" "l \<le> 1" "0 \<le> v" "v \<le> 1"
  shows "0 \<le> composite_of r q l v \<and> composite_of r q l v \<le> 1"
  using assms by (simp add: composite_of_def)

lemma composite_of_mono:
  assumes "r \<le> r'" "v \<le> v'"
  shows "composite_of r q l v \<le> composite_of r' q l v'"
  using assms by (simp add: composite_of_def)

lemma ratio_unit:
  fixes s f :: int
  assumes "0 \<le> s" "0 \<le> f" "s + f \<noteq> 0"
  shows "0 \<le> (of_int s / of_int (s + f) :: rat) \<and> (of_int s / of_int (s + f) :: rat) \<le> 1"
proof -
  have pos: "0 < s + f" using assms by linarith
  then have "(0 :: rat) < of_int (s + f)" by (simp only: of_int_0_less_iff)
  moreover have "(of_int s :: rat) \<le> of_int (s + f)" using assms by simp
  ultimately show ?thesis using assms(1) by (simp add: divide_le_eq)
qed

text \<open>The neutral or measured quality, and the volume share.\<close>

definition quality_component :: "fl option \<Rightarrow> rat" where
  "quality_component q = (case sanitize_quality_score q of None \<Rightarrow> 1/2 | Some x \<Rightarrow> x)"

definition volume_component :: "int \<Rightarrow> rat" where
  "volume_component s = min 1 (of_int s / 50)"

lemma quality_component_unit: "0 \<le> quality_component q \<and> quality_component q \<le> 1"
  by (auto simp: quality_component_def dest: sanitize_quality_unit split: option.splits)

lemma volume_component_unit: "0 \<le> s \<Longrightarrow> 0 \<le> volume_component s \<and> volume_component s \<le> 1"
  by (simp add: volume_component_def)

text \<open>The two hard floors, as predicates.\<close>

definition below_reliability_floor :: "int \<Rightarrow> int \<Rightarrow> fl \<Rightarrow> bool" where
  "below_reliability_floor s f rf =
     fl_lt (Fin (of_int s / of_int (s + f))) (usable_or LLM_KEY_RELIABILITY_HARD_FLOOR rf)"

definition below_quality_floor :: "fl option \<Rightarrow> int option \<Rightarrow> fl \<Rightarrow> int \<Rightarrow> bool" where
  "below_quality_floor q qn qf min_graded =
     ((case sanitize_quality_score q of None \<Rightarrow> False
        | Some x \<Rightarrow> fl_lt (Fin x) (usable_or LLM_KEY_QUALITY_HARD_FLOOR qf))
      \<and> (case qn of None \<Rightarrow> True | Some n \<Rightarrow> min_graded \<le> n))"

text \<open>One case distinction describes the whole function.\<close>

lemma efficiency_score_cases:
  "llm_key_efficiency_score s f lat active q tier mc qn rf qf mg =
   (if \<not> active then Inr (Some 0)
    else if s < 0 \<or> f < 0 \<or> s + f < mc then Inr None
    else if s + f = 0 then Inl ZeroDivisionError
    else if below_reliability_floor s f rf \<or> below_quality_floor q qn qf mg then Inr (Some 0)
    else Inr (Some (composite_of (of_int s / of_int (s + f)) (quality_component q)
                      (latency_component (sanitize_latency_ms lat)) (volume_component s)
                    * tier_factor tier)))"
  unfolding llm_key_efficiency_score_def Let_def composite_of_code LLM_KEY_VOLUME_TARGET_CALLS_def
    below_reliability_floor_def below_quality_floor_def quality_component_def volume_component_def
  by (auto split: option.splits)

lemma efficiency_score_unit:
  assumes "llm_key_efficiency_score s f lat active q tier mc qn rf qf mg = Inr (Some r)"
  shows "0 \<le> r \<and> r \<le> 1"
proof (cases "r = 0")
  case False
  with assms have sf: "0 \<le> s" "0 \<le> f" "s + f \<noteq> 0"
    and r: "r = composite_of (of_int s / of_int (s + f)) (quality_component q)
      (latency_component (sanitize_latency_ms lat)) (volume_component s) * tier_factor tier"
    by (auto simp: efficiency_score_cases split: if_splits)
  let ?c = "composite_of (of_int s / of_int (s + f)) (quality_component q)
      (latency_component (sanitize_latency_ms lat)) (volume_component s)"
  have "0 \<le> ?c \<and> ?c \<le> 1"
    using ratio_unit [OF sf] quality_component_unit latency_component_unit
      volume_component_unit [OF sf(1)] by (intro composite_of_unit) auto
  then show ?thesis using tier_factor_unit [of tier] unfolding r
    by (auto intro: mult_nonneg_nonneg mult_le_one)
qed simp

lemma efficiency_score_total:
  "1 \<le> mc \<Longrightarrow> llm_key_efficiency_score s f lat active q tier mc qn rf qf mg \<noteq> Inl x"
  by (auto simp: efficiency_score_cases)

lemma efficiency_score_positiveD:
  assumes "llm_key_efficiency_score s f lat active q tier mc qn rf qf mg = Inr (Some r)" "0 < r"
  shows "active \<and> 0 \<le> s \<and> 0 \<le> f \<and> 0 < s + f \<and> mc \<le> s + f \<and>
    \<not> below_reliability_floor s f rf \<and> \<not> below_quality_floor q qn qf mg"
  using assms by (auto simp: efficiency_score_cases split: if_splits)

section \<open>Properties\<close>

text \<open>C13: With a positive call floor the efficiency reward is a total function into the unit
  interval: it never raises, and whenever it scores a window at all the score is between 0 and 1;
  a positive score means the key was active, the counts were sane and reached the call floor, and
  neither hard floor was hit.\<close>

theorem efficiency_score_in_unit:
  assumes "1 \<le> min_calls"
  shows "\<exists>r. llm_key_efficiency_score s f lat active q tier min_calls qn rf qf mg = Inr r \<and>
    (case r of None \<Rightarrow> active \<and> (s < 0 \<or> f < 0 \<or> s + f < min_calls)
     | Some x \<Rightarrow> 0 \<le> x \<and> x \<le> 1 \<and>
         (0 < x \<longrightarrow> active \<and> 0 \<le> s \<and> 0 \<le> f \<and> min_calls \<le> s + f \<and>
            \<not> below_reliability_floor s f rf \<and> \<not> below_quality_floor q qn qf mg))"
proof (cases "llm_key_efficiency_score s f lat active q tier min_calls qn rf qf mg")
  case (Inl x)
  with efficiency_score_total [OF assms] show ?thesis by blast
next
  case (Inr r)
  show ?thesis
  proof (cases r)
    case None
    with Inr show ?thesis by (auto simp: efficiency_score_cases split: if_splits)
  next
    case (Some x)
    with Inr efficiency_score_unit efficiency_score_positiveD show ?thesis by fastforce
  qed
qed

theorem efficiency_score_in_unit_witness:
  "llm_key_efficiency_score 10 0 (Some (Fin 1)) True (Some (Fin 1)) (Fin 1) 5 (Some 10)
     (Fin (1/2)) (Fin (7/20)) 3 \<noteq> Inl ZeroDivisionError"
  using efficiency_score_in_unit [of 5 10 0 "Some (Fin 1)" True "Some (Fin 1)" "Fin 1" "Some 10"
      "Fin (1/2)" "Fin (7/20)" 3] by auto

lemma ratio_mono:
  fixes s f s' f' :: int
  assumes "0 \<le> s" "s \<le> s'" "0 \<le> f'" "f' \<le> f" "0 < s + f" "0 < s' + f'"
  shows "(of_int s / of_int (s + f) :: rat) \<le> of_int s' / of_int (s' + f')"
proof -
  have "s * f' \<le> s' * f" using assms by (intro mult_mono) auto
  then have "s * (s' + f') \<le> s' * (s + f)" by (simp add: algebra_simps)
  then have "(of_int (s * (s' + f')) :: rat) \<le> of_int (s' * (s + f))" by (simp only: of_int_le_iff)
  moreover have "(0 :: rat) < of_int (s + f)" "(0 :: rat) < of_int (s' + f')"
    using assms(5,6) by (simp_all only: of_int_0_less_iff)
  ultimately show ?thesis by (simp add: divide_simps mult.commute)
qed

lemma fl_lt_Fin_mono: "a \<le> b \<Longrightarrow> fl_lt (Fin b) x \<Longrightarrow> fl_lt (Fin a) x"
  by (cases x) auto

text \<open>Better service never pays less: with everything else equal, a window with at least as
  many successes and at most as many failures that is scored is scored at least as high.\<close>

theorem efficiency_score_monotone:
  assumes "s \<le> s'" "0 \<le> f'" "f' \<le> f"
    and "llm_key_efficiency_score s f lat active q tier mc qn rf qf mg = Inr (Some r)"
    and "llm_key_efficiency_score s' f' lat active q tier mc qn rf qf mg = Inr (Some r')"
  shows "r \<le> r'"
proof (cases "0 < r")
  case False
  with efficiency_score_unit [OF assms(5)] show ?thesis by simp
next
  case True
  note pos = efficiency_score_positiveD [OF assms(4) True]
  then have nz: "0 \<le> s" "0 < s + f" "0 \<le> s'" using assms(1) by auto
  with assms(5) pos have nz': "0 < s' + f'"
    using assms(2) by (auto simp: efficiency_score_cases split: if_splits)
  note ratio = ratio_mono [OF nz(1) assms(1,2,3) nz(2) nz']
  have vol: "volume_component s \<le> volume_component s'"
    using assms(1) by (simp add: volume_component_def min_le_iff_disj)
  have "\<not> below_reliability_floor s' f' rf"
    using pos fl_lt_Fin_mono [OF ratio] by (auto simp: below_reliability_floor_def)
  then have "r' = composite_of (of_int s' / of_int (s' + f')) (quality_component q)
      (latency_component (sanitize_latency_ms lat)) (volume_component s') * tier_factor tier"
    using assms(5) pos nz nz' by (auto simp: efficiency_score_cases split: if_splits)
  moreover have "r = composite_of (of_int s / of_int (s + f)) (quality_component q)
      (latency_component (sanitize_latency_ms lat)) (volume_component s) * tier_factor tier"
    using assms(4) True by (auto simp: efficiency_score_cases split: if_splits)
  ultimately show ?thesis
    using composite_of_mono [OF ratio vol] tier_factor_unit [of tier]
    by (simp add: mult_right_mono)
qed

theorem efficiency_score_monotone_witness:
  "(16/25 :: rat) \<le> 17/25"
proof (rule efficiency_score_monotone [of 10 20 0 0 None True None "Fin 1" 5 None "Fin (1/2)" "Fin (7/20)" 3])
  show "llm_key_efficiency_score 10 0 None True None (Fin 1) 5 None (Fin (1/2)) (Fin (7/20)) 3
      = Inr (Some (16/25))"
    "llm_key_efficiency_score 20 0 None True None (Fin 1) 5 None (Fin (1/2)) (Fin (7/20)) 3
      = Inr (Some (17/25))"
    by (simp_all add: efficiency_score_cases below_reliability_floor_def below_quality_floor_def
        usable_or_def composite_of_def quality_component_def latency_component_def
        volume_component_def tier_factor_def)
qed simp_all

end
