(* ===== verification/Key_Windows.thy ===== *)
theory Key_Windows
  imports Scoring
begin

text \<open>
  The state of the LLM-key validator (\<open>neurons/validator.py\<close>) and the operations on one key's rows:
  the tier of a row, the bucket it belongs to, folding a row into the collecting epoch, cutting a
  confirmed-bad key and reviving a key that serves again.
\<close>

section \<open>State\<close>

text \<open>One key's sub-accumulator; a migrated accumulator has no tier.\<close>

record sub_acc =
  s_success :: int
  s_failure :: int
  s_latency_sum :: rat
  s_latency_n :: int
  s_quality_sum :: rat
  s_quality_n :: int
  s_tier :: "rat option"

record window =
  w_keys :: "(string, sub_acc) dict"
  w_first_seen :: rat
  w_last_seen :: rat

text \<open>Per-key tracking; an absent dictionary entry is \<open>None\<close>.\<close>

record key_state =
  k_alive :: "bool option"
  k_killed_reason :: "string option"
  k_slot :: "int option"
  k_provider :: "string option"
  k_model :: "string option"
  k_accepted :: "bool option"
  k_status :: "string option"
  k_reason :: "string option"

record hotkey_entry =
  h_uid :: "int option"
  h_last_report_at :: "rat option"
  h_key_active :: "bool option"
  h_accepted :: "bool option"
  h_status :: "string option"
  h_reason :: "string option"
  h_submitted_at :: "rat option"
  h_keys :: "(string, key_state) dict option"
  h_missing_since :: "rat option"
  h_provider :: "string option"
  h_model :: "string option"

record vstate =
  participation_scores :: "(int, fl) dict"
  llm_key_hotkey_status :: "(string, hotkey_entry) dict"
  llm_key_pending_calls :: "(string, window) dict"
  llm_key_last_epoch_calls :: "(string, window) dict"
  llm_key_epoch_start_block :: "int option"
  last_llm_key_ask_at :: fl
  last_llm_key_report_poll_at :: fl
  last_llm_key_report_cursor :: string
  llm_key_reports_empty_since :: rat
  v_scores :: "fl list"

text \<open>One row of \<open>GET /llm-keys/reports\<close> (\<open>LLMKeyUsageReport\<close>).\<close>

record usage_report =
  r_hotkey :: string
  r_key_id :: "int option"
  r_provider :: "string option"
  r_model :: "string option"
  r_success :: int
  r_failure :: int
  r_latency_ms :: "fl option"
  r_quality :: "fl option"
  r_error_categories :: "string list"
  r_key_active :: bool

text \<open>The state \<open>__init__\<close> builds before the saved one is read; the base class sized the scores.\<close>

definition initial_vstate :: "nat \<Rightarrow> vstate" where
  "initial_vstate n = \<lparr>participation_scores = [], llm_key_hotkey_status = [],
     llm_key_pending_calls = [], llm_key_last_epoch_calls = [], llm_key_epoch_start_block = None,
     last_llm_key_ask_at = Fin 0, last_llm_key_report_poll_at = Fin 0,
     last_llm_key_report_cursor = [], llm_key_reports_empty_since = 0,
     v_scores = replicate n (Fin 0)\<rparr>"

definition empty_sub :: sub_acc where
  "empty_sub = \<lparr>s_success = 0, s_failure = 0, s_latency_sum = 0, s_latency_n = 0,
     s_quality_sum = 0, s_quality_n = 0, s_tier = None\<rparr>"

definition empty_key_state :: key_state where
  "empty_key_state = \<lparr>k_alive = None, k_killed_reason = None, k_slot = None, k_provider = None,
     k_model = None, k_accepted = None, k_status = None, k_reason = None\<rparr>"

definition empty_entry :: hotkey_entry where
  "empty_entry = \<lparr>h_uid = None, h_last_report_at = None, h_key_active = None, h_accepted = None,
     h_status = None, h_reason = None, h_submitted_at = None, h_keys = None,
     h_missing_since = None, h_provider = None, h_model = None\<rparr>"

section \<open>Tiers and buckets\<close>

text \<open>A present, non-empty text (Python truth value of an \<open>Optional[str]\<close>).\<close>

definition truthy_text :: "string option \<Rightarrow> bool" where
  "truthy_text t = (case t of None \<Rightarrow> False | Some s \<Rightarrow> s \<noteq> [])"

definition text_or_empty :: "string option \<Rightarrow> string" where
  "text_or_empty t = (case t of None \<Rightarrow> [] | Some s \<Rightarrow> s)"

definition tier_of_model :: "string \<Rightarrow> rat" where
  "tier_of_model key = (case dget LLM_KEY_MODEL_TIER_WEIGHTS key of
      None \<Rightarrow> LLM_KEY_MODEL_TIER_DEFAULT_WEIGHT | Some w \<Rightarrow> w)"

definition model_tier_weight :: "vstate \<Rightarrow> string \<Rightarrow> rat" where
  "model_tier_weight st hotkey =
     (let status = (case dget (llm_key_hotkey_status st) hotkey of None \<Rightarrow> empty_entry | Some e \<Rightarrow> e)
      in tier_of_model (text_or_empty (h_provider status) @ ''/'' @ text_or_empty (h_model status)))"

definition tier_for_report :: "vstate \<Rightarrow> string \<Rightarrow> usage_report \<Rightarrow> rat" where
  "tier_for_report st hotkey report =
     (if truthy_text (r_provider report) \<and> truthy_text (r_model report)
      then tier_of_model (text_or_empty (r_provider report) @ ''/'' @ text_or_empty (r_model report))
      else model_tier_weight st hotkey)"

definition report_sub_key :: "usage_report \<Rightarrow> string" where
  "report_sub_key report = (case r_key_id report of
      Some i \<Rightarrow> show_int i
    | None \<Rightarrow>
        if truthy_text (r_provider report) \<and> truthy_text (r_model report)
        then text_or_empty (r_provider report) @ ''/'' @ text_or_empty (r_model report)
        else ''legacy'')"

section \<open>Cutting and reviving one key\<close>

text \<open>\<open>_hotkey_key_states\<close>: the per-key map of a hotkey, created with its entry when missing.\<close>

definition entry_or_new :: "vstate \<Rightarrow> string \<Rightarrow> hotkey_entry" where
  "entry_or_new st hotkey =
     (case dget (llm_key_hotkey_status st) hotkey of None \<Rightarrow> empty_entry | Some e \<Rightarrow> e)"

definition states_of :: "hotkey_entry \<Rightarrow> (string, key_state) dict" where
  "states_of e = (case h_keys e of None \<Rightarrow> [] | Some d \<Rightarrow> d)"

definition hotkey_key_states :: "string \<Rightarrow> vstate \<Rightarrow> (string, key_state) dict \<times> vstate" where
  "hotkey_key_states hotkey st =
     (let status = entry_or_new st hotkey; keys = states_of status
      in (keys, st\<lparr>llm_key_hotkey_status :=
            dput hotkey (status\<lparr>h_keys := Some keys\<rparr>) (llm_key_hotkey_status st)\<rparr>))"

definition put_key_state :: "string \<Rightarrow> string \<Rightarrow> key_state \<Rightarrow> vstate \<Rightarrow> vstate" where
  "put_key_state hotkey sub_key ks st =
     (let status = entry_or_new st hotkey
      in st\<lparr>llm_key_hotkey_status :=
            dput hotkey (status\<lparr>h_keys := Some (dput sub_key ks (states_of status))\<rparr>)
              (llm_key_hotkey_status st)\<rparr>)"

text \<open>\<open>windows.get(hotkey)["keys"].pop(sub_key)\<close>, and the hotkey's window with it when it empties.\<close>

definition drop_key_rows ::
  "string \<Rightarrow> string \<Rightarrow> (string, window) dict \<Rightarrow> (string, window) dict" where
  "drop_key_rows hotkey sub_key windows = (case dget windows hotkey of
      None \<Rightarrow> windows
    | Some acc \<Rightarrow>
        let keys = dpop sub_key (w_keys acc) in
        if keys = [] then dpop hotkey windows
        else dput hotkey (acc\<lparr>w_keys := keys\<rparr>) windows)"

definition kill_hotkey_key :: "string \<Rightarrow> string \<Rightarrow> string \<Rightarrow> vstate \<Rightarrow> vstate" where
  "kill_hotkey_key hotkey sub_key reason st =
     (let (keys, st) = hotkey_key_states hotkey st;
          entry = (case dget keys sub_key of None \<Rightarrow> empty_key_state | Some k \<Rightarrow> k);
          entry = (if k_alive entry \<noteq> Some False
                   then entry\<lparr>k_alive := Some False, k_killed_reason := Some reason\<rparr> else entry);
          st = put_key_state hotkey sub_key entry st
      in st\<lparr>llm_key_pending_calls := drop_key_rows hotkey sub_key (llm_key_pending_calls st),
            llm_key_last_epoch_calls := drop_key_rows hotkey sub_key (llm_key_last_epoch_calls st)\<rparr>)"

definition note_success :: "string \<Rightarrow> string \<Rightarrow> usage_report \<Rightarrow> vstate \<Rightarrow> vstate" where
  "note_success hotkey sub_key report st =
     (let (keys, st) = hotkey_key_states hotkey st;
          entry = (case dget keys sub_key of None \<Rightarrow> empty_key_state | Some k \<Rightarrow> k);
          entry = (if truthy_text (r_provider report)
                   then entry\<lparr>k_provider := r_provider report, k_model := r_model report\<rparr> else entry);
          entry = (if k_alive entry = Some False
                   then entry\<lparr>k_alive := Some True, k_killed_reason := None\<rparr> else entry)
      in put_key_state hotkey sub_key entry st)"

section \<open>Folding one row\<close>

definition add_row :: "usage_report \<Rightarrow> rat \<Rightarrow> sub_acc \<Rightarrow> sub_acc" where
  "add_row report tier sub =
     (let row_calls = r_success report + r_failure report;
          sub = sub\<lparr>s_tier := Some tier,
                    s_success := s_success sub + r_success report,
                    s_failure := s_failure sub + r_failure report\<rparr>;
          sub = (case sanitize_latency_ms (r_latency_ms report) of
                   None \<Rightarrow> sub
                 | Some l \<Rightarrow> if 0 < row_calls
                     then sub\<lparr>s_latency_sum := s_latency_sum sub + l * of_int row_calls,
                              s_latency_n := s_latency_n sub + row_calls\<rparr> else sub)
      in (case sanitize_quality_score (r_quality report) of
            None \<Rightarrow> sub
          | Some q \<Rightarrow> if 0 < row_calls
              then sub\<lparr>s_quality_sum := s_quality_sum sub + q * of_int row_calls,
                       s_quality_n := s_quality_n sub + row_calls\<rparr> else sub))"

definition fold_report_into_pending :: "string \<Rightarrow> usage_report \<Rightarrow> rat \<Rightarrow> vstate \<Rightarrow> vstate" where
  "fold_report_into_pending hotkey report now st =
     (if r_success report < 0 \<or> r_failure report < 0 then st
      else
        let acc = (case dget (llm_key_pending_calls st) hotkey of
                     None \<Rightarrow> \<lparr>w_keys = [], w_first_seen = now, w_last_seen = now\<rparr>
                   | Some a \<Rightarrow> a);
            sub_key = report_sub_key report;
            sub = (case dget (w_keys acc) sub_key of None \<Rightarrow> empty_sub | Some s \<Rightarrow> s);
            sub = add_row report (tier_for_report st hotkey report) sub;
            acc = acc\<lparr>w_keys := dput sub_key sub (w_keys acc), w_last_seen := now\<rparr>;
            st = st\<lparr>llm_key_pending_calls := dput hotkey acc (llm_key_pending_calls st)\<rparr>
        in if 0 < r_success report then note_success hotkey sub_key report st else st)"

section \<open>Views\<close>

text \<open>One key's rows in a window map, and a key's local life flag.\<close>

definition rows_of :: "(string, window) dict \<Rightarrow> string \<Rightarrow> string \<Rightarrow> sub_acc option" where
  "rows_of windows hotkey sub_key =
     (case dget windows hotkey of None \<Rightarrow> None | Some acc \<Rightarrow> dget (w_keys acc) sub_key)"

definition key_alive :: "vstate \<Rightarrow> string \<Rightarrow> string \<Rightarrow> bool" where
  "key_alive st hotkey sub_key =
     (case dget (states_of (entry_or_new st hotkey)) sub_key of
        None \<Rightarrow> True | Some ks \<Rightarrow> (case k_alive ks of None \<Rightarrow> True | Some b \<Rightarrow> b))"

definition sub_calls :: "sub_acc \<Rightarrow> int" where
  "sub_calls s = s_success s + s_failure s"

section \<open>Lemmas: dictionaries of the state\<close>

lemma entry_or_new_put:
  "entry_or_new (st\<lparr>llm_key_hotkey_status := dput h e (llm_key_hotkey_status st)\<rparr>) h' =
   (if h' = h then e else entry_or_new st h')"
  by (simp add: entry_or_new_def dict_simps)

lemma states_of_simps [simp]: "states_of (e\<lparr>h_keys := Some d\<rparr>) = d"
  by (simp add: states_of_def)

lemma hotkey_key_states_frame [simp]:
  "llm_key_pending_calls (snd (hotkey_key_states h st)) = llm_key_pending_calls st"
  "llm_key_last_epoch_calls (snd (hotkey_key_states h st)) = llm_key_last_epoch_calls st"
  "llm_key_epoch_start_block (snd (hotkey_key_states h st)) = llm_key_epoch_start_block st"
  "v_scores (snd (hotkey_key_states h st)) = v_scores st"
  by (simp_all add: hotkey_key_states_def Let_def)

lemma put_key_state_frame [simp]:
  "llm_key_pending_calls (put_key_state h k ks st) = llm_key_pending_calls st"
  "llm_key_last_epoch_calls (put_key_state h k ks st) = llm_key_last_epoch_calls st"
  "llm_key_epoch_start_block (put_key_state h k ks st) = llm_key_epoch_start_block st"
  "v_scores (put_key_state h k ks st) = v_scores st"
  by (simp_all add: put_key_state_def Let_def)

lemma states_of_hotkey_key_states [simp]:
  "states_of (entry_or_new (snd (hotkey_key_states h st)) h') = states_of (entry_or_new st h')"
  "fst (hotkey_key_states h st) = states_of (entry_or_new st h)"
  by (simp_all add: hotkey_key_states_def Let_def entry_or_new_put)

lemma states_of_put_key_state:
  "states_of (entry_or_new (put_key_state h k ks st) h') =
   (if h' = h then dput k ks (states_of (entry_or_new st h)) else states_of (entry_or_new st h'))"
  by (simp add: put_key_state_def Let_def entry_or_new_put)

lemma model_tier_weight_put_key_state [simp]:
  "model_tier_weight (put_key_state h k ks st) h' = model_tier_weight st h'"
  by (auto simp: model_tier_weight_def put_key_state_def Let_def dict_simps entry_or_new_def
      split: option.splits)

lemma model_tier_weight_hotkey_key_states [simp]:
  "model_tier_weight (snd (hotkey_key_states h st)) h' = model_tier_weight st h'"
  by (auto simp: model_tier_weight_def hotkey_key_states_def Let_def dict_simps entry_or_new_def
      split: option.splits)

lemma model_tier_weight_cong:
  "llm_key_hotkey_status st = llm_key_hotkey_status st' \<Longrightarrow>
   model_tier_weight st h = model_tier_weight st' h"
  by (simp add: model_tier_weight_def)

lemma tier_of_model_bounds: "1/2 \<le> tier_of_model m \<and> tier_of_model m \<le> 1"
  using tier_table_bounds
  by (auto simp: tier_of_model_def LLM_KEY_MODEL_TIER_DEFAULT_WEIGHT_def split: option.splits)

lemma model_tier_weight_bounds: "1/2 \<le> model_tier_weight st h \<and> model_tier_weight st h \<le> 1"
  unfolding model_tier_weight_def Let_def by (rule tier_of_model_bounds)

lemma tier_for_report_bounds: "1/2 \<le> tier_for_report st h r \<and> tier_for_report st h r \<le> 1"
  unfolding tier_for_report_def
  using tier_of_model_bounds model_tier_weight_bounds by (simp split: if_split)

section \<open>Lemmas: rows\<close>

lemma rows_of_drop_key_rows:
  "rows_of (drop_key_rows h k windows) h' k' =
   (if h' = h \<and> k' = k then None else rows_of windows h' k')"
proof (cases "dget windows h")
  case None
  then show ?thesis by (auto simp: drop_key_rows_def rows_of_def)
next
  case (Some acc)
  show ?thesis
  proof (cases "dpop k (w_keys acc) = []")
    case True
    then have "k' \<noteq> k \<Longrightarrow> dget (w_keys acc) k' = None" for k'
      by (metis dct.lookup_remove_other map_of.simps(1))
    with Some True show ?thesis by (auto simp: drop_key_rows_def rows_of_def dict_simps)
  next
    case False
    with Some show ?thesis by (auto simp: drop_key_rows_def rows_of_def Let_def dict_simps)
  qed
qed

lemma drop_key_rows_other: "h' \<noteq> h \<Longrightarrow> dget (drop_key_rows h k windows) h' = dget windows h'"
  by (auto simp: drop_key_rows_def Let_def dict_simps split: option.splits)

lemma drop_key_rows_same:
  "dget (drop_key_rows h k windows) h =
   (case dget windows h of None \<Rightarrow> None
    | Some acc \<Rightarrow> if dpop k (w_keys acc) = [] then None else Some (acc\<lparr>w_keys := dpop k (w_keys acc)\<rparr>))"
  by (auto simp: drop_key_rows_def Let_def dict_simps split: option.splits)

lemma kill_rows:
  "rows_of (llm_key_pending_calls (kill_hotkey_key h k reason st)) h' k' =
     (if h' = h \<and> k' = k then None else rows_of (llm_key_pending_calls st) h' k')"
  "rows_of (llm_key_last_epoch_calls (kill_hotkey_key h k reason st)) h' k' =
     (if h' = h \<and> k' = k then None else rows_of (llm_key_last_epoch_calls st) h' k')"
  by (simp_all add: kill_hotkey_key_def Let_def case_prod_beta rows_of_drop_key_rows)

lemma kill_frame [simp]:
  "llm_key_epoch_start_block (kill_hotkey_key h k reason st) = llm_key_epoch_start_block st"
  "v_scores (kill_hotkey_key h k reason st) = v_scores st"
  "llm_key_pending_calls (kill_hotkey_key h k reason st) = drop_key_rows h k (llm_key_pending_calls st)"
  "llm_key_last_epoch_calls (kill_hotkey_key h k reason st) =
     drop_key_rows h k (llm_key_last_epoch_calls st)"
  by (simp_all add: kill_hotkey_key_def Let_def case_prod_beta)

lemma model_tier_weight_windows [simp]:
  "model_tier_weight (st\<lparr>llm_key_pending_calls := p, llm_key_last_epoch_calls := q\<rparr>) h = model_tier_weight st h"
  by (simp add: model_tier_weight_def)

lemma model_tier_weight_kill [simp]:
  "model_tier_weight (kill_hotkey_key h k reason st) h' = model_tier_weight st h'"
  by (simp add: kill_hotkey_key_def Let_def case_prod_beta)

lemma kill_alive:
  "key_alive (kill_hotkey_key h k reason st) h' k' \<longleftrightarrow> \<not> (h' = h \<and> k' = k) \<and> key_alive st h' k'"
  by (auto simp: kill_hotkey_key_def Let_def case_prod_beta key_alive_def entry_or_new_def
      states_of_put_key_state [unfolded entry_or_new_def] put_key_state_def hotkey_key_states_def
      dict_simps split: option.splits)


lemma dput_triv: "dget m k = Some v \<Longrightarrow> dput k v m = m"
  by (induction m) (auto split: if_splits)

lemma dput_dput: "dput k v (dput k w m) = dput k v m"
  by (induction m) auto

lemma drop_key_rows_again: "drop_key_rows h k (drop_key_rows h k windows) = drop_key_rows h k windows"
  by (auto simp: drop_key_rows_def Let_def dput_dput dput_triv delete_idem dget_simps
      split: option.splits)

lemma put_key_state_again:
  "put_key_state h k ks (put_key_state h k ks' st) = put_key_state h k ks st"
  by (simp add: put_key_state_def Let_def entry_or_new_put dput_dput)

lemma hotkey_key_states_put [simp]:
  "hotkey_key_states h (put_key_state h k ks st) =
   (dput k ks (states_of (entry_or_new st h)), put_key_state h k ks st)"
  by (simp add: hotkey_key_states_def put_key_state_def Let_def entry_or_new_put dput_triv dput_dput)

text \<open>The state a kill leaves the key in.\<close>

definition killed_state :: "vstate \<Rightarrow> string \<Rightarrow> string \<Rightarrow> string \<Rightarrow> key_state" where
  "killed_state st h k reason =
     (let ks = (case dget (states_of (entry_or_new st h)) k of None \<Rightarrow> empty_key_state | Some ks \<Rightarrow> ks)
      in if k_alive ks \<noteq> Some False then ks\<lparr>k_alive := Some False, k_killed_reason := Some reason\<rparr> else ks)"

lemma put_after_states: "put_key_state h k ks (snd (hotkey_key_states h st)) = put_key_state h k ks st"
  by (simp add: put_key_state_def hotkey_key_states_def Let_def entry_or_new_put dput_dput)

lemma kill_as_put:
  "kill_hotkey_key h k reason st =
   (put_key_state h k (killed_state st h k reason) st)
     \<lparr>llm_key_pending_calls := drop_key_rows h k (llm_key_pending_calls st),
      llm_key_last_epoch_calls := drop_key_rows h k (llm_key_last_epoch_calls st)\<rparr>"
  by (simp add: kill_hotkey_key_def Let_def case_prod_beta killed_state_def put_after_states)

lemma killed_state_dead [simp]: "k_alive (killed_state st h k reason) = Some False"
  by (simp add: killed_state_def Let_def)

lemma killed_state_again:
  "killed_state (kill_hotkey_key h k reason st) h k reason' = killed_state st h k reason"
proof -
  have "states_of (entry_or_new (kill_hotkey_key h k reason st) h) =
      dput k (killed_state st h k reason) (states_of (entry_or_new st h))"
    by (simp add: kill_as_put entry_or_new_def put_key_state_def Let_def)
  then show ?thesis
    by (simp add: killed_state_def [of "kill_hotkey_key h k reason st"])
qed

lemma kill_again: "kill_hotkey_key h k reason' (kill_hotkey_key h k reason st) = kill_hotkey_key h k reason st"
proof -
  have "put_key_state h k ks (st'\<lparr>llm_key_pending_calls := p, llm_key_last_epoch_calls := q\<rparr>) =
      (put_key_state h k ks st')\<lparr>llm_key_pending_calls := p, llm_key_last_epoch_calls := q\<rparr>" for ks st' p q
    by (simp add: put_key_state_def entry_or_new_def Let_def)
  then show ?thesis
    unfolding kill_as_put [of h k reason' "kill_hotkey_key h k reason st"] killed_state_again
    by (simp add: kill_as_put put_key_state_again drop_key_rows_again)
qed

lemma note_success_alive:
  "key_alive (note_success h k r st) h' k' \<longleftrightarrow> (h' = h \<and> k' = k) \<or> key_alive st h' k'"
  by (auto simp: note_success_def Let_def case_prod_beta key_alive_def states_of_put_key_state
      dget_simps split: option.splits)

section \<open>Lemmas: folding\<close>

text \<open>What one row adds to the latency and quality sums: a reading counts once per call.\<close>

definition weighted :: "rat option \<Rightarrow> int \<Rightarrow> rat" where
  "weighted reading calls = (case reading of None \<Rightarrow> 0 | Some v \<Rightarrow> if 0 < calls then v * of_int calls else 0)"

definition weight :: "rat option \<Rightarrow> int \<Rightarrow> int" where
  "weight reading calls = (case reading of None \<Rightarrow> 0 | Some v \<Rightarrow> if 0 < calls then calls else 0)"

lemma add_row_simps [simp]:
  "s_success (add_row r tier s) = s_success s + r_success r"
  "s_failure (add_row r tier s) = s_failure s + r_failure r"
  "s_tier (add_row r tier s) = Some tier"
  "s_latency_sum (add_row r tier s) =
     s_latency_sum s + weighted (sanitize_latency_ms (r_latency_ms r)) (r_success r + r_failure r)"
  "s_latency_n (add_row r tier s) =
     s_latency_n s + weight (sanitize_latency_ms (r_latency_ms r)) (r_success r + r_failure r)"
  "s_quality_sum (add_row r tier s) =
     s_quality_sum s + weighted (sanitize_quality_score (r_quality r)) (r_success r + r_failure r)"
  "s_quality_n (add_row r tier s) =
     s_quality_n s + weight (sanitize_quality_score (r_quality r)) (r_success r + r_failure r)"
  by (simp_all add: add_row_def Let_def weighted_def weight_def split: option.splits)

lemma note_success_frame [simp]:
  "llm_key_pending_calls (note_success h k r st) = llm_key_pending_calls st"
  "llm_key_last_epoch_calls (note_success h k r st) = llm_key_last_epoch_calls st"
  "llm_key_epoch_start_block (note_success h k r st) = llm_key_epoch_start_block st"
  "v_scores (note_success h k r st) = v_scores st"
  by (simp_all add: note_success_def Let_def case_prod_beta)

text \<open>The window the folded row ends up in.\<close>

definition window_or_new :: "vstate \<Rightarrow> string \<Rightarrow> rat \<Rightarrow> window" where
  "window_or_new st h now = (case dget (llm_key_pending_calls st) h of
      None \<Rightarrow> \<lparr>w_keys = [], w_first_seen = now, w_last_seen = now\<rparr> | Some a \<Rightarrow> a)"

definition sub_or_empty :: "window \<Rightarrow> string \<Rightarrow> sub_acc" where
  "sub_or_empty acc k = (case dget (w_keys acc) k of None \<Rightarrow> empty_sub | Some s \<Rightarrow> s)"

lemma fold_pending:
  assumes "0 \<le> r_success r" "0 \<le> r_failure r"
  shows "llm_key_pending_calls (fold_report_into_pending h r now st) =
    dput h ((window_or_new st h now)\<lparr>w_keys :=
        dput (report_sub_key r)
          (add_row r (tier_for_report st h r) (sub_or_empty (window_or_new st h now) (report_sub_key r)))
          (w_keys (window_or_new st h now)), w_last_seen := now\<rparr>)
      (llm_key_pending_calls st)"
  using assms by (simp add: fold_report_into_pending_def Let_def window_or_new_def sub_or_empty_def)

lemma fold_frame [simp]:
  "llm_key_last_epoch_calls (fold_report_into_pending h r now st) = llm_key_last_epoch_calls st"
  "llm_key_epoch_start_block (fold_report_into_pending h r now st) = llm_key_epoch_start_block st"
  "v_scores (fold_report_into_pending h r now st) = v_scores st"
  by (simp_all add: fold_report_into_pending_def Let_def)

section \<open>Properties\<close>

text \<open>C5: Cutting a key is surgical.  The cut key loses its rows in the collecting and in the paid
  epoch and counts as dead; every other row of every hotkey and every other key's life flag is what
  it was; cutting it again, for whatever reason, changes nothing.\<close>

theorem kill_is_surgical:
  "rows_of (llm_key_pending_calls (kill_hotkey_key h k reason st)) h' k' =
     (if h' = h \<and> k' = k then None else rows_of (llm_key_pending_calls st) h' k') \<and>
   rows_of (llm_key_last_epoch_calls (kill_hotkey_key h k reason st)) h' k' =
     (if h' = h \<and> k' = k then None else rows_of (llm_key_last_epoch_calls st) h' k') \<and>
   (key_alive (kill_hotkey_key h k reason st) h' k' \<longleftrightarrow> \<not> (h' = h \<and> k' = k) \<and> key_alive st h' k') \<and>
   kill_hotkey_key h k reason' (kill_hotkey_key h k reason st) = kill_hotkey_key h k reason st"
  by (simp add: kill_rows kill_alive kill_again del: kill_frame)

text \<open>C6: Folding a usage row touches exactly one bucket: the row's key under the row's hotkey
  gains the row's successes, failures, weighted latency and quality at the row's own tier, every
  other bucket stays, the paid epoch is untouched, and the key is alive afterwards exactly when it
  was alive before or the row reports a success.\<close>

theorem fold_touches_one_bucket:
  assumes "0 \<le> r_success r" "0 \<le> r_failure r"
  shows "rows_of (llm_key_pending_calls (fold_report_into_pending h r now st)) h' k' =
      (if h' = h \<and> k' = report_sub_key r
       then Some (add_row r (tier_for_report st h r)
              (case rows_of (llm_key_pending_calls st) h k' of None \<Rightarrow> empty_sub | Some s \<Rightarrow> s))
       else rows_of (llm_key_pending_calls st) h' k') \<and>
    llm_key_last_epoch_calls (fold_report_into_pending h r now st) = llm_key_last_epoch_calls st \<and>
    (key_alive (fold_report_into_pending h r now st) h' k' \<longleftrightarrow>
      (h' = h \<and> k' = report_sub_key r \<and> 0 < r_success r) \<or> key_alive st h' k')"
proof (intro conjI)
  show "rows_of (llm_key_pending_calls (fold_report_into_pending h r now st)) h' k' =
      (if h' = h \<and> k' = report_sub_key r
       then Some (add_row r (tier_for_report st h r)
              (case rows_of (llm_key_pending_calls st) h k' of None \<Rightarrow> empty_sub | Some s \<Rightarrow> s))
       else rows_of (llm_key_pending_calls st) h' k')"
    using assms by (auto simp: fold_pending rows_of_def window_or_new_def sub_or_empty_def dget_simps
        split: option.splits)
  have "key_alive (st\<lparr>llm_key_pending_calls := p\<rparr>) = key_alive st" for p
    by (simp add: fun_eq_iff key_alive_def entry_or_new_def)
  then show "key_alive (fold_report_into_pending h r now st) h' k' \<longleftrightarrow>
      (h' = h \<and> k' = report_sub_key r \<and> 0 < r_success r) \<or> key_alive st h' k'"
    using assms by (simp add: fold_report_into_pending_def Let_def note_success_alive)
qed simp

theorem fold_touches_one_bucket_witness:
  "rows_of (llm_key_pending_calls (fold_report_into_pending ''hk''
      \<lparr>r_hotkey = ''hk'', r_key_id = Some 7, r_provider = Some ''openai'', r_model = Some ''gpt-4o'',
       r_success = 3, r_failure = 1, r_latency_ms = Some (Fin 200), r_quality = None,
       r_error_categories = [], r_key_active = True\<rparr> 10 (initial_vstate 4))) ''hk'' ''7'' =
   Some \<lparr>s_success = 3, s_failure = 1, s_latency_sum = 800, s_latency_n = 4,
         s_quality_sum = 0, s_quality_n = 0, s_tier = Some 1\<rparr>"
proof -
  let ?r = "\<lparr>r_hotkey = ''hk'', r_key_id = Some 7, r_provider = Some ''openai'', r_model = Some ''gpt-4o'',
       r_success = 3, r_failure = 1, r_latency_ms = Some (Fin 200), r_quality = None,
       r_error_categories = [], r_key_active = True\<rparr>"
  have k: "report_sub_key ?r = ''7''"
    by (simp add: report_sub_key_def show_int_def show_nat.simps)
  have t: "tier_for_report (initial_vstate 4) ''hk'' ?r = 1"
    by (simp add: tier_for_report_def truthy_text_def text_or_empty_def tier_of_model_def
        LLM_KEY_MODEL_TIER_WEIGHTS_def)
  have r0: "rows_of (llm_key_pending_calls (initial_vstate 4)) ''hk'' ''7'' = None"
    by (simp add: rows_of_def initial_vstate_def)
  have nn: "0 \<le> r_success ?r" "0 \<le> r_failure ?r" by simp_all
  show ?thesis
    using fold_touches_one_bucket [OF nn, of "''hk''" 10 "initial_vstate 4" "''hk''" "''7''"]
    unfolding k t r0 by (simp add: add_row_def Let_def empty_sub_def)
qed

end
