(* ===== verification/Epochs.thy ===== *)
theory Epochs
  imports Key_Windows
begin

text \<open>
  Epoch bookkeeping and scoring of \<open>neurons/validator.py\<close>: reading the chain's epoch, closing the
  collecting epoch, the per-key hard floors, the pooled reward of one hotkey and the recomputation
  of every score from the last completed epoch.  The chain is what its reads return.
\<close>

section \<open>The chain's epoch\<close>

text \<open>
  One pair of reads \<open>(get_current_block(), blocks_since_last_step(...))\<close>, \<open>None\<close> when there is no
  chain handle or a read raised; one read of \<open>tempo(...)\<close> likewise.
\<close>

record chain_reads =
  c_step :: "(int \<times> int option) option"
  c_tempo :: "int option option"

definition current_epoch_start_block :: "chain_reads \<Rightarrow> int option" where
  "current_epoch_start_block c = (case c_step c of
      None \<Rightarrow> None
    | Some (block, None) \<Rightarrow> None
    | Some (block, Some since) \<Rightarrow> Some (block - since))"

definition epoch_length_blocks :: "chain_reads \<Rightarrow> int option" where
  "epoch_length_blocks c = (case c_tempo c of
      None \<Rightarrow> None
    | Some None \<Rightarrow> None
    | Some (Some tempo) \<Rightarrow> if tempo = 0 then None else Some (tempo + 1))"

section \<open>Floors and rewards\<close>

definition EPOCH_MIN_CALLS_FOR_SCORING :: int where "EPOCH_MIN_CALLS_FOR_SCORING = 1"

definition reliability_floor_of :: "env \<Rightarrow> fl" where
  "reliability_floor_of e = env_float e ''MASXAI_LLM_KEY_RELIABILITY_HARD_FLOOR'' LLM_KEY_RELIABILITY_HARD_FLOOR"

definition quality_floor_of :: "env \<Rightarrow> fl" where
  "quality_floor_of e = env_float e ''MASXAI_LLM_KEY_QUALITY_HARD_FLOOR'' LLM_KEY_QUALITY_HARD_FLOOR"

definition min_graded_of :: "env \<Rightarrow> int" where
  "min_graded_of e = env_int e ''MASXAI_LLM_KEY_QUALITY_FLOOR_MIN_GRADED'' LLM_KEY_QUALITY_FLOOR_MIN_GRADED"

definition min_calls_of :: "env \<Rightarrow> int" where
  "min_calls_of e = env_int e ''MASXAI_LLM_KEY_MIN_CALLS_FOR_SCORING'' LLM_KEY_MIN_CALLS_FOR_SCORING"

definition sub_window_floor_reason :: "env \<Rightarrow> sub_acc \<Rightarrow> int \<Rightarrow> py_exc + string option" where
  "sub_window_floor_reason e sub min_calls =
     (let total = s_success sub + s_failure sub in
      if total < min_calls then Inr None
      else if total = 0 then Inl ZeroDivisionError
      else if fl_lt (Fin (of_int (s_success sub) / of_int total)) (reliability_floor_of e)
      then Inr (Some (''per-key reliability floor ('' @ show_int (s_success sub) @ '' ok / ''
                      @ show_int (s_failure sub) @ '' failed)''))
      else
        let qcount = s_quality_n sub in
        if min_graded_of e \<le> qcount then
          (if qcount = 0 then Inl ZeroDivisionError
           else
             let avg_quality = s_quality_sum sub / of_int qcount in
             if fl_lt (Fin avg_quality) (quality_floor_of e)
             then Inr (Some (''per-key quality floor (avg quality '' @ show_fixed2 avg_quality
                             @ '' over '' @ show_int qcount @ '' graded)''))
             else Inr None)
        else Inr None)"

definition sub_tier :: "vstate \<Rightarrow> string \<Rightarrow> sub_acc \<Rightarrow> rat" where
  "sub_tier st hotkey sub = (case s_tier sub of Some t \<Rightarrow> t | None \<Rightarrow> model_tier_weight st hotkey)"

definition pooled_window_reward :: "env \<Rightarrow> vstate \<Rightarrow> string \<Rightarrow> sub_acc list \<Rightarrow> py_exc + rat" where
  "pooled_window_reward e st hotkey subs =
     (let success_count = sum_list (map s_success subs);
          failure_count = sum_list (map s_failure subs);
          total = success_count + failure_count;
          latency_sum = sum_list (map s_latency_sum subs);
          latency_count = sum_list (map s_latency_n subs);
          quality_sum = sum_list (map s_quality_sum subs);
          quality_count = sum_list (map s_quality_n subs);
          avg_latency_ms = (if 0 < latency_count then Some (latency_sum / of_int latency_count) else None);
          avg_quality = (if 0 < quality_count then Some (quality_sum / of_int quality_count) else None);
          blended_tier =
            (if 0 < total
             then sum_list (map (\<lambda>s. sub_tier st hotkey s * of_int (s_success s + s_failure s)) subs)
                  / of_int total
             else model_tier_weight st hotkey)
      in case llm_key_efficiency_score success_count failure_count
                (map_option (\<lambda>l. Fin (l / 1000)) avg_latency_ms) True
                (map_option Fin avg_quality) (Fin blended_tier)
                EPOCH_MIN_CALLS_FOR_SCORING (Some quality_count)
                (reliability_floor_of e) (quality_floor_of e) (min_graded_of e) of
           Inl x \<Rightarrow> Inl x
         | Inr None \<Rightarrow> Inr 0
         | Inr (Some r) \<Rightarrow> Inr r)"

section \<open>Scoring the last completed epoch\<close>

text \<open>The inner loop: every key of the window as it was when the hotkey's turn came.\<close>

fun kill_bad_subs :: "env \<Rightarrow> int \<Rightarrow> string \<Rightarrow> (string \<times> sub_acc) list \<Rightarrow> vstate \<Rightarrow> py_exc + vstate" where
  "kill_bad_subs e min_calls hotkey [] st = Inr st"
| "kill_bad_subs e min_calls hotkey ((sub_key, sub) # rest) st =
     (case sub_window_floor_reason e sub min_calls of
        Inl x \<Rightarrow> Inl x
      | Inr None \<Rightarrow> kill_bad_subs e min_calls hotkey rest st
      | Inr (Some reason) \<Rightarrow>
          kill_bad_subs e min_calls hotkey rest (kill_hotkey_key hotkey sub_key reason st))"

definition live_subs :: "(string, key_state) dict \<Rightarrow> window \<Rightarrow> sub_acc list" where
  "live_subs key_states acc =
     [sub. (sub_key, sub) \<leftarrow> w_keys acc,
           case dget key_states sub_key of
             None \<Rightarrow> True
           | Some ks \<Rightarrow> (case k_alive ks of None \<Rightarrow> True | Some b \<Rightarrow> b)]"

text \<open>One turn of the outer loop.\<close>

definition score_hotkey ::
  "env \<Rightarrow> int \<Rightarrow> string list \<Rightarrow> string \<Rightarrow> vstate \<Rightarrow> rat list \<Rightarrow> py_exc + vstate \<times> rat list" where
  "score_hotkey e min_calls hotkeys hotkey st scores =
     (case dget (llm_key_last_epoch_calls st) hotkey of
        None \<Rightarrow> Inl KeyError
      | Some window \<Rightarrow>
        (case kill_bad_subs e min_calls hotkey (w_keys window) st of
           Inl x \<Rightarrow> Inl x
         | Inr st \<Rightarrow>
           (case dget (llm_key_last_epoch_calls st) hotkey of
              None \<Rightarrow> Inr (st, scores)
            | Some acc \<Rightarrow>
                let (key_states, st) = hotkey_key_states hotkey st;
                    subs = live_subs key_states acc
                in if subs = [] then Inr (st, scores)
                   else (case index_of hotkey hotkeys of
                       None \<Rightarrow> Inr (st, scores)
                     | Some uid \<Rightarrow>
                         if length scores \<le> uid then Inr (st, scores)
                         else (case pooled_window_reward e st hotkey subs of
                             Inl x \<Rightarrow> Inl x
                           | Inr r \<Rightarrow> Inr (st, scores[uid := r]))))))"

fun score_hotkeys ::
  "env \<Rightarrow> int \<Rightarrow> string list \<Rightarrow> string list \<Rightarrow> vstate \<Rightarrow> rat list \<Rightarrow> py_exc + vstate \<times> rat list" where
  "score_hotkeys e min_calls hotkeys [] st scores = Inr (st, scores)"
| "score_hotkeys e min_calls hotkeys (hk # hks) st scores =
     (case score_hotkey e min_calls hotkeys hk st scores of
        Inl x \<Rightarrow> Inl x
      | Inr (st, scores) \<Rightarrow> score_hotkeys e min_calls hotkeys hks st scores)"

definition score_last_epoch :: "env \<Rightarrow> string list \<Rightarrow> vstate \<Rightarrow> py_exc + vstate" where
  "score_last_epoch e hotkeys st =
     (case score_hotkeys e (min_calls_of e) hotkeys (dkeys (llm_key_last_epoch_calls st)) st
             (replicate (length (v_scores st)) 0) of
        Inl x \<Rightarrow> Inl x
      | Inr (st, scores) \<Rightarrow> Inr (st\<lparr>v_scores := map Fin scores\<rparr>))"

section \<open>Closing the collecting epoch\<close>

definition roll_epoch_if_needed :: "env \<Rightarrow> chain_reads \<Rightarrow> string list \<Rightarrow> vstate \<Rightarrow> py_exc + vstate" where
  "roll_epoch_if_needed e c hotkeys st =
     (let start = current_epoch_start_block c; previous = llm_key_epoch_start_block st in
      if start = None \<or> start = previous then Inr st
      else
        let epoch_length = epoch_length_blocks c;
            gap = (case (start, previous) of (Some s, Some p) \<Rightarrow> Some (s - p) | _ \<Rightarrow> None)
        in case (gap, epoch_length) of
             (Some d, Some len) \<Rightarrow>
               if 0 < d \<and> of_int d < (of_int len / 2 :: rat)
               then Inr (st\<lparr>llm_key_epoch_start_block := start\<rparr>)
               else
                 let contiguous = (0 < d \<and> (of_int d :: rat) \<le> 3/2 * of_int len);
                     closed = (if contiguous then llm_key_pending_calls st else [])
                 in score_last_epoch e hotkeys
                      (st\<lparr>llm_key_last_epoch_calls := closed, llm_key_pending_calls := [],
                          llm_key_epoch_start_block := start\<rparr>)
           | _ \<Rightarrow> score_last_epoch e hotkeys
                      (st\<lparr>llm_key_last_epoch_calls := [], llm_key_pending_calls := [],
                          llm_key_epoch_start_block := start\<rparr>))"


section \<open>What the scores must be\<close>

text \<open>
  A key is condemned when its own rows trip a floor.  The scores of an epoch are then a function of
  the state alone: a uid earns the pooled reward of the uncondemned, living keys of the hotkey that
  holds it, and nothing otherwise.
\<close>

definition condemned :: "env \<Rightarrow> sub_acc \<Rightarrow> bool" where
  "condemned e sub = (case sub_window_floor_reason e sub (min_calls_of e) of
     Inr (Some _) \<Rightarrow> True | _ \<Rightarrow> False)"

definition surviving_subs :: "env \<Rightarrow> vstate \<Rightarrow> string \<Rightarrow> sub_acc list" where
  "surviving_subs e st hotkey = (case dget (llm_key_last_epoch_calls st) hotkey of
      None \<Rightarrow> []
    | Some acc \<Rightarrow> map snd (filter (\<lambda>(k, sub). \<not> condemned e sub \<and> key_alive st hotkey k) (w_keys acc)))"

definition hotkey_reward :: "env \<Rightarrow> vstate \<Rightarrow> string \<Rightarrow> rat" where
  "hotkey_reward e st hotkey =
     (let subs = surviving_subs e st hotkey in
      if subs = [] then 0
      else (case pooled_window_reward e st hotkey subs of Inl _ \<Rightarrow> 0 | Inr r \<Rightarrow> r))"

definition epoch_score :: "env \<Rightarrow> string list \<Rightarrow> vstate \<Rightarrow> nat \<Rightarrow> rat" where
  "epoch_score e hotkeys st uid =
     (if uid < length hotkeys \<and> index_of (hotkeys ! uid) hotkeys = Some uid
      then hotkey_reward e st (hotkeys ! uid) else 0)"

text \<open>The well-formed windows: dictionaries with non-negative, mutually consistent counters.\<close>

definition sub_wf :: "sub_acc \<Rightarrow> bool" where
  "sub_wf s \<longleftrightarrow> 0 \<le> s_success s \<and> 0 \<le> s_failure s \<and> 0 \<le> s_latency_sum s \<and>
     0 \<le> s_latency_n s \<and> s_latency_n s \<le> s_success s + s_failure s \<and>
     0 \<le> s_quality_sum s \<and> s_quality_sum s \<le> of_int (s_quality_n s) \<and>
     0 \<le> s_quality_n s \<and> s_quality_n s \<le> s_success s + s_failure s \<and>
     (case s_tier s of None \<Rightarrow> True | Some t \<Rightarrow> 1/2 \<le> t \<and> t \<le> 1)"

definition window_wf :: "window \<Rightarrow> bool" where
  "window_wf acc \<longleftrightarrow> dict_wf (w_keys acc) \<and> (\<forall>p \<in> set (w_keys acc). sub_wf (snd p))"

definition windows_wf :: "(string, window) dict \<Rightarrow> bool" where
  "windows_wf windows \<longleftrightarrow> dict_wf windows \<and> (\<forall>p \<in> set windows. window_wf (snd p))"

definition vstate_wf :: "vstate \<Rightarrow> bool" where
  "vstate_wf st \<longleftrightarrow> windows_wf (llm_key_pending_calls st) \<and> windows_wf (llm_key_last_epoch_calls st)"

section \<open>Lemmas: the invariant of the windows\<close>

lemma windows_wf_Nil [simp]: "windows_wf []"
  by (simp add: windows_wf_def)

lemma windows_wf_get: "windows_wf windows \<Longrightarrow> dget windows h = Some acc \<Longrightarrow> window_wf acc"
  using dget_in_set by (fastforce simp: windows_wf_def)

lemma window_wf_put:
  "window_wf acc \<Longrightarrow> sub_wf s \<Longrightarrow> window_wf (acc\<lparr>w_keys := dput k s (w_keys acc), w_last_seen := t\<rparr>)"
  using set_dput_subset [of k s "w_keys acc"]
  by (auto simp: window_wf_def wf_intros)

lemma window_wf_pop: "window_wf acc \<Longrightarrow> window_wf (acc\<lparr>w_keys := dpop k (w_keys acc)\<rparr>)"
  using set_dpop_subset [of k "w_keys acc"]
  by (auto simp: window_wf_def wf_intros)

lemma windows_wf_put: "windows_wf windows \<Longrightarrow> window_wf acc \<Longrightarrow> windows_wf (dput h acc windows)"
  using set_dput_subset [of h acc windows]
  by (auto simp: windows_wf_def wf_intros)

lemma windows_wf_pop: "windows_wf windows \<Longrightarrow> windows_wf (dpop h windows)"
  using set_dpop_subset [of h windows]
  by (auto simp: windows_wf_def wf_intros)

lemma windows_wf_drop: "windows_wf windows \<Longrightarrow> windows_wf (drop_key_rows h k windows)"
  by (auto simp: drop_key_rows_def Let_def windows_wf_pop
      intro!: windows_wf_put window_wf_pop dest: windows_wf_get split: option.splits)

lemma vstate_wf_kill [wf_intros]: "vstate_wf st \<Longrightarrow> vstate_wf (kill_hotkey_key h k reason st)"
  by (simp add: vstate_wf_def windows_wf_drop)

lemma sub_wf_empty: "sub_wf empty_sub"
  by (simp add: sub_wf_def empty_sub_def)

lemma weight_bounds: "0 \<le> calls \<Longrightarrow> 0 \<le> weight v calls \<and> weight v calls \<le> calls"
  by (simp add: weight_def split: option.splits)

lemma weighted_latency: "0 \<le> weighted (sanitize_latency_ms v) calls"
  by (auto simp: weighted_def dest!: sanitize_latency_nonneg split: option.splits)

lemma weighted_quality:
  "0 \<le> weighted (sanitize_quality_score v) calls \<and>
   weighted (sanitize_quality_score v) calls \<le> of_int (weight (sanitize_quality_score v) calls)"
proof (cases "sanitize_quality_score v")
  case (Some q)
  with sanitize_quality_unit [OF Some] show ?thesis
    by (simp add: weighted_def weight_def mult_left_le_one_le)
qed (simp add: weighted_def weight_def)

lemma sub_wf_add_row:
  assumes "sub_wf s" "0 \<le> r_success r" "0 \<le> r_failure r" "1/2 \<le> tier" "tier \<le> 1"
  shows "sub_wf (add_row r tier s)"
proof -
  let ?n = "r_success r + r_failure r"
  have n: "0 \<le> ?n" using assms by simp
  note facts = weight_bounds [OF n, of "sanitize_latency_ms (r_latency_ms r)"]
    weight_bounds [OF n, of "sanitize_quality_score (r_quality r)"]
    weighted_latency [of "r_latency_ms r" ?n] weighted_quality [of "r_quality r" ?n]
  show ?thesis
    using assms facts unfolding sub_wf_def add_row_simps
    by (simp add: add_mono)
qed

lemma window_wf_or_new: "vstate_wf st \<Longrightarrow> window_wf (window_or_new st h now)"
  by (auto simp: window_or_new_def vstate_wf_def window_wf_def [of "\<lparr>w_keys = [], w_first_seen = _, w_last_seen = _\<rparr>"]
      dest: windows_wf_get split: option.splits)

lemma sub_wf_or_empty: "window_wf acc \<Longrightarrow> sub_wf (sub_or_empty acc k)"
  using dget_in_set by (fastforce simp: sub_or_empty_def sub_wf_empty window_wf_def split: option.splits)

lemma vstate_wf_fold [wf_intros]:
  assumes "vstate_wf st"
  shows "vstate_wf (fold_report_into_pending h r now st)"
proof (cases "r_success r < 0 \<or> r_failure r < 0")
  case True
  then show ?thesis using assms by (simp add: fold_report_into_pending_def)
next
  case False
  then have nn: "0 \<le> r_success r" "0 \<le> r_failure r" by auto
  have "window_wf ((window_or_new st h now)\<lparr>w_keys :=
        dput (report_sub_key r)
          (add_row r (tier_for_report st h r) (sub_or_empty (window_or_new st h now) (report_sub_key r)))
          (w_keys (window_or_new st h now)), w_last_seen := now\<rparr>)"
    using assms nn tier_for_report_bounds [of st h r]
    by (intro window_wf_put window_wf_or_new sub_wf_add_row sub_wf_or_empty) auto
  then show ?thesis
    using assms by (simp add: vstate_wf_def fold_pending [OF nn] windows_wf_put)
qed


section \<open>Lemmas: scoring an epoch\<close>

lemma pooled_window_reward_unit:
  assumes "pooled_window_reward e st h subs = Inr r"
  shows "0 \<le> r \<and> r \<le> 1"
  using assms
  by (auto simp: pooled_window_reward_def Let_def dest!: efficiency_score_unit
      split: sum.splits option.splits)

lemma pooled_window_reward_total: "pooled_window_reward e st h subs \<noteq> Inl x"
  using efficiency_score_total [of EPOCH_MIN_CALLS_FOR_SCORING]
  by (simp add: pooled_window_reward_def Let_def EPOCH_MIN_CALLS_FOR_SCORING_def
      split: sum.splits option.splits)

lemma pooled_window_reward_cong:
  "model_tier_weight st h = model_tier_weight st' h \<Longrightarrow>
   pooled_window_reward e st h subs = pooled_window_reward e st' h subs"
proof -
  assume a: "model_tier_weight st h = model_tier_weight st' h"
  then have "sub_tier st h = sub_tier st' h"
    by (simp add: sub_tier_def fun_eq_iff split: option.split)
  with a show ?thesis unfolding pooled_window_reward_def by (simp only:)
qed

lemma hotkey_reward_unit: "0 \<le> hotkey_reward e st h \<and> hotkey_reward e st h \<le> 1"
  by (auto simp: hotkey_reward_def Let_def dest: pooled_window_reward_unit split: sum.splits)

lemma epoch_score_unit: "0 \<le> epoch_score e hotkeys st uid \<and> epoch_score e hotkeys st uid \<le> 1"
  by (simp add: epoch_score_def hotkey_reward_unit)

lemma floor_reason_total:
  assumes "1 \<le> min_calls" "1 \<le> min_graded_of e"
  shows "sub_window_floor_reason e sub min_calls \<noteq> Inl x"
  using assms by (auto simp: sub_window_floor_reason_def Let_def)

text \<open>Dropping several keys of one hotkey.\<close>

lemma dpop_filter: "dpop k m = filter (\<lambda>p. fst p \<noteq> k) m"
  by (induction m) auto

definition drop_keys :: "string \<Rightarrow> string list \<Rightarrow> (string, window) dict \<Rightarrow> (string, window) dict" where
  "drop_keys h ks windows = fold (drop_key_rows h) ks windows"

lemma drop_keys_simps [simp]:
  "drop_keys h [] windows = windows"
  "drop_keys h (k # ks) windows = drop_keys h ks (drop_key_rows h k windows)"
  by (simp_all add: drop_keys_def)

lemma drop_keys_other: "h' \<noteq> h \<Longrightarrow> dget (drop_keys h ks windows) h' = dget windows h'"
  by (induction ks arbitrary: windows) (simp_all add: drop_key_rows_other)

lemma drop_keys_same:
  "dget (drop_keys h ks windows) h = (case dget windows h of
     None \<Rightarrow> None
   | Some acc \<Rightarrow>
       let keys = filter (\<lambda>p. fst p \<notin> set ks) (w_keys acc) in
       if keys = [] \<and> ks \<noteq> [] then None else Some (acc\<lparr>w_keys := keys\<rparr>))"
proof (induction ks arbitrary: windows)
  case Nil
  then show ?case by (simp split: option.splits)
next
  case (Cons k ks)
  show ?case
  proof (cases "dget windows h")
    case None
    with Cons show ?thesis by (simp add: drop_key_rows_same)
  next
    case (Some acc)
    then show ?thesis
      by (auto simp: Cons drop_key_rows_same Let_def dpop_filter filter_empty_conv conj_commute)
  qed
qed

lemma windows_wf_drop_keys: "windows_wf windows \<Longrightarrow> windows_wf (drop_keys h ks windows)"
  by (induction ks arbitrary: windows) (simp_all add: windows_wf_drop)

text \<open>The inner loop cuts exactly the condemned keys.\<close>

definition condemned_keys :: "env \<Rightarrow> (string \<times> sub_acc) list \<Rightarrow> string list" where
  "condemned_keys e subs = map fst (filter (\<lambda>p. condemned e (snd p)) subs)"

lemma kill_bad_subs_spec:
  assumes "1 \<le> min_calls_of e" "1 \<le> min_graded_of e"
  shows "\<exists>st'. kill_bad_subs e (min_calls_of e) h subs st = Inr st' \<and>
    llm_key_pending_calls st' = drop_keys h (condemned_keys e subs) (llm_key_pending_calls st) \<and>
    llm_key_last_epoch_calls st' = drop_keys h (condemned_keys e subs) (llm_key_last_epoch_calls st) \<and>
    v_scores st' = v_scores st \<and> llm_key_epoch_start_block st' = llm_key_epoch_start_block st \<and>
    (\<forall>h'. model_tier_weight st' h' = model_tier_weight st h') \<and>
    (\<forall>h' k. key_alive st' h' k \<longleftrightarrow> \<not> (h' = h \<and> k \<in> set (condemned_keys e subs)) \<and> key_alive st h' k)"
proof (induction subs arbitrary: st)
  case Nil
  then show ?case by (simp add: condemned_keys_def)
next
  case (Cons p subs)
  obtain k sub where p: "p = (k, sub)" by force
  show ?case
  proof (cases "sub_window_floor_reason e sub (min_calls_of e)")
    case (Inl x)
    with floor_reason_total [OF assms] show ?thesis by simp
  next
    case (Inr reason)
    show ?thesis
    proof (cases reason)
      case None
      then have "condemned_keys e (p # subs) = condemned_keys e subs"
        by (simp add: condemned_keys_def condemned_def p Inr)
      with Cons.IH [of st] show ?thesis by (simp add: p Inr None)
    next
      case (Some why)
      then have ks: "condemned_keys e (p # subs) = k # condemned_keys e subs"
        by (simp add: condemned_keys_def condemned_def p Inr)
      have step: "kill_bad_subs e (min_calls_of e) h (p # subs) st =
          kill_bad_subs e (min_calls_of e) h subs (kill_hotkey_key h k why st)"
        by (simp add: p Inr Some)
      show ?thesis
        using Cons.IH [of "kill_hotkey_key h k why st"]
        unfolding step ks by (auto simp: kill_alive)
    qed
  qed
qed

text \<open>What one turn leaves for the turns after it.\<close>

definition same_epoch :: "env \<Rightarrow> vstate \<Rightarrow> vstate \<Rightarrow> bool" where
  "same_epoch e st st' \<longleftrightarrow> (\<forall>h. surviving_subs e st' h = surviving_subs e st h) \<and>
     (\<forall>h. model_tier_weight st' h = model_tier_weight st h) \<and>
     v_scores st' = v_scores st \<and> llm_key_epoch_start_block st' = llm_key_epoch_start_block st"

lemma same_epoch_refl: "same_epoch e st st"
  by (simp add: same_epoch_def)

lemma same_epoch_trans: "same_epoch e st1 st2 \<Longrightarrow> same_epoch e st2 st3 \<Longrightarrow> same_epoch e st1 st3"
  by (simp add: same_epoch_def)

lemma same_epoch_reward: "same_epoch e st st' \<Longrightarrow> hotkey_reward e st' h = hotkey_reward e st h"
  using pooled_window_reward_cong [of st' h st]
  by (simp add: same_epoch_def hotkey_reward_def Let_def)

lemma same_epoch_score: "same_epoch e st st' \<Longrightarrow> epoch_score e hotkeys st' uid = epoch_score e hotkeys st uid"
  by (simp add: epoch_score_def same_epoch_reward)

lemma live_subs_filter:
  "live_subs (states_of (entry_or_new st h)) acc =
   map snd (filter (\<lambda>p. key_alive st h (fst p)) (w_keys acc))"
proof -
  have "concat (map (\<lambda>(k, sub). if P k then [sub] else []) xs) = map snd (filter (\<lambda>p. P (fst p)) xs)"
    for P and xs :: "(string \<times> sub_acc) list"
    by (induction xs) auto
  then show ?thesis
    by (simp add: live_subs_def key_alive_def)
qed

lemma map_snd_filter_cong:
  assumes "\<And>p. p \<in> set xs \<Longrightarrow> P p = Q p"
  shows "map snd (filter P xs) = map snd (filter Q xs)"
  using assms by (metis filter_cong)

lemma condemned_key_iff:
  assumes "dict_wf subs" "p \<in> set subs"
  shows "fst p \<in> set (condemned_keys e subs) \<longleftrightarrow> condemned e (snd p)"
proof
  assume "fst p \<in> set (condemned_keys e subs)"
  then obtain q where q: "q \<in> set subs" "condemned e (snd q)" "fst q = fst p"
    by (auto simp: condemned_keys_def)
  with assms have "q = p"
    by (metis dict_wf_get option.inject prod.collapse)
  with q show "condemned e (snd p)" by simp
qed (use assms in \<open>auto simp: condemned_keys_def\<close>)


lemma dkeys_dict_wf_window: "windows_wf windows \<Longrightarrow> dget windows h = Some acc \<Longrightarrow> dict_wf (w_keys acc)"
  using windows_wf_get by (auto simp: window_wf_def)

lemma surviving_after_kill:
  assumes wf: "windows_wf (llm_key_last_epoch_calls st)"
    and win: "dget (llm_key_last_epoch_calls st) h = Some window"
    and last: "llm_key_last_epoch_calls st' =
      drop_keys h (condemned_keys e (w_keys window)) (llm_key_last_epoch_calls st)"
    and alive: "\<And>h' k. key_alive st' h' k \<longleftrightarrow>
      \<not> (h' = h \<and> k \<in> set (condemned_keys e (w_keys window))) \<and> key_alive st h' k"
  shows "surviving_subs e st' h' = surviving_subs e st h'"
    and "dget (llm_key_last_epoch_calls st') h = Some acc \<Longrightarrow>
      live_subs (states_of (entry_or_new st' h)) acc = surviving_subs e st h"
    and "dget (llm_key_last_epoch_calls st') h = None \<Longrightarrow> surviving_subs e st h = []"
proof -
  have subs_wf: "dict_wf (w_keys window)" by (rule dkeys_dict_wf_window [OF wf win])
  let ?bad = "condemned_keys e (w_keys window)"
  have iff: "a \<in> set ?bad \<longleftrightarrow> condemned e b" if "(a, b) \<in> set (w_keys window)" for a b
    using condemned_key_iff [OF subs_wf that] by simp
  have orig: "surviving_subs e st h =
      map snd (filter (\<lambda>p. fst p \<notin> set ?bad \<and> key_alive st h (fst p)) (w_keys window))"
    unfolding surviving_subs_def win
    by (auto simp: case_prod_beta iff intro!: map_snd_filter_cong)
  have after: "surviving_subs e st' h = surviving_subs e st h"
    unfolding orig
    by (auto simp: surviving_subs_def last drop_keys_same win Let_def alive case_prod_beta
        filter_empty_conv iff [symmetric] intro!: map_snd_filter_cong)
  show "surviving_subs e st' h' = surviving_subs e st h'"
  proof (cases "h' = h")
    case False
    then have ka: "key_alive st' h' = key_alive st h'" by (simp add: alive fun_eq_iff)
    show ?thesis unfolding surviving_subs_def last drop_keys_other [OF False] ka ..
  qed (simp add: after)
  show "live_subs (states_of (entry_or_new st' h)) acc = surviving_subs e st h"
    if "dget (llm_key_last_epoch_calls st') h = Some acc"
    using that unfolding orig live_subs_filter
    by (auto simp: last drop_keys_same win Let_def alive split: if_splits intro!: map_snd_filter_cong)
  show "surviving_subs e st h = []" if "dget (llm_key_last_epoch_calls st') h = None"
    using that unfolding after [symmetric] by (simp add: surviving_subs_def)
qed


lemma score_hotkey_spec:
  assumes pos: "1 \<le> min_calls_of e" "1 \<le> min_graded_of e"
    and wf: "windows_wf (llm_key_last_epoch_calls st)"
    and win: "dget (llm_key_last_epoch_calls st) h = Some window"
  shows "\<exists>st'. score_hotkey e (min_calls_of e) hotkeys h st scores =
      Inr (st', (case index_of h hotkeys of
            None \<Rightarrow> scores
          | Some uid \<Rightarrow> if surviving_subs e st h = [] then scores else scores[uid := hotkey_reward e st h])) \<and>
    same_epoch e st st' \<and>
    llm_key_last_epoch_calls st' = drop_keys h (condemned_keys e (w_keys window)) (llm_key_last_epoch_calls st) \<and>
    llm_key_pending_calls st' = drop_keys h (condemned_keys e (w_keys window)) (llm_key_pending_calls st)"
proof -
  obtain st1 where k: "kill_bad_subs e (min_calls_of e) h (w_keys window) st = Inr st1"
    and pend: "llm_key_pending_calls st1 = drop_keys h (condemned_keys e (w_keys window)) (llm_key_pending_calls st)"
    and last: "llm_key_last_epoch_calls st1 = drop_keys h (condemned_keys e (w_keys window)) (llm_key_last_epoch_calls st)"
    and rest: "v_scores st1 = v_scores st" "llm_key_epoch_start_block st1 = llm_key_epoch_start_block st"
      "\<And>h'. model_tier_weight st1 h' = model_tier_weight st h'"
    and alive: "\<And>h' k. key_alive st1 h' k \<longleftrightarrow>
      \<not> (h' = h \<and> k \<in> set (condemned_keys e (w_keys window))) \<and> key_alive st h' k"
    using kill_bad_subs_spec [OF pos, of h "w_keys window" st] by auto
  note surv = surviving_after_kill [OF wf win last alive]
  have same1: "same_epoch e st st1" using surv(1) rest by (simp add: same_epoch_def)
  let ?st2 = "snd (hotkey_key_states h st1)"
  have alive2: "key_alive ?st2 = key_alive st1" by (simp add: key_alive_def fun_eq_iff)
  have same2: "same_epoch e st1 ?st2"
    unfolding same_epoch_def surviving_subs_def alive2 by simp
  have reward: "pooled_window_reward e ?st2 h (surviving_subs e st h) = Inr (hotkey_reward e st h)"
    if ne: "surviving_subs e st h \<noteq> []"
  proof -
    have "pooled_window_reward e ?st2 h (surviving_subs e st h) =
        pooled_window_reward e st h (surviving_subs e st h)"
      by (rule pooled_window_reward_cong) (simp add: rest)
    then show ?thesis using ne pooled_window_reward_total
      by (auto simp: hotkey_reward_def split: sum.splits)
  qed
  show ?thesis
  proof (cases "dget (llm_key_last_epoch_calls st1) h")
    case None
    then have "score_hotkey e (min_calls_of e) hotkeys h st scores = Inr (st1, scores)"
      by (simp add: score_hotkey_def win k)
    with surv(3) [OF None] same1 pend last show ?thesis by (auto split: option.splits)
  next
    case (Some acc)
    have out: "list_update scores uid r = scores" if "length scores \<le> uid" for uid r
      by (rule list_update_beyond [OF that])
    have "score_hotkey e (min_calls_of e) hotkeys h st scores =
      Inr (?st2, (case index_of h hotkeys of
            None \<Rightarrow> scores
          | Some uid \<Rightarrow> if surviving_subs e st h = [] then scores else scores[uid := hotkey_reward e st h]))"
      using surv(2) [OF Some] out reward
      by (cases "index_of h hotkeys"; cases "surviving_subs e st h = []")
        (simp_all add: score_hotkey_def win k Some case_prod_beta Let_def)
    moreover have "same_epoch e st ?st2" by (rule same_epoch_trans [OF same1 same2])
    ultimately show ?thesis using pend last by auto
  qed
qed

text \<open>
  The scores after the turns of \<open>hks\<close>: a uid whose hotkey had its turn and has surviving keys holds its
  reward, every other uid what it held before.
\<close>

definition scored :: "env \<Rightarrow> string list \<Rightarrow> vstate \<Rightarrow> string list \<Rightarrow> rat list \<Rightarrow> nat \<Rightarrow> rat" where
  "scored e hotkeys st hks scores uid =
     (if uid < length hotkeys \<and> index_of (hotkeys ! uid) hotkeys = Some uid \<and>
         hotkeys ! uid \<in> set hks \<and> surviving_subs e st (hotkeys ! uid) \<noteq> []
      then hotkey_reward e st (hotkeys ! uid) else scores ! uid)"

definition after_turn :: "env \<Rightarrow> string list \<Rightarrow> vstate \<Rightarrow> string \<Rightarrow> rat list \<Rightarrow> rat list" where
  "after_turn e hotkeys st h scores = (case index_of h hotkeys of
      None \<Rightarrow> scores
    | Some uid \<Rightarrow> if surviving_subs e st h = [] then scores else scores[uid := hotkey_reward e st h])"

lemma length_after_turn [simp]: "length (after_turn e hotkeys st h scores) = length scores"
  by (simp add: after_turn_def split: option.split)

lemma after_turn_nth:
  "uid < length scores \<Longrightarrow> after_turn e hotkeys st h scores ! uid =
     (if index_of h hotkeys = Some uid \<and> surviving_subs e st h \<noteq> [] then hotkey_reward e st h else scores ! uid)"
  by (auto simp: after_turn_def split: option.splits)

lemma scored_Cons:
  assumes "same_epoch e st st1" "uid < length scores"
  shows "scored e hotkeys st1 hks (after_turn e hotkeys st h scores) uid = scored e hotkeys st (h # hks) scores uid"
proof (cases "index_of h hotkeys = Some uid")
  case True
  with index_of_SomeD [OF this] have "uid < length hotkeys" "hotkeys ! uid = h" by auto
  with True assms show ?thesis
    by (simp add: scored_def after_turn_nth same_epoch_reward [OF assms(1)]) (simp add: same_epoch_def)
next
  case False
  then have "\<not> (index_of (hotkeys ! uid) hotkeys = Some uid \<and> hotkeys ! uid = h)" by auto
  moreover have "surviving_subs e st1 x = surviving_subs e st x" for x using assms(1) by (simp add: same_epoch_def)
  ultimately show ?thesis
    using False assms(2) by (auto simp: scored_def after_turn_nth same_epoch_reward [OF assms(1)])
qed

lemma drop_keys_Nil [simp]: "drop_keys h ks [] = []"
  by (induction ks) (simp_all add: drop_key_rows_def)

lemma score_hotkeys_spec:
  assumes pos: "1 \<le> min_calls_of e" "1 \<le> min_graded_of e"
  shows "windows_wf (llm_key_last_epoch_calls st) \<Longrightarrow> distinct hks \<Longrightarrow>
    (\<forall>h \<in> set hks. dget (llm_key_last_epoch_calls st) h \<noteq> None) \<Longrightarrow>
    \<exists>st' scores'. score_hotkeys e (min_calls_of e) hotkeys hks st scores = Inr (st', scores') \<and>
      same_epoch e st st' \<and> windows_wf (llm_key_last_epoch_calls st') \<and>
      (windows_wf (llm_key_pending_calls st) \<longrightarrow> windows_wf (llm_key_pending_calls st')) \<and>
      (llm_key_pending_calls st = [] \<longrightarrow> llm_key_pending_calls st' = []) \<and>
      length scores' = length scores \<and>
      (\<forall>uid < length scores. scores' ! uid = scored e hotkeys st hks scores uid)"
proof (induction hks arbitrary: st scores)
  case Nil
  then show ?case by (simp add: same_epoch_refl scored_def)
next
  case (Cons h hks)
  let ?w = "llm_key_last_epoch_calls st" and ?s = "after_turn e hotkeys st h scores"
  obtain window where win: "dget ?w h = Some window" using Cons.prems by auto
  obtain st1 where step: "score_hotkey e (min_calls_of e) hotkeys h st scores = Inr (st1, ?s)"
    and same: "same_epoch e st st1"
    and last: "llm_key_last_epoch_calls st1 = drop_keys h (condemned_keys e (w_keys window)) ?w"
    and pend: "llm_key_pending_calls st1 = drop_keys h (condemned_keys e (w_keys window)) (llm_key_pending_calls st)"
    using score_hotkey_spec [OF pos Cons.prems(1) win] unfolding after_turn_def by blast
  have wf1: "windows_wf (llm_key_last_epoch_calls st1)"
    unfolding last by (rule windows_wf_drop_keys [OF Cons.prems(1)])
  have "\<forall>h' \<in> set hks. dget (llm_key_last_epoch_calls st1) h' \<noteq> None"
  proof
    fix h' assume "h' \<in> set hks"
    with Cons.prems(2,3) show "dget (llm_key_last_epoch_calls st1) h' \<noteq> None"
      unfolding last by (subst drop_keys_other) auto
  qed
  then obtain st' scores' where rec: "score_hotkeys e (min_calls_of e) hotkeys hks st1 ?s = Inr (st', scores')"
    "same_epoch e st1 st'" "windows_wf (llm_key_last_epoch_calls st')"
    "windows_wf (llm_key_pending_calls st1) \<longrightarrow> windows_wf (llm_key_pending_calls st')"
    "llm_key_pending_calls st1 = [] \<longrightarrow> llm_key_pending_calls st' = []"
    "length scores' = length ?s" "\<forall>uid < length ?s. scores' ! uid = scored e hotkeys st1 hks ?s uid"
    using Cons.IH [OF wf1, of ?s] Cons.prems(2) by auto
  have "\<forall>uid < length scores. scores' ! uid = scored e hotkeys st (h # hks) scores uid"
    using rec(7) scored_Cons [OF same] by simp
  moreover have "windows_wf (llm_key_pending_calls st) \<longrightarrow> windows_wf (llm_key_pending_calls st')"
    "llm_key_pending_calls st = [] \<longrightarrow> llm_key_pending_calls st' = []"
    using rec(4,5) windows_wf_drop_keys unfolding pend by auto
  ultimately show ?case
    using rec(3,6) same_epoch_trans [OF same rec(2)] by (simp add: step rec(1))
qed

lemma score_last_epoch_facts:
  assumes pos: "1 \<le> min_calls_of e" "1 \<le> min_graded_of e"
    and wf: "windows_wf (llm_key_last_epoch_calls st)"
  shows "\<exists>st'. score_last_epoch e hotkeys st = Inr st' \<and>
    v_scores st' = map (\<lambda>uid. Fin (epoch_score e hotkeys st uid)) [0..<length (v_scores st)] \<and>
    (\<forall>uid. epoch_score e hotkeys st' uid = epoch_score e hotkeys st uid) \<and>
    windows_wf (llm_key_last_epoch_calls st') \<and>
    (windows_wf (llm_key_pending_calls st) \<longrightarrow> windows_wf (llm_key_pending_calls st')) \<and>
    (llm_key_pending_calls st = [] \<longrightarrow> llm_key_pending_calls st' = []) \<and>
    llm_key_epoch_start_block st' = llm_key_epoch_start_block st"
proof -
  let ?hks = "dkeys (llm_key_last_epoch_calls st)" and ?zero = "replicate (length (v_scores st)) (0 :: rat)"
  have d: "distinct ?hks" using wf by (simp add: windows_wf_def dict_wf_def)
  have dom: "\<forall>h \<in> set ?hks. dget (llm_key_last_epoch_calls st) h \<noteq> None"
    by (metis dget_None_iff)
  obtain st1 scores where run: "score_hotkeys e (min_calls_of e) hotkeys ?hks st ?zero = Inr (st1, scores)"
    and same: "same_epoch e st st1" and wf1: "windows_wf (llm_key_last_epoch_calls st1)"
    and pend: "windows_wf (llm_key_pending_calls st) \<longrightarrow> windows_wf (llm_key_pending_calls st1)"
      "llm_key_pending_calls st = [] \<longrightarrow> llm_key_pending_calls st1 = []"
    and len: "length scores = length ?zero"
    and vals: "\<forall>uid < length ?zero. scores ! uid = scored e hotkeys st ?hks ?zero uid"
    using score_hotkeys_spec [OF pos wf d dom, of hotkeys ?zero] by blast
  have none: "hotkey_reward e st h = 0" if "h \<notin> set ?hks \<or> surviving_subs e st h = []" for h
  proof (cases "surviving_subs e st h = []")
    case False
    with that have "dget (llm_key_last_epoch_calls st) h = None" by (metis dget_None_iff)
    with False show ?thesis by (simp add: surviving_subs_def)
  qed (simp add: hotkey_reward_def)
  have "scores = map (epoch_score e hotkeys st) [0..<length (v_scores st)]"
  proof (rule nth_equalityI)
    fix uid assume "uid < length scores"
    with len vals show "scores ! uid = map (epoch_score e hotkeys st) [0..<length (v_scores st)] ! uid"
      using none [of "hotkeys ! uid"] by (auto simp: epoch_score_def scored_def)
  qed (simp add: len)
  moreover have "epoch_score e hotkeys (st1\<lparr>v_scores := x\<rparr>) uid = epoch_score e hotkeys st uid" for x uid
  proof -
    have alive: "key_alive (st1\<lparr>v_scores := x\<rparr>) = key_alive st1"
      by (simp add: fun_eq_iff key_alive_def entry_or_new_def)
    have "surviving_subs e (st1\<lparr>v_scores := x\<rparr>) = surviving_subs e st1"
      unfolding surviving_subs_def alive by simp
    moreover have "model_tier_weight (st1\<lparr>v_scores := x\<rparr>) = model_tier_weight st1"
      by (simp add: fun_eq_iff model_tier_weight_def)
    ultimately have "hotkey_reward e (st1\<lparr>v_scores := x\<rparr>) h = hotkey_reward e st1 h" for h
      using pooled_window_reward_cong [of "st1\<lparr>v_scores := x\<rparr>" h st1]
      by (simp add: hotkey_reward_def Let_def cong: if_cong)
    then show ?thesis by (simp add: epoch_score_def same_epoch_reward [OF same])
  qed
  ultimately show ?thesis
    using run same wf1 pend by (simp add: score_last_epoch_def same_epoch_def)
qed

text \<open>Where a changed chain epoch leads: which windows are paid.\<close>

definition rolled :: "chain_reads \<Rightarrow> vstate \<Rightarrow> vstate" where
  "rolled c st = st\<lparr>
     llm_key_last_epoch_calls :=
       (case (current_epoch_start_block c, llm_key_epoch_start_block st, epoch_length_blocks c) of
          (Some s, Some p, Some len) \<Rightarrow>
            if p < s \<and> 2 * (s - p) \<le> 3 * len then llm_key_pending_calls st else []
        | _ \<Rightarrow> []),
     llm_key_pending_calls := [],
     llm_key_epoch_start_block := current_epoch_start_block c\<rparr>"

definition short_epoch :: "chain_reads \<Rightarrow> vstate \<Rightarrow> bool" where
  "short_epoch c st = (case (current_epoch_start_block c, llm_key_epoch_start_block st, epoch_length_blocks c) of
      (Some s, Some p, Some len) \<Rightarrow> p < s \<and> 2 * (s - p) < len
    | _ \<Rightarrow> False)"

lemma rat_halves:
  "(of_int d < (of_int len / 2 :: rat)) = (2 * d < len)"
  "((of_int d :: rat) \<le> 3 / 2 * of_int len) = (2 * d \<le> 3 * len)"
proof -
  have "(of_int d < (of_int len / 2 :: rat)) = (of_int (2 * d) < (of_int len :: rat))"
    by (simp add: field_simps)
  then show "(of_int d < (of_int len / 2 :: rat)) = (2 * d < len)" by (simp only: of_int_less_iff)
  have "((of_int d :: rat) \<le> 3 / 2 * of_int len) = ((of_int (2 * d) :: rat) \<le> of_int (3 * len))"
    by (simp add: field_simps)
  then show "((of_int d :: rat) \<le> 3 / 2 * of_int len) = (2 * d \<le> 3 * len)" by (simp only: of_int_le_iff)
qed

lemma roll_cases:
  "roll_epoch_if_needed e c hotkeys st =
   (if current_epoch_start_block c = None \<or> current_epoch_start_block c = llm_key_epoch_start_block st
    then Inr st
    else if short_epoch c st then Inr (st\<lparr>llm_key_epoch_start_block := current_epoch_start_block c\<rparr>)
    else score_last_epoch e hotkeys (rolled c st))"
  by (auto simp: roll_epoch_if_needed_def Let_def rolled_def short_epoch_def rat_halves
      split: option.splits)

lemma vstate_wf_rolled: "vstate_wf st \<Longrightarrow> vstate_wf (rolled c st)"
  by (auto simp: rolled_def vstate_wf_def split: option.splits)

lemma vstate_wf_score:
  assumes "1 \<le> min_calls_of e" "1 \<le> min_graded_of e" "vstate_wf st"
  shows "\<exists>st'. score_last_epoch e hotkeys st = Inr st' \<and> vstate_wf st'"
  using assms score_last_epoch_facts [of e st hotkeys] by (auto simp: vstate_wf_def)

lemma vstate_wf_roll:
  assumes "1 \<le> min_calls_of e" "1 \<le> min_graded_of e" "vstate_wf st"
  shows "\<exists>st'. roll_epoch_if_needed e c hotkeys st = Inr st' \<and> vstate_wf st'"
  using assms(3) vstate_wf_score [OF assms(1,2) vstate_wf_rolled [OF assms(3)]]
  unfolding roll_cases by (auto simp: vstate_wf_def)

section \<open>Properties\<close>

lemma default_floors [simp]: "min_calls_of no_env = 5" "min_graded_of no_env = 3"
  by (simp_all add: min_calls_of_def min_graded_of_def env_int_def
      LLM_KEY_MIN_CALLS_FOR_SCORING_def LLM_KEY_QUALITY_FLOOR_MIN_GRADED_def)

lemma vstate_wf_initial: "vstate_wf (initial_vstate n)"
  by (simp add: vstate_wf_def initial_vstate_def)

text \<open>The window invariant (duplicate-free dictionaries, non-negative counters, no more
  latency or quality readings than calls, quality sums within their counts, tiers between one half
  and one) survives every operation on the windows: folding any row, malformed ones included,
  cutting a key, recomputing the scores and rolling the epoch.  The last two return normally, given
  positive configured evidence bars.\<close>

theorem window_invariant_kept:
  assumes "1 \<le> min_calls_of e" "1 \<le> min_graded_of e" "vstate_wf st"
  shows "vstate_wf (fold_report_into_pending h r now st) \<and>
    vstate_wf (kill_hotkey_key h k reason st) \<and>
    (\<exists>st'. score_last_epoch e hotkeys st = Inr st' \<and> vstate_wf st') \<and>
    (\<exists>st'. roll_epoch_if_needed e c hotkeys st = Inr st' \<and> vstate_wf st')"
  by (intro conjI vstate_wf_fold vstate_wf_kill vstate_wf_score vstate_wf_roll assms)

theorem window_invariant_kept_witness:
  "\<exists>st'. score_last_epoch no_env [''a''] (initial_vstate 3) = Inr st' \<and> vstate_wf st'"
  using window_invariant_kept [of no_env "initial_vstate 3" "[]" undefined 0 "[]" "[]" "[''a'']"]
    vstate_wf_initial by simp

text \<open>C7: The recomputed scores are a function of the state alone and refine the specification
  \<open>epoch_score\<close>: a uid gets the pooled reward of the keys of its hotkey that are alive and trip no
  floor on their own rows, every other uid gets 0, and each value lies in the unit interval.
  Recomputing again yields the same scores, although the first run cut the condemned keys.\<close>

theorem score_last_epoch_correct:
  assumes "1 \<le> min_calls_of e" "1 \<le> min_graded_of e" "windows_wf (llm_key_last_epoch_calls st)"
  shows "\<exists>st' st''. score_last_epoch e hotkeys st = Inr st' \<and>
    v_scores st' = map (\<lambda>uid. Fin (epoch_score e hotkeys st uid)) [0..<length (v_scores st)] \<and>
    (\<forall>uid. 0 \<le> epoch_score e hotkeys st uid \<and> epoch_score e hotkeys st uid \<le> 1) \<and>
    score_last_epoch e hotkeys st' = Inr st'' \<and> v_scores st'' = v_scores st'"
proof -
  obtain st' where 1: "score_last_epoch e hotkeys st = Inr st'"
    "v_scores st' = map (\<lambda>uid. Fin (epoch_score e hotkeys st uid)) [0..<length (v_scores st)]"
    "\<forall>uid. epoch_score e hotkeys st' uid = epoch_score e hotkeys st uid"
    "windows_wf (llm_key_last_epoch_calls st')"
    using score_last_epoch_facts [OF assms] by blast
  obtain st'' where "score_last_epoch e hotkeys st' = Inr st''"
    "v_scores st'' = map (\<lambda>uid. Fin (epoch_score e hotkeys st' uid)) [0..<length (v_scores st')]"
    using score_last_epoch_facts [OF assms(1,2) 1(4)] by blast
  with 1 epoch_score_unit show ?thesis by auto
qed

theorem score_last_epoch_correct_witness:
  "\<exists>st'. score_last_epoch no_env [''a''] ((initial_vstate 2)\<lparr>llm_key_last_epoch_calls :=
     [(''a'', \<lparr>w_keys = [(''7'', empty_sub\<lparr>s_success := 4, s_tier := Some 1\<rparr>)],
               w_first_seen = 0, w_last_seen = 0\<rparr>)]\<rparr>) = Inr st' \<and>
     v_scores st' = [Fin (77/125), Fin 0]"
proof -
  let ?st = "(initial_vstate 2)\<lparr>llm_key_last_epoch_calls :=
     [(''a'', \<lparr>w_keys = [(''7'', empty_sub\<lparr>s_success := 4, s_tier := Some 1\<rparr>)],
               w_first_seen = 0, w_last_seen = 0\<rparr>)]\<rparr>"
  have wf: "windows_wf (llm_key_last_epoch_calls ?st)"
    by (simp add: windows_wf_def window_wf_def sub_wf_def dict_wf_def empty_sub_def)
  have surv: "surviving_subs no_env ?st ''a'' = [empty_sub\<lparr>s_success := 4, s_tier := Some 1\<rparr>]"
    by (simp add: surviving_subs_def condemned_def sub_window_floor_reason_def Let_def empty_sub_def
        key_alive_def entry_or_new_def states_of_def empty_entry_def initial_vstate_def)
  have reward: "hotkey_reward no_env ?st ''a'' = 77/125"
    unfolding hotkey_reward_def surv pooled_window_reward_def
    by (simp add: Let_def empty_sub_def sub_tier_def
        efficiency_score_cases below_reliability_floor_def below_quality_floor_def
        reliability_floor_of_def env_float_def LLM_KEY_RELIABILITY_HARD_FLOOR_def usable_or_def
        EPOCH_MIN_CALLS_FOR_SCORING_def composite_of_def quality_component_def
        latency_component_def volume_component_def tier_factor_def)
  have len: "length (v_scores ?st) = 2" by (simp add: initial_vstate_def)
  have vals: "map (\<lambda>uid. Fin (epoch_score no_env [''a''] ?st uid)) [0..<2] = [Fin (77/125), Fin 0]"
    using reward by (simp add: epoch_score_def upt_rec)
  show ?thesis
    using score_last_epoch_correct [of no_env ?st "[''a'']", OF _ _ wf] unfolding len vals by auto
qed

text \<open>C8: Closing an epoch.  An unreadable or unchanged chain epoch changes nothing.  An epoch
  shorter than half the nominal length only moves the start.  Otherwise the collecting windows
  become the paid ones exactly when the previous recorded epoch is the immediately preceding one
  (at most one and a half nominal lengths ago, on readable data), else they are discarded and every
  score is 0; either way the new collecting windows are empty, so no row is ever paid in two
  epochs.\<close>

theorem roll_pays_only_the_previous_epoch:
  assumes "1 \<le> min_calls_of e" "1 \<le> min_graded_of e" "vstate_wf st"
  shows "\<exists>st'. roll_epoch_if_needed e c hotkeys st = Inr st' \<and>
    (if current_epoch_start_block c = None \<or> current_epoch_start_block c = llm_key_epoch_start_block st
     then st' = st
     else if short_epoch c st
     then st' = st\<lparr>llm_key_epoch_start_block := current_epoch_start_block c\<rparr>
     else llm_key_epoch_start_block st' = current_epoch_start_block c \<and>
       llm_key_pending_calls st' = [] \<and>
       v_scores st' = map (\<lambda>uid. Fin (epoch_score e hotkeys (rolled c st) uid)) [0..<length (v_scores st)] \<and>
       (llm_key_last_epoch_calls (rolled c st) = [] \<longrightarrow> set (v_scores st') \<subseteq> {Fin 0}))"
proof (cases "current_epoch_start_block c = None \<or> current_epoch_start_block c = llm_key_epoch_start_block st")
  case False
  have wf: "windows_wf (llm_key_last_epoch_calls (rolled c st))"
    using vstate_wf_rolled [OF assms(3)] by (simp add: vstate_wf_def)
  have pend: "llm_key_pending_calls (rolled c st) = []"
    "llm_key_epoch_start_block (rolled c st) = current_epoch_start_block c"
    "v_scores (rolled c st) = v_scores st"
    by (simp_all add: rolled_def)
  have zero: "epoch_score e hotkeys (rolled c st) uid = 0"
    if "llm_key_last_epoch_calls (rolled c st) = []" for uid
    using that by (simp add: epoch_score_def hotkey_reward_def surviving_subs_def)
  show ?thesis
    using False score_last_epoch_facts [OF assms(1,2) wf, of hotkeys] zero
    unfolding roll_cases pend by auto
qed (use assms in \<open>auto simp: roll_cases\<close>)

theorem roll_pays_only_the_previous_epoch_witness:
  "\<exists>st'. roll_epoch_if_needed no_env \<lparr>c_step = Some (1000, Some 1), c_tempo = Some (Some 359)\<rparr> [''a'']
      ((initial_vstate 2)\<lparr>llm_key_epoch_start_block := Some 10\<rparr>) = Inr st' \<and>
    llm_key_epoch_start_block st' = Some 999 \<and> llm_key_pending_calls st' = []"
proof -
  let ?c = "\<lparr>c_step = Some (1000, Some 1), c_tempo = Some (Some 359)\<rparr>"
  let ?st = "(initial_vstate 2)\<lparr>llm_key_epoch_start_block := Some 10\<rparr>"
  have "vstate_wf ?st" by (simp add: vstate_wf_def initial_vstate_def)
  then show ?thesis
    using roll_pays_only_the_previous_epoch [of no_env ?st ?c "[''a'']"]
    by (auto simp: current_epoch_start_block_def short_epoch_def epoch_length_blocks_def)
qed

end
