(* ===== verification/Weights.thy ===== *)
theory Weights
  imports Constants
begin

text \<open>
  From scores to the weights on chain: \<open>template/base/utils/weight_utils.py\<close>, the weight-setting half
  of \<open>template/base/validator.py\<close> and the pacing of \<open>template/base/neuron.py\<close>.  Arrays are lists of
  finite numbers; \<open>None\<close> in place of an array is one that the division by a zero sum filled with NaN.
  The chain's limits, the extrinsics and \<open>numpy.quantile\<close> are arguments.
\<close>

section \<open>The metagraph\<close>

record axon =
  ax_serving :: bool
  ax_info :: string

record metagraph =
  mg_n :: nat
  mg_uids :: "int list"
  mg_hotkeys :: "string list"
  mg_axons :: "axon list"
  mg_validator_permit :: "bool list option"

section \<open>Capping the largest weight\<close>

fun cumsum_from :: "rat \<Rightarrow> rat list \<Rightarrow> rat list" where
  "cumsum_from acc [] = []"
| "cumsum_from acc (x # xs) = (acc + x) # cumsum_from (acc + x) xs"

definition max_weight_epsilon :: rat where "max_weight_epsilon = 1 / 10 ^ 7"

definition scaled_by_sum :: "rat list \<Rightarrow> rat list option" where
  "scaled_by_sum weights =
     (let t = sum_list weights in if t = 0 then None else Some (map (\<lambda>w. w / t) weights))"

definition below_limit :: "rat \<Rightarrow> rat list \<Rightarrow> nat \<Rightarrow> bool" where
  "below_limit limit estimation i =
     (let e = estimation ! i; n = length estimation in
      e / ((of_nat (n - i - 1)) * e + cumsum_from 0 estimation ! i + max_weight_epsilon) < limit)"

definition normalize_max_weight :: "rat list \<Rightarrow> rat \<Rightarrow> rat list option" where
  "normalize_max_weight x limit =
     (let values = sort x; n = length x in
      if sum_list x = 0 \<or> of_nat n * limit \<le> 1 then Some (replicate n (1 / of_nat n))
      else
        let estimation = map (\<lambda>v. v / sum_list values) values in
        if \<forall>e \<in> set estimation. e \<le> limit then scaled_by_sum x
        else
          let cumsum = cumsum_from 0 estimation;
              n_values = length (filter (below_limit limit estimation) [0..<n]);
              cutoff_scale = (limit * cumsum ! (n_values - 1) - max_weight_epsilon)
                             / (1 - limit * of_nat (n - n_values));
              cutoff = cutoff_scale * sum_list values
          in scaled_by_sum (map (\<lambda>w. if cutoff < w then cutoff else w) x))"

section \<open>The chain's limits\<close>

text \<open>\<open>process_weights_for_netuid\<close> as \<open>set_weights\<close> calls it (no quantile excluded by the caller).\<close>

record chain_limits =
  l_min_allowed :: nat
  l_max_limit :: rat

definition U16_MAX :: nat where "U16_MAX = 65535"

definition nonzero_indices :: "rat list \<Rightarrow> nat list" where
  "nonzero_indices weights = filter (\<lambda>i. 0 < weights ! i) [0..<length weights]"

definition add_at :: "rat list \<Rightarrow> nat list \<Rightarrow> rat list \<Rightarrow> rat list" where
  "add_at base idx vals = fold (\<lambda>(i, v) xs. xs[i := xs ! i + v]) (zip idx vals) base"

definition process_weights_for_netuid ::
  "(rat list \<Rightarrow> rat \<Rightarrow> rat) \<Rightarrow> chain_limits \<Rightarrow> nat \<Rightarrow> int list \<Rightarrow> rat list \<Rightarrow> nat
     \<Rightarrow> py_exc + int list \<times> rat list option" where
  "process_weights_for_netuid quantile limits n uids weights exclude_quantile =
     (let q = of_nat exclude_quantile / of_nat U16_MAX;
          min_allowed = l_min_allowed limits;
          idx = nonzero_indices weights
      in if \<exists>i \<in> set idx. length uids \<le> i then Inl IndexError
      else
        let nz_uids = map (\<lambda>i. uids ! i) idx; nz = map (\<lambda>i. weights ! i) idx in
        if nz = [] \<or> n < min_allowed
        then Inr (map int [0..<n], Some (replicate n (1 / of_nat n)))
        else if length nz < min_allowed then
          (if \<exists>i \<in> set idx. n \<le> i then Inl IndexError
           else
             let w = add_at (replicate n (1 / 10 ^ 5)) idx nz
             in Inr (map int [0..<n], normalize_max_weight w (l_max_limit limits)))
        else
          let max_exclude = of_nat (length nz - min_allowed) / of_nat (length nz);
              lowest = quantile nz (min q max_exclude);
              kept = filter (\<lambda>(u, w). lowest \<le> w) (zip nz_uids nz)
          in Inr (map fst kept, normalize_max_weight (map snd kept) (l_max_limit limits)))"

section \<open>The burn share\<close>

definition apply_burn_allocation ::
  "int \<Rightarrow> fl \<Rightarrow> int list \<Rightarrow> int list \<Rightarrow> rat list option \<Rightarrow> py_exc + int list \<times> rat list" where
  "apply_burn_allocation burn_uid burn_percentage current_uids weight_uids weights =
     (if burn_uid \<notin> set current_uids then Inl ValueError
      else case burn_percentage of
        Fin p \<Rightarrow>
          if \<not> (0 \<le> p \<and> p \<le> 1) then Inl ValueError
          else
            let miner_percentage = 1 - p;
                only_burn = ([burn_uid], [1])
            in (case weights of
                 None \<Rightarrow> Inr only_burn
               | Some ws \<Rightarrow>
                   if length ws \<noteq> length weight_uids then Inl IndexError
                   else
                     let miners = filter (\<lambda>(u, w). u \<noteq> burn_uid) (zip weight_uids ws);
                         miner_sum = sum_list (map snd miners)
                     in if miners \<noteq> [] \<and> 0 < miner_sum \<and> 0 < miner_percentage
                        then
                          let final = map (\<lambda>(u, w). w / miner_sum * miner_percentage) miners @ [p];
                              final_sum = sum_list final
                          in if final_sum \<le> 0 then Inl ValueError
                             else Inr (map fst miners @ [burn_uid], map (\<lambda>w. w / final_sum) final)
                        else Inr only_burn)
      | _ \<Rightarrow> Inl ValueError)"

section \<open>Integers for the chain\<close>

definition convert_weights_and_uids_for_emit ::
  "int list \<Rightarrow> rat list \<Rightarrow> py_exc + int list \<times> int list" where
  "convert_weights_and_uids_for_emit uids weights =
     (if length uids \<noteq> length weights then Inl IndexError
      else if weights = [] then Inl ValueError
      else if \<exists>w \<in> set weights. w < 0 then Inl ValueError
      else if \<exists>u \<in> set uids. u < 0 then Inl ValueError
      else if sum_list weights = 0 then Inr ([], [])
      else
        let max_weight = Max (set weights);
            vals = map (\<lambda>w. round_half_even (w / max_weight * of_nat U16_MAX)) weights;
            kept = filter (\<lambda>(u, v). v \<noteq> 0) (zip uids vals)
        in Inr (map fst kept, map snd kept))"

section \<open>Setting the weights\<close>

datatype emission = Skipped | Emit "int list" "int list"

definition raw_weights :: "rat list \<Rightarrow> rat list" where
  "raw_weights scores =
     (let norm = sum_list (map abs scores); norm = (if norm = 0 then 1 else norm)
      in map (\<lambda>s. s / norm) scores)"

definition base_emission ::
  "(rat list \<Rightarrow> rat \<Rightarrow> rat) \<Rightarrow> chain_limits \<Rightarrow> int \<Rightarrow> fl \<Rightarrow> metagraph \<Rightarrow> rat list \<Rightarrow> py_exc + emission" where
  "base_emission quantile limits burn_uid burn_percentage mg scores =
     (let raw = raw_weights scores;
          no_earners = (\<not> (\<exists>w \<in> set raw. 0 < w));
          processed =
            (if no_earners
             then Inr (mg_uids mg, Some (replicate (length (mg_uids mg)) 0))
             else process_weights_for_netuid quantile limits (mg_n mg) (mg_uids mg) raw 0)
      in case processed of
           Inl x \<Rightarrow> Inl x
         | Inr (uids, ws) \<Rightarrow>
             (case apply_burn_allocation burn_uid burn_percentage (mg_uids mg) uids ws of
                Inl ValueError \<Rightarrow> Inr Skipped
              | Inl x \<Rightarrow> Inl x
              | Inr (uids, ws) \<Rightarrow>
                  (case convert_weights_and_uids_for_emit uids ws of
                     Inl x \<Rightarrow> Inl x
                   | Inr (uids, vals) \<Rightarrow> Inr (Emit uids vals))))"

text \<open>
  The extrinsic a mechanism's weights go to, and how the answer is read: an object with \<open>success\<close>, a
  pair, or anything else by its truth value.
\<close>

datatype route = Subtensor_Set_Weights | Commit_Timelocked int | Set_Weights_Extrinsic int

definition submit_weights :: "int \<Rightarrow> bool \<Rightarrow> route" where
  "submit_weights mechid commit_reveal_enabled =
     (if mechid = 0 then Subtensor_Set_Weights
      else if commit_reveal_enabled then Commit_Timelocked mechid
      else Set_Weights_Extrinsic mechid)"

datatype chain_response = With_Success bool | Pair_Response bool | Other_Response bool

fun response_ok :: "chain_response \<Rightarrow> bool" where
  "response_ok (With_Success b) = b"
| "response_ok (Pair_Response b) = b"
| "response_ok (Other_Response b) = b"

text \<open>\<open>set_weights\<close>: \<open>None\<close> when the burn allocation failed, else whether the chain took the weights.\<close>

definition base_set_weights ::
  "(rat list \<Rightarrow> rat \<Rightarrow> rat) \<Rightarrow> chain_limits \<Rightarrow> int \<Rightarrow> fl \<Rightarrow> metagraph \<Rightarrow> int \<Rightarrow> bool
     \<Rightarrow> (route \<Rightarrow> int list \<Rightarrow> int list \<Rightarrow> chain_response) \<Rightarrow> rat list \<Rightarrow> py_exc + bool option" where
  "base_set_weights quantile limits burn_uid burn_percentage mg mechid commit_reveal submit scores =
     (case base_emission quantile limits burn_uid burn_percentage mg scores of
        Inl x \<Rightarrow> Inl x
      | Inr Skipped \<Rightarrow> Inr None
      | Inr (Emit uids vals) \<Rightarrow>
          Inr (Some (response_ok (submit (submit_weights mechid commit_reveal) uids vals))))"

section \<open>Following the metagraph\<close>

record base_state =
  b_hotkeys :: "string list"
  b_scores :: "rat list"
  b_metagraph :: metagraph

fun zero_replaced :: "nat list \<Rightarrow> string list \<Rightarrow> string list \<Rightarrow> rat list \<Rightarrow> py_exc + rat list" where
  "zero_replaced [] old new scores = Inr scores"
| "zero_replaced (uid # uids) old new scores =
     (if old ! uid \<noteq> new ! uid
      then (if uid < length scores then zero_replaced uids old new (scores[uid := 0]) else Inl IndexError)
      else zero_replaced uids old new scores)"

definition resize_scores :: "nat \<Rightarrow> rat list \<Rightarrow> rat list" where
  "resize_scores n scores = (if length scores \<noteq> n
     then take n scores @ replicate (n - length scores) 0 else scores)"

definition resync_metagraph :: "metagraph \<Rightarrow> base_state \<Rightarrow> py_exc + base_state" where
  "resync_metagraph synced st =
     (let previous = b_metagraph st; st = st\<lparr>b_metagraph := synced\<rparr> in
      if mg_axons previous = mg_axons synced then Inr st
      else
        let overlap = min (length (b_hotkeys st)) (length (mg_hotkeys synced)) in
        case zero_replaced [0..<overlap] (b_hotkeys st) (mg_hotkeys synced) (b_scores st) of
          Inl x \<Rightarrow> Inl x
        | Inr scores \<Rightarrow>
            Inr (st\<lparr>b_scores := resize_scores (mg_n synced) scores,
                    b_hotkeys := mg_hotkeys synced\<rparr>))"

text \<open>\<open>update_scores\<close>; a NaN reward is \<open>None\<close>.  An index may be negative, as in numpy.\<close>

definition np_index :: "nat \<Rightarrow> int \<Rightarrow> nat option" where
  "np_index n i = (if 0 \<le> i \<and> i < int n then Some (nat i)
     else if - int n \<le> i \<and> i < 0 then Some (nat (i + int n)) else None)"

fun scatter :: "(int \<times> rat) list \<Rightarrow> rat list \<Rightarrow> py_exc + rat list" where
  "scatter [] xs = Inr xs"
| "scatter ((i, r) # rest) xs = (case np_index (length xs) i of
      None \<Rightarrow> Inl IndexError
    | Some j \<Rightarrow> scatter rest (xs[j := r]))"

definition update_scores :: "rat \<Rightarrow> rat option list \<Rightarrow> int list \<Rightarrow> rat list \<Rightarrow> py_exc + rat list" where
  "update_scores alpha rewards uids scores =
     (let rewards = map (\<lambda>r. case r of None \<Rightarrow> 0 | Some v \<Rightarrow> v) rewards in
      if rewards = [] \<or> uids = [] then Inr scores
      else if length rewards \<noteq> length uids then Inl ValueError
      else case scatter (zip uids rewards) (replicate (length scores) 0) of
          Inl x \<Rightarrow> Inl x
        | Inr scattered \<Rightarrow> Inr (map2 (\<lambda>r s. alpha * r + (1 - alpha) * s) scattered scores))"

section \<open>Pacing\<close>

record neuron_conf =
  n_is_miner :: bool
  n_step :: nat
  n_disable_set_weights :: bool
  n_epoch_length :: int
  n_mechid :: int
  n_mock :: bool
  n_uid :: nat

text \<open>
  The block of the last weight set: mechanism 0 reads the metagraph's \<open>last_update\<close> (\<open>Inl\<close> if the uid
  is out of its range), any other mechanism its own chain row, where a failed read counts as never.
\<close>

definition last_weight_update_block ::
  "neuron_conf \<Rightarrow> int list \<Rightarrow> int list option \<Rightarrow> py_exc + int" where
  "last_weight_update_block cfg last_update mech_row =
     (if n_mechid cfg = 0 \<or> n_mock cfg
      then (if n_uid cfg < length last_update then Inr (last_update ! n_uid cfg) else Inl IndexError)
      else case mech_row of
          None \<Rightarrow> Inr 0
        | Some row \<Rightarrow> Inr (if n_uid cfg < length row then row ! n_uid cfg else 0))"

definition should_set_weights ::
  "neuron_conf \<Rightarrow> int \<Rightarrow> int list \<Rightarrow> int list option \<Rightarrow> py_exc + bool" where
  "should_set_weights cfg block last_update mech_row =
     (if n_is_miner cfg then Inr False
      else if n_step cfg = 0 then Inr False
      else if n_disable_set_weights cfg then Inr False
      else case last_weight_update_block cfg last_update mech_row of
          Inl x \<Rightarrow> Inl x
        | Inr b \<Rightarrow> Inr (n_epoch_length cfg < block - b))"

definition should_sync_metagraph :: "neuron_conf \<Rightarrow> int \<Rightarrow> int option \<Rightarrow> int \<Rightarrow> bool" where
  "should_sync_metagraph cfg current_block last_sync_block metagraph_block =
     (n_epoch_length cfg <
        current_block - (case last_sync_block of Some b \<Rightarrow> b | None \<Rightarrow> metagraph_block))"

text \<open>\<open>check_registered\<close>: the chain says yes or no, or the read fails (transiently or not).\<close>

datatype registration_read = Registered bool | Read_Failed bool

datatype registration_verdict = Go_On | Exit_Process | Raise_Error

definition check_registered :: "registration_read \<Rightarrow> string \<Rightarrow> string list \<Rightarrow> registration_verdict" where
  "check_registered answer hotkey_ss58 local_hotkeys = (case answer of
      Read_Failed transient \<Rightarrow>
        if \<not> (transient \<and> hotkey_ss58 \<in> set local_hotkeys) then Raise_Error else Go_On
    | Registered b \<Rightarrow> if b then Go_On else Exit_Process)"

text \<open>\<open>_check_mechanism_exists\<close>: whether the error about a missing mechanism is logged.\<close>

definition mechanism_missing :: "int \<Rightarrow> bool \<Rightarrow> int option \<Rightarrow> bool" where
  "mechanism_missing mechid mock mechanism_count =
     (if mechid = 0 \<or> mock then False
      else case mechanism_count of None \<Rightarrow> False | Some count \<Rightarrow> count \<le> mechid)"

section \<open>Lemmas: normalising\<close>

lemma scaled_by_sum_SomeD:
  assumes "scaled_by_sum w = Some y"
  shows "length y = length w \<and> sum_list y = 1 \<and> sum_list w \<noteq> 0"
  using assms by (auto simp: scaled_by_sum_def Let_def sum_list_divide split: if_splits)

lemma sum_list_capped_neg:
  fixes c :: rat
  assumes "c < 0" "\<forall>w \<in> set x. 0 \<le> w"
  shows "map (\<lambda>w. if c < w then c else w) x = replicate (length x) c"
  using assms by (induction x) auto

lemma scaled_by_sum_unit:
  assumes "scaled_by_sum w = Some y" "(\<forall>v \<in> set w. 0 \<le> v) \<or> (\<forall>v \<in> set w. v \<le> 0)"
  shows "\<forall>v \<in> set y. 0 \<le> v \<and> v \<le> 1"
proof -
  let ?t = "sum_list w"
  have t: "?t \<noteq> 0" "y = map (\<lambda>v. v / ?t) w"
    using assms(1) by (auto simp: scaled_by_sum_def Let_def split: if_splits)
  show ?thesis
  proof (cases "\<forall>v \<in> set w. 0 \<le> v")
    case True
    then have "0 < ?t" using t(1) sum_list_nonneg [of w] by fastforce
    moreover have "v \<le> ?t" if "v \<in> set w" for v
      using member_le_sum_list [of v w] True that by (simp add: in_set_conv_nth)
    ultimately show ?thesis using True by (auto simp: t(2) divide_le_eq)
  next
    case False
    with assms(2) have np: "\<forall>v \<in> set w. v \<le> 0" by blast
    then have "sum_list (map uminus w) \<ge> 0" by (intro sum_list_nonneg_map) auto
    moreover have sm: "sum_list (map uminus w) = - ?t" by (induction w) simp_all
    ultimately have neg: "?t < 0" using t(1) by simp
    have "- v \<le> sum_list (map uminus w)" if "v \<in> set w" for v
    proof (rule member_le_sum_list)
      show "- v \<in> set (map uminus w)" using that by simp
      show "\<And>x. x \<in> set (map uminus w) \<Longrightarrow> 0 \<le> x" using np by auto
    qed
    then have "?t \<le> v" if "v \<in> set w" for v
      using that unfolding sm by fastforce
    with np neg show ?thesis by (auto simp: t(2) divide_le_eq zero_le_divide_iff)
  qed
qed

lemma length_cumsum [simp]: "length (cumsum_from a xs) = length xs"
  by (induction xs arbitrary: a) auto

lemma cumsum_ge:
  assumes "\<forall>x \<in> set xs. 0 \<le> x" "0 \<le> a" "i < length xs"
  shows "xs ! i \<le> cumsum_from a xs ! i"
  using assms
proof (induction xs arbitrary: a i)
  case (Cons x xs)
  then show ?case by (cases i) auto
qed simp

text \<open>
  The divisor of the cutoff is positive and the index it reads is in range: the first capped
  position \<open>i\<close> already has \<open>limit * (n - i) < 1\<close>, and position 0 is never capped.
\<close>

lemma capped_count:
  assumes nn: "\<forall>e \<in> set es. 0 \<le> e" and L: "0 < limit"
  shows "limit * of_nat (length es - length (filter (below_limit limit es) [0..<length es])) < (1 :: rat)"
proof -
  let ?n = "length es"
  let ?above = "filter (\<lambda>i. \<not> below_limit limit es i) [0..<?n]"
  have cnt: "?n - length (filter (below_limit limit es) [0..<?n]) = length ?above"
    using sum_length_filter_compl [of "below_limit limit es" "[0..<?n]"] by simp
  show ?thesis
  proof (cases "?above")
    case Nil
    with cnt show ?thesis by simp
  next
    case (Cons i rest)
    then have i: "i < ?n" "\<not> below_limit limit es i"
    proof -
      have "i \<in> set ?above" unfolding Cons by simp
      then show "i < ?n" "\<not> below_limit limit es i" by auto
    qed
    have "sorted_wrt (<) ?above" by (rule sorted_wrt_filter) (rule sorted_wrt_upt)
    then have low: "\<forall>j \<in> set ?above. i \<le> j" using Cons by auto
    have "set ?above \<subseteq> {i..<?n}" using low by auto
    then have "card (set ?above) \<le> ?n - i" using card_mono [of "{i..<?n}"] by fastforce
    moreover have "card (set ?above) = length ?above" by (rule distinct_card) simp
    ultimately have len: "length ?above \<le> ?n - i" by simp
    let ?e = "es ! i" and ?c = "cumsum_from 0 es ! i"
    let ?d = "of_nat (?n - i - 1) * ?e + ?c + max_weight_epsilon"
    have e: "0 \<le> ?e" "?e \<le> ?c" using nn i cumsum_ge [OF nn, of 0 i] by auto
    have ep: "0 < max_weight_epsilon" by (simp add: max_weight_epsilon_def)
    have dpos: "0 < ?d" using e ep by (intro add_nonneg_pos add_nonneg_nonneg mult_nonneg_nonneg) auto
    have "limit \<le> ?e / ?d" using i(2) by (simp add: below_limit_def Let_def)
    then have le: "limit * ?d \<le> ?e" using dpos by (simp add: le_divide_eq)
    have split: "of_nat (?n - i) * ?e = of_nat (?n - i - 1) * ?e + ?e"
      using i(1) by (simp add: of_nat_diff algebra_simps)
    have "of_nat (?n - i) * ?e < ?d" unfolding split using e ep by simp
    then have "limit * (of_nat (?n - i) * ?e) < limit * ?d" using L by simp
    with le have lt: "limit * (of_nat (?n - i) * ?e) < ?e" by simp
    then have "0 < ?e" using e L by (cases "?e = 0") auto
    with lt have "limit * of_nat (?n - i) < 1" by (simp add: mult.assoc [symmetric])
    moreover have "limit * of_nat (length ?above) \<le> limit * (of_nat (?n - i) :: rat)"
      using len L by simp
    ultimately show ?thesis using cnt by simp
  qed
qed

lemma normalize_spec:
  assumes nn: "\<forall>w \<in> set x. 0 \<le> w" and ne: "x \<noteq> []" and y: "normalize_max_weight x limit = Some y"
  shows "length y = length x \<and> sum_list y = 1 \<and> (\<forall>v \<in> set y. 0 \<le> v \<and> v \<le> 1)"
proof (cases "sum_list x = 0 \<or> of_nat (length x) * limit \<le> 1")
  case True
  with y have "y = replicate (length x) (1 / of_nat (length x))"
    by (auto simp: normalize_max_weight_def Let_def)
  with ne show ?thesis by (cases x) (simp_all add: sum_list_replicate field_simps)
next
  case False
  then obtain w where w: "scaled_by_sum w = Some y" "length w = length x"
    "(\<forall>v \<in> set w. 0 \<le> v) \<or> (\<forall>v \<in> set w. v \<le> 0)"
  proof (cases "\<forall>e \<in> set (map (\<lambda>v. v / sum_list (sort x)) (sort x)). e \<le> limit")
    case True
    with False y have "scaled_by_sum x = Some y" by (simp add: normalize_max_weight_def Let_def)
    with nn that show ?thesis by blast
  next
    case over: False
    obtain c where "scaled_by_sum (map (\<lambda>w. if c < w then c else w) x) = Some y"
      using y unfolding normalize_max_weight_def Let_def if_not_P [OF False] if_not_P [OF over] by blast
    moreover have "(\<forall>v \<in> set (map (\<lambda>w. if c < w then c else w) x). 0 \<le> v) \<or>
        (\<forall>v \<in> set (map (\<lambda>w. if c < w then c else w) x). v \<le> 0)"
      using nn by (cases "c \<le> 0") auto
    ultimately show ?thesis using that [of "map (\<lambda>w. if c < w then c else w) x"] length_map by blast
  qed
  with scaled_by_sum_SomeD [OF w(1)] scaled_by_sum_unit [OF w(1)] show ?thesis by simp
qed

section \<open>Lemmas: burning and emitting\<close>

definition miners_of :: "int \<Rightarrow> int list \<Rightarrow> rat list \<Rightarrow> (int \<times> rat) list" where
  "miners_of burn_uid uids ws = filter (\<lambda>(u, w). u \<noteq> burn_uid) (zip uids ws)"

lemma sum_list_zip_split:
  fixes c t :: rat
  shows "sum_list (map (\<lambda>(u, w). w / t * c) ps) = sum_list (map snd ps) / t * c"
  by (induction ps) (auto simp: add_divide_distrib distrib_right)

lemma burn_cases:
  assumes "burn_uid \<in> set current" "0 \<le> p" "p \<le> 1" "length ws = length uids"
  shows "apply_burn_allocation burn_uid (Fin p) current uids (Some ws) =
    (let miners = miners_of burn_uid uids ws; t = sum_list (map snd miners) in
     if 0 < t \<and> p < 1
     then Inr (map fst miners @ [burn_uid], map (\<lambda>(u, w). w / t * (1 - p)) miners @ [p])
     else Inr ([burn_uid], [1]))"
proof -
  have "sum_list (map (\<lambda>(u, w). w / t * (1 - p)) ms) + p = 1"
    if "sum_list (map snd ms) = t" "0 < t" for t and ms :: "(int \<times> rat) list"
    using that unfolding sum_list_zip_split by simp
  moreover have "ms = [] \<Longrightarrow> \<not> 0 < sum_list (map snd ms)" for ms :: "(int \<times> rat) list" by simp
  ultimately show ?thesis
    using assms by (auto simp: apply_burn_allocation_def miners_of_def Let_def simp del: times_divide_eq_left)
qed

lemma round_half_even_int: "round_half_even (of_int i) = i"
  by (simp add: round_half_even_def Let_def)

lemma round_half_even_bounds:
  assumes "0 \<le> x" "x \<le> of_int m"
  shows "0 \<le> round_half_even x \<and> round_half_even x \<le> m"
proof (cases "x = of_int m")
  case True
  with assms show ?thesis by (simp add: round_half_even_int)
next
  case False
  with assms have "0 \<le> \<lfloor>x\<rfloor>" "\<lfloor>x\<rfloor> < m" by (simp_all add: floor_less_iff)
  then show ?thesis by (auto simp: round_half_even_def Let_def)
qed

lemma emit_spec:
  assumes len: "length uids = length ws" and nn: "\<forall>w \<in> set ws. 0 \<le> w" "\<forall>u \<in> set uids. 0 \<le> u"
    and pos: "\<exists>w \<in> set ws. 0 < w"
  shows "\<exists>us vs. convert_weights_and_uids_for_emit uids ws = Inr (us, vs) \<and>
    length us = length vs \<and> set us \<subseteq> set uids \<and> (\<forall>v \<in> set vs. 1 \<le> v \<and> v \<le> 65535) \<and> 65535 \<in> set vs"
proof -
  let ?m = "Max (set ws)"
  let ?v = "\<lambda>w. round_half_even (w / ?m * of_nat U16_MAX)"
  let ?kept = "filter (\<lambda>(u, v). v \<noteq> 0) (zip uids (map ?v ws))"
  obtain w where w: "w \<in> set ws" "0 < w" using pos by blast
  then have m: "?m \<in> set ws" "0 < ?m" by (auto intro: Max_in less_le_trans Max_ge)
  have u16: "of_nat U16_MAX = (of_int 65535 :: rat)" by (simp add: U16_MAX_def)
  have b: "0 \<le> ?v w \<and> ?v w \<le> 65535" if "w \<in> set ws" for w
    unfolding u16
  proof (rule round_half_even_bounds)
    have "w \<le> ?m" using that by simp
    then have "w / ?m \<le> 1" using m by simp
    then have "w / ?m * of_int 65535 \<le> 1 * of_int 65535" by (rule mult_right_mono) simp
    then show "w / ?m * of_int 65535 \<le> of_int 65535" by simp
  qed (use that m nn(1) in simp)
  have top: "?v ?m = 65535" using m(2) round_half_even_int [of 65535] by (simp add: u16)
  have conv: "convert_weights_and_uids_for_emit uids ws = Inr (map fst ?kept, map snd ?kept)"
  proof -
    have "0 < sum_list ws"
      using w nn(1) member_le_sum_list [of w ws] by fastforce
    moreover have "\<not> (\<exists>w \<in> set ws. w < 0)" "\<not> (\<exists>u \<in> set uids. u < 0)" "ws \<noteq> []"
      using nn w(1) by (auto simp: not_less)
    ultimately show ?thesis using len by (auto simp: convert_weights_and_uids_for_emit_def Let_def)
  qed
  have "set (map fst ?kept) \<subseteq> set uids" by (auto dest: set_zip_leftD)
  moreover have "\<forall>v \<in> set (map snd ?kept). 1 \<le> v \<and> v \<le> 65535"
  proof
    fix v assume "v \<in> set (map snd ?kept)"
    then have "v \<in> set (map ?v ws)" "v \<noteq> 0" by (auto dest: set_zip_rightD)
    with b show "1 \<le> v \<and> v \<le> 65535" by fastforce
  qed
  moreover have "65535 \<in> set (map snd ?kept)"
  proof -
    obtain i where i: "i < length ws" "ws ! i = ?m" using m(1) by (auto simp: in_set_conv_nth)
    then have "zip uids (map ?v ws) ! i = (uids ! i, 65535)" "i < length (zip uids (map ?v ws))"
      using len by (simp_all only: nth_zip length_map nth_map top length_zip)
    then have "(uids ! i, 65535) \<in> set (zip uids (map ?v ws))" by (metis nth_mem)
    then show ?thesis by force
  qed
  ultimately show ?thesis using conv by auto
qed

lemma zip_snd_subset: "p \<in> set (zip xs ys) \<Longrightarrow> snd p \<in> set ys"
  by (cases p) (auto dest: set_zip_rightD)

text \<open>What the burn allocation hands over, for well-formed input.\<close>

lemma burn_spec:
  assumes "burn_uid \<in> set current" "0 \<le> p" "p \<le> 1" "length ws = length uids" "\<forall>w \<in> set ws. 0 \<le> w"
  shows "\<exists>us vs. apply_burn_allocation burn_uid (Fin p) current uids (Some ws) = Inr (us, vs) \<and>
    length us = length vs \<and> sum_list vs = 1 \<and> (\<forall>v \<in> set vs. 0 \<le> v) \<and>
    set us \<subseteq> insert burn_uid (set uids) \<and> (p = 1 \<longrightarrow> us = [burn_uid] \<and> vs = [1])"
proof -
  let ?miners = "miners_of burn_uid uids ws"
  let ?t = "sum_list (map snd ?miners)"
  have sub: "set ?miners \<subseteq> set (zip uids ws)" by (auto simp: miners_of_def)
  have fsts: "set (map fst ?miners) \<subseteq> set uids"
    by (auto simp: miners_of_def dest: set_zip_leftD)
  show ?thesis
  proof (cases "0 < ?t \<and> p < 1")
    case True
    have "\<forall>v \<in> set (map (\<lambda>(u, w). w / ?t * (1 - p)) ?miners @ [p]). 0 \<le> v"
    proof
      fix v assume "v \<in> set (map (\<lambda>(u, w). w / ?t * (1 - p)) ?miners @ [p])"
      then consider "v = p" | u w where "(u, w) \<in> set ?miners" "v = w / ?t * (1 - p)" by auto
      then show "0 \<le> v"
      proof cases
        case (2 u w)
        with sub have "w \<in> set ws" by (metis in_mono snd_conv zip_snd_subset)
        with assms(5) have "0 \<le> w" by blast
        with 2 True show ?thesis by simp
      qed (use assms in simp)
    qed
    moreover have "sum_list (map (\<lambda>(u, w). w / ?t * (1 - p)) ?miners @ [p]) = 1"
      using True by (simp add: sum_list_zip_split del: times_divide_eq_left)
    ultimately show ?thesis
      using True fsts burn_cases [OF assms(1-4)] by (auto simp: Let_def)
  next
    case False
    with burn_cases [OF assms(1-4)] show ?thesis by (auto simp: Let_def)
  qed
qed

lemma add_at_nonneg:
  assumes "\<forall>v \<in> set base. 0 \<le> v" "\<forall>v \<in> set vals. 0 \<le> v"
  shows "(\<forall>v \<in> set (add_at base idx vals). 0 \<le> v) \<and> length (add_at base idx vals) = length base"
proof -
  have "\<forall>p \<in> set ps. 0 \<le> snd p \<Longrightarrow> \<forall>v \<in> set xs. 0 \<le> v \<Longrightarrow>
      (\<forall>v \<in> set (fold (\<lambda>(i, v) xs. xs[i := xs ! i + v]) ps xs). 0 \<le> v) \<and>
      length (fold (\<lambda>(i, v) xs. xs[i := xs ! i + v]) ps xs) = length xs"
    for ps :: "(nat \<times> rat) list" and xs
  proof (induction ps arbitrary: xs)
    case (Cons p ps)
    have "\<forall>v \<in> set (xs[fst p := xs ! fst p + snd p]). 0 \<le> v"
    proof (cases "fst p < length xs")
      case True
      then have "0 \<le> xs ! fst p + snd p" using Cons.prems by auto
      then show ?thesis using Cons.prems(2) set_update_subset_insert [of xs "fst p"] by blast
    next
      case False
      then have "xs[fst p := xs ! fst p + snd p] = xs" by (intro list_update_beyond) simp
      with Cons.prems show ?thesis by simp
    qed
    with Cons show ?case by (simp add: case_prod_beta)
  qed simp
  from this [of "zip idx vals" base] assms show ?thesis
    by (auto simp: add_at_def dest: zip_snd_subset)
qed

lemma process_spec:
  assumes "length uids = n" "length weights = n" "\<forall>u \<in> set uids. 0 \<le> u \<and> u < int n"
  shows "\<exists>us ws. process_weights_for_netuid quantile limits n uids weights q = Inr (us, ws) \<and>
    (\<forall>u \<in> set us. 0 \<le> u \<and> u < int n) \<and>
    (\<forall>y. ws = Some y \<longrightarrow> length y = length us \<and> (\<forall>v \<in> set y. 0 \<le> v))"
proof -
  let ?idx = "nonzero_indices weights"
  let ?nzu = "map (\<lambda>i. uids ! i) ?idx" and ?nz = "map (\<lambda>i. weights ! i) ?idx"
  have idx: "i < n \<and> 0 < weights ! i" if "i \<in> set ?idx" for i
    using that assms(2) by (auto simp: nonzero_indices_def)
  have nzpos: "\<forall>w \<in> set ?nz. 0 \<le> w" using idx by force
  have unit: "length y = length x \<and> (\<forall>v \<in> set y. 0 \<le> v)"
    if "normalize_max_weight x lim = Some y" "\<forall>w \<in> set x. 0 \<le> w" for x lim y
    using that normalize_spec [OF that(2) _ that(1)]
    by (cases x) (auto simp: normalize_max_weight_def)
  have out: "\<not> (\<exists>i \<in> set ?idx. length uids \<le> i)" "\<not> (\<exists>i \<in> set ?idx. n \<le> i)"
    using idx assms(1) by (auto simp: not_le)
  consider "?nz = [] \<or> n < l_min_allowed limits"
    | "\<not> (?nz = [] \<or> n < l_min_allowed limits)" "length ?nz < l_min_allowed limits"
    | "\<not> (?nz = [] \<or> n < l_min_allowed limits)" "\<not> length ?nz < l_min_allowed limits" by blast
  then show ?thesis
  proof cases
    case 1
    then show ?thesis
      unfolding process_weights_for_netuid_def Let_def if_not_P [OF out(1)] if_P [OF 1] by auto
  next
    case 2
    show ?thesis
      unfolding process_weights_for_netuid_def Let_def if_not_P [OF out(1)] if_not_P [OF out(2)]
        if_not_P [OF 2(1)] if_P [OF 2(2)]
      using unit add_at_nonneg [OF _ nzpos, of "replicate n (1 / 10 ^ 5)" ?idx] by auto
  next
    case 3
    let ?kept = "filter (\<lambda>(u, w). quantile ?nz (min (of_nat q / of_nat U16_MAX)
        (of_nat (length ?nz - l_min_allowed limits) / of_nat (length ?nz))) \<le> w) (zip ?nzu ?nz)"
    have "\<forall>u \<in> set (map fst ?kept). 0 \<le> u \<and> u < int n"
    proof
      fix u assume "u \<in> set (map fst ?kept)"
      then have "u \<in> set ?nzu" by (auto dest: set_zip_leftD)
      then show "0 \<le> u \<and> u < int n" using idx assms(1,3) by (auto simp del: length_greater_0_conv)
    qed
    moreover have "\<forall>w \<in> set (map snd ?kept). 0 \<le> w"
      using nzpos by (auto dest!: set_zip_rightD)
    ultimately show ?thesis
      unfolding process_weights_for_netuid_def Let_def if_not_P [OF out(1)] if_not_P [OF 3(1)] if_not_P [OF 3(2)]
      using unit [of "map snd ?kept"] by auto
  qed
qed

section \<open>Properties\<close>

text \<open>C10: Burn first.  For a burn uid on the metagraph, a share \<open>p\<close> between 0 and 1 and non-negative
  weights, the allocation succeeds with non-negative weights that sum to 1; if some other uid has a
  positive weight and \<open>p < 1\<close>, the burn uid comes last with exactly \<open>p\<close> and every other uid keeps its
  proportion of \<open>1 - p\<close>; otherwise everything goes to the burn uid.\<close>

theorem burn_allocation_exact:
  assumes "burn_uid \<in> set current" "0 \<le> p" "p \<le> 1" "length ws = length uids" "\<forall>w \<in> set ws. 0 \<le> w"
  shows "\<exists>us vs. apply_burn_allocation burn_uid (Fin p) current uids (Some ws) = Inr (us, vs) \<and>
    sum_list vs = 1 \<and> (\<forall>v \<in> set vs. 0 \<le> v) \<and>
    (let miners = miners_of burn_uid uids ws; t = sum_list (map snd miners) in
     if 0 < t \<and> p < 1
     then us = map fst miners @ [burn_uid] \<and> vs = map (\<lambda>(u, w). w / t * (1 - p)) miners @ [p]
     else us = [burn_uid] \<and> vs = [1])"
  using burn_spec [OF assms] burn_cases [OF assms(1-4)] by (auto simp: Let_def)

theorem burn_allocation_exact_witness:
  "apply_burn_allocation 25 (Fin (19/20)) [0, 1, 25] [0, 1] (Some [1, 3]) =
     Inr ([0, 1, 25], [1/80, 3/80, 19/20])"
  using burn_allocation_exact [of 25 "[0, 1, 25]" "19/20" "[1, 3]" "[0, 1]"]
  by (auto simp: miners_of_def)

lemma below_limit_first:
  assumes "\<forall>e \<in> set es. 0 \<le> e" "1 < of_nat (length es) * limit" "0 < limit"
  shows "0 < length (filter (below_limit limit es) [0..<length es])"
proof -
  have ne: "0 < length es" using assms(2) by (cases es) auto
  let ?e = "es ! 0"
  have e: "0 \<le> ?e" using assms(1) ne by auto
  have ep: "0 < max_weight_epsilon" by (simp add: max_weight_epsilon_def)
  have c: "cumsum_from 0 es ! 0 = ?e" using ne by (cases es) auto
  have n: "of_nat (length es) * ?e = of_nat (length es - 0 - 1) * ?e + ?e"
    using ne by (cases es) (simp_all add: algebra_simps)
  have "0 < of_nat (length es) * ?e + max_weight_epsilon" using e ep by (intro add_nonneg_pos) auto
  moreover have "?e < limit * (of_nat (length es) * ?e + max_weight_epsilon)"
  proof -
    have "1 * ?e \<le> (of_nat (length es) * limit) * ?e"
      using assms(2) e by (intro mult_right_mono) auto
    moreover have "0 < limit * max_weight_epsilon" using assms(3) ep by simp
    ultimately show ?thesis by (simp add: algebra_simps)
  qed
  ultimately have "below_limit limit es 0"
    unfolding below_limit_def Let_def c n by (simp add: divide_less_eq)
  then have "0 \<in> set (filter (below_limit limit es) [0..<length es])" using ne by simp
  then show ?thesis by (cases "filter (below_limit limit es) [0..<length es]") auto
qed

text \<open>The capped normalisation returns a probability vector of the same length for every
  non-empty non-negative input and every limit (unless the capped vector sums to zero, where the
  array is not a number), and its cutoff formula never divides by zero or indexes outside the
  array: at least one position stays below the limit, and the capped ones times the limit stay
  below one.\<close>

theorem normalize_max_weight_is_distribution:
  assumes "\<forall>w \<in> set x. 0 \<le> w" "x \<noteq> []" "0 < limit"
  shows "(\<forall>y. normalize_max_weight x limit = Some y \<longrightarrow>
      length y = length x \<and> sum_list y = 1 \<and> (\<forall>v \<in> set y. 0 \<le> v \<and> v \<le> 1)) \<and>
    (let es = map (\<lambda>v. v / sum_list (sort x)) (sort x);
         n_values = length (filter (below_limit limit es) [0..<length x])
     in 1 < of_nat (length x) * limit \<longrightarrow>
        1 \<le> n_values \<and> n_values \<le> length x \<and> 0 < 1 - limit * of_nat (length x - n_values))"
proof -
  let ?es = "map (\<lambda>v. v / sum_list (sort x)) (sort x)"
  have "0 \<le> sum_list (sort x)" using assms(1) by (intro sum_list_nonneg) auto
  then have nn: "\<forall>e \<in> set ?es. 0 \<le> e" using assms(1) by auto
  have n: "length ?es = length x" by simp
  have "length (filter (below_limit limit ?es) [0..<length x]) \<le> length x"
    using length_filter_le [of "below_limit limit ?es" "[0..<length x]"] by simp
  moreover have "0 < 1 - limit * of_nat (length x - length (filter (below_limit limit ?es) [0..<length x]))"
    using capped_count [OF nn assms(3)] unfolding n by simp
  moreover have "1 < of_nat (length x) * limit \<Longrightarrow>
      1 \<le> length (filter (below_limit limit ?es) [0..<length x])"
    using below_limit_first [OF nn _ assms(3)] unfolding n One_nat_def by (rule Suc_leI)
  ultimately show ?thesis
    using normalize_spec [OF assms(1,2)] unfolding Let_def by blast
qed

theorem normalize_max_weight_is_distribution_witness:
  "sum_list [1/4, 3/4 :: rat] = 1"
proof -
  have "normalize_max_weight [1, 3] 1 = Some [1/4, 3/4]"
    by (simp add: normalize_max_weight_def Let_def scaled_by_sum_def)
  then show ?thesis using normalize_max_weight_is_distribution [of "[1, 3]" 1] by auto
qed

text \<open>The three stages of an emission: what is processed, what the burn leaves, what is quantised.\<close>

definition processed_weights ::
  "(rat list \<Rightarrow> rat \<Rightarrow> rat) \<Rightarrow> chain_limits \<Rightarrow> metagraph \<Rightarrow> rat list \<Rightarrow> py_exc + int list \<times> rat list option" where
  "processed_weights quantile limits mg raw =
     (if \<not> (\<exists>w \<in> set raw. 0 < w) then Inr (mg_uids mg, Some (replicate (length (mg_uids mg)) 0))
      else process_weights_for_netuid quantile limits (mg_n mg) (mg_uids mg) raw 0)"

lemma processed_spec:
  assumes "length (mg_uids mg) = mg_n mg" "length raw = mg_n mg"
    and "\<forall>u \<in> set (mg_uids mg). 0 \<le> u \<and> u < int (mg_n mg)"
  obtains us ws where "processed_weights quantile limits mg raw = Inr (us, ws)"
    "\<forall>u \<in> set us. 0 \<le> u \<and> u < int (mg_n mg)"
    "\<forall>y. ws = Some y \<longrightarrow> length y = length us \<and> (\<forall>v \<in> set y. 0 \<le> v)"
    "\<not> (\<exists>w \<in> set raw. 0 < w) \<longrightarrow> (\<exists>y. ws = Some y \<and> set y \<subseteq> {0})"
proof (cases "\<exists>w \<in> set raw. 0 < w")
  case True
  with process_spec [OF assms, of quantile limits 0] that show thesis by (auto simp: processed_weights_def)
next
  case False
  with assms(3) that [of "mg_uids mg" "Some (replicate (length (mg_uids mg)) 0)"] show thesis
    by (auto simp: processed_weights_def set_replicate_conv_if)
qed

lemma no_positive_raw: "\<forall>s \<in> set scores. s \<le> 0 \<Longrightarrow> \<not> (\<exists>w \<in> set (raw_weights scores). 0 < w)"
proof -
  have "0 \<le> sum_list (map abs scores)" by (rule sum_list_nonneg_map) simp
  then show "\<forall>s \<in> set scores. s \<le> 0 \<Longrightarrow> \<not> (\<exists>w \<in> set (raw_weights scores). 0 < w)"
    by (auto simp: raw_weights_def Let_def zero_less_divide_iff not_less split: if_splits)
qed

lemma burn_takes_all:
  assumes "burn_uid \<in> set U" "0 \<le> p" "p \<le> 1" "\<forall>y. ws = Some y \<longrightarrow> length y = length us"
    and "ws = None \<or> p = 1 \<or> (\<exists>y. ws = Some y \<and> set y \<subseteq> {0})"
  shows "apply_burn_allocation burn_uid (Fin p) U us ws = Inr ([burn_uid], [1])"
proof (cases ws)
  case None
  with assms(1-3) show ?thesis by (simp add: apply_burn_allocation_def)
next
  case (Some y)
  with assms(4) have y: "length y = length us" by blast
  have "sum_list (map snd (miners_of burn_uid us y)) = 0" if "set y \<subseteq> {0}"
  proof -
    have "\<forall>v \<in> set (map snd (miners_of burn_uid us y)). v = 0"
      using that by (auto simp: miners_of_def dest!: set_zip_rightD)
    moreover have "\<forall>v \<in> set l. v = 0 \<Longrightarrow> sum_list l = 0" for l :: "rat list"
      by (induction l) auto
    ultimately show ?thesis by blast
  qed
  with assms(5) Some have "\<not> (0 < sum_list (map snd (miners_of burn_uid us y)) \<and> p < 1)" by auto
  then show ?thesis using burn_cases [OF assms(1-3) y] by (simp add: Some Let_def)
qed

lemma burn_result:
  assumes "burn_uid \<in> set U" "0 \<le> p" "p \<le> 1"
    and "\<forall>y. ws = Some y \<longrightarrow> length y = length us \<and> (\<forall>v \<in> set y. 0 \<le> v)"
  obtains us2 vs2 where "apply_burn_allocation burn_uid (Fin p) U us ws = Inr (us2, vs2)" "length us2 = length vs2"
    "\<forall>v \<in> set vs2. 0 \<le> v" "\<exists>w \<in> set vs2. 0 < w" "set us2 \<subseteq> insert burn_uid (set us)"
proof (cases ws)
  case None
  with burn_takes_all [OF assms(1-3)] that [of "[burn_uid]" "[1]"] show thesis by simp
next
  case (Some y)
  with assms(4) burn_spec [OF assms(1-3), of y us] obtain us2 vs2
    where burn: "apply_burn_allocation burn_uid (Fin p) U us ws = Inr (us2, vs2)" "length us2 = length vs2"
      "sum_list vs2 = 1" "\<forall>v \<in> set vs2. 0 \<le> v" "set us2 \<subseteq> insert burn_uid (set us)"
    by blast
  have "\<exists>w \<in> set vs2. 0 < w"
  proof (rule ccontr)
    assume "\<not> ?thesis"
    then have "sum_list vs2 \<le> 0" by (intro sum_list_nonpos) (auto simp: not_less)
    with burn(3) show False by simp
  qed
  with burn that show thesis by blast
qed

lemma base_emission_stages:
  assumes "processed_weights quantile limits mg (raw_weights scores) = Inr (us, ws)"
    "apply_burn_allocation burn_uid (Fin p) (mg_uids mg) us ws = Inr (us2, vs2)"
    "convert_weights_and_uids_for_emit us2 vs2 = Inr (us3, vs3)"
  shows "base_emission quantile limits burn_uid (Fin p) mg scores = Inr (Emit us3 vs3)"
  using assms unfolding processed_weights_def base_emission_def Let_def by simp

lemma emit_burn_only: "0 \<le> u \<Longrightarrow> convert_weights_and_uids_for_emit [u] [1] = Inr ([u], [65535])"
  using round_half_even_int [of 65535] by (simp add: convert_weights_and_uids_for_emit_def U16_MAX_def)

text \<open>C11: From scores to the chain.  On a metagraph whose uids number its neurons and include the
  burn uid, with a burn share between 0 and 1 and non-negative scores, the weights always go out:
  uids of the metagraph with integers between 1 and 65535, the largest exactly 65535.  When no
  score is positive, or the share is 1 (the default), only the burn uid receives weight, whatever
  the scores.\<close>

theorem emission_well_formed:
  assumes "length (mg_uids mg) = mg_n mg" "length scores = mg_n mg"
    and "\<forall>u \<in> set (mg_uids mg). 0 \<le> u \<and> u < int (mg_n mg)"
    and "burn_uid \<in> set (mg_uids mg)" "0 \<le> p" "p \<le> 1" "\<forall>s \<in> set scores. 0 \<le> s"
  shows "\<exists>us vs. base_emission quantile limits burn_uid (Fin p) mg scores = Inr (Emit us vs) \<and>
    length us = length vs \<and> (\<forall>u \<in> set us. 0 \<le> u \<and> u < int (mg_n mg)) \<and>
    (\<forall>v \<in> set vs. 1 \<le> v \<and> v \<le> 65535) \<and> 65535 \<in> set vs \<and>
    ((\<forall>s \<in> set scores. s \<le> 0) \<or> p = 1 \<longrightarrow> us = [burn_uid] \<and> vs = [65535])"
proof -
  have "length (raw_weights scores) = mg_n mg" using assms(2) by (simp add: raw_weights_def Let_def)
  then obtain us ws where proc: "processed_weights quantile limits mg (raw_weights scores) = Inr (us, ws)"
      "\<forall>u \<in> set us. 0 \<le> u \<and> u < int (mg_n mg)"
      "\<forall>y. ws = Some y \<longrightarrow> length y = length us \<and> (\<forall>v \<in> set y. 0 \<le> v)"
      "\<not> (\<exists>w \<in> set (raw_weights scores). 0 < w) \<longrightarrow> (\<exists>y. ws = Some y \<and> set y \<subseteq> {0})"
    by (rule processed_spec [OF assms(1) _ assms(3)])
  obtain us2 vs2 where burn: "apply_burn_allocation burn_uid (Fin p) (mg_uids mg) us ws = Inr (us2, vs2)"
    "length us2 = length vs2" "\<forall>v \<in> set vs2. 0 \<le> v" "\<exists>w \<in> set vs2. 0 < w" "set us2 \<subseteq> insert burn_uid (set us)"
    by (rule burn_result [OF assms(4-6) proc(3)])
  have u2: "\<forall>u \<in> set us2. 0 \<le> u \<and> u < int (mg_n mg)" using burn(5) proc(2) assms(3,4) by blast
  then have "\<forall>u \<in> set us2. 0 \<le> u" by blast
  from emit_spec [OF burn(2,3) this burn(4)] obtain us3 vs3
    where e: "convert_weights_and_uids_for_emit us2 vs2 = Inr (us3, vs3)" "length us3 = length vs3"
      "set us3 \<subseteq> set us2" "\<forall>v \<in> set vs3. 1 \<le> v \<and> v \<le> 65535" "65535 \<in> set vs3" by blast
  have "us3 = [burn_uid] \<and> vs3 = [65535]" if "(\<forall>s \<in> set scores. s \<le> 0) \<or> p = 1"
  proof -
    have "ws = None \<or> p = 1 \<or> (\<exists>y. ws = Some y \<and> set y \<subseteq> {0})"
      using that no_positive_raw [of scores] proc(4) by blast
    from burn_takes_all [OF assms(4-6) _ this] proc(3) burn(1) have "us2 = [burn_uid]" "vs2 = [1]" by auto
    moreover have "0 \<le> burn_uid" using assms(3,4) by blast
    ultimately show ?thesis using e(1) emit_burn_only by simp
  qed
  with base_emission_stages [OF proc(1) burn(1) e(1)] e u2 show ?thesis by blast
qed

theorem emission_well_formed_witness:
  "\<exists>us vs. base_emission (\<lambda>xs q. Min (set xs)) \<lparr>l_min_allowed = 1, l_max_limit = 1\<rparr> 1 (Fin 1)
     \<lparr>mg_n = 2, mg_uids = [0, 1], mg_hotkeys = [''a'', ''b''], mg_axons = [], mg_validator_permit = None\<rparr>
     [1/2, 0] = Inr (Emit us vs) \<and> us = [1] \<and> vs = [65535]"
  using emission_well_formed [of "\<lparr>mg_n = 2, mg_uids = [0, 1], mg_hotkeys = [''a'', ''b''],
      mg_axons = [], mg_validator_permit = None\<rparr>" "[1/2, 0]" 1 1] by auto

end
