(* ===== verification/Llm_Validator.thy ===== *)
theory Llm_Validator
  imports Epochs Weights "HOL-Library.Char_ord" "HOL-Library.List_Lexorder"
begin

text \<open>
  The rounds of the LLM-key validator (\<open>neurons/validator.py\<close>): asking miners and relaying their key
  batches, polling usage reports and the roster, pruning absent hotkeys, the evidence gate and the
  weights it submits, and the state file.  What the protocol backend, the miners and the chain
  answer are arguments; so are \<open>str()\<close> of a float or container (\<open>rp\<close>) and the round's clock.
\<close>

section \<open>The miners that are asked\<close>

text \<open>\<open>Inl IndexError\<close>: the metagraph's arrays are shorter than its size.\<close>

fun miner_uids_from :: "bool \<Rightarrow> string \<Rightarrow> metagraph \<Rightarrow> nat list \<Rightarrow> py_exc + nat list" where
  "miner_uids_from query_validators own mg [] = Inr []"
| "miner_uids_from query_validators own mg (uid # uids) =
     (if length (mg_axons mg) \<le> uid then Inl IndexError
      else if \<not> ax_serving (mg_axons mg ! uid) then miner_uids_from query_validators own mg uids
      else if length (mg_hotkeys mg) \<le> uid then Inl IndexError
      else if mg_hotkeys mg ! uid = own then miner_uids_from query_validators own mg uids
      else case (if query_validators then None else mg_validator_permit mg) of
          None \<Rightarrow> map_sum id (Cons uid) (miner_uids_from query_validators own mg uids)
        | Some permits \<Rightarrow>
            if length permits \<le> uid then Inl IndexError
            else if permits ! uid then miner_uids_from query_validators own mg uids
            else map_sum id (Cons uid) (miner_uids_from query_validators own mg uids))"

definition get_miner_uids :: "env \<Rightarrow> string \<Rightarrow> metagraph \<Rightarrow> py_exc + nat list" where
  "get_miner_uids e own mg =
     miner_uids_from (env_flag_on e ''MASXAI_QUERY_VALIDATOR_UIDS'' False) own mg [0..<mg_n mg]"

section \<open>Checking a miner's key batch\<close>

record key_payload =
  kp_slot :: int
  kp_provider :: string
  kp_model :: string
  kp_blob :: string
  kp_encoding :: string
  kp_pubkey_id :: string

definition item_text :: "(json \<Rightarrow> string) \<Rightarrow> (string, json) dict \<Rightarrow> string \<Rightarrow> string" where
  "item_text rp item field = (case dget item field of None \<Rightarrow> [] | Some v \<Rightarrow> py_strip (py_str rp v))"

definition key_item :: "(json \<Rightarrow> string) \<Rightarrow> int list \<Rightarrow> (string, json) dict \<Rightarrow> key_payload option" where
  "key_item rp seen_slots item =
     (let provider = item_text rp item ''provider'';
          model = item_text rp item ''model'';
          blob = item_text rp item ''encrypted_key_blob'';
          pubkey_id = item_text rp item ''pubkey_id_used''
      in case (case dget item ''slot'' of None \<Rightarrow> None | Some v \<Rightarrow> as_int v) of
           None \<Rightarrow> None
         | Some slot \<Rightarrow>
             if \<not> (0 \<le> slot \<and> slot < int LLM_KEY_MAX_KEYS_PER_HOTKEY) \<or> slot \<in> set seen_slots
                \<or> provider = [] \<or> model = [] \<or> blob = [] \<or> pubkey_id = []
             then None
             else Some \<lparr>kp_slot = slot, kp_provider = provider, kp_model = model, kp_blob = blob,
               kp_encoding = (case dget item ''blob_encoding'' of
                   None \<Rightarrow> ''nacl-sealedbox-v1'' | Some v \<Rightarrow> py_str rp v),
               kp_pubkey_id = pubkey_id\<rparr>)"

fun validate_items :: "(json \<Rightarrow> string) \<Rightarrow> json list \<Rightarrow> key_payload list \<Rightarrow> key_payload list" where
  "validate_items rp [] payload = payload"
| "validate_items rp (item # items) payload =
     (if LLM_KEY_MAX_KEYS_PER_HOTKEY \<le> length payload then payload
      else case item of
          JDict d \<Rightarrow> (case key_item rp (map kp_slot payload) d of
              None \<Rightarrow> validate_items rp items payload
            | Some p \<Rightarrow> validate_items rp items (payload @ [p]))
        | _ \<Rightarrow> validate_items rp items payload)"

definition validate_miner_keys :: "(json \<Rightarrow> string) \<Rightarrow> json \<Rightarrow> key_payload list" where
  "validate_miner_keys rp raw_keys = (case raw_keys of
      JList items \<Rightarrow> validate_items rp items []
    | _ \<Rightarrow> [])"

section \<open>Participation\<close>

definition record_participation :: "env \<Rightarrow> nat \<Rightarrow> vstate \<Rightarrow> vstate" where
  "record_participation e uid st =
     (let alpha = env_float e ''MASXAI_PARTICIPATION_EMA_ALPHA'' PARTICIPATION_EMA_ALPHA;
          prev = (case dget (participation_scores st) (int uid) of None \<Rightarrow> Fin 0 | Some v \<Rightarrow> v)
      in st\<lparr>participation_scores :=
            dput (int uid) (ema_update prev PARTICIPATION_REWARD alpha) (participation_scores st)\<rparr>)"

section \<open>The submission round\<close>

text \<open>What the backend answers to one relayed batch.\<close>

record key_result =
  kr_slot :: int
  kr_key_id :: "int option"
  kr_provider :: string
  kr_model :: string
  kr_accepted :: bool
  kr_status :: string
  kr_reason :: "string option"

record submit_result =
  sr_accepted :: bool
  sr_status :: string
  sr_reason :: "string option"
  sr_results :: "key_result list"

text \<open>A miner's answer; \<open>mr_has_key = None\<close> means it never answered.\<close>

record miner_response =
  mr_has_key :: "bool option"
  mr_version :: "int option"
  mr_keys :: json

text \<open>What a round did besides changing the state: batches relayed, announcements, failures.\<close>

record round_log =
  rl_answered :: nat
  rl_submitted :: nat
  rl_relayed :: "(string \<times> nat \<times> key_payload list) list"
  rl_failures :: "(string \<times> nat \<times> string) list"
  rl_announced :: "(string \<times> nat \<times> key_result list) list"

definition empty_log :: round_log where
  "empty_log = \<lparr>rl_answered = 0, rl_submitted = 0, rl_relayed = [], rl_failures = [], rl_announced = []\<rparr>"

definition SYNAPSE_VERSION :: int where "SYNAPSE_VERSION = 6"

fun track_results :: "key_result list \<Rightarrow> (string, key_state) dict \<Rightarrow> (string, key_state) dict" where
  "track_results [] key_states = key_states"
| "track_results (r # rs) key_states = (case kr_key_id r of
      None \<Rightarrow> track_results rs key_states
    | Some i \<Rightarrow>
        let state = (case dget key_states (show_int i) of None \<Rightarrow> empty_key_state | Some s \<Rightarrow> s);
            state = state\<lparr>k_slot := Some (kr_slot r), k_provider := Some (kr_provider r),
                          k_model := Some (kr_model r), k_accepted := Some (kr_accepted r),
                          k_status := Some (kr_status r), k_reason := kr_reason r\<rparr>;
            state = (if kr_accepted r then state\<lparr>k_alive := Some True, k_killed_reason := None\<rparr> else state)
        in track_results rs (dput (show_int i) state key_states))"

definition record_submission :: "string \<Rightarrow> nat \<Rightarrow> rat \<Rightarrow> submit_result \<Rightarrow> vstate \<Rightarrow> vstate" where
  "record_submission hotkey uid now result st =
     (let entry = entry_or_new st hotkey;
          entry = entry\<lparr>h_uid := Some (int uid), h_accepted := Some (sr_accepted result),
                        h_status := Some (sr_status result), h_reason := sr_reason result,
                        h_submitted_at := Some now\<rparr>
      in st\<lparr>llm_key_hotkey_status := dput hotkey
            (entry\<lparr>h_keys := Some (track_results (sr_results result) (states_of entry))\<rparr>)
            (llm_key_hotkey_status st)\<rparr>)"

definition submission_step ::
  "(json \<Rightarrow> string) \<Rightarrow> env \<Rightarrow> rat \<Rightarrow> string list
     \<Rightarrow> (string \<Rightarrow> nat \<Rightarrow> key_payload list \<Rightarrow> string + submit_result)
     \<Rightarrow> nat \<Rightarrow> miner_response \<Rightarrow> vstate \<Rightarrow> round_log \<Rightarrow> py_exc + vstate \<times> round_log" where
  "submission_step rp e now hotkeys submit uid resp st lg =
     (case mr_has_key resp of
        None \<Rightarrow> Inr (st, lg)
      | Some has_key \<Rightarrow>
          let lg = lg\<lparr>rl_answered := rl_answered lg + 1\<rparr>;
              st = record_participation e uid st
          in if mr_version resp \<noteq> Some SYNAPSE_VERSION then Inr (st, lg)
             else if \<not> has_key then Inr (st, lg)
             else
               let keys_payload = validate_miner_keys rp (mr_keys resp) in
               if length keys_payload < LLM_KEY_MIN_KEYS_PER_HOTKEY then Inr (st, lg)
               else if length hotkeys \<le> uid then Inl IndexError
               else
                 let hotkey = hotkeys ! uid;
                     lg = lg\<lparr>rl_relayed := rl_relayed lg @ [(hotkey, uid, keys_payload)]\<rparr>
                 in (case submit hotkey uid keys_payload of
                      Inl error \<Rightarrow>
                        Inr (st, lg\<lparr>rl_failures := rl_failures lg @ [(hotkey, uid, take 160 error)]\<rparr>)
                    | Inr result \<Rightarrow>
                        Inr (record_submission hotkey uid now result st,
                             lg\<lparr>rl_announced := rl_announced lg @ [(hotkey, uid, sr_results result)],
                                 rl_submitted := rl_submitted lg + (if sr_accepted result then 1 else 0)\<rparr>)))"

fun submission_loop ::
  "(json \<Rightarrow> string) \<Rightarrow> env \<Rightarrow> rat \<Rightarrow> string list
     \<Rightarrow> (string \<Rightarrow> nat \<Rightarrow> key_payload list \<Rightarrow> string + submit_result)
     \<Rightarrow> (nat \<times> miner_response) list \<Rightarrow> vstate \<Rightarrow> round_log \<Rightarrow> py_exc + vstate \<times> round_log" where
  "submission_loop rp e now hotkeys submit [] st lg = Inr (st, lg)"
| "submission_loop rp e now hotkeys submit ((uid, resp) # rest) st lg =
     (case submission_step rp e now hotkeys submit uid resp st lg of
        Inl x \<Rightarrow> Inl x
      | Inr (st, lg) \<Rightarrow> submission_loop rp e now hotkeys submit rest st lg)"

definition non_negative_env :: "env \<Rightarrow> string \<Rightarrow> fl \<Rightarrow> fl" where
  "non_negative_env e name dflt = py_max (Fin 0) (env_float e name dflt)"

text \<open>
  A failed fetch of the public key or the model list (\<open>fetched = False\<close>) only pushes the next ask
  back by the failure backoff; otherwise every miner is asked and \<open>ask uids\<close> are the answers.
\<close>

definition submission_interval :: "env \<Rightarrow> fl" where
  "submission_interval e = non_negative_env e ''MASXAI_LLM_KEY_SUBMISSION_INTERVAL_SECONDS''
     LLM_KEY_SUBMISSION_INTERVAL_SECONDS"

definition too_early :: "rat \<Rightarrow> fl \<Rightarrow> fl \<Rightarrow> bool" where
  "too_early now last_at interval = (fl_truthy last_at \<and> fl_lt (fl_sub (Fin now) last_at) interval)"

definition backed_off :: "rat \<Rightarrow> fl \<Rightarrow> fl \<Rightarrow> fl" where
  "backed_off now interval backoff_env =
     fl_add (fl_sub (Fin now) interval) (py_min (py_max (Fin 0) backoff_env) interval)"

definition llm_key_submission_round ::
  "(json \<Rightarrow> string) \<Rightarrow> env \<Rightarrow> rat \<Rightarrow> string \<Rightarrow> metagraph \<Rightarrow> bool
     \<Rightarrow> (nat list \<Rightarrow> miner_response list)
     \<Rightarrow> (string \<Rightarrow> nat \<Rightarrow> key_payload list \<Rightarrow> string + submit_result)
     \<Rightarrow> vstate \<Rightarrow> py_exc + vstate \<times> round_log" where
  "llm_key_submission_round rp e now own mg fetched ask submit st =
     (let interval = submission_interval e in
      if too_early now (last_llm_key_ask_at st) interval then Inr (st, empty_log)
      else if \<not> fetched then
        Inr (st\<lparr>last_llm_key_ask_at := backed_off now interval
               (env_float e ''MASXAI_LLM_KEY_ASK_FAILURE_BACKOFF_SECONDS''
                  LLM_KEY_ASK_FAILURE_BACKOFF_SECONDS)\<rparr>, empty_log)
      else case get_miner_uids e own mg of
          Inl x \<Rightarrow> Inl x
        | Inr miner_uids \<Rightarrow>
            if miner_uids = [] then Inr (st\<lparr>last_llm_key_ask_at := Fin now\<rparr>, empty_log)
            else if \<exists>uid \<in> set miner_uids. length (mg_axons mg) \<le> uid then Inl IndexError
            else (case submission_loop rp e now (mg_hotkeys mg) submit
                         (zip miner_uids (ask miner_uids)) st empty_log of
                Inl x \<Rightarrow> Inl x
              | Inr (st, lg) \<Rightarrow> Inr (st\<lparr>last_llm_key_ask_at := Fin now\<rparr>, lg)))"

section \<open>Keys the roster calls dead\<close>

record roster_entry =
  ro_hotkey :: string
  ro_key_id :: "int option"
  ro_provider :: "string option"
  ro_model :: "string option"
  ro_status :: string

definition roster_sub_key :: "roster_entry \<Rightarrow> string" where
  "roster_sub_key entry = (case ro_key_id entry of
      Some i \<Rightarrow> show_int i
    | None \<Rightarrow>
        if truthy_text (ro_provider entry) \<and> truthy_text (ro_model entry)
        then text_or_empty (ro_provider entry) @ ''/'' @ text_or_empty (ro_model entry)
        else ''legacy'')"

definition roster_step :: "roster_entry \<Rightarrow> vstate \<Rightarrow> vstate" where
  "roster_step entry st =
     (if ro_status entry \<notin> {''DEAD'', ''REVOKED''} then st
      else if dget (llm_key_hotkey_status st) (ro_hotkey entry) = None then st
      else kill_hotkey_key (ro_hotkey entry) (roster_sub_key entry)
             (''roster reports key '' @ ro_status entry) st)"

text \<open>\<open>None\<close>: the roster could not be read.\<close>

definition poll_llm_key_roster :: "roster_entry list option \<Rightarrow> vstate \<Rightarrow> vstate" where
  "poll_llm_key_roster roster st = (case roster of
      None \<Rightarrow> st
    | Some entries \<Rightarrow> fold roster_step entries st)"

section \<open>Pruning absent hotkeys\<close>

definition prune_step :: "string list \<Rightarrow> rat \<Rightarrow> fl \<Rightarrow> string \<times> hotkey_entry \<Rightarrow> vstate \<Rightarrow> vstate" where
  "prune_step current_hotkeys now grace p st =
     (case p of (hotkey, status) \<Rightarrow>
      if hotkey \<in> set current_hotkeys
      then st\<lparr>llm_key_hotkey_status := dput hotkey (status\<lparr>h_missing_since := None\<rparr>)
                (llm_key_hotkey_status st)\<rparr>
      else case h_missing_since status of
          None \<Rightarrow> st\<lparr>llm_key_hotkey_status := dput hotkey (status\<lparr>h_missing_since := Some now\<rparr>)
                     (llm_key_hotkey_status st)\<rparr>
        | Some missing_since \<Rightarrow>
            if fl_le grace (Fin (now - missing_since))
            then st\<lparr>llm_key_hotkey_status := dpop hotkey (llm_key_hotkey_status st),
                    llm_key_pending_calls := dpop hotkey (llm_key_pending_calls st)\<rparr>
            else st)"

definition prune_llm_key_hotkey_status :: "env \<Rightarrow> string list \<Rightarrow> rat \<Rightarrow> vstate \<Rightarrow> vstate" where
  "prune_llm_key_hotkey_status e hotkeys now st =
     fold (prune_step hotkeys now
            (non_negative_env e ''MASXAI_LLM_KEY_HOTKEY_STATUS_EVICTION_GRACE_SECONDS''
               LLM_KEY_HOTKEY_STATUS_EVICTION_GRACE_SECONDS))
       (llm_key_hotkey_status st) st"

section \<open>The report poll round\<close>

definition note_report :: "string \<Rightarrow> nat \<Rightarrow> rat \<Rightarrow> bool \<Rightarrow> vstate \<Rightarrow> vstate" where
  "note_report hotkey uid now key_active st =
     st\<lparr>llm_key_hotkey_status := dput hotkey
         ((entry_or_new st hotkey)\<lparr>h_uid := Some (int uid), h_last_report_at := Some now,
                                  h_key_active := Some key_active\<rparr>)
         (llm_key_hotkey_status st)\<rparr>"

definition report_step ::
  "(json \<Rightarrow> string) \<Rightarrow> string list \<Rightarrow> rat \<Rightarrow> usage_report \<Rightarrow> vstate \<Rightarrow> vstate" where
  "report_step rp hotkeys now report st =
     (case index_of (r_hotkey report) hotkeys of
        None \<Rightarrow> st
      | Some uid \<Rightarrow>
          let st = note_report (r_hotkey report) uid now (r_key_active report) st;
              sub_key = report_sub_key report
          in if \<not> r_key_active report
             then kill_hotkey_key (r_hotkey report) sub_key ''report row marked key inactive'' st
             else if has_fatal_error_category (Some (r_error_categories report))
             then kill_hotkey_key (r_hotkey report) sub_key
                    (''fatal error category in usage report: ''
                     @ rp (JList (map JStr (sort (r_error_categories report))))) st
             else fold_report_into_pending (r_hotkey report) report now st)"

definition report_interval :: "env \<Rightarrow> fl" where
  "report_interval e = non_negative_env e ''MASXAI_LLM_KEY_REPORT_POLL_INTERVAL_SECONDS''
     LLM_KEY_REPORT_POLL_INTERVAL_SECONDS"

text \<open>The start of an empty-reports streak; the rest of that branch only logs.\<close>

definition note_empty_reports :: "bool \<Rightarrow> rat \<Rightarrow> vstate \<Rightarrow> vstate" where
  "note_empty_reports any_report now st =
     (if any_report then st\<lparr>llm_key_reports_empty_since := 0\<rparr>
      else if (\<exists>e \<in> set (dvals (llm_key_hotkey_status st)). h_accepted e = Some True)
              \<and> llm_key_reports_empty_since st = 0
      then st\<lparr>llm_key_reports_empty_since := now\<rparr> else st)"

text \<open>\<open>fetched\<close>: the rows and the next cursor, \<open>None\<close> when the fetch raised.\<close>

definition llm_key_report_poll_round ::
  "(json \<Rightarrow> string) \<Rightarrow> env \<Rightarrow> rat \<Rightarrow> chain_reads \<Rightarrow> string list
     \<Rightarrow> (usage_report list \<times> string option) option \<Rightarrow> roster_entry list option
     \<Rightarrow> vstate \<Rightarrow> py_exc + vstate" where
  "llm_key_report_poll_round rp e now c hotkeys fetched roster st =
     (let interval = report_interval e in
      if too_early now (last_llm_key_report_poll_at st) interval then Inr st
      else case roll_epoch_if_needed e c hotkeys st of
          Inl x \<Rightarrow> Inl x
        | Inr st \<Rightarrow>
          (case fetched of
             None \<Rightarrow> Inr (st\<lparr>last_llm_key_report_poll_at := backed_off now interval
                 (env_float e ''MASXAI_LLM_KEY_REPORT_POLL_FAILURE_BACKOFF_SECONDS''
                    LLM_KEY_REPORT_POLL_FAILURE_BACKOFF_SECONDS)\<rparr>)
           | Some (reports, next_since) \<Rightarrow>
               let st = fold (report_step rp hotkeys now) reports st;
                   st = poll_llm_key_roster roster st;
                   st = prune_llm_key_hotkey_status e hotkeys now st
               in (case score_last_epoch e hotkeys st of
                    Inl x \<Rightarrow> Inl x
                  | Inr st \<Rightarrow>
                      let st = (if truthy_text next_since
                                then st\<lparr>last_llm_key_report_cursor := text_or_empty next_since\<rparr> else st);
                          st = note_empty_reports (reports \<noteq> []) now st
                      in Inr (st\<lparr>last_llm_key_report_poll_at := Fin now\<rparr>))))"

section \<open>The weights that are submitted\<close>

definition has_llm_key_evidence :: "string list \<Rightarrow> vstate \<Rightarrow> nat \<Rightarrow> bool" where
  "has_llm_key_evidence hotkeys st uid =
     (uid < length hotkeys \<and>
      (case dget (llm_key_hotkey_status st) (hotkeys ! uid) of
         None \<Rightarrow> False
       | Some status \<Rightarrow>
           h_uid status = Some (int uid) \<and> h_last_report_at status \<noteq> None \<and>
           (let key_states = states_of status in
            key_states = [] \<or> (\<exists>state \<in> set (dvals key_states). k_alive state \<noteq> Some False))))"

definition nan_to_num :: "fl \<Rightarrow> rat" where
  "nan_to_num x = (case x of Fin r \<Rightarrow> r | _ \<Rightarrow> 0)"

definition blended_weight_array :: "string list \<Rightarrow> vstate \<Rightarrow> rat list" where
  "blended_weight_array hotkeys st =
     map (\<lambda>(uid, w). if 0 < w \<and> \<not> has_llm_key_evidence hotkeys st uid then 0 else w)
       (enumerate 0 (map nan_to_num (v_scores st)))"

text \<open>
  \<open>set_weights\<close>: roll, score, submit the blended array through the base class, and put the scores
  back whatever the base class did.
\<close>

definition set_weights ::
  "(rat list \<Rightarrow> py_exc + bool option) \<Rightarrow> env \<Rightarrow> chain_reads \<Rightarrow> string list \<Rightarrow> vstate
     \<Rightarrow> py_exc + vstate \<times> (py_exc + bool option)" where
  "set_weights base e c hotkeys st =
     (case roll_epoch_if_needed e c hotkeys st of
        Inl x \<Rightarrow> Inl x
      | Inr st \<Rightarrow>
        (case score_last_epoch e hotkeys st of
           Inl x \<Rightarrow> Inl x
         | Inr st \<Rightarrow>
             let original_scores = v_scores st;
                 st = st\<lparr>v_scores := map Fin (blended_weight_array hotkeys st)\<rparr>;
                 result = base (map nan_to_num (v_scores st))
             in Inr (st\<lparr>v_scores := original_scores\<rparr>, result)))"

section \<open>The state file\<close>

text \<open>
  A saved window is in today's shape, in the flat single-key shape, or has neither (the counters
  a flat entry lacks count as zero).  \<open>sv_scores\<close> is absent in some old files.
\<close>

datatype saved_window =
    Keyed window
  | Flat sub_acc rat rat
  | Neither rat rat

record saved_state =
  sv_participation :: "(string, fl) dict"
  sv_status :: "(string, hotkey_entry) dict"
  sv_pending :: "(string, saved_window) dict"
  sv_last_epoch :: "(string, saved_window) dict"
  sv_ask_at :: fl
  sv_poll_at :: fl
  sv_cursor :: string
  sv_epoch_start :: "int option"
  sv_scores :: "fl list option"

fun migrate_pending_entry :: "saved_window \<Rightarrow> window" where
  "migrate_pending_entry (Keyed w) = w"
| "migrate_pending_entry (Neither first_seen last_seen) =
     \<lparr>w_keys = [], w_first_seen = first_seen, w_last_seen = last_seen\<rparr>"
| "migrate_pending_entry (Flat counters first_seen last_seen) =
     \<lparr>w_keys = [(''legacy'', counters\<lparr>s_tier := None\<rparr>)],
      w_first_seen = first_seen, w_last_seen = last_seen\<rparr>"

text \<open>Scores of another length are copied over the overlap.\<close>

definition restore_scores :: "fl list option \<Rightarrow> fl list \<Rightarrow> fl list" where
  "restore_scores saved scores = (case saved of
      None \<Rightarrow> scores
    | Some arr \<Rightarrow>
        if length arr = length scores then arr
        else let copy_len = min (length arr) (length scores)
             in take copy_len arr @ drop copy_len scores)"

definition drop_unbacked_scores :: "string list \<Rightarrow> vstate \<Rightarrow> vstate" where
  "drop_unbacked_scores hotkeys st = st\<lparr>v_scores :=
     map (\<lambda>(uid, s). if fl_lt (Fin 0) s \<and> \<not> has_llm_key_evidence hotkeys st uid then Fin 0 else s)
       (enumerate 0 (v_scores st))\<rparr>"

text \<open>\<open>load_masxai_state\<close> on a file of the documented shape; \<open>None\<close>: a uid that is no integer.\<close>

fun load_participation :: "(string, fl) dict \<Rightarrow> (int, fl) dict \<Rightarrow> (int, fl) dict option" where
  "load_participation [] acc = Some acc"
| "load_participation ((k, v) # rest) acc = (case py_int k of
      None \<Rightarrow> None
    | Some uid \<Rightarrow> load_participation rest (dput uid v acc))"

definition load_masxai_state :: "string list \<Rightarrow> saved_state \<Rightarrow> vstate \<Rightarrow> vstate option" where
  "load_masxai_state hotkeys saved st = (case load_participation (sv_participation saved) [] of
      None \<Rightarrow> None
    | Some participation \<Rightarrow>
        Some (drop_unbacked_scores hotkeys
          (st\<lparr>participation_scores := participation,
              llm_key_hotkey_status := sv_status saved,
              llm_key_pending_calls := map (\<lambda>(k, v). (k, migrate_pending_entry v)) (sv_pending saved),
              last_llm_key_ask_at := sv_ask_at saved,
              last_llm_key_report_poll_at := sv_poll_at saved,
              last_llm_key_report_cursor := sv_cursor saved,
              llm_key_last_epoch_calls :=
                map (\<lambda>(k, v). (k, migrate_pending_entry v)) (sv_last_epoch saved),
              llm_key_epoch_start_block := sv_epoch_start saved,
              v_scores := restore_scores (sv_scores saved) (v_scores st)\<rparr>)))"

definition save_masxai_state :: "vstate \<Rightarrow> saved_state" where
  "save_masxai_state st =
     \<lparr>sv_participation = map (\<lambda>(uid, s). (show_int uid, s)) (participation_scores st),
      sv_status = llm_key_hotkey_status st,
      sv_pending = map (\<lambda>(k, w). (k, Keyed w)) (llm_key_pending_calls st),
      sv_last_epoch = map (\<lambda>(k, w). (k, Keyed w)) (llm_key_last_epoch_calls st),
      sv_ask_at = last_llm_key_ask_at st,
      sv_poll_at = last_llm_key_report_poll_at st,
      sv_cursor = last_llm_key_report_cursor st,
      sv_epoch_start = llm_key_epoch_start_block st,
      sv_scores = Some (v_scores st)\<rparr>"

section \<open>Lemmas\<close>

lemma key_item_SomeD:
  assumes "key_item rp seen item = Some p"
  shows "0 \<le> kp_slot p \<and> kp_slot p < 5 \<and> kp_slot p \<notin> set seen \<and> kp_provider p \<noteq> [] \<and>
    kp_model p \<noteq> [] \<and> kp_blob p \<noteq> [] \<and> kp_pubkey_id p \<noteq> []"
  using assms
  by (auto simp: key_item_def Let_def LLM_KEY_MAX_KEYS_PER_HOTKEY_def split: option.splits if_splits)

definition batch_ok :: "key_payload list \<Rightarrow> bool" where
  "batch_ok payload \<longleftrightarrow> length payload \<le> 5 \<and> distinct (map kp_slot payload) \<and>
     (\<forall>p \<in> set payload. 0 \<le> kp_slot p \<and> kp_slot p < 5 \<and> kp_provider p \<noteq> [] \<and>
        kp_model p \<noteq> [] \<and> kp_blob p \<noteq> [] \<and> kp_pubkey_id p \<noteq> [])"

lemma batch_ok_snoc:
  assumes "batch_ok payload" "\<not> LLM_KEY_MAX_KEYS_PER_HOTKEY \<le> length payload"
    "key_item rp (map kp_slot payload) d = Some p"
  shows "batch_ok (payload @ [p])"
  using assms(1,2) key_item_SomeD [OF assms(3)]
  unfolding batch_ok_def LLM_KEY_MAX_KEYS_PER_HOTKEY_def by auto

lemma validate_items_ok: "batch_ok payload \<Longrightarrow> batch_ok (validate_items rp items payload)"
proof (induction items arbitrary: payload)
  case (Cons item items)
  show ?case
  proof (cases "LLM_KEY_MAX_KEYS_PER_HOTKEY \<le> length payload")
    case False
    note snoc = batch_ok_snoc [OF Cons.prems False]
    show ?thesis
      using Cons.IH [OF Cons.prems] Cons.IH [OF snoc] False
      by (cases item) (auto split: option.splits)
  qed (use Cons.prems in simp)
qed simp

lemma batch_slots:
  assumes "batch_ok payload" "length payload = 5"
  shows "set (map kp_slot payload) = {0, 1, 2, 3, 4}"
proof (rule card_subset_eq)
  show "set (map kp_slot payload) \<subseteq> {0, 1, 2, 3, 4}"
    using assms(1) by (auto simp: batch_ok_def)
  have "card (set (map kp_slot payload)) = length (map kp_slot payload)"
    using assms(1) by (intro distinct_card) (simp add: batch_ok_def)
  then show "card (set (map kp_slot payload)) = card {0, 1, 2, 3, 4 :: int}" using assms(2) by simp
qed simp

text \<open>The window invariant through a poll round.\<close>

lemma vstate_wf_status [simp]: "vstate_wf (st\<lparr>llm_key_hotkey_status := d\<rparr>) = vstate_wf st"
  by (simp add: vstate_wf_def)

lemma vstate_wf_fields [simp]:
  "vstate_wf (st\<lparr>last_llm_key_report_poll_at := x\<rparr>) = vstate_wf st"
  "vstate_wf (st\<lparr>last_llm_key_report_cursor := y\<rparr>) = vstate_wf st"
  "vstate_wf (st\<lparr>llm_key_reports_empty_since := z\<rparr>) = vstate_wf st"
  "vstate_wf (st\<lparr>v_scores := v\<rparr>) = vstate_wf st"
  by (simp_all add: vstate_wf_def)

lemma vstate_wf_report_step: "vstate_wf st \<Longrightarrow> vstate_wf (report_step rp hotkeys now report st)"
  by (auto simp: report_step_def note_report_def Let_def intro!: wf_intros split: option.splits)

lemma vstate_wf_roster_step: "vstate_wf st \<Longrightarrow> vstate_wf (roster_step entry st)"
  by (auto simp: roster_step_def intro!: wf_intros)

lemma vstate_wf_prune_step: "vstate_wf st \<Longrightarrow> vstate_wf (prune_step hotkeys now grace p st)"
  by (auto simp: prune_step_def windows_wf_pop vstate_wf_def split: option.splits prod.splits)

lemma fold_invariant: "(\<And>x s. P s \<Longrightarrow> P (f x s)) \<Longrightarrow> P s \<Longrightarrow> P (fold f xs s)"
  by (induction xs arbitrary: s) auto

lemma vstate_wf_poll_parts [wf_intros]:
  "vstate_wf st \<Longrightarrow> vstate_wf (fold (report_step rp hotkeys now) reports st)"
  "vstate_wf st \<Longrightarrow> vstate_wf (poll_llm_key_roster roster st)"
  "vstate_wf st \<Longrightarrow> vstate_wf (prune_llm_key_hotkey_status e hotkeys now st)"
  by (auto simp: poll_llm_key_roster_def prune_llm_key_hotkey_status_def
      intro!: fold_invariant [where P = vstate_wf]
      intro: vstate_wf_report_step vstate_wf_roster_step vstate_wf_prune_step split: option.splits)

lemma vstate_wf_note_empty [wf_intros]: "vstate_wf st \<Longrightarrow> vstate_wf (note_empty_reports b now st)"
  by (simp add: note_empty_reports_def)

lemma dead_key_stays_out:
  "rows_of (llm_key_pending_calls (kill_hotkey_key h k reason st)) h k = None"
  "rows_of (llm_key_last_epoch_calls (kill_hotkey_key h k reason st)) h k = None"
  "\<not> key_alive (kill_hotkey_key h k reason st) h k"
  by (simp_all add: kill_rows kill_alive del: kill_frame)

lemma blended_nth:
  assumes "uid < length (v_scores st)"
  shows "blended_weight_array hotkeys st ! uid =
    (if 0 < nan_to_num (v_scores st ! uid) \<and> \<not> has_llm_key_evidence hotkeys st uid then 0
     else nan_to_num (v_scores st ! uid))"
  using assms by (simp add: blended_weight_array_def nth_enumerate_eq)

lemma length_blended [simp]: "length (blended_weight_array hotkeys st) = length (v_scores st)"
  by (simp add: blended_weight_array_def)

lemma has_evidence_iff:
  "has_llm_key_evidence hotkeys st uid \<longleftrightarrow> uid < length hotkeys \<and>
     (\<exists>entry. dget (llm_key_hotkey_status st) (hotkeys ! uid) = Some entry \<and>
        h_uid entry = Some (int uid) \<and> h_last_report_at entry \<noteq> None \<and>
        (states_of entry = [] \<or> (\<exists>k \<in> set (dvals (states_of entry)). k_alive k \<noteq> Some False)))"
  by (auto simp: has_llm_key_evidence_def Let_def split: option.splits)

lemma evidence_scores_update [simp]:
  "has_llm_key_evidence hotkeys (st\<lparr>v_scores := x\<rparr>) uid = has_llm_key_evidence hotkeys st uid"
  by (simp add: has_llm_key_evidence_def)

lemma load_participation_saved:
  assumes "\<forall>p \<in> set m. 0 \<le> fst p \<and> fst p < 65536" "dict_wf (acc @ m)"
  shows "load_participation (map (\<lambda>(uid, s). (show_int uid, s)) m) acc = Some (acc @ m)"
  using assms
proof (induction m arbitrary: acc)
  case (Cons p m)
  have "dput k v acc = acc @ [(k, v)]" if "k \<notin> set (dkeys acc)" for k v
    using that by (induction acc) auto
  then have "dput (fst p) (snd p) acc = acc @ [p]" using Cons.prems(2) by (auto simp: dict_wf_def)
  with Cons.IH [of "acc @ [p]"] Cons.prems show ?case
    by (cases p) (simp add: py_int_show_uid)
qed simp

lemma prune_step_other:
  "fst p \<noteq> h \<Longrightarrow> dget (llm_key_hotkey_status (prune_step hks now grace p st)) h = dget (llm_key_hotkey_status st) h \<and>
    dget (llm_key_pending_calls (prune_step hks now grace p st)) h = dget (llm_key_pending_calls st) h"
  by (cases p) (auto simp: prune_step_def dget_simps split: option.splits)

text \<open>What pruning does to one hotkey.\<close>

definition pruned :: "string list \<Rightarrow> rat \<Rightarrow> fl \<Rightarrow> string \<Rightarrow> hotkey_entry \<Rightarrow> hotkey_entry option" where
  "pruned hks now grace h status =
     (if h \<in> set hks then Some (status\<lparr>h_missing_since := None\<rparr>)
      else case h_missing_since status of
          None \<Rightarrow> Some (status\<lparr>h_missing_since := Some now\<rparr>)
        | Some t \<Rightarrow> if fl_le grace (Fin (now - t)) then None else Some status)"

lemma prune_step_same:
  assumes "dget (llm_key_hotkey_status st) h = Some status"
  shows "dget (llm_key_hotkey_status (prune_step hks now grace (h, status) st)) h = pruned hks now grace h status \<and>
    dget (llm_key_pending_calls (prune_step hks now grace (h, status) st)) h =
      (if pruned hks now grace h status = None then None else dget (llm_key_pending_calls st) h)"
  using assms by (auto simp: prune_step_def pruned_def dget_simps split: option.splits)

lemma prune_fold:
  assumes "dict_wf ps" "\<forall>p \<in> set ps. dget (llm_key_hotkey_status st) (fst p) = Some (snd p)"
  shows "dget (llm_key_hotkey_status (fold (prune_step hks now grace) ps st)) h =
      (case dget ps h of None \<Rightarrow> dget (llm_key_hotkey_status st) h | Some status \<Rightarrow> pruned hks now grace h status) \<and>
    dget (llm_key_pending_calls (fold (prune_step hks now grace) ps st)) h =
      (case dget ps h of None \<Rightarrow> dget (llm_key_pending_calls st) h
       | Some status \<Rightarrow> if pruned hks now grace h status = None then None else dget (llm_key_pending_calls st) h)"
  using assms
proof (induction ps arbitrary: st)
  case (Cons p ps)
  obtain k status where p: "p = (k, status)" by force
  have k: "dget (llm_key_hotkey_status st) k = Some status" using Cons.prems(2) p by auto
  have nin: "dget ps k = None" using Cons.prems(1) p by (auto simp: dict_wf_def map_of_eq_None_iff)
  let ?st = "prune_step hks now grace p st"
  have rest: "\<forall>q \<in> set ps. dget (llm_key_hotkey_status ?st) (fst q) = Some (snd q)"
  proof
    fix q assume q: "q \<in> set ps"
    with Cons.prems(1) p have "fst p \<noteq> fst q" by (auto simp: dict_wf_def)
    with prune_step_other [OF this] Cons.prems(2) q
    show "dget (llm_key_hotkey_status ?st) (fst q) = Some (snd q)" by simp
  qed
  have wf: "dict_wf ps" using Cons.prems(1) by (simp add: dict_wf_def)
  show ?case
  proof (cases "h = k")
    case True
    with Cons.IH [OF wf rest] nin prune_step_same [OF k] show ?thesis by (simp add: p)
  next
    case False
    then have "fst p \<noteq> h" by (simp add: p)
    note other = prune_step_other [OF this, of hks now grace st]
    from False Cons.IH [OF wf rest] show ?thesis
      by (simp add: other p [symmetric] cong: option.case_cong if_cong) (simp add: p)
  qed
qed simp

section \<open>Properties\<close>

lemma relay_invariant:
  assumes "submission_step rp e now hotkeys submit uid resp st lg = Inr (st', lg')"
    and "\<forall>(h, u, b) \<in> set (rl_relayed lg). batch_ok b \<and> length b = 5"
  shows "\<forall>(h, u, b) \<in> set (rl_relayed lg'). batch_ok b \<and> length b = 5"
proof -
  have ok: "batch_ok (validate_miner_keys rp raw)" for raw
    using validate_items_ok [of "[]" rp] by (auto simp: validate_miner_keys_def batch_ok_def split: json.splits)
  then have le: "length (validate_miner_keys rp raw) \<le> 5" for raw by (simp add: batch_ok_def)
  have "length (validate_miner_keys rp raw) = 5"
    if "\<not> length (validate_miner_keys rp raw) < LLM_KEY_MIN_KEYS_PER_HOTKEY" for raw
    using that le [of raw] by (simp add: LLM_KEY_MIN_KEYS_PER_HOTKEY_def)
  with ok assms show ?thesis
    by (auto simp: submission_step_def Let_def split: option.splits if_splits sum.splits)
qed

lemma relay_loop_invariant:
  assumes "submission_loop rp e now hotkeys submit ps st lg = Inr (st', lg')"
    and "\<forall>(h, u, b) \<in> set (rl_relayed lg). batch_ok b \<and> length b = 5"
  shows "\<forall>(h, u, b) \<in> set (rl_relayed lg'). batch_ok b \<and> length b = 5"
  using assms
proof (induction ps arbitrary: st lg)
  case (Cons p ps)
  obtain uid resp where p: "p = (uid, resp)" by force
  from Cons.prems(1) obtain st1 lg1 where step: "submission_step rp e now hotkeys submit uid resp st lg = Inr (st1, lg1)"
    and rec: "submission_loop rp e now hotkeys submit ps st1 lg1 = Inr (st', lg')"
    by (auto simp: p split: sum.splits)
  show ?case by (rule Cons.IH [OF rec relay_invariant [OF step Cons.prems(2)]])
qed simp

text \<open>C12: Whatever a miner sends, the relay is sanitised: a batch holds at most five keys with
  pairwise distinct slots from 0 to 4 and non-empty provider, model, ciphertext and key id; and a
  round relays only complete batches, so a relayed batch fills the slots 0 to 4 exactly once.\<close>

theorem only_complete_batches_are_relayed:
  assumes "llm_key_submission_round rp e now own mg fetched ask submit st = Inr (st', lg)"
  shows "batch_ok (validate_miner_keys rp raw) \<and>
    (\<forall>(h, u, b) \<in> set (rl_relayed lg). batch_ok b \<and> set (map kp_slot b) = {0, 1, 2, 3, 4})"
proof -
  have ok: "batch_ok (validate_miner_keys rp raw)"
    using validate_items_ok [of "[]" rp] by (auto simp: validate_miner_keys_def batch_ok_def split: json.splits)
  have start: "\<forall>(h, u, b) \<in> set (rl_relayed empty_log). batch_ok b \<and> length b = 5"
    by (simp add: empty_log_def)
  have "lg = empty_log \<or>
      (\<exists>ps st1. submission_loop rp e now (mg_hotkeys mg) submit ps st empty_log = Inr (st1, lg))"
    using assms unfolding llm_key_submission_round_def Let_def by (auto split: if_splits sum.splits)
  then have "\<forall>(h, u, b) \<in> set (rl_relayed lg). batch_ok b \<and> length b = 5"
    using start relay_loop_invariant [OF _ start] by blast
  with ok batch_slots show ?thesis by blast
qed

text \<open>A miner that sends five keys, which the backend takes.\<close>

definition five_keys :: json where
  "five_keys = JList (map (\<lambda>i. JDict [(''slot'', JInt i), (''provider'', JStr ''openai''), (''model'', JStr ''gpt-4o''),
     (''encrypted_key_blob'', JStr (''blob'' @ show_int i)), (''blob_encoding'', JStr ''nacl-sealedbox-v1''),
     (''pubkey_id_used'', JStr ''k1'')]) [4, 2, 0, 1, 3])"

definition giving_graph :: metagraph where
  "giving_graph = \<lparr>mg_n = 1, mg_uids = [0], mg_hotkeys = [''a''], mg_axons = [\<lparr>ax_serving = True, ax_info = []\<rparr>],
     mg_validator_permit = None\<rparr>"

theorem only_complete_batches_are_relayed_witness:
  "\<exists>st' lg b. llm_key_submission_round (\<lambda>_. []) no_env 100000 ''v'' giving_graph True
     (\<lambda>_. [\<lparr>mr_has_key = Some True, mr_version = Some SYNAPSE_VERSION, mr_keys = five_keys\<rparr>])
     (\<lambda>_ _ _. Inl ''down'') (initial_vstate 1) = Inr (st', lg) \<and>
     rl_relayed lg = [(''a'', 0, b)] \<and> map kp_slot b = [4, 2, 0, 1, 3] \<and> set (map kp_slot b) = {0, 1, 2, 3, 4}"
proof -
  let ?run = "llm_key_submission_round (\<lambda>_. []) no_env 100000 ''v'' giving_graph True
     (\<lambda>_. [\<lparr>mr_has_key = Some True, mr_version = Some SYNAPSE_VERSION, mr_keys = five_keys\<rparr>])
     (\<lambda>_ _ _. Inl ''down'') (initial_vstate 1)"
  have "map_sum (\<lambda>_. ()) (\<lambda>(_, lg). map (\<lambda>(h, u, b). (h, u, map kp_slot b)) (rl_relayed lg)) ?run =
      Inr [(''a'', 0, [4, 2, 0, 1, 3])]" by code_simp
  then obtain st' lg b where run: "?run = Inr (st', lg)" "rl_relayed lg = [(''a'', 0, b)]" "map kp_slot b = [4, 2, 0, 1, 3]"
    by (cases ?run) auto
  from only_complete_batches_are_relayed [OF run(1)] run(2) have "set (map kp_slot b) = {0, 1, 2, 3, 4}" by simp
  with run show ?thesis by (intro exI conjI) assumption+
qed

text \<open>C9: The submitted array pays only for evidence.  It has one entry per uid; a positive entry is the
  uid's own score, and the hotkey that now holds the uid is tracked with that very uid, has been named by a
  usage row, and is not known to have only dead keys: no key of it is tracked, or one of those tracked is
  not marked dead.  Which key earned the score is not looked at here.  Setting weights leaves the
  stored scores exactly as the epoch left them.\<close>

theorem weights_need_evidence:
  assumes "set_weights base e c hotkeys st = Inr (st', result)"
  shows "\<exists>st1. roll_epoch_if_needed e c hotkeys st = Inr st1 \<and> score_last_epoch e hotkeys st1 = Inr st' \<and>
    result = base (blended_weight_array hotkeys st') \<and>
    length (blended_weight_array hotkeys st') = length (v_scores st') \<and>
    (\<forall>uid < length (v_scores st').
       0 < blended_weight_array hotkeys st' ! uid \<longrightarrow>
         v_scores st' ! uid = Fin (blended_weight_array hotkeys st' ! uid) \<and>
         uid < length hotkeys \<and>
         (\<exists>entry. dget (llm_key_hotkey_status st') (hotkeys ! uid) = Some entry \<and>
            h_uid entry = Some (int uid) \<and> h_last_report_at entry \<noteq> None \<and>
            (states_of entry = [] \<or> (\<exists>k \<in> set (dvals (states_of entry)). k_alive k \<noteq> Some False))))"
proof -
  obtain st1 st2 where roll: "roll_epoch_if_needed e c hotkeys st = Inr st1"
    and score: "score_last_epoch e hotkeys st1 = Inr st2"
    and st': "st' = st2\<lparr>v_scores := v_scores st2\<rparr>"
    and res: "result = base (map nan_to_num (map Fin (blended_weight_array hotkeys st2)))"
    using assms by (auto simp: set_weights_def Let_def split: sum.splits)
  have same: "st' = st2" unfolding st' by simp
  have "map nan_to_num (map Fin ws) = ws" for ws
    by (induction ws) (simp_all add: nan_to_num_def)
  then have res': "result = base (blended_weight_array hotkeys st2)" using res by simp
  have "v_scores st2 ! uid = Fin (blended_weight_array hotkeys st2 ! uid) \<and>
      has_llm_key_evidence hotkeys st2 uid"
    if "uid < length (v_scores st2)" "0 < blended_weight_array hotkeys st2 ! uid" for uid
    using that by (cases "v_scores st2 ! uid") (auto simp: blended_nth nan_to_num_def split: if_splits)
  then show ?thesis
    unfolding same has_evidence_iff using roll score res' length_blended by blast
qed

text \<open>One hotkey with a key that served, and one with the same calls that no row has named under its uid.\<close>

definition earning_state :: vstate where
  "earning_state = (initial_vstate 2)\<lparr>
     llm_key_hotkey_status := [(''a'', empty_entry\<lparr>h_uid := Some 0, h_last_report_at := Some 5,
         h_keys := Some [(''7'', empty_key_state\<lparr>k_alive := Some True\<rparr>)]\<rparr>),
       (''b'', empty_entry\<lparr>h_uid := Some 0, h_last_report_at := Some 5\<rparr>)],
     llm_key_last_epoch_calls := map (\<lambda>h. (h, \<lparr>w_keys = [(''7'', empty_sub\<lparr>s_success := 6, s_failure := 1, s_tier := Some 1\<rparr>)],
       w_first_seen = 1, w_last_seen = 2\<rparr>)) [''a'', ''b'']\<rparr>"

theorem weights_need_evidence_witness:
  "\<exists>st' r. set_weights (\<lambda>ws. Inr (Some (0 < ws ! 0 \<and> ws ! 1 = 0))) no_env \<lparr>c_step = None, c_tempo = None\<rparr> [''a'', ''b'']
     earning_state = Inr (st', r) \<and> 0 < blended_weight_array [''a'', ''b''] st' ! 0 \<and>
     v_scores st' ! 0 = Fin (blended_weight_array [''a'', ''b''] st' ! 0) \<and>
     v_scores st' ! 1 = v_scores st' ! 0 \<and> blended_weight_array [''a'', ''b''] st' ! 1 = 0"
proof -
  let ?run = "set_weights (\<lambda>ws. Inr (Some (0 < ws ! 0 \<and> ws ! 1 = 0))) no_env \<lparr>c_step = None, c_tempo = None\<rparr> [''a'', ''b'']
     earning_state"
  have "map_sum (\<lambda>_. ()) (\<lambda>(st, r). r = Inr (Some True) \<and> 0 < blended_weight_array [''a'', ''b''] st ! 0 \<and>
      blended_weight_array [''a'', ''b''] st ! 1 = 0 \<and> length (v_scores st) = 2 \<and> v_scores st ! 1 = v_scores st ! 0) ?run =
      Inr True" by code_simp
  then obtain st' r where run: "?run = Inr (st', r)" "0 < blended_weight_array [''a'', ''b''] st' ! 0"
    "blended_weight_array [''a'', ''b''] st' ! 1 = 0" "length (v_scores st') = 2" "v_scores st' ! 1 = v_scores st' ! 0"
    by (cases ?run) auto
  from weights_need_evidence [OF run(1)] run(2,4)
  have "v_scores st' ! 0 = Fin (blended_weight_array [''a'', ''b''] st' ! 0)" by auto
  with run show ?thesis by blast
qed

text \<open>A report-poll round cannot wedge.  From well-formed windows, whatever rows, roster and
  chain readings it sees, it returns a state with well-formed windows; a call before the interval
  is up changes nothing; and a failed fetch changes nothing beyond rolling the epoch and moving the
  next attempt to the backoff (at most one interval) from now.\<close>

theorem poll_round_total_and_safe:
  assumes "1 \<le> min_calls_of e" "1 \<le> min_graded_of e" "vstate_wf st"
  shows "\<exists>st'. llm_key_report_poll_round rp e now c hotkeys fetched roster st = Inr st' \<and> vstate_wf st' \<and>
    (too_early now (last_llm_key_report_poll_at st) (report_interval e) \<longrightarrow> st' = st) \<and>
    (\<not> too_early now (last_llm_key_report_poll_at st) (report_interval e) \<and> fetched = None \<longrightarrow>
      (\<exists>st1. roll_epoch_if_needed e c hotkeys st = Inr st1 \<and>
        st' = st1\<lparr>last_llm_key_report_poll_at := backed_off now (report_interval e)
          (env_float e ''MASXAI_LLM_KEY_REPORT_POLL_FAILURE_BACKOFF_SECONDS''
             LLM_KEY_REPORT_POLL_FAILURE_BACKOFF_SECONDS)\<rparr>))"
proof (cases "too_early now (last_llm_key_report_poll_at st) (report_interval e)")
  case True
  with assms(3) show ?thesis by (simp add: llm_key_report_poll_round_def Let_def)
next
  case False
  obtain st1 where roll: "roll_epoch_if_needed e c hotkeys st = Inr st1" "vstate_wf st1"
    using vstate_wf_roll [OF assms] by blast
  show ?thesis
  proof (cases fetched)
    case None
    with False roll show ?thesis by (simp add: llm_key_report_poll_round_def Let_def)
  next
    case (Some f)
    obtain reports next_since where f: "f = (reports, next_since)" by force
    let ?st = "prune_llm_key_hotkey_status e hotkeys now
      (poll_llm_key_roster roster (fold (report_step rp hotkeys now) reports st1))"
    have "vstate_wf ?st" using roll(2) by (intro wf_intros)
    then obtain st3 where sc: "score_last_epoch e hotkeys ?st = Inr st3" "vstate_wf st3"
      using vstate_wf_score [OF assms(1,2)] by blast
    have "vstate_wf (note_empty_reports (reports \<noteq> []) now
        (if truthy_text next_since then st3\<lparr>last_llm_key_report_cursor := text_or_empty next_since\<rparr> else st3))"
      using sc(2) by (intro vstate_wf_note_empty) simp
    with False roll Some f sc show ?thesis
      by (simp add: llm_key_report_poll_round_def Let_def)
  qed
qed

theorem poll_round_total_and_safe_witness:
  "\<exists>st'. llm_key_report_poll_round (\<lambda>_. []) no_env 50 \<lparr>c_step = None, c_tempo = None\<rparr> [''a''] None None
     (initial_vstate 1) = Inr st' \<and> vstate_wf st'"
  using poll_round_total_and_safe [of no_env "initial_vstate 1" "\<lambda>_. []" 50 "\<lparr>c_step = None, c_tempo = None\<rparr>"
      "[''a'']" None None] vstate_wf_initial by auto

lemma kill_keeps_others:
  assumes "(h', k') \<noteq> (h, k)"
  shows "key_alive (kill_hotkey_key h k reason st) h' k' = key_alive st h' k'"
    "rows_of (llm_key_pending_calls (kill_hotkey_key h k reason st)) h' k' = rows_of (llm_key_pending_calls st) h' k'"
    "rows_of (llm_key_last_epoch_calls (kill_hotkey_key h k reason st)) h' k' = rows_of (llm_key_last_epoch_calls st) h' k'"
  using assms by (auto simp: kill_alive kill_rows simp del: kill_frame)

lemma note_report_windows:
  "llm_key_pending_calls (note_report h uid now a st) = llm_key_pending_calls st"
  "llm_key_last_epoch_calls (note_report h uid now a st) = llm_key_last_epoch_calls st"
  by (simp_all add: note_report_def)

text \<open>C14: One conclusive row is enough, and it costs that key alone.  A usage row of a registered hotkey that
  is marked inactive, or names a fatal error category, leaves its key dead and without a single row in the
  collecting and in the paid epoch; so does a roster entry DEAD or REVOKED of a tracked hotkey.  Either
  way every other key, of the same hotkey or another, keeps its life flag and its rows in both epochs.\<close>

theorem conclusive_evidence_kills_the_key:
  assumes "index_of (r_hotkey report) hotkeys = Some uid"
    and "\<not> r_key_active report \<or> has_fatal_error_category (Some (r_error_categories report))"
    and "ro_status entry \<in> {''DEAD'', ''REVOKED''}" "dget (llm_key_hotkey_status st) (ro_hotkey entry) \<noteq> None"
  shows "\<not> key_alive (report_step rp hotkeys now report st) (r_hotkey report) (report_sub_key report) \<and>
    rows_of (llm_key_pending_calls (report_step rp hotkeys now report st)) (r_hotkey report) (report_sub_key report) = None \<and>
    rows_of (llm_key_last_epoch_calls (report_step rp hotkeys now report st)) (r_hotkey report) (report_sub_key report) = None \<and>
    (\<forall>h k. (h, k) \<noteq> (r_hotkey report, report_sub_key report) \<longrightarrow>
       key_alive (report_step rp hotkeys now report st) h k = key_alive st h k \<and>
       rows_of (llm_key_pending_calls (report_step rp hotkeys now report st)) h k = rows_of (llm_key_pending_calls st) h k \<and>
       rows_of (llm_key_last_epoch_calls (report_step rp hotkeys now report st)) h k = rows_of (llm_key_last_epoch_calls st) h k) \<and>
    \<not> key_alive (roster_step entry st) (ro_hotkey entry) (roster_sub_key entry) \<and>
    rows_of (llm_key_pending_calls (roster_step entry st)) (ro_hotkey entry) (roster_sub_key entry) = None \<and>
    rows_of (llm_key_last_epoch_calls (roster_step entry st)) (ro_hotkey entry) (roster_sub_key entry) = None \<and>
    (\<forall>h k. (h, k) \<noteq> (ro_hotkey entry, roster_sub_key entry) \<longrightarrow>
       key_alive (roster_step entry st) h k = key_alive st h k \<and>
       rows_of (llm_key_pending_calls (roster_step entry st)) h k = rows_of (llm_key_pending_calls st) h k \<and>
       rows_of (llm_key_last_epoch_calls (roster_step entry st)) h k = rows_of (llm_key_last_epoch_calls st) h k)"
proof -
  let ?st1 = "note_report (r_hotkey report) uid now (r_key_active report) st"
  have noted: "key_alive ?st1 h k = key_alive st h k" for h k
    by (simp add: key_alive_def note_report_def entry_or_new_put states_of_def)
  obtain reason where step: "report_step rp hotkeys now report st =
      kill_hotkey_key (r_hotkey report) (report_sub_key report) reason ?st1"
    using assms(1,2) by (cases "r_key_active report") (auto simp: report_step_def Let_def)
  obtain reason' where roster: "roster_step entry st =
      kill_hotkey_key (ro_hotkey entry) (roster_sub_key entry) reason' st"
    using assms(3,4) by (auto simp: roster_step_def)
  show ?thesis
    unfolding step roster
    by (simp add: dead_key_stays_out kill_keeps_others noted note_report_windows del: kill_frame)
qed

text \<open>A hotkey with two keys, of which the roster calls one dead.\<close>

theorem conclusive_evidence_kills_the_key_witness:
  "\<not> key_alive (roster_step \<lparr>ro_hotkey = ''a'', ro_key_id = Some 7, ro_provider = None, ro_model = None,
      ro_status = ''DEAD''\<rparr> (earning_state\<lparr>llm_key_pending_calls :=
        [(''a'', \<lparr>w_keys = [(''7'', empty_sub), (''8'', empty_sub\<lparr>s_success := 3\<rparr>)], w_first_seen = 1, w_last_seen = 2\<rparr>)]\<rparr>))
      ''a'' ''7'' \<and>
   rows_of (llm_key_pending_calls (roster_step \<lparr>ro_hotkey = ''a'', ro_key_id = Some 7, ro_provider = None, ro_model = None,
      ro_status = ''DEAD''\<rparr> (earning_state\<lparr>llm_key_pending_calls :=
        [(''a'', \<lparr>w_keys = [(''7'', empty_sub), (''8'', empty_sub\<lparr>s_success := 3\<rparr>)], w_first_seen = 1, w_last_seen = 2\<rparr>)]\<rparr>)))
      ''a'' ''8'' = Some (empty_sub\<lparr>s_success := 3\<rparr>)"
proof -
  let ?r = "\<lparr>r_hotkey = ''a'', r_key_id = Some 7, r_provider = None, r_model = None,
      r_success = 1, r_failure = 0, r_latency_ms = None, r_quality = None,
      r_error_categories = [], r_key_active = False\<rparr>"
  let ?e = "\<lparr>ro_hotkey = ''a'', ro_key_id = Some 7, ro_provider = None, ro_model = None, ro_status = ''DEAD''\<rparr>"
  let ?st = "earning_state\<lparr>llm_key_pending_calls :=
        [(''a'', \<lparr>w_keys = [(''7'', empty_sub), (''8'', empty_sub\<lparr>s_success := 3\<rparr>)], w_first_seen = 1, w_last_seen = 2\<rparr>)]\<rparr>"
  have k: "roster_sub_key ?e = ''7''" by code_simp
  have rows: "rows_of (llm_key_pending_calls ?st) ''a'' ''8'' = Some (empty_sub\<lparr>s_success := 3\<rparr>)"
    by (simp add: rows_of_def)
  have tracked: "dget (llm_key_hotkey_status ?st) ''a'' \<noteq> None" by (simp add: earning_state_def)
  have "index_of (r_hotkey ?r) [''a''] = Some 0" "ro_status ?e \<in> {''DEAD'', ''REVOKED''}"
    "\<not> r_key_active ?r \<or> has_fatal_error_category (Some (r_error_categories ?r))"
    "dget (llm_key_hotkey_status ?st) (ro_hotkey ?e) \<noteq> None" using tracked by simp_all
  from conclusive_evidence_kills_the_key [OF this(1,3,2,4), of "\<lambda>_. []" 5] rows show ?thesis unfolding k by simp
qed

text \<open>Pruning never forgets a registered hotkey and forgets an absent one only after the grace
  period: the entry of a hotkey of the metagraph stays (its absence mark cleared), an absent one is
  first marked and is dropped, with its collecting window, only once it has been marked for at
  least the grace period.\<close>

theorem prune_respects_grace:
  assumes "dict_wf (llm_key_hotkey_status st)" "dget (llm_key_hotkey_status st) h = Some status"
  shows "dget (llm_key_hotkey_status (prune_llm_key_hotkey_status e hotkeys now st)) h =
    (if h \<in> set hotkeys then Some (status\<lparr>h_missing_since := None\<rparr>)
     else case h_missing_since status of
         None \<Rightarrow> Some (status\<lparr>h_missing_since := Some now\<rparr>)
       | Some t \<Rightarrow>
           if fl_le (non_negative_env e ''MASXAI_LLM_KEY_HOTKEY_STATUS_EVICTION_GRACE_SECONDS''
                (Fin 86400)) (Fin (now - t)) then None else Some status)"
proof -
  have "\<forall>p \<in> set (llm_key_hotkey_status st). dget (llm_key_hotkey_status st) (fst p) = Some (snd p)"
    using assms(1) by (auto simp: dict_wf_get [symmetric])
  from prune_fold [OF assms(1) this] assms(2) show ?thesis
    by (simp add: prune_llm_key_hotkey_status_def pruned_def
        LLM_KEY_HOTKEY_STATUS_EVICTION_GRACE_SECONDS_def)
qed

theorem prune_respects_grace_witness:
  "dget (llm_key_hotkey_status (prune_llm_key_hotkey_status no_env [] 90000
     ((initial_vstate 0)\<lparr>llm_key_hotkey_status := [(''a'', empty_entry\<lparr>h_missing_since := Some 10\<rparr>)]\<rparr>))) ''a'' = None"
  using prune_respects_grace [of "(initial_vstate 0)\<lparr>llm_key_hotkey_status :=
      [(''a'', empty_entry\<lparr>h_missing_since := Some 10\<rparr>)]\<rparr>" "''a''"
      "empty_entry\<lparr>h_missing_since := Some 10\<rparr>" no_env "[]" 90000]
  by (simp add: dict_wf_def non_negative_env_def env_float_def py_max_def)

lemma load_of_saved:
  assumes "\<forall>p \<in> set (participation_scores st). 0 \<le> fst p \<and> fst p < 65536"
    and "dict_wf (participation_scores st)" "length (v_scores fresh) = length (v_scores st)"
  shows "load_masxai_state hotkeys (save_masxai_state st) fresh =
    Some (drop_unbacked_scores hotkeys (st\<lparr>llm_key_reports_empty_since := llm_key_reports_empty_since fresh\<rparr>))"
proof -
  have part: "load_participation (map (\<lambda>(uid, s). (show_int uid, s)) (participation_scores st)) [] =
      Some (participation_scores st)"
    using load_participation_saved [of "participation_scores st" "[]"] assms by simp
  have keyed: "map (\<lambda>(k, v). (k, migrate_pending_entry v)) (map (\<lambda>(k, w). (k, Keyed w)) m) = m"
    for m :: "(string, window) dict"
    by (induction m) auto
  show ?thesis
    unfolding load_masxai_state_def save_masxai_state_def
    by (simp add: part keyed restore_scores_def assms(3) drop_unbacked_scores_def has_llm_key_evidence_def
        del: map_map)
qed

definition kept_state :: "string list \<Rightarrow> vstate \<Rightarrow> vstate \<Rightarrow> vstate" where
  "kept_state hotkeys fresh st =
     drop_unbacked_scores hotkeys (st\<lparr>llm_key_reports_empty_since := llm_key_reports_empty_since fresh\<rparr>)"

definition storable_state :: "vstate \<Rightarrow> vstate \<Rightarrow> bool" where
  "storable_state fresh st \<longleftrightarrow> (\<forall>p \<in> set (participation_scores st). 0 \<le> fst p \<and> fst p < 65536) \<and>
     dict_wf (participation_scores st) \<and> length (v_scores fresh) = length (v_scores st)"

lemma drop_unbacked_again:
  "drop_unbacked_scores hotkeys (drop_unbacked_scores hotkeys st) = drop_unbacked_scores hotkeys st"
proof -
  have "v_scores (drop_unbacked_scores hotkeys (drop_unbacked_scores hotkeys st)) = v_scores (drop_unbacked_scores hotkeys st)"
    by (rule nth_equalityI) (simp_all add: drop_unbacked_scores_def nth_enumerate_eq)
  then show ?thesis by (simp add: drop_unbacked_scores_def)
qed

interpretation state_file: persisted save_masxai_state "\<lambda>f. load_masxai_state hotkeys f fresh"
    "kept_state hotkeys fresh" "storable_state fresh" for hotkeys fresh
proof
  fix st assume st: "storable_state fresh st"
  then show "load_masxai_state hotkeys (save_masxai_state st) fresh = Some (kept_state hotkeys fresh st)"
    using load_of_saved [of st fresh hotkeys] by (simp add: kept_state_def storable_state_def)
  show "storable_state fresh (kept_state hotkeys fresh st)"
    using st by (simp add: storable_state_def kept_state_def drop_unbacked_scores_def)
  have "drop_unbacked_scores hotkeys (st'\<lparr>llm_key_reports_empty_since := x\<rparr>) =
      (drop_unbacked_scores hotkeys st')\<lparr>llm_key_reports_empty_since := x\<rparr>" for st' x
    by (simp add: drop_unbacked_scores_def has_llm_key_evidence_def)
  then show "kept_state hotkeys fresh (kept_state hotkeys fresh st) = kept_state hotkeys fresh st"
    using drop_unbacked_again [of hotkeys "st\<lparr>llm_key_reports_empty_since := llm_key_reports_empty_since fresh\<rparr>"]
    by (simp add: kept_state_def)
qed

text \<open>C15: The state file round trip: loading what was saved restores the state, except that a
  positive score whose uid has no evidence behind it becomes 0 and that the streak of empty
  reports, which is not saved, is the fresh one; saving and loading again, any number of times, changes nothing more.\<close>

theorem state_file_roundtrip:
  assumes "\<forall>p \<in> set (participation_scores st). 0 \<le> fst p \<and> fst p < 65536"
    and "dict_wf (participation_scores st)" "length (v_scores fresh) = length (v_scores st)"
  shows "load_masxai_state hotkeys (save_masxai_state st) fresh =
      Some (drop_unbacked_scores hotkeys (st\<lparr>llm_key_reports_empty_since := llm_key_reports_empty_since fresh\<rparr>)) \<and>
    ((\<lambda>m. Option.bind m (\<lambda>s. load_masxai_state hotkeys (save_masxai_state s) fresh)) ^^ Suc n) (Some st) =
      Some (drop_unbacked_scores hotkeys (st\<lparr>llm_key_reports_empty_since := llm_key_reports_empty_since fresh\<rparr>))"
proof -
  have "storable_state fresh st" using assms by (simp add: storable_state_def)
  with state_file.load_save state_file.restarts_settle show ?thesis unfolding kept_state_def by blast
qed

theorem state_file_roundtrip_witness:
  "load_masxai_state [''a''] (save_masxai_state ((initial_vstate 1)\<lparr>v_scores := [Fin 1]\<rparr>)) (initial_vstate 1) =
    Some (initial_vstate 1)"
proof -
  let ?st = "(initial_vstate 1)\<lparr>v_scores := [Fin 1]\<rparr>"
  have "load_masxai_state [''a''] (save_masxai_state ?st) (initial_vstate 1) =
      Some (drop_unbacked_scores [''a''] (?st\<lparr>llm_key_reports_empty_since := 0\<rparr>))"
    using state_file_roundtrip [of ?st "initial_vstate 1" "[''a'']" 0, THEN conjunct1]
    by (simp add: initial_vstate_def)
  then show ?thesis
    by (simp add: drop_unbacked_scores_def initial_vstate_def has_llm_key_evidence_def)
qed

end
