(* ===== verification/Llm_Node.thy ===== *)
theory Llm_Node
  imports Llm_Validator
begin

text \<open>
  The LLM-key validator over its whole life: \<open>forward\<close> of \<open>neurons/validator.py\<close> composed from the two
  rounds and the state file, and the runs of a node in which forwards, weight settings, metagraph
  synchronisations and restarts follow each other in any order.
\<close>

section \<open>One forward\<close>

text \<open>What the clock, the backend, the miners and the chain answer during one forward.\<close>

record forward_inputs =
  fw_ask_now :: rat
  fw_fetched :: bool
  fw_ask :: "nat list \<Rightarrow> miner_response list"
  fw_submit :: "string \<Rightarrow> nat \<Rightarrow> key_payload list \<Rightarrow> string + submit_result"
  fw_poll_now :: rat
  fw_chain :: chain_reads
  fw_reports :: "(usage_report list \<times> string option) option"
  fw_roster :: "roster_entry list option"

text \<open>\<open>enabled\<close>: a backend is configured.  The second component is what is written to the state file.\<close>

definition validator_forward ::
  "(json \<Rightarrow> string) \<Rightarrow> env \<Rightarrow> string \<Rightarrow> bool \<Rightarrow> metagraph \<Rightarrow> forward_inputs \<Rightarrow> vstate
     \<Rightarrow> py_exc + vstate \<times> saved_state" where
  "validator_forward rp e own enabled mg i st =
     (if \<not> enabled then Inr (st, save_masxai_state st)
      else case llm_key_submission_round rp e (fw_ask_now i) own mg (fw_fetched i) (fw_ask i) (fw_submit i) st of
          Inl x \<Rightarrow> Inl x
        | Inr (st, _) \<Rightarrow>
            (case llm_key_report_poll_round rp e (fw_poll_now i) (fw_chain i) (mg_hotkeys mg)
                    (fw_reports i) (fw_roster i) st of
               Inl x \<Rightarrow> Inl x
             | Inr st \<Rightarrow> Inr (st, save_masxai_state st)))"

text \<open>The rows a forward receives: none unless the poll is due and the fetch succeeds.\<close>

definition rows_received :: "env \<Rightarrow> bool \<Rightarrow> forward_inputs \<Rightarrow> vstate \<Rightarrow> usage_report list" where
  "rows_received e enabled i st =
     (if enabled \<and> \<not> too_early (fw_poll_now i) (last_llm_key_report_poll_at st) (report_interval e)
      then (case fw_reports i of None \<Rightarrow> [] | Some (reports, _) \<Rightarrow> reports) else [])"

section \<open>The life of a node\<close>

record llm_node =
  nd_metagraph :: metagraph
  nd_hotkeys :: "string list"
  nd_state :: vstate
  nd_file :: "saved_state option"

text \<open>
  \<open>__init__\<close>: scores sized by the metagraph, then the state file when there is one.  A load that raises does so
  before the first assignment and is logged; the node then starts fresh.
\<close>

definition restarted :: "metagraph \<Rightarrow> saved_state option \<Rightarrow> vstate" where
  "restarted mg saved = (case saved of
      None \<Rightarrow> initial_vstate (mg_n mg)
    | Some s \<Rightarrow>
        (case load_masxai_state (mg_hotkeys mg) s (initial_vstate (mg_n mg)) of
           None \<Rightarrow> initial_vstate (mg_n mg)
         | Some st \<Rightarrow> st))"

definition fresh_node :: "metagraph \<Rightarrow> llm_node" where
  "fresh_node mg = \<lparr>nd_metagraph = mg, nd_hotkeys = mg_hotkeys mg, nd_state = initial_vstate (mg_n mg),
     nd_file = None\<rparr>"

text \<open>
  One event in the life of a node, labelled with the usage rows it received.  Writing the state file may
  fail, which leaves the old one; a restart may happen at any time and sees whatever metagraph there is, and the
  file, or none if it cannot be read.
\<close>

inductive node_step ::
  "(json \<Rightarrow> string) \<Rightarrow> env \<Rightarrow> string \<Rightarrow> bool \<Rightarrow> llm_node \<Rightarrow> usage_report list \<Rightarrow> llm_node \<Rightarrow> bool"
  for rp e own enabled where
  forwards: "validator_forward rp e own enabled (nd_metagraph n) i (nd_state n) = Inr (st, saved) \<Longrightarrow>
    written = Some saved \<or> written = nd_file n \<Longrightarrow>
    node_step rp e own enabled n (rows_received e enabled i (nd_state n)) (n\<lparr>nd_state := st, nd_file := written\<rparr>)"
| sets_weights: "set_weights base e c (mg_hotkeys (nd_metagraph n)) (nd_state n) = Inr (st, result) \<Longrightarrow>
    node_step rp e own enabled n [] (n\<lparr>nd_state := st\<rparr>)"
| resyncs: "v_scores (nd_state n) = map Fin scores \<Longrightarrow>
    resync_metagraph mg \<lparr>b_hotkeys = nd_hotkeys n, b_scores = scores, b_metagraph = nd_metagraph n\<rparr> = Inr b \<Longrightarrow>
    node_step rp e own enabled n [] (n\<lparr>nd_metagraph := b_metagraph b, nd_hotkeys := b_hotkeys b,
      nd_state := (nd_state n)\<lparr>v_scores := map Fin (b_scores b)\<rparr>\<rparr>)"
| restarts: "kept = nd_file n \<or> kept = None \<Longrightarrow>
    node_step rp e own enabled n []
      (n\<lparr>nd_metagraph := mg, nd_hotkeys := mg_hotkeys mg, nd_state := restarted mg kept\<rparr>)"

inductive node_run ::
  "(json \<Rightarrow> string) \<Rightarrow> env \<Rightarrow> string \<Rightarrow> bool \<Rightarrow> usage_report list \<Rightarrow> llm_node \<Rightarrow> bool"
  for rp e own enabled where
  starts: "node_run rp e own enabled [] (fresh_node mg)"
| continues: "node_run rp e own enabled rows n \<Longrightarrow> node_step rp e own enabled n new n' \<Longrightarrow>
    node_run rp e own enabled (rows @ new) n'"

inductive_cases node_stepE: "node_step rp e own enabled n new n'"

section \<open>What is booked and what was reported\<close>

text \<open>A row counts when its key is active, it names no fatal error and its counters are not negative.\<close>

definition countable :: "usage_report \<Rightarrow> bool" where
  "countable r \<longleftrightarrow> r_key_active r \<and> \<not> has_fatal_error_category (Some (r_error_categories r)) \<and>
     0 \<le> r_success r \<and> 0 \<le> r_failure r"

definition reported :: "(usage_report \<Rightarrow> int) \<Rightarrow> usage_report list \<Rightarrow> string \<Rightarrow> string \<Rightarrow> int" where
  "reported f rows h k =
     sum_list (map f (filter (\<lambda>r. r_hotkey r = h \<and> report_sub_key r = k \<and> countable r) rows))"

definition booked :: "(sub_acc \<Rightarrow> int) \<Rightarrow> (string, window) dict \<Rightarrow> string \<Rightarrow> string \<Rightarrow> int" where
  "booked f windows h k = (case rows_of windows h k of None \<Rightarrow> 0 | Some s \<Rightarrow> f s)"

text \<open>Collected and closed windows together never hold more than was reported, key by key.\<close>

definition booked_once ::
  "usage_report list \<Rightarrow> (string, window) dict \<Rightarrow> (string, window) dict \<Rightarrow> bool" where
  "booked_once rows p q \<longleftrightarrow> (\<forall>h k.
     booked s_success p h k + booked s_success q h k \<le> reported r_success rows h k \<and>
     booked s_failure p h k + booked s_failure q h k \<le> reported r_failure rows h k)"

definition unit_scores :: "fl list \<Rightarrow> bool" where
  "unit_scores scores \<longleftrightarrow> (\<forall>s \<in> set scores. \<exists>r. s = Fin r \<and> 0 \<le> r \<and> r \<le> 1)"

definition state_ok :: "usage_report list \<Rightarrow> vstate \<Rightarrow> bool" where
  "state_ok rows st \<longleftrightarrow> vstate_wf st \<and> unit_scores (v_scores st) \<and>
     booked_once rows (llm_key_pending_calls st) (llm_key_last_epoch_calls st)"

definition node_ok :: "usage_report list \<Rightarrow> llm_node \<Rightarrow> bool" where
  "node_ok rows n \<longleftrightarrow> state_ok rows (nd_state n) \<and>
     (\<forall>saved. nd_file n = Some saved \<longrightarrow> (\<exists>st. saved = save_masxai_state st \<and> state_ok rows st))"

section \<open>Lemmas: bookings\<close>

lemma booked_drop:
  "booked f (drop_key_rows h k w) h' k' = (if h' = h \<and> k' = k then 0 else booked f w h' k')"
  by (simp add: booked_def rows_of_drop_key_rows)

lemma booked_Nil [simp]: "booked f [] h k = 0"
  by (simp add: booked_def rows_of_def)

lemma booked_pop: "booked f (dpop h w) h' k = (if h' = h then 0 else booked f w h' k)"
  by (simp add: booked_def rows_of_def dict_simps)

lemma booked_nonneg:
  assumes "windows_wf w"
  shows "0 \<le> booked s_success w h k" "0 \<le> booked s_failure w h k"
proof -
  have "sub_wf s" if "rows_of w h k = Some s" for s
  proof -
    from that obtain acc where acc: "dget w h = Some acc" "dget (w_keys acc) k = Some s"
      by (auto simp: rows_of_def split: option.splits)
    from windows_wf_get [OF assms acc(1)] dget_in_set [OF acc(2)] show ?thesis
      by (auto simp: window_wf_def)
  qed
  then show "0 \<le> booked s_success w h k" "0 \<le> booked s_failure w h k"
    by (auto simp: booked_def sub_wf_def split: option.splits)
qed

lemma reported_append: "reported f (rows @ rows') h k = reported f rows h k + reported f rows' h k"
  by (simp add: reported_def)

lemma reported_nonneg: "0 \<le> reported r_success rows h k" "0 \<le> reported r_failure rows h k"
  by (auto simp: reported_def countable_def intro!: sum_list_nonneg)

lemma booked_once_Nil [simp]: "booked_once rows [] []"
  using reported_nonneg by (simp add: booked_once_def)

lemma booked_once_more: "booked_once rows p q \<Longrightarrow> booked_once (rows @ rows') p q"
  using reported_nonneg [of rows'] unfolding booked_once_def reported_append
  by (meson add_increasing2)

text \<open>Dropping rows and closing the collecting window keep the books.\<close>

lemma booked_once_le:
  assumes "booked_once rows p q"
    and "\<And>h k. booked s_success p' h k + booked s_success q' h k \<le> booked s_success p h k + booked s_success q h k"
    and "\<And>h k. booked s_failure p' h k + booked s_failure q' h k \<le> booked s_failure p h k + booked s_failure q h k"
  shows "booked_once rows p' q'"
  using assms unfolding booked_once_def by (meson order_trans)

lemma booked_once_kill:
  assumes "vstate_wf st" "booked_once rows (llm_key_pending_calls st) (llm_key_last_epoch_calls st)"
  shows "booked_once rows (drop_key_rows h k (llm_key_pending_calls st)) (drop_key_rows h k (llm_key_last_epoch_calls st))"
  using booked_nonneg [of "llm_key_pending_calls st"] booked_nonneg [of "llm_key_last_epoch_calls st"] assms(1)
  by (intro booked_once_le [OF assms(2)]) (auto simp: booked_drop vstate_wf_def)

lemma booked_once_pop:
  assumes "vstate_wf st" "booked_once rows (llm_key_pending_calls st) (llm_key_last_epoch_calls st)"
  shows "booked_once rows (dpop h (llm_key_pending_calls st)) (llm_key_last_epoch_calls st)"
  using booked_nonneg [of "llm_key_pending_calls st"] assms(1)
  by (intro booked_once_le [OF assms(2)]) (auto simp: booked_pop vstate_wf_def)

lemma booked_once_rolled:
  assumes "vstate_wf st" "booked_once rows (llm_key_pending_calls st) (llm_key_last_epoch_calls st)"
  shows "booked_once rows (llm_key_pending_calls (rolled c st)) (llm_key_last_epoch_calls (rolled c st))"
proof -
  have "llm_key_pending_calls (rolled c st) = []"
    "llm_key_last_epoch_calls (rolled c st) \<in> {llm_key_pending_calls st, []}"
    by (auto simp: rolled_def split: option.splits)
  then show ?thesis
    using booked_nonneg [of "llm_key_pending_calls st"] booked_nonneg [of "llm_key_last_epoch_calls st"] assms(1)
    by (intro booked_once_le [OF assms(2)]) (auto simp: vstate_wf_def)
qed

lemma rows_of_put: "rows_of (dput h acc w) h' k = (if h' = h then dget (w_keys acc) k else rows_of w h' k)"
  by (simp add: rows_of_def dict_simps)

lemma sub_or_empty_booked:
  "s_success (sub_or_empty (window_or_new st h now) k) = booked s_success (llm_key_pending_calls st) h k"
  "s_failure (sub_or_empty (window_or_new st h now) k) = booked s_failure (llm_key_pending_calls st) h k"
  by (simp_all add: sub_or_empty_def window_or_new_def booked_def rows_of_def empty_sub_def split: option.splits)

lemma booked_or_new:
  "(case dget (w_keys (window_or_new st h now)) k of None \<Rightarrow> 0 | Some s \<Rightarrow> f s) = booked f (llm_key_pending_calls st) h k"
  by (simp add: window_or_new_def booked_def rows_of_def split: option.splits)

lemma booked_fold:
  assumes "0 \<le> r_success r" "0 \<le> r_failure r"
  shows "booked s_success (llm_key_pending_calls (fold_report_into_pending h r now st)) h' k =
      booked s_success (llm_key_pending_calls st) h' k + (if h' = h \<and> k = report_sub_key r then r_success r else 0)"
    "booked s_failure (llm_key_pending_calls (fold_report_into_pending h r now st)) h' k =
      booked s_failure (llm_key_pending_calls st) h' k + (if h' = h \<and> k = report_sub_key r then r_failure r else 0)"
  by (auto simp: fold_pending [OF assms] booked_def [where windows = "dput _ _ _"] rows_of_put dict_simps
      sub_or_empty_booked booked_or_new) (simp_all add: booked_def)

section \<open>Lemmas: every operation keeps the books\<close>

lemma state_ok_fields [simp]:
  "state_ok rows (st\<lparr>llm_key_hotkey_status := d\<rparr>) = state_ok rows st"
  "state_ok rows (st\<lparr>participation_scores := ps\<rparr>) = state_ok rows st"
  "state_ok rows (st\<lparr>last_llm_key_ask_at := t\<rparr>) = state_ok rows st"
  "state_ok rows (st\<lparr>last_llm_key_report_poll_at := t\<rparr>) = state_ok rows st"
  "state_ok rows (st\<lparr>last_llm_key_report_cursor := cur\<rparr>) = state_ok rows st"
  "state_ok rows (st\<lparr>llm_key_reports_empty_since := x\<rparr>) = state_ok rows st"
  "state_ok rows (st\<lparr>llm_key_epoch_start_block := b\<rparr>) = state_ok rows st"
  by (simp_all add: state_ok_def vstate_wf_def)

lemma state_ok_scores: "state_ok rows st \<Longrightarrow> unit_scores scores \<Longrightarrow> state_ok rows (st\<lparr>v_scores := scores\<rparr>)"
  by (simp add: state_ok_def)

lemma state_ok_more: "state_ok rows st \<Longrightarrow> state_ok (rows @ rows') st"
  by (simp add: state_ok_def booked_once_more)

lemma state_ok_kill: "state_ok rows st \<Longrightarrow> state_ok rows (kill_hotkey_key h k reason st)"
  by (simp add: state_ok_def vstate_wf_kill booked_once_kill)

lemma state_ok_keys: "state_ok rows st \<Longrightarrow> state_ok rows (snd (hotkey_key_states h st))"
  by (simp add: hotkey_key_states_def Let_def)

lemma kill_bad_subs_keeps:
  "kill_bad_subs e m h subs st = Inr st' \<Longrightarrow> state_ok rows st \<Longrightarrow> state_ok rows st'"
proof (induction subs arbitrary: st)
  case (Cons sub subs)
  then show ?case
    by (cases sub) (auto simp: state_ok_kill split: sum.splits option.splits)
qed simp

lemma score_hotkey_keeps:
  assumes "score_hotkey e m hotkeys h st scores = Inr (st', scores')" "state_ok rows st"
  shows "state_ok rows st' \<and> length scores' = length scores \<and>
    ((\<forall>r \<in> set scores. 0 \<le> r \<and> r \<le> 1) \<longrightarrow> (\<forall>r \<in> set scores'. 0 \<le> r \<and> r \<le> 1))"
  using assms set_update_subset_insert [of scores]
  by (auto simp: score_hotkey_def Let_def case_prod_beta
      dest!: kill_bad_subs_keeps [where rows = rows] pooled_window_reward_unit intro: state_ok_keys
      split: option.splits sum.splits if_splits)

lemma score_hotkeys_keeps:
  "score_hotkeys e m hotkeys hks st scores = Inr (st', scores') \<Longrightarrow> state_ok rows st \<Longrightarrow>
   \<forall>r \<in> set scores. 0 \<le> r \<and> r \<le> 1 \<Longrightarrow> state_ok rows st' \<and> (\<forall>r \<in> set scores'. 0 \<le> r \<and> r \<le> 1)"
proof (induction hks arbitrary: st scores)
  case (Cons hk hks)
  then obtain st1 sc1 where step: "score_hotkey e m hotkeys hk st scores = Inr (st1, sc1)"
    and rest: "score_hotkeys e m hotkeys hks st1 sc1 = Inr (st', scores')"
    by (auto split: sum.splits)
  from score_hotkey_keeps [OF step Cons.prems(2)] Cons.prems(3) show ?case
    by (intro Cons.IH [OF rest]) auto
qed auto

lemma score_last_epoch_keeps:
  assumes "score_last_epoch e hotkeys st = Inr st'" "state_ok rows st"
  shows "state_ok rows st'"
  using assms score_hotkeys_keeps [OF _ assms(2)]
  by (auto simp: score_last_epoch_def unit_scores_def split: sum.splits
      intro!: state_ok_scores)

lemma state_ok_rolled: "state_ok rows st \<Longrightarrow> state_ok rows (rolled c st)"
proof -
  assume ok: "state_ok rows st"
  moreover have "v_scores (rolled c st) = v_scores st" by (simp add: rolled_def)
  ultimately show ?thesis by (simp add: state_ok_def vstate_wf_rolled booked_once_rolled)
qed

lemma roll_keeps:
  assumes "roll_epoch_if_needed e c hotkeys st = Inr st'" "state_ok rows st"
  shows "state_ok rows st'"
  using assms score_last_epoch_keeps [OF _ state_ok_rolled [OF assms(2)]]
  by (auto simp: roll_cases split: if_splits)

lemma note_report_ok [simp]: "state_ok rows (note_report h uid now a st) = state_ok rows st"
  by (simp add: note_report_def)

lemma reported_one:
  "reported f [r] h k = (if r_hotkey r = h \<and> report_sub_key r = k \<and> countable r then f r else 0)"
  by (simp add: reported_def)

lemma state_ok_fold:
  assumes "state_ok rows st" "r_key_active r" "\<not> has_fatal_error_category (Some (r_error_categories r))"
  shows "state_ok (rows @ [r]) (fold_report_into_pending (r_hotkey r) r now st)"
proof (cases "r_success r < 0 \<or> r_failure r < 0")
  case True
  then show ?thesis using state_ok_more [OF assms(1)] by (simp add: fold_report_into_pending_def)
next
  case False
  then have nn: "0 \<le> r_success r" "0 \<le> r_failure r" by auto
  then have c: "countable r" using assms by (simp add: countable_def)
  have "booked_once (rows @ [r]) (llm_key_pending_calls (fold_report_into_pending (r_hotkey r) r now st))
      (llm_key_last_epoch_calls st)"
    using assms(1) c
    by (auto simp: state_ok_def booked_once_def reported_append reported_one booked_fold [OF nn] add_mono
        add.commute add.left_commute)
  then show ?thesis using assms(1) by (simp add: state_ok_def vstate_wf_fold)
qed

lemma report_step_keeps:
  "state_ok rows st \<Longrightarrow> state_ok (rows @ [r]) (report_step rp hotkeys now r st)"
  by (auto simp: report_step_def Let_def intro!: state_ok_kill state_ok_fold intro: state_ok_more
      split: option.splits)

lemma reports_keep:
  "state_ok rows st \<Longrightarrow> state_ok (rows @ new) (fold (report_step rp hotkeys now) new st)"
proof (induction new arbitrary: rows st)
  case (Cons r new)
  from Cons.IH [OF report_step_keeps [OF Cons.prems]] show ?case by simp
qed simp

lemma prune_step_keeps: "state_ok rows st \<Longrightarrow> state_ok rows (prune_step hks now grace p st)"
proof -
  assume ok: "state_ok rows st"
  have "state_ok rows (st\<lparr>llm_key_hotkey_status := d, llm_key_pending_calls := dpop h (llm_key_pending_calls st)\<rparr>)" for d h
    using ok by (simp add: state_ok_def vstate_wf_def windows_wf_pop booked_once_pop)
  with ok show ?thesis by (auto simp: prune_step_def split: prod.splits option.splits)
qed

lemma roster_step_keeps: "state_ok rows st \<Longrightarrow> state_ok rows (roster_step entry st)"
  by (simp add: roster_step_def state_ok_kill)

lemma poll_parts_keep:
  "state_ok rows st \<Longrightarrow> state_ok rows (poll_llm_key_roster roster st)"
  "state_ok rows st \<Longrightarrow> state_ok rows (prune_llm_key_hotkey_status e hotkeys now st)"
  "state_ok rows st \<Longrightarrow> state_ok rows (note_empty_reports b now st)"
  by (auto simp: poll_llm_key_roster_def prune_llm_key_hotkey_status_def note_empty_reports_def
      intro!: fold_invariant [where P = "state_ok rows"]
      intro: prune_step_keeps roster_step_keeps split: option.splits)

lemma submission_step_frame:
  "submission_step rp e now hotkeys submit uid resp st lg = Inr (st', lg') \<Longrightarrow> state_ok rows st' = state_ok rows st \<and>
   last_llm_key_report_poll_at st' = last_llm_key_report_poll_at st"
  by (auto simp: submission_step_def Let_def record_participation_def record_submission_def
      split: option.splits sum.splits if_splits)

lemma submission_loop_frame:
  "submission_loop rp e now hotkeys submit ps st lg = Inr (st', lg') \<Longrightarrow> state_ok rows st' = state_ok rows st \<and>
   last_llm_key_report_poll_at st' = last_llm_key_report_poll_at st"
proof (induction ps arbitrary: st lg)
  case (Cons p ps)
  obtain uid resp where p: "p = (uid, resp)" by force
  from Cons.prems obtain st1 lg1 where step: "submission_step rp e now hotkeys submit uid resp st lg = Inr (st1, lg1)"
    and rest: "submission_loop rp e now hotkeys submit ps st1 lg1 = Inr (st', lg')"
    by (auto simp: p split: sum.splits)
  from Cons.IH [OF rest] submission_step_frame [OF step] show ?case by simp
qed simp

lemma submission_round_frame:
  assumes "llm_key_submission_round rp e now own mg fetched ask submit st = Inr (st', lg)"
  shows "state_ok rows st' = state_ok rows st" "last_llm_key_report_poll_at st' = last_llm_key_report_poll_at st"
  using assms
  by (auto simp: llm_key_submission_round_def Let_def dest: submission_loop_frame [where rows = rows]
      split: if_splits sum.splits)

lemma poll_round_keeps:
  assumes "llm_key_report_poll_round rp e now c hotkeys fetched roster st = Inr st'" "state_ok rows st"
  shows "state_ok (rows @ (if too_early now (last_llm_key_report_poll_at st) (report_interval e) then []
      else case fetched of None \<Rightarrow> [] | Some (reports, _) \<Rightarrow> reports)) st'"
proof (cases "too_early now (last_llm_key_report_poll_at st) (report_interval e)")
  case True
  with assms show ?thesis by (simp add: llm_key_report_poll_round_def Let_def)
next
  case False
  then obtain st1 where roll: "roll_epoch_if_needed e c hotkeys st = Inr st1"
    using assms(1) by (auto simp: llm_key_report_poll_round_def Let_def split: sum.splits)
  have ok1: "state_ok rows st1" by (rule roll_keeps [OF roll assms(2)])
  show ?thesis
  proof (cases fetched)
    case None
    with False roll assms(1) ok1 show ?thesis by (auto simp: llm_key_report_poll_round_def Let_def)
  next
    case (Some f)
    obtain reports cursor where f: "f = (reports, cursor)" by force
    let ?st = "prune_llm_key_hotkey_status e hotkeys now
      (poll_llm_key_roster roster (fold (report_step rp hotkeys now) reports st1))"
    have ok: "state_ok (rows @ reports) ?st" by (intro poll_parts_keep reports_keep ok1)
    from False roll Some f assms(1) obtain st2 where sc: "score_last_epoch e hotkeys ?st = Inr st2"
      and st': "st' = (note_empty_reports (reports \<noteq> []) now
        (if truthy_text cursor then st2\<lparr>last_llm_key_report_cursor := text_or_empty cursor\<rparr> else st2))
        \<lparr>last_llm_key_report_poll_at := Fin now\<rparr>"
      by (auto simp: llm_key_report_poll_round_def Let_def split: sum.splits)
    have "state_ok (rows @ reports) st2" by (rule score_last_epoch_keeps [OF sc ok])
    then have "state_ok (rows @ reports) st'" by (simp add: st' poll_parts_keep(3))
    with False Some f show ?thesis by simp
  qed
qed

lemma forward_keeps:
  assumes "validator_forward rp e own enabled mg i st = Inr (st', saved)" "state_ok rows st"
  shows "state_ok (rows @ rows_received e enabled i st) st'" "saved = save_masxai_state st'"
proof -
  have "state_ok (rows @ rows_received e enabled i st) st' \<and> saved = save_masxai_state st'"
  proof (cases enabled)
    case False
    with assms show ?thesis by (auto simp: validator_forward_def rows_received_def)
  next
    case True
    then obtain st1 lg where sub: "llm_key_submission_round rp e (fw_ask_now i) own mg (fw_fetched i)
        (fw_ask i) (fw_submit i) st = Inr (st1, lg)"
      and poll: "llm_key_report_poll_round rp e (fw_poll_now i) (fw_chain i) (mg_hotkeys mg) (fw_reports i)
        (fw_roster i) st1 = Inr st'" and saved: "saved = save_masxai_state st'"
      using assms(1) by (auto simp: validator_forward_def split: sum.splits prod.splits)
    from submission_round_frame [OF sub] assms(2) poll_round_keeps [OF poll, of rows] True saved
    show ?thesis by (simp add: rows_received_def split: if_splits)
  qed
  then show "state_ok (rows @ rows_received e enabled i st) st'" "saved = save_masxai_state st'" by auto
qed

text \<open>What \<open>set_weights\<close> does to the state and what it hands to the base class.\<close>

lemma set_weights_cases:
  assumes "set_weights base e c hotkeys st = Inr (st', result)"
  obtains st1 where "roll_epoch_if_needed e c hotkeys st = Inr st1" "score_last_epoch e hotkeys st1 = Inr st'"
    "result = base (blended_weight_array hotkeys st')"
proof -
  from assms obtain st1 st2 where 1: "roll_epoch_if_needed e c hotkeys st = Inr st1"
    and 2: "score_last_epoch e hotkeys st1 = Inr st2" and 3: "st' = st2\<lparr>v_scores := v_scores st2\<rparr>"
      "result = base (map nan_to_num (map Fin (blended_weight_array hotkeys st2)))"
    by (auto simp: set_weights_def Let_def split: sum.splits)
  have "map nan_to_num (map Fin xs) = xs" for xs by (induction xs) (auto simp: nan_to_num_def)
  with 1 2 3 that [of st1] show thesis by simp
qed

lemma set_weights_keeps:
  assumes "set_weights base e c hotkeys st = Inr (st', result)" "state_ok rows st"
  shows "state_ok rows st'"
  using assms by (auto elim!: set_weights_cases intro: score_last_epoch_keeps roll_keeps)

lemma unit_scores_simps [simp]:
  "unit_scores (map Fin rs) \<longleftrightarrow> (\<forall>x \<in> set rs. 0 \<le> x \<and> x \<le> 1)"
  "unit_scores (xs @ ys) \<longleftrightarrow> unit_scores xs \<and> unit_scores ys"
  "unit_scores (replicate n (Fin 0))"
  by (auto simp: unit_scores_def)

lemma zero_replaced_unit:
  "zero_replaced uids old new scores = Inr scores' \<Longrightarrow> \<forall>x \<in> set scores. 0 \<le> x \<and> x \<le> 1 \<Longrightarrow>
   \<forall>x \<in> set scores'. 0 \<le> x \<and> x \<le> 1"
proof (induction uids arbitrary: scores)
  case (Cons uid uids)
  have zeroed: "\<forall>x \<in> set (scores[uid := 0]). 0 \<le> x \<and> x \<le> 1"
    using Cons.prems(2) set_update_subset_insert [of scores uid 0] by force
  from Cons.prems(1) have "zero_replaced uids old new (scores[uid := 0]) = Inr scores' \<or>
      zero_replaced uids old new scores = Inr scores'"
    by (simp split: if_splits)
  then show ?case using Cons.IH [OF _ zeroed] Cons.IH [OF _ Cons.prems(2)] by blast
qed simp

lemma resize_unit:
  "\<forall>x \<in> set scores. 0 \<le> x \<and> x \<le> 1 \<Longrightarrow> \<forall>x \<in> set (resize_scores n scores). 0 \<le> x \<and> x \<le> 1"
  by (auto simp: resize_scores_def dest: in_set_takeD)

lemma resync_unit:
  assumes "resync_metagraph mg b = Inr b'" "\<forall>x \<in> set (b_scores b). 0 \<le> x \<and> x \<le> 1"
  shows "\<forall>x \<in> set (b_scores b'). 0 \<le> x \<and> x \<le> 1"
proof (cases "mg_axons (b_metagraph b) = mg_axons mg")
  case True
  with assms(1) have "b' = b\<lparr>b_metagraph := mg\<rparr>" by (simp add: resync_metagraph_def Let_def)
  with assms(2) show ?thesis by simp
next
  case False
  then obtain scores where z: "zero_replaced [0..<min (length (b_hotkeys b)) (length (mg_hotkeys mg))]
      (b_hotkeys b) (mg_hotkeys mg) (b_scores b) = Inr scores" and b': "b_scores b' = resize_scores (mg_n mg) scores"
    using assms(1) by (auto simp: resync_metagraph_def Let_def split: sum.splits)
  from resize_unit [OF zero_replaced_unit [OF z assms(2)]] show ?thesis unfolding b' by blast
qed

lemma keyed_again: "map (\<lambda>(k, v). (k, migrate_pending_entry v)) (map (\<lambda>(k, w). (k, Keyed w)) m) = m"
  by (induction m) auto

lemma unit_restored:
  assumes "unit_scores saved" "unit_scores fresh"
  shows "unit_scores (restore_scores (Some saved) fresh)"
  using assms by (auto simp: restore_scores_def Let_def unit_scores_def dest: in_set_takeD in_set_dropD)

lemma unit_dropped: "unit_scores (v_scores st) \<Longrightarrow> unit_scores (v_scores (drop_unbacked_scores hotkeys st))"
  by (auto simp: drop_unbacked_scores_def unit_scores_def in_set_enumerate_eq)

lemma load_keeps:
  assumes "load_masxai_state hotkeys (save_masxai_state st) (initial_vstate n) = Some st'" "state_ok rows st"
  shows "state_ok rows st'"
proof -
  from assms(1) obtain ps where st': "st' = drop_unbacked_scores hotkeys
      ((initial_vstate n)\<lparr>participation_scores := ps, llm_key_hotkey_status := llm_key_hotkey_status st,
        llm_key_pending_calls := llm_key_pending_calls st, last_llm_key_ask_at := last_llm_key_ask_at st,
        last_llm_key_report_poll_at := last_llm_key_report_poll_at st,
        last_llm_key_report_cursor := last_llm_key_report_cursor st,
        llm_key_last_epoch_calls := llm_key_last_epoch_calls st,
        llm_key_epoch_start_block := llm_key_epoch_start_block st,
        v_scores := restore_scores (Some (v_scores st)) (replicate n (Fin 0))\<rparr>)"
    by (auto simp: load_masxai_state_def save_masxai_state_def keyed_again initial_vstate_def
        simp del: map_map split: option.splits)
  have "unit_scores (v_scores st')"
    unfolding st' using assms(2) by (intro unit_dropped) (simp add: state_ok_def unit_restored)
  then show ?thesis
    using assms(2) by (simp add: st' state_ok_def vstate_wf_def drop_unbacked_scores_def)
qed

lemma state_ok_initial: "state_ok rows (initial_vstate n)"
  by (simp add: state_ok_def vstate_wf_initial) (simp add: initial_vstate_def)

lemma node_ok_step:
  assumes "node_step rp e own enabled n new n'" "node_ok rows n"
  shows "node_ok (rows @ new) n'"
  using assms(1)
proof (cases rule: node_step.cases)
  case (forwards i st saved written)
  have "state_ok rows (nd_state n)" using assms(2) by (simp add: node_ok_def)
  note now = forward_keeps [OF forwards(3) this]
  have old: "\<exists>st. s = save_masxai_state st \<and> state_ok (rows @ new) st" if "nd_file n = Some s" for s
    using that assms(2) state_ok_more unfolding node_ok_def by blast
  from now forwards old show ?thesis by (auto simp: node_ok_def)
next
  case (sets_weights base c st result)
  with assms(2) show ?thesis by (auto simp: node_ok_def intro: set_weights_keeps)
next
  case (resyncs scores mg b)
  have "\<forall>x \<in> set scores. 0 \<le> x \<and> x \<le> 1"
    using assms(2) resyncs(3) by (simp add: node_ok_def state_ok_def)
  with resync_unit [OF resyncs(4)] have "unit_scores (map Fin (b_scores b))" by simp
  with assms(2) resyncs show ?thesis by (simp add: node_ok_def state_ok_scores)
next
  case (restarts kept mg)
  with assms(2) show ?thesis
    by (auto simp: node_ok_def restarted_def state_ok_initial intro: load_keeps split: option.splits)
qed

lemma node_run_ok: "node_run rp e own enabled rows n \<Longrightarrow> node_ok rows n"
  by (induction rule: node_run.induct) (auto simp: node_ok_step, simp add: node_ok_def fresh_node_def state_ok_initial)

section \<open>Lemmas: the pooled counts of a hotkey\<close>

text \<open>The calls of a hotkey that a scoring pools, over all its keys, and the calls reported for it.\<close>

definition pooled_calls :: "(string, window) dict \<Rightarrow> string \<Rightarrow> int" where
  "pooled_calls windows h = (case dget windows h of
      None \<Rightarrow> 0
    | Some acc \<Rightarrow> sum_list (map (\<lambda>(k, s). s_success s + s_failure s) (w_keys acc)))"

definition reported_calls :: "usage_report list \<Rightarrow> string \<Rightarrow> int" where
  "reported_calls rows h =
     sum_list (map (\<lambda>r. r_success r + r_failure r) (filter (\<lambda>r. r_hotkey r = h \<and> countable r) rows))"

lemma sum_over_dict:
  fixes g :: "'v \<Rightarrow> int"
  assumes "dict_wf d" "finite K" "set (dkeys d) \<subseteq> K"
  shows "sum_list (map (\<lambda>(k, v). g v) d) = (\<Sum>k\<in>K. case dget d k of None \<Rightarrow> 0 | Some v \<Rightarrow> g v)"
  using assms(1,3)
proof (induction d)
  case (Cons p d)
  obtain k v where p: "p = (k, v)" by force
  let ?f = "\<lambda>d x. case dget d x of None \<Rightarrow> 0 | Some v \<Rightarrow> g v"
  have d: "dict_wf d" "k \<notin> set (dkeys d)" "set (dkeys d) \<subseteq> K" "k \<in> K" using Cons.prems by (auto simp: p dict_wf_def)
  have out: "dget d k = None" using d(2) by (simp add: map_of_eq_None_iff)
  have "sum (?f (p # d)) K = ?f (p # d) k + sum (?f (p # d)) (K - {k})" by (rule sum.remove [OF assms(2) d(4)])
  also have "sum (?f (p # d)) (K - {k}) = sum (?f d) (K - {k})" by (rule sum.cong) (auto simp: p)
  also have "\<dots> = sum (?f d) K" using sum.remove [OF assms(2) d(4), of "?f d"] out by simp
  finally show ?case using Cons.IH [OF d(1,3)] by (simp add: p)
qed simp

lemma pooled_is_booked:
  assumes "windows_wf windows" "finite K" "\<And>acc. dget windows h = Some acc \<Longrightarrow> set (dkeys (w_keys acc)) \<subseteq> K"
  shows "pooled_calls windows h = (\<Sum>k\<in>K. booked s_success windows h k + booked s_failure windows h k)"
proof (cases "dget windows h")
  case None
  then show ?thesis by (simp add: pooled_calls_def booked_def rows_of_def)
next
  case (Some acc)
  have "dict_wf (w_keys acc)" using windows_wf_get [OF assms(1) Some] by (simp add: window_wf_def)
  from sum_over_dict [OF this assms(2) assms(3) [OF Some], of "\<lambda>s. s_success s + s_failure s"] Some show ?thesis
    by (auto simp: pooled_calls_def booked_def rows_of_def intro!: sum.cong split: option.split)
qed

lemma reported_keys_le:
  assumes "finite K"
  shows "(\<Sum>k\<in>K. reported r_success rows h k + reported r_failure rows h k) \<le> reported_calls rows h"
proof (induction rows)
  case Nil
  show ?case by (simp add: reported_def reported_calls_def)
next
  case (Cons r rows)
  let ?c = "r_hotkey r = h \<and> countable r" and ?n = "r_success r + r_failure r"
  have "reported r_success (r # rows) h k + reported r_failure (r # rows) h k =
      (if report_sub_key r = k then (if ?c then ?n else 0) else 0) + (reported r_success rows h k + reported r_failure rows h k)" for k
    by (simp add: reported_def)
  then have "(\<Sum>k\<in>K. reported r_success (r # rows) h k + reported r_failure (r # rows) h k) =
      (if report_sub_key r \<in> K then (if ?c then ?n else 0) else 0) +
      (\<Sum>k\<in>K. reported r_success rows h k + reported r_failure rows h k)"
    using assms by (simp add: sum.distrib sum.delta')
  also have "\<dots> \<le> (if ?c then ?n else 0) + reported_calls rows h"
    using Cons.IH by (auto simp: countable_def)
  also have "\<dots> = reported_calls (r # rows) h" by (simp add: reported_calls_def)
  finally show ?case .
qed

lemma pooled_calls_bound:
  assumes "state_ok rows st"
  shows "pooled_calls (llm_key_pending_calls st) h + pooled_calls (llm_key_last_epoch_calls st) h \<le> reported_calls rows h"
proof -
  let ?p = "llm_key_pending_calls st" and ?q = "llm_key_last_epoch_calls st"
  let ?keys = "\<lambda>w. case dget w h of None \<Rightarrow> {} | Some acc \<Rightarrow> set (dkeys (w_keys acc))"
  let ?K = "?keys ?p \<union> ?keys ?q"
  have fin: "finite ?K" by (auto split: option.split)
  have wf: "windows_wf ?p" "windows_wf ?q" using assms by (simp_all add: state_ok_def vstate_wf_def)
  have "pooled_calls ?p h + pooled_calls ?q h =
      (\<Sum>k\<in>?K. booked s_success ?p h k + booked s_failure ?p h k) + (\<Sum>k\<in>?K. booked s_success ?q h k + booked s_failure ?q h k)"
    using pooled_is_booked [OF wf(1) fin, of h] pooled_is_booked [OF wf(2) fin, of h] by simp
  also have "\<dots> = (\<Sum>k\<in>?K. (booked s_success ?p h k + booked s_success ?q h k) + (booked s_failure ?p h k + booked s_failure ?q h k))"
    by (simp add: sum.distrib)
  also have "\<dots> \<le> (\<Sum>k\<in>?K. reported r_success rows h k + reported r_failure rows h k)"
    using assms by (intro sum_mono add_mono) (simp_all add: state_ok_def booked_once_def)
  also have "\<dots> \<le> reported_calls rows h" by (rule reported_keys_le [OF fin])
  finally show ?thesis .
qed

section \<open>Lemmas: a score needs calls\<close>

lemma positive_reward_has_calls:
  assumes "pooled_window_reward e st h subs = Inr r" "0 < r"
  shows "\<exists>s \<in> set subs. 0 < sub_calls s"
proof (rule ccontr)
  assume "\<not> ?thesis"
  then have "sum_list (map s_success subs) + sum_list (map s_failure subs) \<le> 0"
    unfolding sum_list_addf [symmetric] by (intro sum_list_nonpos) (auto simp: sub_calls_def not_less)
  moreover have "0 < sum_list (map s_success subs) + sum_list (map s_failure subs)"
    using assms by (auto simp: pooled_window_reward_def Let_def dest!: efficiency_score_positiveD
        split: sum.splits option.splits)
  ultimately show False by simp
qed

lemma positive_score_has_calls:
  assumes "windows_wf (llm_key_last_epoch_calls st)" "0 < epoch_score e hotkeys st uid"
  obtains k where "uid < length hotkeys" "key_alive st (hotkeys ! uid) k"
    "0 < booked s_success (llm_key_last_epoch_calls st) (hotkeys ! uid) k +
         booked s_failure (llm_key_last_epoch_calls st) (hotkeys ! uid) k"
proof -
  let ?h = "hotkeys ! uid"
  from assms(2) have uid: "uid < length hotkeys" and pos: "0 < hotkey_reward e st ?h"
    by (auto simp: epoch_score_def split: if_splits)
  then obtain r where "pooled_window_reward e st ?h (surviving_subs e st ?h) = Inr r" "0 < r"
    by (auto simp: hotkey_reward_def Let_def split: if_splits sum.splits)
  then obtain s where s: "s \<in> set (surviving_subs e st ?h)" "0 < sub_calls s"
    using positive_reward_has_calls by blast
  from s(1) obtain acc where acc_of: "dget (llm_key_last_epoch_calls st) ?h = Some acc"
    by (cases "dget (llm_key_last_epoch_calls st) ?h") (simp_all add: surviving_subs_def)
  with s(1) obtain k where "(k, s) \<in> set (w_keys acc)" and alive: "key_alive st ?h k"
    by (auto simp: surviving_subs_def)
  note acc = acc_of this(1)
  from windows_wf_get [OF assms(1) acc(1)] acc(2) have "dget (w_keys acc) k = Some s"
    by (simp add: window_wf_def dict_wf_get)
  with acc(1) s(2) have "0 < booked s_success (llm_key_last_epoch_calls st) ?h k +
      booked s_failure (llm_key_last_epoch_calls st) ?h k"
    by (simp add: booked_def rows_of_def sub_calls_def)
  with uid alive that show thesis by blast
qed

lemma reported_positive:
  assumes "0 < reported r_success rows h k + reported r_failure rows h k"
  shows "\<exists>r \<in> set rows. r_hotkey r = h \<and> report_sub_key r = k \<and> countable r \<and> 0 < r_success r + r_failure r"
proof (rule ccontr)
  assume none: "\<not> ?thesis"
  let ?rs = "filter (\<lambda>r. r_hotkey r = h \<and> report_sub_key r = k \<and> countable r) rows"
  have "reported r_success rows h k + reported r_failure rows h k = sum_list (map (\<lambda>r. r_success r + r_failure r) ?rs)"
    by (simp add: reported_def sum_list_addf)
  also have "\<dots> \<le> 0" using none by (intro sum_list_nonpos) (auto simp: not_less)
  finally show False using assms by simp
qed

lemma books_bound:
  assumes "state_ok rows st"
  shows "booked s_success (llm_key_last_epoch_calls st) h k + booked s_failure (llm_key_last_epoch_calls st) h k
    \<le> reported r_success rows h k + reported r_failure rows h k"
proof -
  have "windows_wf (llm_key_pending_calls st)" using assms by (simp add: state_ok_def vstate_wf_def)
  note booked_nonneg [OF this, of h k]
  moreover have "booked s_success (llm_key_pending_calls st) h k + booked s_success (llm_key_last_epoch_calls st) h k
      \<le> reported r_success rows h k"
    "booked s_failure (llm_key_pending_calls st) h k + booked s_failure (llm_key_last_epoch_calls st) h k
      \<le> reported r_failure rows h k"
    using assms by (simp_all add: state_ok_def booked_once_def)
  ultimately show ?thesis by linarith
qed

lemma positive_score_was_reported:
  assumes "state_ok rows st" "0 < epoch_score e hotkeys st uid"
  shows "uid < length hotkeys \<and> (\<exists>r \<in> set rows. r_hotkey r = hotkeys ! uid \<and> countable r \<and>
    0 < r_success r + r_failure r \<and> key_alive st (r_hotkey r) (report_sub_key r))"
proof -
  let ?h = "hotkeys ! uid"
  have wf: "windows_wf (llm_key_last_epoch_calls st)" using assms(1) by (simp add: state_ok_def vstate_wf_def)
  obtain k where k: "uid < length hotkeys" "key_alive st ?h k"
    "0 < booked s_success (llm_key_last_epoch_calls st) ?h k + booked s_failure (llm_key_last_epoch_calls st) ?h k"
    by (rule positive_score_has_calls [OF wf assms(2)])
  have "0 < reported r_success rows ?h k + reported r_failure rows ?h k"
    by (rule less_le_trans [OF k(3) books_bound [OF assms(1)]])
  from reported_positive [OF this] obtain r where "r \<in> set rows" "r_hotkey r = ?h" "report_sub_key r = k"
    "countable r" "0 < r_success r + r_failure r"
    by blast
  with k(1,2) show ?thesis by (intro conjI bexI [of _ r]) simp_all
qed

lemma nan_to_num_Fin [simp]: "nan_to_num (Fin r) = r"
  by (simp add: nan_to_num_def)

lemma blended_of_fin:
  assumes "v_scores st = map Fin rs" "uid < length rs"
  shows "blended_weight_array hotkeys st ! uid = rs ! uid \<or> blended_weight_array hotkeys st ! uid = 0"
  using assms blended_nth [of uid st hotkeys] by simp

section \<open>A sample life\<close>

definition sample_graph :: metagraph where
  "sample_graph = \<lparr>mg_n = 1, mg_uids = [0], mg_hotkeys = [''a''], mg_axons = [\<lparr>ax_serving = False, ax_info = []\<rparr>],
     mg_validator_permit = None\<rparr>"

definition sample_row :: usage_report where
  "sample_row = \<lparr>r_hotkey = ''a'', r_key_id = Some 7, r_provider = Some ''openai'', r_model = Some ''gpt-4o'',
     r_success = 6, r_failure = 1, r_latency_ms = None, r_quality = None, r_error_categories = [], r_key_active = True\<rparr>"

definition sample_inputs :: "rat \<Rightarrow> int \<Rightarrow> usage_report list \<Rightarrow> forward_inputs" where
  "sample_inputs now block rows = \<lparr>fw_ask_now = now, fw_fetched = True, fw_ask = (\<lambda>_. []), fw_submit = (\<lambda>_ _ _. Inl []),
     fw_poll_now = now, fw_chain = \<lparr>c_step = Some (block, Some 0), c_tempo = Some (Some 359)\<rparr>,
     fw_reports = Some (rows, None), fw_roster = None\<rparr>"

text \<open>A forward of the sample validator, a second epoch later the next one.\<close>

definition sample_forward :: "forward_inputs \<Rightarrow> llm_node \<Rightarrow> llm_node" where
  "sample_forward i n = (case validator_forward (\<lambda>_. []) no_env ''v'' True (nd_metagraph n) i (nd_state n) of
      Inl _ \<Rightarrow> n | Inr (st, saved) \<Rightarrow> n\<lparr>nd_state := st, nd_file := Some saved\<rparr>)"

definition sample_first :: llm_node where
  "sample_first = sample_forward (sample_inputs 1000 100 [sample_row]) (fresh_node sample_graph)"

definition sample_second :: llm_node where
  "sample_second = sample_forward (sample_inputs 9000 460 []) sample_first"

lemma sample_forward_runs:
  assumes "node_run (\<lambda>_. []) no_env ''v'' True rows n"
    and "\<not> isl (validator_forward (\<lambda>_. []) no_env ''v'' True (nd_metagraph n) i (nd_state n))"
  shows "node_run (\<lambda>_. []) no_env ''v'' True (rows @ rows_received no_env True i (nd_state n)) (sample_forward i n)"
proof -
  from assms(2) obtain st saved
    where fwd: "validator_forward (\<lambda>_. []) no_env ''v'' True (nd_metagraph n) i (nd_state n) = Inr (st, saved)"
    by (auto simp: isl_def) (metis obj_sumE surj_pair)
  from node_run.continues [OF assms(1) node_step.forwards [OF fwd, of "Some saved"]] show ?thesis
    by (simp add: sample_forward_def fwd)
qed

lemma sample_first_runs: "node_run (\<lambda>_. []) no_env ''v'' True [sample_row] sample_first"
proof -
  let ?i = "sample_inputs 1000 100 [sample_row]" and ?n = "fresh_node sample_graph"
  have "\<not> isl (validator_forward (\<lambda>_. []) no_env ''v'' True (nd_metagraph ?n) ?i (nd_state ?n))" by code_simp
  note run = sample_forward_runs [OF node_run.starts this]
  have "\<not> too_early (fw_poll_now ?i) (last_llm_key_report_poll_at (nd_state ?n)) (report_interval no_env)" by code_simp
  then have "rows_received no_env True ?i (nd_state ?n) = [sample_row]"
    by (simp add: rows_received_def sample_inputs_def)
  with run show ?thesis by (simp add: sample_first_def)
qed

lemma sample_second_runs: "node_run (\<lambda>_. []) no_env ''v'' True [sample_row] sample_second"
proof -
  have "\<not> isl (validator_forward (\<lambda>_. []) no_env ''v'' True (nd_metagraph sample_first)
      (sample_inputs 9000 460 []) (nd_state sample_first))" by code_simp
  note run = sample_forward_runs [OF sample_first_runs this]
  have "rows_received no_env True (sample_inputs 9000 460 []) (nd_state sample_first) = []"
    by (simp add: rows_received_def sample_inputs_def cong: if_cong)
  with run show ?thesis by (simp add: sample_second_def)
qed

section \<open>Properties\<close>

text \<open>C2: No call is counted twice.  In every life of a node, whatever backend, miners and chain answer and
  however often it is restarted from its state file: the calls in the collecting window and in the window
  being paid, of one key and together, never exceed the calls of the usage rows received for that key, rows
  of inactive keys, with fatal errors or with negative counters not counting.  The same holds of the state
  file, the windows are well formed, and every score is a number between 0 and 1.\<close>

theorem no_call_is_counted_twice:
  assumes "node_run rp e own enabled rows n"
  shows "vstate_wf (nd_state n) \<and> unit_scores (v_scores (nd_state n)) \<and>
    booked s_success (llm_key_pending_calls (nd_state n)) h k + booked s_success (llm_key_last_epoch_calls (nd_state n)) h k
      \<le> reported r_success rows h k \<and>
    booked s_failure (llm_key_pending_calls (nd_state n)) h k + booked s_failure (llm_key_last_epoch_calls (nd_state n)) h k
      \<le> reported r_failure rows h k \<and>
    (\<forall>saved. nd_file n = Some saved \<longrightarrow>
      (\<exists>st. saved = save_masxai_state st \<and> vstate_wf st \<and>
         booked_once rows (llm_key_pending_calls st) (llm_key_last_epoch_calls st)))"
  using node_run_ok [OF assms] by (auto simp: node_ok_def state_ok_def booked_once_def)

theorem no_call_is_counted_twice_witness:
  "booked s_success (llm_key_pending_calls (nd_state sample_first)) ''a'' ''7'' = 6 \<and>
   booked s_success (llm_key_pending_calls (nd_state sample_first)) ''a'' ''7'' +
     booked s_success (llm_key_last_epoch_calls (nd_state sample_first)) ''a'' ''7'' \<le>
     reported r_success [sample_row] ''a'' ''7''"
proof
  show "booked s_success (llm_key_pending_calls (nd_state sample_first)) ''a'' ''7'' = 6" by code_simp
  show "booked s_success (llm_key_pending_calls (nd_state sample_first)) ''a'' ''7'' +
     booked s_success (llm_key_last_epoch_calls (nd_state sample_first)) ''a'' ''7'' \<le>
     reported r_success [sample_row] ''a'' ''7''"
    using no_call_is_counted_twice [OF sample_first_runs] by blast
qed

text \<open>C1: Nobody is paid without reported use.  In every life of a node whose configured floors are positive, an
  array of weights it hands to the base class gives a uid something only if, at some time in that life, a
  usage row of the hotkey that holds the uid was received which was marked active, named no fatal error and
  counted at least one call, and the key of that row counts as alive when the weights are set.  (A key that was
  cut after the row can be alive again, by an accepted submission or a later success.)  Every weight lies
  between 0 and 1.\<close>

theorem pay_needs_reported_use:
  assumes "node_run rp e own enabled rows n" "1 \<le> min_calls_of e" "1 \<le> min_graded_of e"
    and "set_weights base e c (mg_hotkeys (nd_metagraph n)) (nd_state n) = Inr (st, result)"
  shows "\<exists>ws. result = base ws \<and> length ws = length (v_scores st) \<and>
    (\<forall>uid < length ws. 0 \<le> ws ! uid \<and> ws ! uid \<le> 1 \<and>
      (0 < ws ! uid \<longrightarrow> uid < length (mg_hotkeys (nd_metagraph n)) \<and>
        (\<exists>r \<in> set rows. r_hotkey r = mg_hotkeys (nd_metagraph n) ! uid \<and> countable r \<and>
           0 < r_success r + r_failure r \<and> key_alive st (r_hotkey r) (report_sub_key r))))"
proof -
  let ?hotkeys = "mg_hotkeys (nd_metagraph n)" and ?ws = "blended_weight_array (mg_hotkeys (nd_metagraph n)) st"
  have ok0: "state_ok rows (nd_state n)" using node_run_ok [OF assms(1)] by (simp add: node_ok_def)
  obtain st1 where roll: "roll_epoch_if_needed e c ?hotkeys (nd_state n) = Inr st1"
    and score: "score_last_epoch e ?hotkeys st1 = Inr st" and result: "result = base ?ws"
    using assms(4) by (rule set_weights_cases)
  have ok1: "state_ok rows st1" by (rule roll_keeps [OF roll ok0])
  have ok: "state_ok rows st" by (rule score_last_epoch_keeps [OF score ok1])
  have wf1: "windows_wf (llm_key_last_epoch_calls st1)" using ok1 by (simp add: state_ok_def vstate_wf_def)
  have wf: "windows_wf (llm_key_last_epoch_calls st)" using ok by (simp add: state_ok_def vstate_wf_def)
  have scores: "v_scores st = map Fin (map (epoch_score e ?hotkeys st) [0..<length (v_scores st)])"
    using score_last_epoch_facts [OF assms(2,3) wf1, of ?hotkeys] score by auto
  have entry: "0 \<le> ?ws ! uid \<and> ?ws ! uid \<le> 1 \<and> (0 < ?ws ! uid \<longrightarrow> 0 < epoch_score e ?hotkeys st uid)"
    if "uid < length ?ws" for uid
    using blended_of_fin [OF scores, of uid ?hotkeys] that epoch_score_unit [of e ?hotkeys st uid] by auto
  note paid = positive_score_was_reported [OF ok]
  have "\<forall>uid < length ?ws. 0 \<le> ?ws ! uid \<and> ?ws ! uid \<le> 1 \<and>
      (0 < ?ws ! uid \<longrightarrow> uid < length ?hotkeys \<and> (\<exists>r \<in> set rows. r_hotkey r = ?hotkeys ! uid \<and> countable r \<and>
         0 < r_success r + r_failure r \<and> key_alive st (r_hotkey r) (report_sub_key r)))"
    using entry paid by blast
  then show ?thesis by (intro exI [of _ ?ws] conjI [OF result] conjI [OF length_blended])
qed

text \<open>In the sample life the uid is paid for its only key.\<close>

theorem pay_needs_reported_use_witness:
  "\<exists>st (ws :: rat list). set_weights (\<lambda>ws. Inr (Some (0 < ws ! 0))) no_env \<lparr>c_step = None, c_tempo = None\<rparr> [''a''] (nd_state sample_second)
     = Inr (st, Inr (Some (0 < ws ! 0))) \<and> 0 < ws ! 0 \<and> ws ! 0 \<le> 1 \<and> key_alive st ''a'' (report_sub_key sample_row)"
proof -
  let ?base = "\<lambda>ws :: rat list. Inr (Some (0 < ws ! 0)) :: py_exc + bool option"
  let ?run = "set_weights ?base no_env \<lparr>c_step = None, c_tempo = None\<rparr> [''a''] (nd_state sample_second)"
  have graph: "mg_hotkeys (nd_metagraph sample_second) = [''a'']" by code_simp
  have "\<not> isl ?run \<and> snd (projr ?run) = Inr (Some True) \<and> length (v_scores (fst (projr ?run))) = 1" by code_simp
  then obtain st where st: "?run = Inr (st, Inr (Some True))" "length (v_scores st) = 1"
    by (cases ?run) auto
  obtain ws where ws: "Inr (Some True) = ?base ws" "length ws = 1"
    and use: "\<forall>uid < length ws. 0 \<le> ws ! uid \<and> ws ! uid \<le> 1 \<and> (0 < ws ! uid \<longrightarrow> uid < length [''a''] \<and>
      (\<exists>r \<in> set [sample_row]. r_hotkey r = [''a''] ! uid \<and> countable r \<and> 0 < r_success r + r_failure r \<and>
         key_alive st (r_hotkey r) (report_sub_key r)))"
    using pay_needs_reported_use [OF sample_second_runs, of ?base "\<lparr>c_step = None, c_tempo = None\<rparr>" st "Inr (Some True)"]
      st unfolding graph by auto
  have "0 < ws ! 0" using ws(1) by simp
  with use ws(2) have "ws ! 0 \<le> 1" "key_alive st ''a'' (report_sub_key sample_row)" by auto
  with st(1) \<open>0 < ws ! 0\<close> show ?thesis by (intro exI [of _ st] exI [of _ ws]) simp
qed

text \<open>A metagraph whose lists have the length it announces, as the chain delivers it.\<close>

definition metagraph_ok :: "metagraph \<Rightarrow> bool" where
  "metagraph_ok mg \<longleftrightarrow> length (mg_axons mg) = mg_n mg \<and> length (mg_hotkeys mg) = mg_n mg \<and>
     (case mg_validator_permit mg of None \<Rightarrow> True | Some permits \<Rightarrow> length permits = mg_n mg)"

lemma miner_uids_total:
  assumes "metagraph_ok mg" "\<forall>uid \<in> set uids. uid < mg_n mg"
  shows "\<exists>out. miner_uids_from q own mg uids = Inr out \<and> set out \<subseteq> set uids"
  using assms(2)
proof (induction uids)
  case (Cons uid uids)
  then obtain out where out: "miner_uids_from q own mg uids = Inr out" "set out \<subseteq> set uids" by auto
  have "uid < mg_n mg" using Cons.prems by simp
  with assms(1) out show ?case by (auto simp: metagraph_ok_def split: option.splits)
qed simp

lemma submission_loop_total:
  assumes "\<forall>p \<in> set ps. fst p < length hotkeys"
  shows "\<exists>st' lg'. submission_loop rp e now hotkeys submit ps st lg = Inr (st', lg')"
  using assms
proof (induction ps arbitrary: st lg)
  case (Cons p ps)
  obtain uid resp where p: "p = (uid, resp)" by force
  have "\<exists>r. submission_step rp e now hotkeys submit uid resp st lg = Inr r"
    using Cons.prems by (auto simp: p submission_step_def Let_def split: option.splits sum.splits)
  then obtain st1 lg1 where step: "submission_step rp e now hotkeys submit uid resp st lg = Inr (st1, lg1)" by force
  have "\<forall>q \<in> set ps. fst q < length hotkeys" using Cons.prems by simp
  from Cons.IH [OF this, of st1 lg1] show ?case by (simp add: p step)
qed simp

lemma submission_round_total:
  assumes "metagraph_ok mg"
  shows "\<exists>st' lg. llm_key_submission_round rp e now own mg fetched ask submit st = Inr (st', lg)"
proof -
  obtain uids where uids: "get_miner_uids e own mg = Inr uids" "set uids \<subseteq> {..<mg_n mg}"
    using miner_uids_total [OF assms, of "[0..<mg_n mg]"] by (force simp: get_miner_uids_def)
  then have small: "\<forall>p \<in> set (zip uids (ask uids)). fst p < length (mg_hotkeys mg)"
    using assms by (auto simp: metagraph_ok_def dest!: set_zip_leftD)
  have "\<not> (\<exists>uid \<in> set uids. length (mg_axons mg) \<le> uid)"
    using uids(2) assms by (auto simp: metagraph_ok_def)
  with uids(1) submission_loop_total [OF small, of rp e now submit st empty_log] show ?thesis
    by (auto simp: llm_key_submission_round_def Let_def)
qed

lemma poll_round_total:
  assumes "1 \<le> min_calls_of e" "1 \<le> min_graded_of e" "vstate_wf st"
  shows "\<exists>st'. llm_key_report_poll_round rp e now c hotkeys fetched roster st = Inr st'"
proof -
  obtain st1 where roll: "roll_epoch_if_needed e c hotkeys st = Inr st1" "vstate_wf st1"
    using vstate_wf_roll [OF assms] by blast
  have "score_last_epoch e hotkeys (prune_llm_key_hotkey_status e hotkeys now
      (poll_llm_key_roster roster (fold (report_step rp hotkeys now) reports st1))) \<noteq> Inl x" for reports x
    using vstate_wf_score [OF assms(1,2)] roll(2) by (metis (no_types) vstate_wf_poll_parts sum.distinct(1))
  then show ?thesis
    using roll by (auto simp: llm_key_report_poll_round_def Let_def split: option.splits sum.splits)
qed

text \<open>Python's integers have no bound, and turning one into a float raises from this value on; the model computes
  with exact numbers and never raises.\<close>

definition FLOAT_OVERFLOW :: int where "FLOAT_OVERFLOW = 2 ^ 1024 - 2 ^ 970"

definition counts_fit :: "vstate \<Rightarrow> string \<Rightarrow> bool" where
  "counts_fit st h \<longleftrightarrow>
     pooled_calls (llm_key_pending_calls st) h + pooled_calls (llm_key_last_epoch_calls st) h < FLOAT_OVERFLOW"

lemma counts_fit_run:
  assumes "node_run rp e own enabled rows n" "reported_calls rows h < FLOAT_OVERFLOW"
  shows "counts_fit (nd_state n) h"
  using pooled_calls_bound [of rows "nd_state n" h] node_run_ok [OF assms(1)] assms(2)
  by (simp add: node_ok_def counts_fit_def)

lemma reported_calls_append: "reported_calls (rows @ rows1) h = reported_calls rows h + reported_calls rows1 h"
  by (simp add: reported_calls_def)

lemma reported_calls_nonneg: "0 \<le> reported_calls rows h"
  unfolding reported_calls_def by (rule sum_list_nonneg) (auto simp: countable_def)

text \<open>C3: A node never wedges, with positive configured floors, a metagraph of consistent length, and no more calls
  reported for a hotkey over the life than a float can hold.  At every such point of a life the next forward
  returns a state and a file to write, the next weight setting reaches the base class, and the node can
  be restarted on any metagraph from the file it last wrote or without it, whatever else miners, backend and
  chain answer; each of these leads to another point of a life.  At all of them the calls of a hotkey, its collected and
  closed windows together, still fit a float, so that no conversion of a count, which Python would let
  raise, can fail; they never exceed the calls of the countable rows received.\<close>

theorem node_never_wedges:
  assumes "node_run rp e own enabled rows n" "1 \<le> min_calls_of e" "1 \<le> min_graded_of e"
    and "metagraph_ok (nd_metagraph n)"
    and "\<forall>h. reported_calls (rows @ rows_received e enabled i (nd_state n)) h < FLOAT_OVERFLOW"
  shows "(\<exists>st. validator_forward rp e own enabled (nd_metagraph n) i (nd_state n) = Inr (st, save_masxai_state st) \<and>
      counts_fit st h \<and>
      node_run rp e own enabled (rows @ rows_received e enabled i (nd_state n))
        (n\<lparr>nd_state := st, nd_file := Some (save_masxai_state st)\<rparr>)) \<and>
    (\<exists>st ws. set_weights base e c (mg_hotkeys (nd_metagraph n)) (nd_state n) = Inr (st, base ws) \<and>
      counts_fit st h \<and> node_run rp e own enabled rows (n\<lparr>nd_state := st\<rparr>)) \<and>
    node_run rp e own enabled rows
      (n\<lparr>nd_metagraph := mg, nd_hotkeys := mg_hotkeys mg, nd_state := restarted mg (nd_file n)\<rparr>) \<and>
    node_run rp e own enabled rows
      (n\<lparr>nd_metagraph := mg, nd_hotkeys := mg_hotkeys mg, nd_state := restarted mg None\<rparr>) \<and>
    pooled_calls (llm_key_pending_calls (nd_state n)) h + pooled_calls (llm_key_last_epoch_calls (nd_state n)) h
      \<le> reported_calls rows h"
proof (intro conjI)
  have fits: "reported_calls rows h < FLOAT_OVERFLOW"
    using assms(5) reported_calls_nonneg [of "rows_received e enabled i (nd_state n)" h]
    by (auto simp: reported_calls_append dest: spec [of _ h])
  let ?st = "nd_state n" and ?hotkeys = "mg_hotkeys (nd_metagraph n)"
  have ok: "state_ok rows ?st" using node_run_ok [OF assms(1)] by (simp add: node_ok_def)
  show "pooled_calls (llm_key_pending_calls ?st) h + pooled_calls (llm_key_last_epoch_calls ?st) h \<le> reported_calls rows h"
    by (rule pooled_calls_bound [OF ok])
  show "node_run rp e own enabled rows
      (n\<lparr>nd_metagraph := mg, nd_hotkeys := mg_hotkeys mg, nd_state := restarted mg (nd_file n)\<rparr>)"
    "node_run rp e own enabled rows
      (n\<lparr>nd_metagraph := mg, nd_hotkeys := mg_hotkeys mg, nd_state := restarted mg None\<rparr>)"
    using node_run.continues [OF assms(1) node_step.restarts [of _ n _ _ _ _ mg]] by auto
  have wf0: "vstate_wf ?st" using ok by (simp add: state_ok_def)
  obtain st1 lg where sub: "llm_key_submission_round rp e (fw_ask_now i) own (nd_metagraph n) (fw_fetched i)
      (fw_ask i) (fw_submit i) ?st = Inr (st1, lg)"
    using submission_round_total [OF assms(4)] by blast
  have "vstate_wf st1" using submission_round_frame(1) [OF sub, of rows] ok by (simp add: state_ok_def)
  from poll_round_total [OF assms(2,3) this] have "\<exists>r. validator_forward rp e own enabled (nd_metagraph n) i ?st = Inr r"
    by (auto simp: validator_forward_def sub split: sum.splits) (metis sum.distinct(1))
  then obtain st saved where fwd: "validator_forward rp e own enabled (nd_metagraph n) i ?st = Inr (st, saved)" by force
  note saved = forward_keeps(2) [OF fwd ok]
  have later: "node_run rp e own enabled (rows @ rows_received e enabled i ?st)
      (n\<lparr>nd_state := st, nd_file := Some (save_masxai_state st)\<rparr>)"
    using node_run.continues [OF assms(1) node_step.forwards [OF fwd]] by (auto simp: saved)
  from counts_fit_run [OF this, of h] assms(5) have "counts_fit st h" by simp
  with later fwd
  show "\<exists>st. validator_forward rp e own enabled (nd_metagraph n) i ?st = Inr (st, save_masxai_state st) \<and>
      counts_fit st h \<and>
      node_run rp e own enabled (rows @ rows_received e enabled i ?st)
        (n\<lparr>nd_state := st, nd_file := Some (save_masxai_state st)\<rparr>)"
    by (auto simp: saved)
  obtain st1 where roll: "roll_epoch_if_needed e c ?hotkeys ?st = Inr st1" "vstate_wf st1"
    using vstate_wf_roll [OF assms(2,3) wf0] by blast
  obtain st2 where "score_last_epoch e ?hotkeys st1 = Inr st2"
    using vstate_wf_score [OF assms(2,3) roll(2)] by blast
  with roll(1) obtain st ws where set: "set_weights base e c ?hotkeys ?st = Inr (st, base ws)"
    by (auto simp: set_weights_def Let_def)
  then have step: "node_run rp e own enabled rows (n\<lparr>nd_state := st\<rparr>)"
    using node_run.continues [OF assms(1) node_step.sets_weights] by fastforce
  from counts_fit_run [OF this fits] set step
  show "\<exists>st ws. set_weights base e c ?hotkeys ?st = Inr (st, base ws) \<and>
      counts_fit st h \<and> node_run rp e own enabled rows (n\<lparr>nd_state := st\<rparr>)" by auto
qed

theorem node_never_wedges_witness:
  "(\<exists>st. validator_forward (\<lambda>_. []) no_env ''v'' True sample_graph (sample_inputs 9000 460 []) (nd_state sample_first) =
     Inr (st, save_masxai_state st) \<and> counts_fit st ''a'') \<and>
   pooled_calls (llm_key_pending_calls (nd_state sample_first)) ''a'' \<le> reported_calls [sample_row] ''a'' \<and>
   pooled_calls (llm_key_pending_calls (nd_state sample_first)) ''a'' = 7"
proof -
  have graph: "nd_metagraph sample_first = sample_graph" by (simp add: sample_first_def sample_forward_def fresh_node_def split: sum.splits)
  have "metagraph_ok sample_graph" by code_simp
  moreover have "1 \<le> min_calls_of no_env" "1 \<le> min_graded_of no_env" by code_simp+
  moreover have calls: "pooled_calls (llm_key_pending_calls (nd_state sample_first)) ''a'' = 7"
    "pooled_calls (llm_key_last_epoch_calls (nd_state sample_first)) ''a'' = 0" by code_simp+
  moreover have "\<forall>h. reported_calls ([sample_row] @
      rows_received no_env True (sample_inputs 9000 460 []) (nd_state sample_first)) h < FLOAT_OVERFLOW"
  proof -
    have "rows_received no_env True (sample_inputs 9000 460 []) (nd_state sample_first) = []"
      "r_success sample_row + r_failure sample_row = 7" "7 < FLOAT_OVERFLOW" by code_simp+
    then show ?thesis by (simp add: reported_calls_def FLOAT_OVERFLOW_def)
  qed
  ultimately have "(\<exists>st. validator_forward (\<lambda>_. []) no_env ''v'' True sample_graph (sample_inputs 9000 460 []) (nd_state sample_first) =
      Inr (st, save_masxai_state st) \<and> counts_fit st ''a'') \<and>
    pooled_calls (llm_key_pending_calls (nd_state sample_first)) ''a'' \<le> reported_calls [sample_row] ''a''"
    using node_never_wedges [OF sample_first_runs, where i = "sample_inputs 9000 460 []" and h = "''a''" and mg = sample_graph]
    unfolding graph by fastforce
  with calls(1) show ?thesis by blast
qed

end
