(* ===== verification/Verdicts.thy ===== *)
theory Verdicts
  imports Py_Text
begin

text \<open>
  \<open>secqurityVali/models.py\<close>: stages, reject reasons, the failure a stage raises, the verdict and its
  two constructors, and the evidence a run accumulates (\<open>pipeline._Evidence\<close>).
\<close>

section \<open>Stages\<close>

datatype stage = FILE | STRUCTURE | LOAD | INSPECT | DRY_RUN

definition STAGE_ORDER :: "stage list" where
  "STAGE_ORDER = [FILE, STRUCTURE, LOAD, INSPECT, DRY_RUN]"

fun stage_index :: "stage \<Rightarrow> nat" where
  "stage_index FILE = 0"
| "stage_index STRUCTURE = 1"
| "stage_index LOAD = 2"
| "stage_index INSPECT = 3"
| "stage_index DRY_RUN = 4"

lemma stage_index_order: "index_of s STAGE_ORDER = Some (stage_index s)"
  by (cases s) (simp_all add: STAGE_ORDER_def)

lemma stage_index_inj: "stage_index s = stage_index t \<Longrightarrow> s = t"
  by (cases s; cases t) simp_all

instantiation stage :: linorder
begin

definition less_eq_stage :: "stage \<Rightarrow> stage \<Rightarrow> bool" where
  "less_eq_stage s t \<longleftrightarrow> stage_index s \<le> stage_index t"

definition less_stage :: "stage \<Rightarrow> stage \<Rightarrow> bool" where
  "less_stage s t \<longleftrightarrow> stage_index s < stage_index t"

instance
  by standard (auto simp: less_eq_stage_def less_stage_def stage_index_inj)

end

section \<open>Reasons\<close>

datatype reject_reason =
    FILE_MISSING | FILE_EMPTY | FILE_TOO_LARGE | NOT_AN_ARCHIVE
  | NOT_A_DOCKER_IMAGE | UNSAFE_TAR_ENTRY | MALFORMED_ARCHIVE | MALFORMED_MANIFEST
  | MULTIPLE_IMAGES | DECOMPRESSION_BOMB | TOO_MANY_ENTRIES
  | LOAD_FAILED
  | BAD_IMAGE_REF | PULL_FAILED | REGISTRY_UNAUTHORIZED | IMAGE_NOT_FOUND | DIGEST_UNRESOLVED
  | ARCH_MISMATCH | OS_MISMATCH | NO_ENTRYPOINT | TOO_MANY_LAYERS | IMAGE_TOO_LARGE
  | CREATE_FAILED | START_FAILED | DRY_RUN_TIMEOUT | DRY_RUN_NONZERO_EXIT
  | DUPLICATE_AGENT
  | DOCKER_UNAVAILABLE | INTERNAL_ERROR

definition VALIDATOR_FAULT_REASONS :: "reject_reason list" where
  "VALIDATOR_FAULT_REASONS = [DOCKER_UNAVAILABLE, INTERNAL_ERROR]"

text \<open>\<open>StageFailure\<close>, or any other exception with its rendered text.\<close>

datatype failure = Stage_Failure reject_reason "string option" | Crash string

fun is_validator_fault :: "failure \<Rightarrow> bool" where
  "is_validator_fault (Stage_Failure r d) = (r \<in> set VALIDATOR_FAULT_REASONS)"
| "is_validator_fault (Crash m) = True"

section \<open>Verdicts\<close>

datatype status = ACCEPTED | REJECTED

text \<open>
  The optional fields of a verdict.  Docker's own JSON values (\<open>arch\<close>, \<open>os_name\<close>, \<open>image_user\<close>) are
  stored unconverted; \<open>JNull\<close> is \<open>None\<close>.
\<close>

record evidence =
  ev_source :: string
  ev_image_ref :: "string option"
  ev_file_sha256 :: "string option"
  ev_file_size :: "nat option"
  ev_image_id :: "string option"
  ev_repo_tags :: "string list"
  ev_arch :: json
  ev_os_name :: json
  ev_layer_count :: "nat option"
  ev_image_size :: "int option"
  ev_entrypoint :: "string list"
  ev_image_user :: json
  ev_dry_run_exit_code :: "int option"
  ev_dry_run_ms :: "nat option"
  ev_log_excerpt :: "string option"
  ev_agent_digest :: "string option"

definition no_evidence :: evidence where
  "no_evidence = \<lparr>ev_source = ''file'', ev_image_ref = None, ev_file_sha256 = None, ev_file_size = None,
     ev_image_id = None, ev_repo_tags = [], ev_arch = JNull, ev_os_name = JNull,
     ev_layer_count = None, ev_image_size = None, ev_entrypoint = [], ev_image_user = JNull,
     ev_dry_run_exit_code = None, ev_dry_run_ms = None, ev_log_excerpt = None,
     ev_agent_digest = None\<rparr>"

text \<open>\<open>add\<close> drops \<open>None\<close>: a field keeps what an earlier stage knew.\<close>

definition keep_old :: "'a option \<Rightarrow> 'a option \<Rightarrow> 'a option" where
  "keep_old new old = (case new of None \<Rightarrow> old | Some v \<Rightarrow> Some v)"

definition keep_old_json :: "json \<Rightarrow> json \<Rightarrow> json" where
  "keep_old_json new old = (case new of JNull \<Rightarrow> old | _ \<Rightarrow> new)"

definition keep_old_list :: "'a list \<Rightarrow> 'a list \<Rightarrow> 'a list" where
  "keep_old_list new old = (if new = [] then old else new)"

record verdict =
  vd_miner_id :: string
  vd_file_path :: string
  vd_status :: status
  vd_stage_reached :: stage
  vd_reject_reason :: "reject_reason option"
  vd_evidence :: evidence
  vd_duplicate_of :: "nat option"
  vd_from_cache :: bool
  vd_error_detail :: "string option"

definition accepted :: "verdict \<Rightarrow> bool" where
  "accepted v \<longleftrightarrow> vd_status v = ACCEPTED"

definition validator_fault :: "verdict \<Rightarrow> bool" where
  "validator_fault v = (case vd_reject_reason v of
     None \<Rightarrow> False | Some r \<Rightarrow> r \<in> set VALIDATOR_FAULT_REASONS)"

definition reject :: "string \<Rightarrow> string \<Rightarrow> stage \<Rightarrow> reject_reason \<Rightarrow> string option \<Rightarrow> evidence \<Rightarrow> verdict" where
  "reject miner_id file_path stage reason error_detail ev =
     \<lparr>vd_miner_id = miner_id, vd_file_path = file_path, vd_status = REJECTED,
      vd_stage_reached = stage, vd_reject_reason = Some reason, vd_evidence = ev,
      vd_duplicate_of = None, vd_from_cache = False, vd_error_detail = error_detail\<rparr>"

definition accept :: "string \<Rightarrow> string \<Rightarrow> stage \<Rightarrow> evidence \<Rightarrow> verdict" where
  "accept miner_id file_path stage ev =
     \<lparr>vd_miner_id = miner_id, vd_file_path = file_path, vd_status = ACCEPTED,
      vd_stage_reached = stage, vd_reject_reason = None, vd_evidence = ev,
      vd_duplicate_of = None, vd_from_cache = False, vd_error_detail = None\<rparr>"

text \<open>What the pipeline makes of a failure.\<close>

definition reject_failure :: "string \<Rightarrow> string \<Rightarrow> stage \<Rightarrow> failure \<Rightarrow> evidence \<Rightarrow> verdict" where
  "reject_failure miner_id file_path stage f ev = (case f of
      Stage_Failure reason detail \<Rightarrow> reject miner_id file_path stage reason detail ev
    | Crash m \<Rightarrow> reject miner_id file_path stage INTERNAL_ERROR (Some m) ev)"

text \<open>A verdict is well-formed when a reason is given exactly for a rejection.\<close>

definition verdict_wf :: "verdict \<Rightarrow> bool" where
  "verdict_wf v \<longleftrightarrow> (vd_status v = ACCEPTED \<longleftrightarrow> vd_reject_reason v = None)"

lemma verdict_wf_reject [wf_intros, simp]: "verdict_wf (reject m p s r d f)"
  by (simp add: verdict_wf_def reject_def)

lemma verdict_wf_accept [wf_intros, simp]: "verdict_wf (accept m p s f)"
  by (simp add: verdict_wf_def accept_def)

lemma verdict_wf_reject_failure [wf_intros, simp]: "verdict_wf (reject_failure m p s x f)"
  by (simp add: reject_failure_def split: failure.split)

end
