(* ===== verification/Docker_Ops.thy ===== *)
theory Docker_Ops
  imports Verdicts
begin

text \<open>
  \<open>secqurityVali/docker_ops.py\<close>.  The Docker CLI is an argument: a runner answers one command given the
  commands that ran before it, and every operation returns its result with the extended history, so
  that what reached the CLI is visible.  \<open>json.loads\<close>, \<open>str()\<close> of containers (\<open>rp\<close>) and SHA-256 are
  arguments too.
\<close>

section \<open>Running Docker\<close>

type_synonym docker_call = "string list"

datatype run_outcome =
    No_Cli string
  | Cli_Timeout
  | Os_Error string
  | Ran int string string
  | Run_Crash string

type_synonym runner = "docker_call list \<Rightarrow> docker_call \<Rightarrow> run_outcome"
type_synonym 'a docker = "docker_call list \<Rightarrow> (failure + 'a) \<times> docker_call list"

definition dreturn :: "'a \<Rightarrow> 'a docker" where
  "dreturn x = (\<lambda>h. (Inr x, h))"

definition dfail :: "failure \<Rightarrow> 'a docker" where
  "dfail f = (\<lambda>h. (Inl f, h))"

definition dbind :: "'a docker \<Rightarrow> ('a \<Rightarrow> 'b docker) \<Rightarrow> 'b docker" where
  "dbind m k = (\<lambda>h. case m h of (Inl f, h') \<Rightarrow> (Inl f, h') | (Inr x, h') \<Rightarrow> k x h')"

text \<open>\<open>try: ... except StageFailure\<close>: other exceptions pass through.\<close>

definition dcatch :: "'a docker \<Rightarrow> (reject_reason \<Rightarrow> string option \<Rightarrow> 'a docker) \<Rightarrow> 'a docker" where
  "dcatch m handler = (\<lambda>h. case m h of
      (Inl (Stage_Failure r d), h') \<Rightarrow> handler r d h'
    | other \<Rightarrow> other)"

text \<open>\<open>try: ... finally: ...\<close>: an exception of the cleanup would replace the outcome.\<close>

definition dfinally :: "'a docker \<Rightarrow> 'b docker \<Rightarrow> 'a docker" where
  "dfinally m cleanup = (\<lambda>h. case m h of (r, h') \<Rightarrow>
     (case cleanup h' of (Inl f, h'') \<Rightarrow> (Inl f, h'') | (Inr _, h'') \<Rightarrow> (r, h'')))"

definition excerpt_to :: "nat \<Rightarrow> string \<Rightarrow> string" where
  "excerpt_to limit text =
     (if text = [] then [] else
      let text = py_strip text in
      if length text \<le> limit then text else take limit text @ ''... [truncated]'')"

definition excerpt :: "string \<Rightarrow> string" where
  "excerpt text = excerpt_to 2000 text"

definition DAEMON_DOWN_MARKERS :: "string list" where
  "DAEMON_DOWN_MARKERS =
     [''cannot connect to the docker daemon'', ''error during connect'',
      ''is the docker daemon running'', ''open //./pipe/docker'', ''dial unix /var/run/docker.sock'']"

definition looks_like_daemon_down :: "string \<Rightarrow> bool" where
  "looks_like_daemon_down stderr =
     list_ex (\<lambda>marker. contains (py_lower stderr) marker) DAEMON_DOWN_MARKERS"

record completed =
  p_returncode :: int
  p_stdout :: string
  p_stderr :: string

definition run_docker :: "runner \<Rightarrow> nat \<Rightarrow> reject_reason \<Rightarrow> string list \<Rightarrow> completed docker" where
  "run_docker runner timeout timeout_reason args = (\<lambda>h.
     (case runner h args of
        No_Cli m \<Rightarrow> Inl (Stage_Failure DOCKER_UNAVAILABLE (Some m))
      | Cli_Timeout \<Rightarrow> Inl (Stage_Failure timeout_reason
          (Some (''docker '' @ hd args @ '' timed out after '' @ show_nat timeout @ ''s'')))
      | Os_Error m \<Rightarrow> Inl (Stage_Failure DOCKER_UNAVAILABLE (Some m))
      | Run_Crash m \<Rightarrow> Inl (Crash m)
      | Ran returncode stdout stderr \<Rightarrow>
          if returncode \<noteq> 0 \<and> looks_like_daemon_down stderr
          then Inl (Stage_Failure DOCKER_UNAVAILABLE (Some (excerpt stderr)))
          else Inr \<lparr>p_returncode = returncode, p_stdout = stdout, p_stderr = stderr\<rparr>,
      h @ [args]))"

definition DOCKER_LOAD_TIMEOUT_S :: nat where "DOCKER_LOAD_TIMEOUT_S = 600"
definition DOCKER_CLI_TIMEOUT_S :: nat where "DOCKER_CLI_TIMEOUT_S = 60"

section \<open>Image references\<close>

text \<open>
  \<open>^[A-Za-z0-9][A-Za-z0-9._:/@-]{0,255}$\<close> under \<open>re.match\<close>: the \<open>$\<close> also matches before one final line
  feed.
\<close>

definition is_alnum_ascii :: "char \<Rightarrow> bool" where
  "is_alnum_ascii c \<longleftrightarrow> is_alpha_ascii c \<or> is_decimal c"

definition is_ref_char :: "char \<Rightarrow> bool" where
  "is_ref_char c \<longleftrightarrow> is_alnum_ascii c \<or> c \<in> {CHR ''.'', CHR ''_'', CHR '':'', CHR ''/'', CHR ''@'', CHR ''-''}"

definition ref_body :: "string \<Rightarrow> bool" where
  "ref_body s = (case s of [] \<Rightarrow> False
     | c # cs \<Rightarrow> is_alnum_ascii c \<and> list_all is_ref_char cs \<and> length cs \<le> 255)"

definition at_dollar :: "(string \<Rightarrow> bool) \<Rightarrow> string \<Rightarrow> bool" where
  "at_dollar p s \<longleftrightarrow> p s \<or> (s \<noteq> [] \<and> code (last s) = 10 \<and> p (butlast s))"

definition safe_image_ref :: "string \<Rightarrow> bool" where
  "safe_image_ref ref = at_dollar ref_body ref"

definition assert_safe_image_ref :: "string \<Rightarrow> string docker" where
  "assert_safe_image_ref ref =
     (if safe_image_ref ref then dreturn ref
      else dfail (Stage_Failure LOAD_FAILED (Some (''unsafe image reference from docker: '' @ ref))))"

section \<open>Stage LOAD\<close>

text \<open>
  \<open>^<label>\s*(\S+)\s*$\<close> in multi-line mode, at one line start: the run of non-space characters after
  the label, if only white space follows it up to a line feed or the end.
\<close>

fun blank_to_line_end :: "string \<Rightarrow> bool" where
  "blank_to_line_end [] = True"
| "blank_to_line_end (c # cs) = (code c = 10 \<or> (is_space c \<and> blank_to_line_end cs))"

definition labelled_word :: "string \<Rightarrow> string \<Rightarrow> string option" where
  "labelled_word label s =
     (if starts_with s label then
        let rest = py_lstrip (drop (length label) s);
            word = takeWhile (\<lambda>c. \<not> is_space c) rest
        in if word \<noteq> [] \<and> blank_to_line_end (drop (length word) rest) then Some word else None
      else None)"

fun search_lines :: "string \<Rightarrow> bool \<Rightarrow> string \<Rightarrow> string option" where
  "search_lines label at_start s =
     (case (if at_start then labelled_word label s else None) of
        Some w \<Rightarrow> Some w
      | None \<Rightarrow> (case s of [] \<Rightarrow> None | c # cs \<Rightarrow> search_lines label (code c = 10) cs))"

declare search_lines.simps [simp del]

definition load_image :: "runner \<Rightarrow> string \<Rightarrow> string docker" where
  "load_image runner path =
     dbind (run_docker runner DOCKER_LOAD_TIMEOUT_S LOAD_FAILED [''load'', ''--input'', path]) (\<lambda>result.
       if p_returncode result \<noteq> 0
       then dfail (Stage_Failure LOAD_FAILED (Some (excerpt (p_stderr result))))
       else
         let output = p_stdout result @ [char_of (10 :: nat)] @ p_stderr result;
             found = (case search_lines ''Loaded image ID:'' True output of
                        Some w \<Rightarrow> Some w
                      | None \<Rightarrow> search_lines ''Loaded image:'' True output)
         in case found of
              None \<Rightarrow> dfail (Stage_Failure LOAD_FAILED
                (Some (''docker load reported no image: '' @ excerpt_to 500 output)))
            | Some ref \<Rightarrow> assert_safe_image_ref ref)"

section \<open>Stage INSPECT\<close>

record image_info =
  im_image_id :: string
  im_repo_tags :: "string list"
  im_arch :: json
  im_os_name :: json
  im_layer_count :: "nat option"
  im_image_size :: "int option"
  im_entrypoint :: "string list"
  im_cmd :: "string list"
  im_image_user :: json
  im_rootfs_layers :: "string list"

definition jget :: "(string \<times> json) list \<Rightarrow> string \<Rightarrow> json" where
  "jget d k = (case dget d k of None \<Rightarrow> JNull | Some v \<Rightarrow> v)"

text \<open>\<open>value or {}\<close>, which the next line calls \<open>.get\<close> on: \<open>None\<close> is the \<open>AttributeError\<close>.\<close>

definition dict_or_empty :: "json \<Rightarrow> (string \<times> json) list option" where
  "dict_or_empty v = (if \<not> json_truthy v then Some [] else case v of JDict d \<Rightarrow> Some d | _ \<Rightarrow> None)"

definition str_list :: "(json \<Rightarrow> string) \<Rightarrow> json \<Rightarrow> string list" where
  "str_list rp value = (case value of
      JList items \<Rightarrow> map (py_str rp) items
    | JStr s \<Rightarrow> if s \<noteq> [] then [s] else []
    | _ \<Rightarrow> [])"

text \<open>\<open>int(size)\<close> of a number, truncated towards zero; NaN and the infinities raise.\<close>

definition truncate_rat :: "rat \<Rightarrow> int" where
  "truncate_rat q = (if q < 0 then - \<lfloor>- q\<rfloor> else \<lfloor>q\<rfloor>)"

fun json_size :: "json \<Rightarrow> failure + int option" where
  "json_size (JInt i) = Inr (Some i)"
| "json_size (JBool b) = Inr (Some (if b then 1 else 0))"
| "json_size (JFloat (Fin q)) = Inr (Some (truncate_rat q))"
| "json_size (JFloat NaN) = Inl (Crash ''ValueError: cannot convert float NaN to integer'')"
| "json_size (JFloat _) = Inl (Crash ''OverflowError: cannot convert float infinity to integer'')"
| "json_size _ = Inr None"

definition attribute_error :: failure where
  "attribute_error = Crash ''AttributeError: object has no attribute 'get' ''"

definition image_info_of :: "(json \<Rightarrow> string) \<Rightarrow> string \<Rightarrow> (string \<times> json) list \<Rightarrow> failure + image_info" where
  "image_info_of rp ref data =
     (case (dict_or_empty (jget data ''Config''), dict_or_empty (jget data ''RootFS'')) of
        (Some config, Some rootfs) \<Rightarrow>
          let layers = jget rootfs ''Layers''; tags = jget data ''RepoTags''; ident = jget data ''Id'' in
          (case json_size (jget data ''Size'') of
             Inl f \<Rightarrow> Inl f
           | Inr size_opt \<Rightarrow> Inr
               \<lparr>im_image_id = py_str rp (if json_truthy ident then ident else JStr ref),
                im_repo_tags = (case tags of JList ts \<Rightarrow> map (py_str rp) ts | _ \<Rightarrow> []),
                im_arch = jget data ''Architecture'',
                im_os_name = jget data ''Os'',
                im_layer_count = (case layers of JList ls \<Rightarrow> Some (length ls) | _ \<Rightarrow> None),
                im_image_size = size_opt,
                im_entrypoint = str_list rp (jget config ''Entrypoint''),
                im_cmd = str_list rp (jget config ''Cmd''),
                im_image_user = (if json_truthy (jget config ''User'') then jget config ''User'' else JNull),
                im_rootfs_layers = str_list rp layers\<rparr>)
      | _ \<Rightarrow> Inl attribute_error)"

definition inspect_image ::
  "(string \<Rightarrow> json_outcome) \<Rightarrow> (json \<Rightarrow> string) \<Rightarrow> runner \<Rightarrow> string \<Rightarrow> image_info docker" where
  "inspect_image loads rp runner ref =
     dbind (assert_safe_image_ref ref) (\<lambda>_.
     dbind (run_docker runner DOCKER_CLI_TIMEOUT_S DOCKER_UNAVAILABLE
              [''image'', ''inspect'', ''--format'', ''{{json .}}'', ref]) (\<lambda>result.
       if p_returncode result \<noteq> 0
       then dfail (Stage_Failure LOAD_FAILED (Some (excerpt (p_stderr result))))
       else case loads (p_stdout result) of
           Json_Decode_Error \<Rightarrow> dfail (Stage_Failure INTERNAL_ERROR
             (Some ''could not parse docker inspect output''))
         | Json_Value_Error \<Rightarrow> dfail (Crash ''ValueError'')
         | Json_Recursion_Error \<Rightarrow> dfail (Crash ''RecursionError'')
         | Json data \<Rightarrow>
             (case data of
                JList [] \<Rightarrow> dfail (Stage_Failure LOAD_FAILED (Some ''docker inspect returned nothing''))
              | JList (JDict d # _) \<Rightarrow> (\<lambda>h. (image_info_of rp ref d, h))
              | JDict d \<Rightarrow> (\<lambda>h. (image_info_of rp ref d, h))
              | _ \<Rightarrow> dfail (Stage_Failure INTERNAL_ERROR (Some ''docker inspect returned no object'')))))"

definition line_feed :: string where "line_feed = [char_of (10 :: nat)]"

definition agent_digest_of :: "(string \<Rightarrow> string) \<Rightarrow> image_info \<Rightarrow> string option" where
  "agent_digest_of sha256 info =
     (if im_rootfs_layers info = [] then None
      else Some (sha256 (py_join [char_of (0 :: nat)]
        [''layers:'' @ py_join line_feed (im_rootfs_layers info),
         ''entrypoint:'' @ py_join line_feed (im_entrypoint info),
         ''cmd:'' @ py_join line_feed (im_cmd info)])))"

text \<open>The gates; the defaults stand for the optional settings.\<close>

record image_limits =
  lim_arch :: string
  lim_os :: string
  lim_layers :: nat
  lim_size :: int

definition default_limits :: image_limits where
  "default_limits = \<lparr>lim_arch = ''amd64'', lim_os = ''linux'', lim_layers = 128, lim_size = 4 * 1024 ^ 3\<rparr>"

definition check_image :: "image_limits \<Rightarrow> image_info \<Rightarrow> failure option" where
  "check_image limits info =
     (if json_truthy (im_arch info) \<and> im_arch info \<noteq> JStr (lim_arch limits)
      then Some (Stage_Failure ARCH_MISMATCH None)
      else if json_truthy (im_os_name info) \<and> im_os_name info \<noteq> JStr (lim_os limits)
      then Some (Stage_Failure OS_MISMATCH None)
      else if (case im_layer_count info of None \<Rightarrow> False | Some n \<Rightarrow> lim_layers limits < n)
      then Some (Stage_Failure TOO_MANY_LAYERS None)
      else if (case im_image_size info of None \<Rightarrow> False | Some n \<Rightarrow> lim_size limits < n)
      then Some (Stage_Failure IMAGE_TOO_LARGE None)
      else None)"

definition entrypoint_of :: "image_info \<Rightarrow> failure + string list" where
  "entrypoint_of info =
     (if im_entrypoint info \<noteq> [] then Inr (im_entrypoint info)
      else if im_cmd info \<noteq> [] then Inr (im_cmd info)
      else Inl (Stage_Failure NO_ENTRYPOINT (Some ''image declares neither Entrypoint nor Cmd'')))"

definition remove_image :: "runner \<Rightarrow> string \<Rightarrow> bool docker" where
  "remove_image runner ref =
     dcatch
       (dbind (assert_safe_image_ref ref) (\<lambda>_.
        dbind (run_docker runner DOCKER_CLI_TIMEOUT_S INTERNAL_ERROR [''image'', ''rm'', ''--force'', ref])
          (\<lambda>result. dreturn (p_returncode result = 0))))
       (\<lambda>_ _. dreturn False)"

definition docker_available :: "runner \<Rightarrow> bool docker" where
  "docker_available runner =
     dcatch
       (dbind (run_docker runner DOCKER_CLI_TIMEOUT_S DOCKER_UNAVAILABLE
                 [''version'', ''--format'', ''{{.Server.Os}}''])
          (\<lambda>result. dreturn (p_returncode result = 0)))
       (\<lambda>_ _. dreturn False)"

text \<open>
  What the arguments of a \<open>create\<close> must say whoever builds them: adjacent arguments read as option and
  value, and the limits every container of untrusted code gets.
\<close>

definition option_pairs :: "string list \<Rightarrow> (string \<times> string) list" where
  "option_pairs args = zip args (tl args)"

definition sandbox_limits :: "string list \<Rightarrow> bool" where
  "sandbox_limits args \<longleftrightarrow> ''--read-only'' \<in> set args \<and>
     list_all (\<lambda>p. p \<in> set (option_pairs args))
       [(''--memory'', ''512m''), (''--memory-swap'', ''512m''), (''--cpus'', ''1.0''), (''--pids-limit'', ''128''),
        (''--tmpfs'', ''/tmp:rw,noexec,nosuid,size=64m''), (''--cap-drop'', ''ALL''),
        (''--security-opt'', ''no-new-privileges'')]"

section \<open>Lemmas\<close>

named_theorems docker_simps "unfolding the Docker operations"

lemmas docker_defs [docker_simps] = dreturn_def dfail_def dbind_def dcatch_def dfinally_def

lemma dbind_return [docker_simps]: "dbind (dreturn x) k = k x"
  by (simp add: dbind_def dreturn_def)

lemma dbind_Inr: "m h = (Inr x, h') \<Longrightarrow> dbind m k h = k x h'"
  by (simp add: dbind_def)

lemma dbind_Inl: "m h = (Inl f, h') \<Longrightarrow> dbind m k h = (Inl f, h')"
  by (simp add: dbind_def)

lemma dbind_InrE:
  assumes "fst (dbind m k h) = Inr y"
  obtains x h' where "m h = (Inr x, h')" "fst (k x h') = Inr y"
  using assms by (cases "m h") (auto simp: dbind_def split: sum.splits)

text \<open>A command is tame when nothing in it can be read as an unintended flag.\<close>

lemma safe_ref_not_flag:
  assumes "safe_image_ref ref"
  shows "ref \<noteq> [] \<and> hd ref \<noteq> CHR ''-'' \<and> (\<forall>c \<in> set ref. is_ref_char c \<or> code c = 10)"
proof -
  have hd: "s \<noteq> [] \<and> hd s \<noteq> CHR ''-'' \<and> (\<forall>c \<in> set s. is_ref_char c)" if "ref_body s" for s
    using that
    by (cases s) (auto simp: ref_body_def list_all_iff is_ref_char_def is_alnum_ascii_def
        is_alpha_ascii_def is_decimal_def)
  from assms consider "ref_body ref" | "ref \<noteq> []" "code (last ref) = 10" "ref_body (butlast ref)"
    by (auto simp: safe_image_ref_def at_dollar_def)
  then show ?thesis
  proof cases
    case 1
    with hd show ?thesis by blast
  next
    case 2
    note b = hd [OF 2(3)]
    have eq: "ref = butlast ref @ [last ref]" using 2(1) by simp
    then have "hd ref = hd (butlast ref)" using b by (metis hd_append2)
    moreover have "\<forall>c \<in> set ref. is_ref_char c \<or> code c = 10"
      using b 2(2) by (subst eq) auto
    ultimately show ?thesis using b 2(1) by simp
  qed
qed

text \<open>Which commands an operation may append to the history.\<close>

definition appends :: "'a docker \<Rightarrow> (docker_call \<Rightarrow> bool) \<Rightarrow> bool" where
  "appends m P \<longleftrightarrow> (\<forall>h. \<exists>cs. snd (m h) = h @ cs \<and> (\<forall>c \<in> set cs. P c))"

lemma appendsD: "appends m P \<Longrightarrow> \<exists>cs. snd (m h) = h @ cs \<and> (\<forall>c \<in> set cs. P c)"
  by (simp add: appends_def)

lemma appends_return [docker_simps, simp]: "appends (dreturn x) P" "appends (dfail f) P"
  by (simp_all add: appends_def dreturn_def dfail_def)

lemma appends_pure [simp]: "appends (\<lambda>h. (r, h)) P"
  by (simp add: appends_def)

lemma appends_run [intro]: "P args \<Longrightarrow> appends (run_docker runner t r args) P"
  by (simp add: appends_def run_docker_def)

lemma appends_bind [intro]:
  assumes "appends m P" "\<And>x. appends (k x) P"
  shows "appends (dbind m k) P"
  unfolding appends_def
proof
  fix h
  obtain cs where cs: "snd (m h) = h @ cs" "\<forall>c \<in> set cs. P c" using assms(1) by (auto simp: appends_def)
  show "\<exists>cs. snd (dbind m k h) = h @ cs \<and> (\<forall>c \<in> set cs. P c)"
  proof (cases "fst (m h)")
    case (Inl f)
    with cs show ?thesis by (auto simp: dbind_def case_prod_beta)
  next
    case (Inr x)
    obtain ds where "snd (k x (h @ cs)) = (h @ cs) @ ds" "\<forall>c \<in> set ds. P c"
      using appendsD [OF assms(2)] by blast
    with Inr cs show ?thesis
      by (auto simp: dbind_def case_prod_beta intro!: exI [of _ "cs @ ds"])
  qed
qed

lemma appends_bind_res:
  assumes "appends m P" "\<And>h x. fst (m h) = Inr x \<Longrightarrow> appends (k x) P"
  shows "appends (dbind m k) P"
  unfolding appends_def
proof
  fix h
  obtain cs where cs: "snd (m h) = h @ cs" "\<forall>c \<in> set cs. P c" using assms(1) by (auto simp: appends_def)
  show "\<exists>cs. snd (dbind m k h) = h @ cs \<and> (\<forall>c \<in> set cs. P c)"
  proof (cases "fst (m h)")
    case (Inl f)
    with cs show ?thesis by (auto simp: dbind_def case_prod_beta)
  next
    case (Inr x)
    obtain ds where "snd (k x (h @ cs)) = (h @ cs) @ ds" "\<forall>c \<in> set ds. P c"
      using appendsD [OF assms(2) [OF Inr]] by blast
    with Inr cs show ?thesis
      by (auto simp: dbind_def case_prod_beta intro!: exI [of _ "cs @ ds"])
  qed
qed

lemma appends_catch [intro]:
  assumes "appends m P" "\<And>r d. appends (handler r d) P"
  shows "appends (dcatch m handler) P"
  unfolding appends_def
proof
  fix h
  obtain cs where cs: "snd (m h) = h @ cs" "\<forall>c \<in> set cs. P c" using assms(1) by (auto simp: appends_def)
  show "\<exists>cs. snd (dcatch m handler h) = h @ cs \<and> (\<forall>c \<in> set cs. P c)"
  proof (cases "\<exists>r d. fst (m h) = Inl (Stage_Failure r d)")
    case True
    then obtain r d where f: "fst (m h) = Inl (Stage_Failure r d)" by blast
    obtain ds where "snd (handler r d (h @ cs)) = (h @ cs) @ ds" "\<forall>c \<in> set ds. P c"
      using appendsD [OF assms(2)] by blast
    with f cs show ?thesis
      by (cases "m h") (auto simp: dcatch_def intro!: exI [of _ "cs @ ds"])
  next
    case False
    with cs show ?thesis
      by (cases "m h") (auto simp: dcatch_def split: sum.splits failure.splits)
  qed
qed

lemma appends_finally [intro]:
  assumes "appends m P" "appends cleanup P"
  shows "appends (dfinally m cleanup) P"
  unfolding appends_def
proof
  fix h
  obtain cs where cs: "snd (m h) = h @ cs" "\<forall>c \<in> set cs. P c" using assms(1) by (auto simp: appends_def)
  obtain ds where "snd (cleanup (h @ cs)) = (h @ cs) @ ds" "\<forall>c \<in> set ds. P c"
    using appendsD [OF assms(2)] by blast
  with cs show "\<exists>cs. snd (dfinally m cleanup h) = h @ cs \<and> (\<forall>c \<in> set cs. P c)"
    by (cases "m h"; cases "cleanup (h @ cs)")
      (auto simp: dfinally_def split: sum.splits intro!: exI [of _ "cs @ ds"])
qed

lemma appends_mono: "appends m P \<Longrightarrow> (\<And>c. P c \<Longrightarrow> Q c) \<Longrightarrow> appends m Q"
  unfolding appends_def by meson

lemma assert_safe_SomeD: "fst (assert_safe_image_ref ref h) = Inr x \<Longrightarrow> safe_image_ref ref \<and> x = ref"
  by (auto simp: assert_safe_image_ref_def dreturn_def dfail_def split: if_splits)

lemma appends_assert [simp]: "appends (assert_safe_image_ref ref) P"
  by (simp add: assert_safe_image_ref_def)

text \<open>The commands of the image stages: the last argument is a checked reference.\<close>

definition image_command :: "docker_call \<Rightarrow> bool" where
  "image_command c \<longleftrightarrow> (\<exists>ref. safe_image_ref ref \<and>
     (c = [''image'', ''inspect'', ''--format'', ''{{json .}}'', ref] \<or> c = [''image'', ''rm'', ''--force'', ref]))"

lemma appends_inspect: "appends (inspect_image loads rp runner ref) image_command"
  unfolding inspect_image_def
proof (rule appends_bind_res)
  fix h x
  assume "fst (assert_safe_image_ref ref h) = Inr x"
  then have "image_command [''image'', ''inspect'', ''--format'', ''{{json .}}'', ref]"
    using assert_safe_SomeD by (auto simp: image_command_def)
  then show "appends (dbind (run_docker runner DOCKER_CLI_TIMEOUT_S DOCKER_UNAVAILABLE
              [''image'', ''inspect'', ''--format'', ''{{json .}}'', ref]) (\<lambda>result.
       if p_returncode result \<noteq> 0
       then dfail (Stage_Failure LOAD_FAILED (Some (excerpt (p_stderr result))))
       else case loads (p_stdout result) of
           Json_Decode_Error \<Rightarrow> dfail (Stage_Failure INTERNAL_ERROR
             (Some ''could not parse docker inspect output''))
         | Json_Value_Error \<Rightarrow> dfail (Crash ''ValueError'')
         | Json_Recursion_Error \<Rightarrow> dfail (Crash ''RecursionError'')
         | Json data \<Rightarrow>
             (case data of
                JList [] \<Rightarrow> dfail (Stage_Failure LOAD_FAILED (Some ''docker inspect returned nothing''))
              | JList (JDict d # _) \<Rightarrow> (\<lambda>h. (image_info_of rp ref d, h))
              | JDict d \<Rightarrow> (\<lambda>h. (image_info_of rp ref d, h))
              | _ \<Rightarrow> dfail (Stage_Failure INTERNAL_ERROR (Some ''docker inspect returned no object''))))) image_command"
    by (intro appends_bind appends_run) (auto split: json_outcome.split json.split list.split)
qed simp

lemma appends_remove: "appends (remove_image runner ref) image_command"
  unfolding remove_image_def
proof (rule appends_catch)
  show "appends (dbind (assert_safe_image_ref ref) (\<lambda>_.
        dbind (run_docker runner DOCKER_CLI_TIMEOUT_S INTERNAL_ERROR [''image'', ''rm'', ''--force'', ref])
          (\<lambda>result. dreturn (p_returncode result = 0)))) image_command"
  proof (rule appends_bind_res)
    fix h x
    assume "fst (assert_safe_image_ref ref h) = Inr x"
    then have "image_command [''image'', ''rm'', ''--force'', ref]"
      using assert_safe_SomeD by (auto simp: image_command_def)
    then show "appends (dbind (run_docker runner DOCKER_CLI_TIMEOUT_S INTERNAL_ERROR [''image'', ''rm'', ''--force'', ref])
          (\<lambda>result. dreturn (p_returncode result = 0))) image_command"
      by (intro appends_bind appends_run) simp_all
  qed simp
qed simp

end
