(* ===== verification/Dry_Run.thy ===== *)
theory Dry_Run
  imports Docker_Ops
begin

text \<open>
  Stage DRY_RUN (\<open>secqurityVali/dry_run.py\<close>): one bounded run of the image in a container that is
  removed on every path.  The wall clock's reading is an argument; the overriding limits \<open>create_args\<close> could take
  are never passed by the pipeline and are left out.
\<close>

section \<open>Container ids and output\<close>

definition is_hex_char :: "char \<Rightarrow> bool" where
  "is_hex_char c \<longleftrightarrow> is_decimal c \<or> (97 \<le> code c \<and> code c \<le> 102)"

definition container_id_body :: "string \<Rightarrow> bool" where
  "container_id_body s \<longleftrightarrow> list_all is_hex_char s \<and> 12 \<le> length s \<and> length s \<le> 64"

definition safe_container_id :: "string \<Rightarrow> bool" where
  "safe_container_id cid = at_dollar container_id_body cid"

definition assert_safe_container_id :: "string \<Rightarrow> string docker" where
  "assert_safe_container_id cid =
     (if safe_container_id cid then dreturn cid
      else dfail (Stage_Failure CREATE_FAILED (Some (''unsafe container id from docker: '' @ cid))))"

text \<open>An ANSI escape: ESC, a bracket, parameters, intermediates and one final character.\<close>

definition is_ansi_param :: "char \<Rightarrow> bool" where
  "is_ansi_param c \<longleftrightarrow> is_decimal c \<or> c = CHR '';'' \<or> c = CHR ''?''"

definition is_ansi_intermediate :: "char \<Rightarrow> bool" where
  "is_ansi_intermediate c \<longleftrightarrow> 32 \<le> code c \<and> code c \<le> 47"

definition is_ansi_final :: "char \<Rightarrow> bool" where
  "is_ansi_final c \<longleftrightarrow> 64 \<le> code c \<and> code c \<le> 126"

definition ansi_tail :: "string \<Rightarrow> string option" where
  "ansi_tail s = (case s of
      c # cs \<Rightarrow>
        if c = CHR ''['' then
          (case dropWhile is_ansi_intermediate (dropWhile is_ansi_param cs) of
             f # rest \<Rightarrow> if is_ansi_final f then Some rest else None
           | [] \<Rightarrow> None)
        else None
    | [] \<Rightarrow> None)"

lemma ansi_tail_shorter: "ansi_tail s = Some rest \<Longrightarrow> length rest < length s"
proof -
  assume "ansi_tail s = Some rest"
  then obtain c cs f where s: "s = c # cs"
    and d: "dropWhile is_ansi_intermediate (dropWhile is_ansi_param cs) = f # rest"
    by (auto simp: ansi_tail_def split: list.splits if_splits)
  have "length (f # rest) \<le> length cs"
    unfolding d [symmetric] using length_dropWhile_le le_trans by metis
  with s show ?thesis by simp
qed

function strip_ansi :: "string \<Rightarrow> string" where
  "strip_ansi [] = []"
| "strip_ansi (c # cs) =
     (if code c = 27 then (case ansi_tail cs of Some rest \<Rightarrow> strip_ansi rest | None \<Rightarrow> c # strip_ansi cs)
      else c # strip_ansi cs)"
  by pat_completeness auto
termination
  by (relation "measure length") (auto dest: ansi_tail_shorter)

definition is_control_char :: "char \<Rightarrow> bool" where
  "is_control_char c \<longleftrightarrow> code c \<le> 8 \<or> code c = 11 \<or> code c = 12 \<or> (14 \<le> code c \<and> code c \<le> 31) \<or> code c = 127"

definition DRY_RUN_LOG_EXCERPT_BYTES :: nat where "DRY_RUN_LOG_EXCERPT_BYTES = 8192"

definition sanitize_output :: "nat \<Rightarrow> string \<Rightarrow> string" where
  "sanitize_output limit text =
     (let cleaned = filter (\<lambda>c. \<not> is_control_char c) (strip_ansi text) in
      if limit < length cleaned then take limit cleaned @ line_feed @ ''... [truncated]'' else cleaned)"

section \<open>The container\<close>

text \<open>An empty runtime falls back to the daemon's default.\<close>

definition create_args :: "string \<Rightarrow> string \<Rightarrow> string list" where
  "create_args runtime ref =
     [''create''] @ (if runtime \<noteq> [] then [''--runtime'', runtime] else []) @
     [''--network'', ''none'', ''--memory'', ''512m'', ''--memory-swap'', ''512m'', ''--cpus'', ''1.0'',
      ''--pids-limit'', ''128'', ''--ulimit'', ''nofile=1024:1024'', ''--read-only'',
      ''--tmpfs'', ''/tmp:rw,noexec,nosuid,size=64m'', ''--cap-drop'', ''ALL'',
      ''--security-opt'', ''no-new-privileges'', ''--label'', ''secqurityvali=1'', ref]"

definition create_container :: "runner \<Rightarrow> string \<Rightarrow> string \<Rightarrow> string docker" where
  "create_container runner runtime ref =
     dbind (run_docker runner DOCKER_CLI_TIMEOUT_S CREATE_FAILED (create_args runtime ref)) (\<lambda>result.
       if p_returncode result \<noteq> 0
       then dfail (Stage_Failure CREATE_FAILED (Some (excerpt (p_stderr result))))
       else assert_safe_container_id (py_strip (p_stdout result)))"

definition container_logs :: "runner \<Rightarrow> string \<Rightarrow> string docker" where
  "container_logs runner cid =
     dcatch
       (dbind (run_docker runner DOCKER_CLI_TIMEOUT_S INTERNAL_ERROR [''logs'', cid]) (\<lambda>result.
          dreturn (sanitize_output DRY_RUN_LOG_EXCERPT_BYTES (p_stdout result @ p_stderr result))))
       (\<lambda>_ _. dreturn [])"

definition force_kill :: "runner \<Rightarrow> string \<Rightarrow> unit docker" where
  "force_kill runner cid =
     dcatch
       (dbind (run_docker runner DOCKER_CLI_TIMEOUT_S INTERNAL_ERROR [''kill'', cid]) (\<lambda>_. dreturn ()))
       (\<lambda>_ _. dreturn ())"

definition remove_container :: "runner \<Rightarrow> string \<Rightarrow> bool docker" where
  "remove_container runner cid =
     dcatch
       (dbind (assert_safe_container_id cid) (\<lambda>_.
        dbind (run_docker runner DOCKER_CLI_TIMEOUT_S INTERNAL_ERROR [''rm'', ''--force'', ''--volumes'', cid])
          (\<lambda>result. dreturn (p_returncode result = 0))))
       (\<lambda>_ _. dreturn False)"

text \<open>\<open>int(stdout.strip().splitlines()[-1])\<close>, \<open>None\<close> when there is no such integer.\<close>

definition parse_exit_code :: "string \<Rightarrow> int option" where
  "parse_exit_code stdout =
     (let lines = splitlines (py_strip stdout) in if lines = [] then None else py_int (last lines))"

record dry_run_result =
  dr_exit_code :: "int option"
  dr_duration_ms :: nat
  dr_log_excerpt :: string
  dr_timed_out :: bool

definition DRY_RUN_TIMEOUT_S :: nat where "DRY_RUN_TIMEOUT_S = 30"

text \<open>Waiting for the exit: the code and whether the clock ran out.\<close>

definition wait_for_exit :: "runner \<Rightarrow> string \<Rightarrow> (int option \<times> bool) docker" where
  "wait_for_exit runner cid =
     dcatch
       (dbind (run_docker runner DRY_RUN_TIMEOUT_S DRY_RUN_TIMEOUT [''wait'', cid]) (\<lambda>waited.
          dreturn (parse_exit_code (p_stdout waited), False)))
       (\<lambda>reason detail.
          if reason \<noteq> DRY_RUN_TIMEOUT then dfail (Stage_Failure reason detail)
          else dbind (force_kill runner cid) (\<lambda>_. dreturn (None, True)))"

definition dry_run :: "runner \<Rightarrow> string \<Rightarrow> nat \<Rightarrow> string \<Rightarrow> dry_run_result docker" where
  "dry_run runner runtime duration_ms ref =
     dbind (assert_safe_image_ref ref) (\<lambda>_.
     dbind (create_container runner runtime ref) (\<lambda>cid.
       dfinally
         (dbind (run_docker runner DOCKER_CLI_TIMEOUT_S START_FAILED [''start'', cid]) (\<lambda>result.
            if p_returncode result \<noteq> 0
            then dfail (Stage_Failure START_FAILED (Some (excerpt (p_stderr result))))
            else
              dbind (wait_for_exit runner cid) (\<lambda>(exit_code, timed_out).
              dbind (container_logs runner cid) (\<lambda>logs.
                dreturn \<lparr>dr_exit_code = exit_code, dr_duration_ms = duration_ms,
                         dr_log_excerpt = logs, dr_timed_out = timed_out\<rparr>))))
         (remove_container runner cid)))"

definition check_dry_run :: "dry_run_result \<Rightarrow> failure option" where
  "check_dry_run result =
     (if dr_timed_out result then Some (Stage_Failure DRY_RUN_TIMEOUT
        (Some (''killed after '' @ show_nat (dr_duration_ms result) @ '' ms without exiting'')))
      else if dr_exit_code result \<noteq> Some 0 then Some (Stage_Failure DRY_RUN_NONZERO_EXIT
        (Some (''exited with code '' @ (case dr_exit_code result of None \<Rightarrow> ''None'' | Some i \<Rightarrow> show_int i))))
      else None)"

section \<open>Lemmas\<close>

text \<open>
  Every command of a dry run names a checked reference or a checked container id, and a container is created
  without a network, with the configured runtime and with all limits.
\<close>

definition sandbox_command :: "string \<Rightarrow> docker_call \<Rightarrow> bool" where
  "sandbox_command runtime c \<longleftrightarrow>
     (\<exists>ref opts. safe_image_ref ref \<and> c = ''create'' # opts @ [ref] \<and> sandbox_limits opts \<and>
        (''--network'', ''none'') \<in> set (option_pairs opts) \<and>
        (runtime \<noteq> [] \<longrightarrow> (''--runtime'', runtime) \<in> set (option_pairs opts))) \<or>
     (\<exists>cid. safe_container_id cid \<and>
        c \<in> {[''start'', cid], [''wait'', cid], [''kill'', cid], [''logs'', cid], [''rm'', ''--force'', ''--volumes'', cid]})"

lemma sandbox_create:
  assumes "safe_image_ref ref"
  shows "sandbox_command runtime (create_args runtime ref)"
proof -
  let ?opts = "butlast (tl (create_args runtime ref))"
  have "create_args runtime ref = ''create'' # ?opts @ [ref]" by (simp add: create_args_def)
  moreover have "sandbox_limits ?opts" "(''--network'', ''none'') \<in> set (option_pairs ?opts)"
    "runtime \<noteq> [] \<longrightarrow> (''--runtime'', runtime) \<in> set (option_pairs ?opts)"
    by (simp_all add: create_args_def sandbox_limits_def option_pairs_def)
  ultimately show ?thesis using assms unfolding sandbox_command_def by blast
qed

lemma sandbox_cid:
  assumes "safe_container_id cid"
  shows "sandbox_command runtime [''start'', cid]" "sandbox_command runtime [''wait'', cid]"
    "sandbox_command runtime [''kill'', cid]" "sandbox_command runtime [''logs'', cid]"
    "sandbox_command runtime [''rm'', ''--force'', ''--volumes'', cid]"
  using assms by (auto simp: sandbox_command_def)

lemma assert_container_SomeD:
  "fst (assert_safe_container_id cid h) = Inr x \<Longrightarrow> safe_container_id cid \<and> x = cid"
  by (auto simp: assert_safe_container_id_def dreturn_def dfail_def split: if_splits)

lemma appends_assert_cid [simp]: "appends (assert_safe_container_id cid) P"
  by (simp add: assert_safe_container_id_def)

lemma create_container_SomeD:
  "fst (create_container runner runtime ref h) = Inr cid \<Longrightarrow> safe_container_id cid"
  by (auto simp: create_container_def dbind_def case_prod_beta dfail_def
      split: sum.splits if_splits dest!: assert_container_SomeD)

lemma appends_remove_container: "appends (remove_container runner cid) (sandbox_command runtime)"
  unfolding remove_container_def
proof (rule appends_catch)
  show "appends (dbind (assert_safe_container_id cid) (\<lambda>_.
        dbind (run_docker runner DOCKER_CLI_TIMEOUT_S INTERNAL_ERROR [''rm'', ''--force'', ''--volumes'', cid])
          (\<lambda>result. dreturn (p_returncode result = 0)))) (sandbox_command runtime)"
  proof (rule appends_bind_res)
    fix h x
    assume "fst (assert_safe_container_id cid h) = Inr x"
    then have "safe_container_id cid" using assert_container_SomeD by blast
    then show "appends (dbind (run_docker runner DOCKER_CLI_TIMEOUT_S INTERNAL_ERROR [''rm'', ''--force'', ''--volumes'', cid])
          (\<lambda>result. dreturn (p_returncode result = 0))) (sandbox_command runtime)"
      by (intro appends_bind appends_run sandbox_cid) simp_all
  qed simp
qed simp

lemma appends_container_steps:
  assumes "safe_container_id cid"
  shows "appends (container_logs runner cid) (sandbox_command runtime)"
    "appends (force_kill runner cid) (sandbox_command runtime)"
    "appends (wait_for_exit runner cid) (sandbox_command runtime)"
proof -
  show "appends (container_logs runner cid) (sandbox_command runtime)"
    unfolding container_logs_def
    by (intro appends_catch appends_bind appends_run sandbox_cid assms) simp_all
  show kill: "appends (force_kill runner cid) (sandbox_command runtime)"
    unfolding force_kill_def
    by (intro appends_catch appends_bind appends_run sandbox_cid assms) simp_all
  show "appends (wait_for_exit runner cid) (sandbox_command runtime)"
    unfolding wait_for_exit_def
  proof (rule appends_catch)
    show "appends (dbind (run_docker runner DRY_RUN_TIMEOUT_S DRY_RUN_TIMEOUT [''wait'', cid])
        (\<lambda>waited. dreturn (parse_exit_code (p_stdout waited), False))) (sandbox_command runtime)"
      by (intro appends_bind appends_run sandbox_cid assms) simp_all
    show "appends (if reason \<noteq> DRY_RUN_TIMEOUT then dfail (Stage_Failure reason detail)
        else dbind (force_kill runner cid) (\<lambda>_. dreturn (None, True))) (sandbox_command runtime)"
      for reason detail
      by (cases "reason = DRY_RUN_TIMEOUT") (simp_all add: appends_bind kill)
  qed
qed

lemma appends_dry_run: "appends (dry_run runner runtime ms ref) (sandbox_command runtime)"
  unfolding dry_run_def
proof (rule appends_bind_res)
  fix h x
  assume "fst (assert_safe_image_ref ref h) = Inr x"
  then have ref: "safe_image_ref ref" using assert_safe_SomeD by blast
  show "appends (dbind (create_container runner runtime ref) (\<lambda>cid.
       dfinally
         (dbind (run_docker runner DOCKER_CLI_TIMEOUT_S START_FAILED [''start'', cid]) (\<lambda>result.
            if p_returncode result \<noteq> 0
            then dfail (Stage_Failure START_FAILED (Some (excerpt (p_stderr result))))
            else
              dbind (wait_for_exit runner cid) (\<lambda>(exit_code, timed_out).
              dbind (container_logs runner cid) (\<lambda>logs.
                dreturn \<lparr>dr_exit_code = exit_code, dr_duration_ms = ms,
                         dr_log_excerpt = logs, dr_timed_out = timed_out\<rparr>))))
         (remove_container runner cid))) (sandbox_command runtime)"
  proof (rule appends_bind_res)
    show "appends (create_container runner runtime ref) (sandbox_command runtime)"
      unfolding create_container_def
      using ref by (intro appends_bind appends_run sandbox_create) simp_all
    fix h' cid
    assume "fst (create_container runner runtime ref h') = Inr cid"
    then have cid: "safe_container_id cid" by (rule create_container_SomeD)
    note steps = appends_container_steps [OF cid, of runner runtime]
    show "appends (dfinally
         (dbind (run_docker runner DOCKER_CLI_TIMEOUT_S START_FAILED [''start'', cid]) (\<lambda>result.
            if p_returncode result \<noteq> 0
            then dfail (Stage_Failure START_FAILED (Some (excerpt (p_stderr result))))
            else
              dbind (wait_for_exit runner cid) (\<lambda>(exit_code, timed_out).
              dbind (container_logs runner cid) (\<lambda>logs.
                dreturn \<lparr>dr_exit_code = exit_code, dr_duration_ms = ms,
                         dr_log_excerpt = logs, dr_timed_out = timed_out\<rparr>))))
         (remove_container runner cid)) (sandbox_command runtime)"
    proof (intro appends_finally appends_remove_container appends_bind appends_run sandbox_cid(1) cid)
      fix result :: completed
      show "appends (if p_returncode result \<noteq> 0
            then dfail (Stage_Failure START_FAILED (Some (excerpt (p_stderr result))))
            else
              dbind (wait_for_exit runner cid) (\<lambda>(exit_code, timed_out).
              dbind (container_logs runner cid) (\<lambda>logs.
                dreturn \<lparr>dr_exit_code = exit_code, dr_duration_ms = ms,
                         dr_log_excerpt = logs, dr_timed_out = timed_out\<rparr>))) (sandbox_command runtime)"
        by (cases "p_returncode result = 0")
          (auto simp: split_beta intro!: appends_bind [OF steps(3)] appends_bind [OF steps(1)])
    qed
  qed
qed simp

text \<open>The container is removed last, whatever happened after its creation.\<close>

lemma remove_container_last:
  assumes "safe_container_id cid"
  shows "snd (remove_container runner cid h) = h @ [[''rm'', ''--force'', ''--volumes'', cid]]"
  using assms
  by (auto simp: remove_container_def docker_defs assert_safe_container_id_def run_docker_def
      split: sum.splits failure.splits run_outcome.splits prod.splits)

lemma dfinally_snd: "snd (dfinally m cleanup h) = snd (cleanup (snd (m h)))"
  by (cases "m h"; cases "cleanup (snd (m h))") (auto simp: dfinally_def split: sum.splits)

lemma dry_run_removes:
  assumes "fst (create_container runner runtime ref h) = Inr cid" "safe_image_ref ref"
  shows "last (snd (dry_run runner runtime ms ref h)) = [''rm'', ''--force'', ''--volumes'', cid]"
proof -
  obtain h' where h': "create_container runner runtime ref h = (Inr cid, h')"
    using assms(1) by (cases "create_container runner runtime ref h") auto
  show ?thesis
    using assms(2) remove_container_last [OF create_container_SomeD [OF assms(1)]]
    by (simp add: dry_run_def assert_safe_image_ref_def dbind_return dbind_def [of "create_container runner runtime ref"]
        h' dfinally_snd)
qed

section \<open>Properties\<close>

text \<open>C21: A dry run only ever says safe things to Docker and always cleans up.  Every command it issues
  either creates a container from a checked reference with the full set of limits (no network, no
  capabilities, read-only root, memory, CPU and process caps) or names a checked container id, so
  no argument a miner chose can be read as a flag; once a container exists the last command is its
  forced removal, whatever happened in between.\<close>

theorem dry_run_is_confined:
  "(\<exists>cs. snd (dry_run runner runtime ms ref h) = h @ cs \<and> (\<forall>c \<in> set cs. sandbox_command runtime c)) \<and>
   (\<forall>cid. fst (create_container runner runtime ref h) = Inr cid \<and> safe_image_ref ref \<longrightarrow>
      last (snd (dry_run runner runtime ms ref h)) = [''rm'', ''--force'', ''--volumes'', cid]) \<and>
   (safe_image_ref ref \<longrightarrow> hd ref \<noteq> CHR ''-'')"
  using appendsD [OF appends_dry_run] dry_run_removes safe_ref_not_flag by blast

theorem dry_run_is_confined_witness:
  "last (snd (dry_run (\<lambda>_ _. Ran 0 ''0123456789ab'' []) ''runsc'' 0 ''ghcr.io/org/agent:1'' [])) =
     [''rm'', ''--force'', ''--volumes'', ''0123456789ab''] \<and> hd ''ghcr.io/org/agent:1'' \<noteq> CHR ''-''"
proof -
  have ref: "safe_image_ref ''ghcr.io/org/agent:1''" by code_simp
  have "fst (create_container (\<lambda>_ _. Ran 0 ''0123456789ab'' []) ''runsc'' ''ghcr.io/org/agent:1'' []) =
    Inr ''0123456789ab''" by code_simp
  with ref show ?thesis
    using dry_run_is_confined [of "\<lambda>_ _. Ran 0 ''0123456789ab'' []" "''runsc''" 0
        "''ghcr.io/org/agent:1''" "[]"] by blast
qed

text \<open>Stored container output cannot repaint a terminal: after sanitising no control character
  but tab, line feed and carriage return is left, and the stored text is at most the cap plus the
  truncation mark.\<close>

theorem sanitized_output_is_inert:
  "list_all (\<lambda>c. \<not> is_control_char c) (sanitize_output limit text) \<and>
   length (sanitize_output limit text) \<le> limit + 16"
proof -
  let ?cleaned = "filter (\<lambda>c. \<not> is_control_char c) (strip_ansi text)"
  have clean: "\<forall>c \<in> set ?cleaned. \<not> is_control_char c" by simp
  have mark: "\<forall>c \<in> set (line_feed @ ''... [truncated]''). \<not> is_control_char c"
    by (simp add: line_feed_def is_control_char_def)
  show ?thesis
  proof (cases "limit < length ?cleaned")
    case True
    then have "sanitize_output limit text = take limit ?cleaned @ line_feed @ ''... [truncated]''"
      by (simp add: sanitize_output_def)
    with clean mark show ?thesis by (auto simp: list_all_iff line_feed_def dest: in_set_takeD)
  next
    case False
    then have "sanitize_output limit text = ?cleaned" by (simp add: sanitize_output_def Let_def)
    with clean False show ?thesis by (simp add: list_all_iff)
  qed
qed

end
