(* ===== verification/Registry_Intake.thy ===== *)
theory Registry_Intake
  imports Dry_Run
begin

text \<open>
  Stage LOAD for a registry reference (\<open>secqurityVali/registry.py\<close>): the reference check, the size
  declared by the manifest, the pull, and pinning what was pulled to a digest.
\<close>

section \<open>Digest-pinned references\<close>

text \<open>\<open>^(?P<repo>[^@\s]+)@(?P<digest>sha256:[0-9a-f]{64})$\<close>: the repository ends at the first \<open>@\<close>.\<close>

definition digest_ref_body :: "string \<Rightarrow> bool" where
  "digest_ref_body s =
     (let repo = takeWhile (\<lambda>c. c \<noteq> CHR ''@'') s;
          digest = drop (length repo) s;
          hex = drop 8 digest
      in repo \<noteq> [] \<and> list_all (\<lambda>c. \<not> is_space c) repo \<and> starts_with digest ''@sha256:'' \<and>
         length hex = 64 \<and> list_all is_hex_char hex)"

definition is_digest_pinned :: "string \<Rightarrow> bool" where
  "is_digest_pinned ref = at_dollar digest_ref_body ref"

definition assert_submittable_ref :: "string \<Rightarrow> string docker" where
  "assert_submittable_ref ref =
     dcatch (assert_safe_image_ref ref) (\<lambda>_ detail. dfail (Stage_Failure BAD_IMAGE_REF detail))"

section \<open>Why a pull failed\<close>

definition UNAUTHORIZED_MARKERS :: "string list" where
  "UNAUTHORIZED_MARKERS = [''unauthorized'', ''authentication required'', ''denied'', ''forbidden'',
     ''access to the resource is denied'']"

definition NOT_FOUND_MARKERS :: "string list" where
  "NOT_FOUND_MARKERS = [''manifest unknown'', ''not found'', ''repository does not exist'', ''no such manifest'']"

definition classify_pull_failure :: "string \<Rightarrow> reject_reason" where
  "classify_pull_failure stderr =
     (if list_ex (contains (py_lower stderr)) UNAUTHORIZED_MARKERS then REGISTRY_UNAUTHORIZED
      else if list_ex (contains (py_lower stderr)) NOT_FOUND_MARKERS then IMAGE_NOT_FOUND
      else PULL_FAILED)"

section \<open>Reading registry metadata\<close>

definition repo_digest_of :: "runner \<Rightarrow> string \<Rightarrow> string option docker" where
  "repo_digest_of runner ref =
     dbind (run_docker runner DOCKER_CLI_TIMEOUT_S DOCKER_UNAVAILABLE
              [''image'', ''inspect'', ''--format'',
               ''{{range .RepoDigests}}{{.}}'' @ line_feed @ ''{{end}}'', ref]) (\<lambda>result.
       dreturn
         (if p_returncode result \<noteq> 0 then None
          else find is_digest_pinned (map py_strip (splitlines (p_stdout result)))))"

definition manifest_json ::
  "(string \<Rightarrow> json_outcome) \<Rightarrow> runner \<Rightarrow> string \<Rightarrow> (string \<times> json) list option docker" where
  "manifest_json loads runner ref =
     dbind (run_docker runner DOCKER_CLI_TIMEOUT_S PULL_FAILED [''manifest'', ''inspect'', ref]) (\<lambda>result.
       if p_returncode result \<noteq> 0 then dreturn None
       else case loads (p_stdout result) of
           Json_Decode_Error \<Rightarrow> dreturn None
         | Json_Value_Error \<Rightarrow> dreturn None
         | Json_Recursion_Error \<Rightarrow> dfail (Crash ''RecursionError'')
         | Json data \<Rightarrow> dreturn (case data of JDict d \<Rightarrow> Some d | _ \<Rightarrow> None))"

definition before_char :: "char \<Rightarrow> string \<Rightarrow> string" where
  "before_char c s = takeWhile (\<lambda>x. x \<noteq> c) s"

text \<open>\<open>ref[:slash+1]\<close> and \<open>ref[slash+1:]\<close> for the last slash.\<close>

definition after_last_slash :: "string \<Rightarrow> string" where
  "after_last_slash s = rev (takeWhile (\<lambda>c. c \<noteq> CHR ''/'') (rev s))"

definition repo_of :: "string \<Rightarrow> string" where
  "repo_of ref =
     (if CHR ''@'' \<in> set ref then before_char (CHR ''@'') ref
      else
        let tail = after_last_slash ref in
        if CHR '':'' \<in> set tail
        then take (length ref - length tail) ref @ before_char (CHR '':'') tail
        else ref)"

text \<open>\<open>int(value)\<close>: unlike \<open>isinstance\<close> checks it parses text and refuses \<open>None\<close> and containers.\<close>

fun int_of_json :: "json \<Rightarrow> failure + int" where
  "int_of_json (JInt i) = Inr i"
| "int_of_json (JBool b) = Inr (if b then 1 else 0)"
| "int_of_json (JFloat (Fin q)) = Inr (truncate_rat q)"
| "int_of_json (JFloat NaN) = Inl (Crash ''ValueError: cannot convert float NaN to integer'')"
| "int_of_json (JFloat _) = Inl (Crash ''OverflowError: cannot convert float infinity to integer'')"
| "int_of_json (JStr s) = (case py_int s of
     Some i \<Rightarrow> Inr i | None \<Rightarrow> Inl (Crash ''ValueError: invalid literal for int() with base 10''))"
| "int_of_json _ = Inl (Crash ''TypeError: int() argument must be a string or a number'')"

definition size_of :: "(string \<times> json) list \<Rightarrow> failure + int" where
  "size_of d = int_of_json (case dget d ''size'' of None \<Rightarrow> JInt 0 | Some v \<Rightarrow> v)"

fun sum_layer_sizes :: "json list \<Rightarrow> int \<Rightarrow> failure + int" where
  "sum_layer_sizes [] acc = Inr acc"
| "sum_layer_sizes (JDict l # ls) acc = (case size_of l of
     Inl f \<Rightarrow> Inl f | Inr n \<Rightarrow> sum_layer_sizes ls (acc + n))"
| "sum_layer_sizes (_ # ls) acc = sum_layer_sizes ls acc"

definition layers_total :: "(string \<times> json) list \<Rightarrow> failure + int option" where
  "layers_total manifest = (case jget manifest ''layers'' of
      JList layers \<Rightarrow>
        (case sum_layer_sizes layers 0 of
           Inl f \<Rightarrow> Inl f
         | Inr declared \<Rightarrow>
             (case jget manifest ''config'' of
                JDict cfg \<Rightarrow> (case size_of cfg of Inl f \<Rightarrow> Inl f | Inr n \<Rightarrow> Inr (Some (declared + n)))
              | _ \<Rightarrow> Inr (Some declared)))
    | _ \<Rightarrow> Inr None)"

text \<open>The digest of the first entry for the expected platform; \<open>JNull\<close> when there is none.\<close>

fun platform_digest :: "image_limits \<Rightarrow> json list \<Rightarrow> failure + json" where
  "platform_digest limits [] = Inr JNull"
| "platform_digest limits (JDict m # ms) = (case dict_or_empty (jget m ''platform'') of
     None \<Rightarrow> Inl attribute_error
   | Some plat \<Rightarrow>
       if jget plat ''architecture'' = JStr (lim_arch limits) \<and> jget plat ''os'' = JStr (lim_os limits)
       then Inr (jget m ''digest'')
       else platform_digest limits ms)"
| "platform_digest limits (_ # ms) = platform_digest limits ms"

definition manifest_total_size ::
  "(string \<Rightarrow> json_outcome) \<Rightarrow> (json \<Rightarrow> string) \<Rightarrow> runner \<Rightarrow> image_limits \<Rightarrow> string \<Rightarrow> int option docker" where
  "manifest_total_size loads rp runner limits ref =
     dbind (manifest_json loads runner ref) (\<lambda>found.
       case found of
         None \<Rightarrow> dreturn None
       | Some data \<Rightarrow>
           (case layers_total data of
              Inl f \<Rightarrow> dfail f
            | Inr (Some n) \<Rightarrow> dreturn (Some n)
            | Inr None \<Rightarrow>
                (case jget data ''manifests'' of
                   JList manifests \<Rightarrow>
                     (case platform_digest limits manifests of
                        Inl f \<Rightarrow> dfail f
                      | Inr digest \<Rightarrow>
                          if \<not> json_truthy digest then dreturn None
                          else dbind (manifest_json loads runner (repo_of ref @ ''@'' @ py_str rp digest)) (\<lambda>sub.
                            case sub of
                              None \<Rightarrow> dreturn None
                            | Some manifest \<Rightarrow>
                                if manifest = [] then dreturn None
                                else (\<lambda>h. (layers_total manifest, h))))
                 | _ \<Rightarrow> dreturn None)))"

section \<open>The pull\<close>

record pulled_image =
  pl_requested_ref :: string
  pl_digest_ref :: string
  pl_image_id :: string

definition REGISTRY_PULL_TIMEOUT_S :: nat where "REGISTRY_PULL_TIMEOUT_S = 900"
definition REGISTRY_MAX_MANIFEST_BYTES :: int where "REGISTRY_MAX_MANIFEST_BYTES = 2 * 1024 ^ 3"

text \<open>The last part of \<open>pull_image\<close>: from the pulled image to its digest.\<close>

definition pin_pulled :: "runner \<Rightarrow> string \<Rightarrow> pulled_image docker" where
  "pin_pulled runner ref =
     dbind (if is_digest_pinned ref then dreturn (Some ref) else repo_digest_of runner ref) (\<lambda>digest.
       case digest of
         None \<Rightarrow> dfail (Stage_Failure DIGEST_UNRESOLVED (Some (''no repo digest recorded for '' @ ref)))
       | Some digest_ref \<Rightarrow>
           dbind (assert_safe_image_ref digest_ref) (\<lambda>_.
             dreturn \<lparr>pl_requested_ref = ref, pl_digest_ref = digest_ref, pl_image_id = digest_ref\<rparr>))"

text \<open>The download itself.\<close>

definition fetch_and_pin :: "runner \<Rightarrow> string \<Rightarrow> pulled_image docker" where
  "fetch_and_pin runner ref =
     dbind (run_docker runner REGISTRY_PULL_TIMEOUT_S PULL_FAILED [''pull'', ''--quiet'', ref]) (\<lambda>result.
       if p_returncode result \<noteq> 0
       then dfail (Stage_Failure (classify_pull_failure (p_stderr result)) (Some (excerpt (p_stderr result))))
       else pin_pulled runner ref)"

definition pull_image ::
  "(string \<Rightarrow> json_outcome) \<Rightarrow> (json \<Rightarrow> string) \<Rightarrow> runner \<Rightarrow> image_limits \<Rightarrow> string \<Rightarrow> pulled_image docker" where
  "pull_image loads rp runner limits ref =
     dbind (assert_submittable_ref ref) (\<lambda>_.
     dbind (manifest_total_size loads rp runner limits ref) (\<lambda>declared.
       if (case declared of None \<Rightarrow> False | Some n \<Rightarrow> REGISTRY_MAX_MANIFEST_BYTES < n)
       then dfail (Stage_Failure IMAGE_TOO_LARGE (Some ''manifest declares more than the pull cap''))
       else fetch_and_pin runner ref))"

definition remove_pulled :: "runner \<Rightarrow> string \<Rightarrow> bool docker" where
  "remove_pulled runner ref = remove_image runner ref"

section \<open>Lemmas\<close>

lemma hd_takeWhile_keep: "s \<noteq> [] \<Longrightarrow> P (hd s) \<Longrightarrow> takeWhile P s \<noteq> [] \<and> hd (takeWhile P s) = hd s"
  by (cases s) simp_all

lemma after_last_slash_suffix: "\<exists>pre. s = pre @ after_last_slash s"
  unfolding after_last_slash_def
  by (metis rev_append rev_rev_ident takeWhile_dropWhile_id)

text \<open>The repository keeps the first character of the reference, which is alphanumeric.\<close>

lemma repo_of_hd:
  assumes "ref \<noteq> []" "hd ref \<notin> {CHR ''@'', CHR '':''}"
  shows "repo_of ref \<noteq> [] \<and> hd (repo_of ref) = hd ref"
proof (cases "CHR ''@'' \<in> set ref")
  case True
  with assms hd_takeWhile_keep [of ref "\<lambda>x. x \<noteq> CHR ''@''"] show ?thesis
    by (simp add: repo_of_def before_char_def)
next
  case False
  obtain pre where pre: "ref = pre @ after_last_slash ref" using after_last_slash_suffix by blast
  then have len: "length ref - length (after_last_slash ref) = length pre" by (metis add_diff_cancel_right' length_append)
  have take: "take (length ref - length (after_last_slash ref)) ref = pre"
    unfolding len by (metis append_eq_conv_conj pre)
  show ?thesis
  proof (cases "CHR '':'' \<in> set (after_last_slash ref)")
    case True
    then have repo: "repo_of ref = pre @ before_char (CHR '':'') (after_last_slash ref)"
      using False take by (simp add: repo_of_def Let_def)
    show ?thesis
    proof (cases pre)
      case Nil
      then have "after_last_slash ref = ref" using pre by simp
      then show ?thesis using repo Nil assms hd_takeWhile_keep [of ref "\<lambda>x. x \<noteq> CHR '':''"]
        by (simp add: before_char_def)
    next
      case (Cons c cs)
      then have "hd ref = c" using pre by (metis append_Cons list.sel(1))
      with repo Cons show ?thesis by simp
    qed
  next
    case no: False
    with False assms show ?thesis by (simp add: repo_of_def Let_def)
  qed
qed

text \<open>The commands of an intake: the miner's text is never in a position where it could be a flag.\<close>

definition not_flag :: "string \<Rightarrow> bool" where
  "not_flag s \<longleftrightarrow> s \<noteq> [] \<and> hd s \<noteq> CHR ''-''"

definition intake_command :: "string \<Rightarrow> docker_call \<Rightarrow> bool" where
  "intake_command ref c \<longleftrightarrow>
     (\<exists>x. not_flag x \<and> c = [''manifest'', ''inspect'', x]) \<or>
     (not_flag ref \<and> (c = [''pull'', ''--quiet'', ref] \<or>
        c = [''image'', ''inspect'', ''--format'', ''{{range .RepoDigests}}{{.}}'' @ line_feed @ ''{{end}}'', ref]))"

lemma intake_not_flag: "intake_command ref c \<Longrightarrow> not_flag (last c)"
  by (auto simp: intake_command_def)

lemma safe_ref_hd:
  assumes "safe_image_ref ref"
  shows "ref \<noteq> []" "hd ref \<notin> {CHR ''@'', CHR '':''}" "not_flag ref"
proof -
  have body: "s \<noteq> [] \<and> is_alnum_ascii (hd s)" if "ref_body s" for s
    using that by (cases s) (auto simp: ref_body_def)
  have "ref \<noteq> [] \<and> is_alnum_ascii (hd ref)"
    using assms body [of ref] body [of "butlast ref"]
    by (cases ref) (auto simp: safe_image_ref_def at_dollar_def split: if_splits)
  then show "ref \<noteq> []" "hd ref \<notin> {CHR ''@'', CHR '':''}" "not_flag ref"
    by (auto simp: not_flag_def is_alnum_ascii_def is_alpha_ascii_def is_decimal_def)
qed

lemma appends_manifest_json:
  "not_flag x \<Longrightarrow> appends (manifest_json loads runner x) (\<lambda>c. \<exists>y. not_flag y \<and> c = [''manifest'', ''inspect'', y])"
  unfolding manifest_json_def
  by (intro appends_bind appends_run) (auto split: json_outcome.split json.split)

lemma appends_manifest_total:
  assumes "safe_image_ref ref"
  shows "appends (manifest_total_size loads rp runner limits ref)
    (\<lambda>c. \<exists>y. not_flag y \<and> c = [''manifest'', ''inspect'', y])"
proof -
  have sub: "not_flag (repo_of ref @ ''@'' @ d)" for d
    using repo_of_hd [OF safe_ref_hd(1,2) [OF assms]] safe_ref_hd(3) [OF assms]
    by (simp add: not_flag_def)
  show ?thesis
    unfolding manifest_total_size_def
    by (intro appends_bind appends_manifest_json safe_ref_hd(3) assms)
      (auto split: option.split json.split sum.split
        intro!: appends_bind appends_manifest_json [OF sub [simplified]])
qed

lemma appends_repo_digest: "not_flag ref \<Longrightarrow> appends (repo_digest_of runner ref) (intake_command ref)"
  unfolding repo_digest_of_def
  by (intro appends_bind appends_run) (simp_all add: intake_command_def)

lemma assert_submittable_InrD:
  "fst (assert_submittable_ref ref h) = Inr x \<Longrightarrow> safe_image_ref ref"
  by (auto simp: assert_submittable_ref_def assert_safe_image_ref_def docker_defs split: if_splits)

lemma appends_submittable [simp]: "appends (assert_submittable_ref ref) P"
  by (simp add: assert_submittable_ref_def appends_catch)

lemma appends_pin:
  assumes "not_flag ref"
  shows "appends (pin_pulled runner ref) (intake_command ref)"
  unfolding pin_pulled_def
  by (rule appends_bind) (auto split: option.split intro!: appends_bind appends_repo_digest assms)

text \<open>A fetch starts with the pull.\<close>

lemma fetch_pulls:
  assumes "not_flag ref"
  shows "\<exists>cs. snd (fetch_and_pin runner ref h) = (h @ [[''pull'', ''--quiet'', ref]]) @ cs"
proof -
  let ?pull = "run_docker runner REGISTRY_PULL_TIMEOUT_S PULL_FAILED [''pull'', ''--quiet'', ref] h"
  have pulled: "snd ?pull = h @ [[''pull'', ''--quiet'', ref]]" by (simp add: run_docker_def)
  obtain cs where cs: "snd (pin_pulled runner ref (snd ?pull)) = snd ?pull @ cs"
    using appendsD [OF appends_pin [OF assms]] by blast
  show ?thesis
  proof (cases "fst ?pull")
    case (Inl f)
    then have "?pull = (Inl f, h @ [[''pull'', ''--quiet'', ref]])" using pulled by (simp add: prod_eq_iff)
    then show ?thesis by (simp add: fetch_and_pin_def dbind_def)
  next
    case (Inr r)
    then have "?pull = (Inr r, h @ [[''pull'', ''--quiet'', ref]])" using pulled by (simp add: prod_eq_iff)
    with cs show ?thesis by (auto simp: fetch_and_pin_def dbind_def dfail_def)
  qed
qed

lemma appends_pull: "appends (pull_image loads rp runner limits ref) (intake_command ref)"
  unfolding pull_image_def
proof (rule appends_bind_res)
  fix h x
  assume "fst (assert_submittable_ref ref h) = Inr x"
  then have safe: "safe_image_ref ref" by (rule assert_submittable_InrD)
  note flag = safe_ref_hd(3) [OF safe]
  have meta: "appends (manifest_total_size loads rp runner limits ref) (intake_command ref)"
    by (rule appends_mono [OF appends_manifest_total [OF safe]]) (auto simp: intake_command_def)
  have pin: "appends (pin_pulled runner ref) (intake_command ref)" by (rule appends_pin [OF flag])
  have fetch: "appends (fetch_and_pin runner ref) (intake_command ref)"
    unfolding fetch_and_pin_def
    by (intro appends_bind appends_run) (use flag pin in \<open>auto simp: intake_command_def\<close>)
  show "appends (dbind (manifest_total_size loads rp runner limits ref) (\<lambda>declared.
       if (case declared of None \<Rightarrow> False | Some n \<Rightarrow> REGISTRY_MAX_MANIFEST_BYTES < n)
       then dfail (Stage_Failure IMAGE_TOO_LARGE (Some ''manifest declares more than the pull cap''))
       else fetch_and_pin runner ref)) (intake_command ref)"
    by (rule appends_bind [OF meta]) (use fetch in simp)
qed simp

text \<open>What a successful pull has established.\<close>

lemma repo_digest_of_pinned:
  assumes "repo_digest_of runner ref h = (Inr (Some d), h')"
  shows "is_digest_pinned d"
proof -
  have "fst (repo_digest_of runner ref h) = Inr (Some d)" using assms by simp
  then obtain out where "find is_digest_pinned (map py_strip (splitlines out)) = Some d"
    unfolding repo_digest_of_def by (elim dbind_InrE) (auto simp: dreturn_def split: if_splits)
  then show ?thesis by (auto simp: find_Some_iff)
qed

lemma pin_pulled_ok:
  assumes "fst (pin_pulled runner ref h) = Inr p"
  shows "pl_requested_ref p = ref \<and> is_digest_pinned (pl_digest_ref p) \<and>
    safe_image_ref (pl_digest_ref p) \<and> (is_digest_pinned ref \<longrightarrow> pl_digest_ref p = ref)"
proof -
  obtain digest h' where 1: "(if is_digest_pinned ref then dreturn (Some ref) else repo_digest_of runner ref) h =
      (Inr digest, h')"
    and k: "fst ((case digest of
         None \<Rightarrow> dfail (Stage_Failure DIGEST_UNRESOLVED (Some (''no repo digest recorded for '' @ ref)))
       | Some digest_ref \<Rightarrow>
           dbind (assert_safe_image_ref digest_ref) (\<lambda>_.
             dreturn \<lparr>pl_requested_ref = ref, pl_digest_ref = digest_ref, pl_image_id = digest_ref\<rparr>)) h') = Inr p"
    using assms unfolding pin_pulled_def by (rule dbind_InrE) blast
  obtain d where d: "digest = Some d" using k by (cases digest) (auto simp: dfail_def)
  have p: "pl_requested_ref p = ref \<and> pl_digest_ref p = d \<and> safe_image_ref d"
    using k d by (auto simp: assert_safe_image_ref_def dreturn_def dfail_def dbind_def split: if_splits)
  have "is_digest_pinned d \<and> (is_digest_pinned ref \<longrightarrow> d = ref)"
    using 1 d repo_digest_of_pinned by (auto simp: dreturn_def split: if_splits)
  with p show ?thesis by simp
qed

lemma pull_image_ok:
  assumes "fst (pull_image loads rp runner limits ref h) = Inr p"
  shows "safe_image_ref ref \<and> (\<exists>h'. fst (pin_pulled runner ref h') = Inr p)"
proof -
  obtain x h1 where 1: "assert_submittable_ref ref h = (Inr x, h1)"
    and k1: "fst (dbind (manifest_total_size loads rp runner limits ref) (\<lambda>declared.
       if (case declared of None \<Rightarrow> False | Some n \<Rightarrow> REGISTRY_MAX_MANIFEST_BYTES < n)
       then dfail (Stage_Failure IMAGE_TOO_LARGE (Some ''manifest declares more than the pull cap''))
       else fetch_and_pin runner ref) h1) = Inr p"
    using assms unfolding pull_image_def by (rule dbind_InrE) blast
  have safe: "safe_image_ref ref" using assert_submittable_InrD 1 by (metis fst_conv)
  from k1 obtain h2 where 2: "fst (fetch_and_pin runner ref h2) = Inr p"
    by (rule dbind_InrE) (auto simp: dfail_def split: if_splits)
  then obtain h3 where "fst (pin_pulled runner ref h3) = Inr p"
    unfolding fetch_and_pin_def by (rule dbind_InrE) (auto simp: dfail_def split: if_splits)
  with safe show ?thesis by blast
qed

lemma pull_image_fetches:
  assumes "manifest_total_size loads rp runner limits ref h = (Inr declared, h')" "safe_image_ref ref"
    and "\<not> (case declared of None \<Rightarrow> False | Some n \<Rightarrow> REGISTRY_MAX_MANIFEST_BYTES < n)"
  shows "\<exists>cs. snd (pull_image loads rp runner limits ref h) = (h' @ [[''pull'', ''--quiet'', ref]]) @ cs"
proof -
  have "dcatch (assert_safe_image_ref ref) (\<lambda>_ detail. dfail (Stage_Failure BAD_IMAGE_REF detail)) = dreturn ref"
    using assms(2) by (simp add: assert_safe_image_ref_def dcatch_def dreturn_def)
  then have "pull_image loads rp runner limits ref h = fetch_and_pin runner ref h'"
    using assms(1,3)
    by (simp add: pull_image_def assert_submittable_ref_def dbind_return dbind_def
        [of "manifest_total_size loads rp runner limits ref"])
  with fetch_pulls [OF safe_ref_hd(3) [OF assms(2)], of runner h'] show ?thesis by simp
qed

lemma pull_image_oversized:
  assumes "manifest_total_size loads rp runner limits ref h = (Inr (Some n), h')"
    and "REGISTRY_MAX_MANIFEST_BYTES < n" "safe_image_ref ref"
  shows "\<exists>d. pull_image loads rp runner limits ref h = (Inl (Stage_Failure IMAGE_TOO_LARGE d), h')"
proof -
  have "dcatch (assert_safe_image_ref ref) (\<lambda>_ detail. dfail (Stage_Failure BAD_IMAGE_REF detail)) = dreturn ref"
    using assms(3) by (simp add: assert_safe_image_ref_def dcatch_def dreturn_def)
  then show ?thesis
    using assms(1,2)
    by (simp add: pull_image_def assert_submittable_ref_def dbind_return dbind_def
        [of "manifest_total_size loads rp runner limits ref"] dfail_def)
qed

section \<open>Properties\<close>

text \<open>C20: What is validated is a digest, never a tag.  A pull that succeeds names a reference that passed
  the pattern check and a digest-pinned name, itself checked, for the bytes that came back; a
  reference that was pinned already keeps its name.  The miner's text never becomes a flag: every
  command's last argument is non-empty and does not begin with a dash.  The size check before the pull is best
  effort: when a total can be computed from the manifest and exceeds the cap, the image is refused with only
  registry metadata read; when no total can be computed, or one within the cap, the pull is the next command.\<close>

theorem pull_pins_what_it_fetched:
  "(\<forall>p. fst (pull_image loads rp runner limits ref h) = Inr p \<longrightarrow>
      safe_image_ref ref \<and> pl_requested_ref p = ref \<and> is_digest_pinned (pl_digest_ref p) \<and>
      safe_image_ref (pl_digest_ref p) \<and> (is_digest_pinned ref \<longrightarrow> pl_digest_ref p = ref)) \<and>
   (\<exists>cs. snd (pull_image loads rp runner limits ref h) = h @ cs \<and> (\<forall>c \<in> set cs. not_flag (last c))) \<and>
   (\<forall>n. fst (manifest_total_size loads rp runner limits ref h) = Inr (Some n) \<and> 2147483648 < n \<and>
      safe_image_ref ref \<longrightarrow>
      (\<exists>d cs. pull_image loads rp runner limits ref h = (Inl (Stage_Failure IMAGE_TOO_LARGE d), h @ cs) \<and>
         (\<forall>c \<in> set cs. hd c = ''manifest''))) \<and>
   (\<forall>declared h'. manifest_total_size loads rp runner limits ref h = (Inr declared, h') \<and> safe_image_ref ref \<and>
      (case declared of None \<Rightarrow> True | Some n \<Rightarrow> n \<le> 2147483648) \<longrightarrow>
      (\<exists>cs. snd (pull_image loads rp runner limits ref h) = (h' @ [[''pull'', ''--quiet'', ref]]) @ cs))"
proof (intro conjI allI impI)
  fix p
  assume "fst (pull_image loads rp runner limits ref h) = Inr p"
  then have safe: "safe_image_ref ref"
    and pinned: "\<exists>h'. fst (pin_pulled runner ref h') = Inr p" using pull_image_ok by blast+
  show "safe_image_ref ref" "pl_requested_ref p = ref" "is_digest_pinned (pl_digest_ref p)"
    "safe_image_ref (pl_digest_ref p)" "is_digest_pinned ref \<Longrightarrow> pl_digest_ref p = ref"
    using safe pin_pulled_ok pinned by blast+
next
  show "\<exists>cs. snd (pull_image loads rp runner limits ref h) = h @ cs \<and> (\<forall>c \<in> set cs. not_flag (last c))"
    by (rule appendsD, rule appends_mono [OF appends_pull], rule intake_not_flag)
next
  fix n
  assume n: "fst (manifest_total_size loads rp runner limits ref h) = Inr (Some n) \<and> 2147483648 < n \<and>
    safe_image_ref ref"
  obtain h' where h': "manifest_total_size loads rp runner limits ref h = (Inr (Some n), h')"
    using n by (cases "manifest_total_size loads rp runner limits ref h") auto
  have "\<exists>cs. h' = h @ cs \<and> (\<forall>c \<in> set cs. hd c = ''manifest'')"
    using appendsD [OF appends_manifest_total [OF conjunct2 [OF conjunct2 [OF n]]], of loads rp runner limits h] h' by fastforce
  with pull_image_oversized [OF h'] n
  show "\<exists>d cs. pull_image loads rp runner limits ref h = (Inl (Stage_Failure IMAGE_TOO_LARGE d), h @ cs) \<and>
         (\<forall>c \<in> set cs. hd c = ''manifest'')"
    by (fastforce simp: REGISTRY_MAX_MANIFEST_BYTES_def)
next
  fix declared h'
  assume "manifest_total_size loads rp runner limits ref h = (Inr declared, h') \<and> safe_image_ref ref \<and>
      (case declared of None \<Rightarrow> True | Some n \<Rightarrow> n \<le> 2147483648)"
  then show "\<exists>cs. snd (pull_image loads rp runner limits ref h) = (h' @ [[''pull'', ''--quiet'', ref]]) @ cs"
    using pull_image_fetches [of loads rp runner limits ref h declared h']
    by (simp add: REGISTRY_MAX_MANIFEST_BYTES_def not_less split: option.splits)
qed

text \<open>A registry that answers with a digest, and one that declares three gibibytes.\<close>

definition sample_digest :: string where
  "sample_digest = ''ghcr.io/org/agent@sha256:'' @ replicate 64 (CHR ''a'')"

definition sample_registry :: "bool \<Rightarrow> runner" where
  "sample_registry huge h args =
     (if hd args = ''manifest'' then (if huge then Ran 0 [] [] else Ran 1 [] [])
      else if hd args = ''image'' then Ran 0 sample_digest []
      else Ran 0 [] [])"

definition sample_manifest :: "string \<Rightarrow> json_outcome" where
  "sample_manifest raw = Json (JDict [(''layers'', JList [JDict [(''size'', JInt 3221225472)]])])"

theorem pull_pins_what_it_fetched_witness:
  "is_digest_pinned sample_digest \<and>
   (\<exists>d cs. pull_image sample_manifest (\<lambda>_. []) (sample_registry True) default_limits ''ghcr.io/org/agent:1'' [] =
      (Inl (Stage_Failure IMAGE_TOO_LARGE d), cs))"
proof -
  have "fst (pull_image sample_manifest (\<lambda>_. []) (sample_registry False) default_limits ''ghcr.io/org/agent:1'' []) =
    Inr \<lparr>pl_requested_ref = ''ghcr.io/org/agent:1'', pl_digest_ref = sample_digest, pl_image_id = sample_digest\<rparr>"
    by code_simp
  then have 1: "is_digest_pinned sample_digest"
    using pull_pins_what_it_fetched [of sample_manifest "\<lambda>_. []" "sample_registry False" default_limits
        "''ghcr.io/org/agent:1''" "[]"] by fastforce
  have "fst (manifest_total_size sample_manifest (\<lambda>_. []) (sample_registry True) default_limits ''ghcr.io/org/agent:1'' []) =
    Inr (Some 3221225472)" by code_simp
  moreover have "safe_image_ref ''ghcr.io/org/agent:1''" by code_simp
  ultimately show ?thesis
    using 1 pull_pins_what_it_fetched [of sample_manifest "\<lambda>_. []" "sample_registry True" default_limits
        "''ghcr.io/org/agent:1''" "[]"] by fastforce
qed

end
