(* ===== verification/Archive.thy ===== *)
theory Archive
  imports Docker_Ops
begin

text \<open>
  Stages FILE and STRUCTURE: \<open>secqurityVali/file_checks.py\<close> and \<open>secqurityVali/structure.py\<close>.  The file
  system is what \<open>stat\<close> and \<open>read\<close> return; the tar reader is the stream of members it yields and the
  error of \<open>tarfile\<close> that ends it, if any; a failing disk or \<open>lzma\<close> stream is not represented.
\<close>

section \<open>Stage FILE\<close>

record file_view =
  fv_is_file :: bool
  fv_size :: nat
  fv_head :: string
  fv_sha256 :: string

datatype compression = GZIP | NONE

record file_info =
  fi_size :: nat
  fi_sha256 :: string
  fi_compression :: compression

definition MAX_FILE_SIZE_BYTES :: nat where "MAX_FILE_SIZE_BYTES = 2 * 1024 ^ 3"

definition GZIP_MAGIC :: string where "GZIP_MAGIC = [char_of (31 :: nat), char_of (139 :: nat)]"

definition sniff_compression :: "string \<Rightarrow> compression option" where
  "sniff_compression head =
     (if starts_with head GZIP_MAGIC then Some GZIP
      else if take 5 (drop 257 head) = ''ustar'' then Some NONE
      else None)"

definition check_file :: "nat \<Rightarrow> file_view \<Rightarrow> failure + file_info" where
  "check_file max_file_size f =
     (if \<not> fv_is_file f then Inl (Stage_Failure FILE_MISSING (Some ''no such file''))
      else if fv_size f = 0 then Inl (Stage_Failure FILE_EMPTY (Some ''submission is 0 bytes''))
      else if max_file_size < fv_size f then Inl (Stage_Failure FILE_TOO_LARGE
        (Some (show_nat (fv_size f) @ '' bytes exceeds cap of '' @ show_nat max_file_size)))
      else case sniff_compression (take 512 (fv_head f)) of
          None \<Rightarrow> Inl (Stage_Failure NOT_AN_ARCHIVE (Some ''magic bytes are neither gzip nor tar''))
        | Some c \<Rightarrow> Inr \<lparr>fi_size = fv_size f, fi_sha256 = fv_sha256 f, fi_compression = c\<rparr>)"

section \<open>Paths inside the archive\<close>

definition normalize_name :: "string \<Rightarrow> string" where
  "normalize_name name = (if starts_with name ''./'' then drop 2 name else name)"

text \<open>\<open>PurePosixPath(name).parts\<close> without a leading slash: the pieces between slashes, less "" and ".".\<close>

fun split_slash :: "string \<Rightarrow> string \<Rightarrow> string list" where
  "split_slash acc [] = [rev acc]"
| "split_slash acc (c # cs) = (if c = CHR ''/'' then rev acc # split_slash [] cs else split_slash (c # acc) cs)"

definition path_parts :: "string \<Rightarrow> string list" where
  "path_parts name = filter (\<lambda>p. p \<noteq> [] \<and> p \<noteq> ''.'') (split_slash [] name)"

definition windows_drive :: "string \<Rightarrow> bool" where
  "windows_drive name = (case name of c # d # _ \<Rightarrow> is_alpha_ascii c \<and> d = CHR '':'' | _ \<Rightarrow> False)"

definition is_unsafe_path :: "string \<Rightarrow> bool" where
  "is_unsafe_path name \<longleftrightarrow>
     name = [] \<or> hd name = CHR ''/'' \<or> code (hd name) = 92 \<or> windows_drive name \<or> ''..'' \<in> set (path_parts name)"

datatype tar_type = REGTYPE | AREGTYPE | DIRTYPE | SYMTYPE | LNKTYPE | OTHER_TYPE

text \<open>One member; \<open>tm_data = None\<close> when reading its payload raises a tar error.\<close>

record tar_member =
  tm_name :: string
  tm_type :: tar_type
  tm_linkname :: string
  tm_size :: int
  tm_data :: "string option"

definition assert_safe_member :: "tar_member \<Rightarrow> failure option" where
  "assert_safe_member member =
     (if tm_type member \<notin> {REGTYPE, AREGTYPE, DIRTYPE, SYMTYPE, LNKTYPE}
      then Some (Stage_Failure UNSAFE_TAR_ENTRY (Some (''entry '' @ tm_name member @ '' has disallowed type'')))
      else if is_unsafe_path (tm_name member)
      then Some (Stage_Failure UNSAFE_TAR_ENTRY (Some (''entry '' @ tm_name member @ '' escapes the archive root'')))
      else if tm_type member \<in> {SYMTYPE, LNKTYPE} \<and> is_unsafe_path (tm_linkname member)
      then Some (Stage_Failure UNSAFE_TAR_ENTRY (Some (''link '' @ tm_name member @ '' escapes the archive root'')))
      else None)"

section \<open>Metadata\<close>

definition MAX_METADATA_BYTES :: nat where "MAX_METADATA_BYTES = 4 * 1024 * 1024"
definition MAX_UNCOMPRESSED_BYTES :: int where "MAX_UNCOMPRESSED_BYTES = 4 * 1024 ^ 3"
definition MAX_TAR_ENTRIES :: nat where "MAX_TAR_ENTRIES = 20000"

definition read_metadata :: "tar_member \<Rightarrow> failure + string" where
  "read_metadata member =
     (if int MAX_METADATA_BYTES < tm_size member
      then Inl (Stage_Failure MALFORMED_MANIFEST (Some (tm_name member @ '' is too large'')))
      else case tm_data member of
          None \<Rightarrow> Inl (Stage_Failure MALFORMED_ARCHIVE (Some ''unexpected end of data''))
        | Some content \<Rightarrow> Inr (take MAX_METADATA_BYTES content))"

definition parse_docker_manifest ::
  "(string \<Rightarrow> json_outcome) \<Rightarrow> (json \<Rightarrow> string) \<Rightarrow> string
     \<Rightarrow> failure + string list \<times> nat option \<times> string option" where
  "parse_docker_manifest loads rp raw = (case loads raw of
      Json_Decode_Error \<Rightarrow> Inl (Stage_Failure MALFORMED_MANIFEST (Some ''manifest.json''))
    | Json_Value_Error \<Rightarrow> Inl (Crash ''ValueError'')
    | Json_Recursion_Error \<Rightarrow> Inl (Crash ''RecursionError'')
    | Json (JList [JDict entry]) \<Rightarrow>
        if dget entry ''Config'' = None \<or> dget entry ''Layers'' = None
        then Inl (Stage_Failure MALFORMED_MANIFEST (Some ''manifest entry lacks Config/Layers''))
        else Inr
          ((case jget entry ''RepoTags'' of JList tags \<Rightarrow> map (py_str rp) tags | _ \<Rightarrow> []),
           (case jget entry ''Layers'' of JList layers \<Rightarrow> Some (length layers) | _ \<Rightarrow> None),
           (case jget entry ''Config'' of JStr c \<Rightarrow> Some c | _ \<Rightarrow> None))
    | Json (JList [_]) \<Rightarrow>
        Inl (Stage_Failure MALFORMED_MANIFEST (Some ''manifest entry lacks Config/Layers''))
    | Json (JList (_ # _ # _)) \<Rightarrow> Inl (Stage_Failure MULTIPLE_IMAGES (Some ''exactly one expected''))
    | Json _ \<Rightarrow> Inl (Stage_Failure MALFORMED_MANIFEST (Some ''manifest.json is not a non-empty list'')))"

definition parse_oci_index ::
  "(string \<Rightarrow> json_outcome) \<Rightarrow> (json \<Rightarrow> string) \<Rightarrow> string \<Rightarrow> failure + string list" where
  "parse_oci_index loads rp raw = (case loads raw of
      Json_Decode_Error \<Rightarrow> Inl (Stage_Failure MALFORMED_MANIFEST (Some ''index.json''))
    | Json_Value_Error \<Rightarrow> Inl (Crash ''ValueError'')
    | Json_Recursion_Error \<Rightarrow> Inl (Crash ''RecursionError'')
    | Json (JDict data) \<Rightarrow>
        (case jget data ''manifests'' of
           JList [first] \<Rightarrow>
             (case (case first of JDict d \<Rightarrow> dict_or_empty (jget d ''annotations'') | _ \<Rightarrow> Some []) of
                None \<Rightarrow> Inl attribute_error
              | Some annotations \<Rightarrow>
                  let name = jget annotations ''org.opencontainers.image.ref.name''
                  in Inr (if json_truthy name then [py_str rp name] else []))
         | JList (_ # _ # _) \<Rightarrow> Inl (Stage_Failure MULTIPLE_IMAGES (Some ''exactly one expected''))
         | _ \<Rightarrow> Inl (Stage_Failure MALFORMED_MANIFEST (Some ''index.json lists no manifests'')))
    | Json _ \<Rightarrow> Inl (Stage_Failure MALFORMED_MANIFEST (Some ''index.json is not an object'')))"

section \<open>Stage STRUCTURE\<close>

record scan =
  sc_count :: nat
  sc_declared :: int
  sc_manifest :: "string option"
  sc_index :: "string option"
  sc_oci_layout :: bool

definition empty_scan :: scan where
  "empty_scan = \<lparr>sc_count = 0, sc_declared = 0, sc_manifest = None, sc_index = None, sc_oci_layout = False\<rparr>"

definition scan_member :: "int \<Rightarrow> nat \<Rightarrow> tar_member \<Rightarrow> scan \<Rightarrow> failure + scan" where
  "scan_member max_uncompressed max_entries member s =
     (let s = s\<lparr>sc_count := sc_count s + 1\<rparr> in
      if max_entries < sc_count s
      then Inl (Stage_Failure TOO_MANY_ENTRIES (Some (''archive exceeds '' @ show_nat max_entries @ '' entries'')))
      else case assert_safe_member member of
          Some f \<Rightarrow> Inl f
        | None \<Rightarrow>
            let s = s\<lparr>sc_declared := sc_declared s + max (tm_size member) 0\<rparr> in
            if max_uncompressed < sc_declared s
            then Inl (Stage_Failure DECOMPRESSION_BOMB (Some ''declared contents exceed the cap''))
            else
              let name = normalize_name (tm_name member) in
              if tm_type member \<notin> {REGTYPE, AREGTYPE}
              then Inr (if name = ''oci-layout'' then s\<lparr>sc_oci_layout := True\<rparr> else s)
              else if name = ''manifest.json''
              then map_sum id (\<lambda>raw. s\<lparr>sc_manifest := Some raw\<rparr>) (read_metadata member)
              else if name = ''index.json''
              then map_sum id (\<lambda>raw. s\<lparr>sc_index := Some raw\<rparr>) (read_metadata member)
              else if name = ''oci-layout'' then Inr (s\<lparr>sc_oci_layout := True\<rparr>)
              else Inr s)"

text \<open>The stream: its members in order, then a regular end or a tar error.\<close>

fun scan_members :: "int \<Rightarrow> nat \<Rightarrow> tar_member list \<Rightarrow> string option \<Rightarrow> scan \<Rightarrow> failure + scan" where
  "scan_members mu me [] error s = (case error of
      None \<Rightarrow> Inr s
    | Some m \<Rightarrow> Inl (Stage_Failure MALFORMED_ARCHIVE (Some m)))"
| "scan_members mu me (member # members) error s = (case scan_member mu me member s of
      Inl f \<Rightarrow> Inl f
    | Inr s \<Rightarrow> scan_members mu me members error s)"

datatype image_format = DOCKER_ARCHIVE | OCI

record structure_info =
  st_format :: image_format
  st_entry_count :: nat
  st_declared_size :: int
  st_repo_tags :: "string list"
  st_layer_count :: "nat option"
  st_config_entry :: "string option"

definition check_structure ::
  "(string \<Rightarrow> json_outcome) \<Rightarrow> (json \<Rightarrow> string) \<Rightarrow> int \<Rightarrow> nat \<Rightarrow> tar_member list \<times> string option
     \<Rightarrow> failure + structure_info" where
  "check_structure loads rp max_uncompressed max_entries stream =
     (case scan_members max_uncompressed max_entries (fst stream) (snd stream) empty_scan of
        Inl f \<Rightarrow> Inl f
      | Inr s \<Rightarrow>
          if sc_count s = 0 then Inl (Stage_Failure MALFORMED_ARCHIVE (Some ''archive is empty''))
          else case sc_manifest s of
              Some raw \<Rightarrow> map_sum id (\<lambda>(tags, layers, config).
                  \<lparr>st_format = DOCKER_ARCHIVE, st_entry_count = sc_count s, st_declared_size = sc_declared s,
                   st_repo_tags = tags, st_layer_count = layers, st_config_entry = config\<rparr>)
                (parse_docker_manifest loads rp raw)
            | None \<Rightarrow>
                (case (sc_oci_layout s, sc_index s) of
                   (True, Some raw) \<Rightarrow> map_sum id (\<lambda>tags.
                       \<lparr>st_format = OCI, st_entry_count = sc_count s, st_declared_size = sc_declared s,
                        st_repo_tags = tags, st_layer_count = None, st_config_entry = None\<rparr>)
                     (parse_oci_index loads rp raw)
                 | _ \<Rightarrow> Inl (Stage_Failure NOT_A_DOCKER_IMAGE
                     (Some ''no manifest.json (docker-archive) and no oci-layout + index.json (OCI)''))))"

section \<open>Lemmas\<close>

lemma scan_member_ok:
  assumes "scan_member mu me member s = Inr s'"
  shows "sc_count s' = sc_count s + 1 \<and> sc_count s' \<le> me \<and> assert_safe_member member = None \<and>
    sc_declared s' = sc_declared s + max (tm_size member) 0 \<and> sc_declared s' \<le> mu"
  using assms
  by (cases "read_metadata member")
    (auto simp: scan_member_def Let_def split: if_splits option.splits)

lemma scan_members_ok:
  assumes "scan_members mu me members error s = Inr s'" "0 \<le> mu" "sc_declared s \<le> mu" "sc_count s \<le> me"
  shows "error = None \<and> sc_count s' = sc_count s + length members \<and> sc_count s' \<le> me \<and>
    (\<forall>m \<in> set members. assert_safe_member m = None) \<and>
    sc_declared s' = sc_declared s + sum_list (map (\<lambda>m. max (tm_size m) 0) members) \<and> sc_declared s' \<le> mu"
  using assms
proof (induction members arbitrary: s)
  case Nil
  then show ?case by (simp split: option.splits)
next
  case (Cons m members)
  then obtain s1 where m: "scan_member mu me m s = Inr s1" and rest: "scan_members mu me members error s1 = Inr s'"
    by (auto split: sum.splits)
  note ok = scan_member_ok [OF m]
  with Cons.IH [OF rest Cons.prems(2)] show ?case by auto
qed

lemma check_structure_scan:
  assumes "check_structure loads rp mu me stream = Inr info"
  shows "\<exists>s. scan_members mu me (fst stream) (snd stream) empty_scan = Inr s \<and>
    st_entry_count info = sc_count s \<and> st_declared_size info = sc_declared s \<and> 0 < sc_count s \<and>
    (st_format info = DOCKER_ARCHIVE \<longrightarrow> sc_manifest s \<noteq> None) \<and>
    (st_format info = OCI \<longrightarrow> sc_manifest s = None \<and> sc_oci_layout s \<and> sc_index s \<noteq> None)"
proof (cases "scan_members mu me (fst stream) (snd stream) empty_scan")
  case (Inl f)
  with assms show ?thesis by (simp add: check_structure_def)
next
  case (Inr s)
  with assms show ?thesis
    by (cases "sc_manifest s"; cases "sc_index s"; cases "sc_oci_layout s";
        cases "parse_docker_manifest loads rp (the (sc_manifest s))";
        cases "parse_oci_index loads rp (the (sc_index s))")
      (auto simp: check_structure_def split: if_splits)
qed

section \<open>Properties\<close>

text \<open>C22: No hostile archive passes STRUCTURE.  An archive that is accepted ended regularly, is not
  empty, has at most the capped number of entries and declared bytes (the sizes of all its entries
  together), and every single entry is a file, directory or link of a safe type whose name, and
  whose target if it is a link, is relative, drive-free and without an upward step.\<close>

theorem accepted_archive_is_safe:
  assumes "check_structure loads rp MAX_UNCOMPRESSED_BYTES MAX_TAR_ENTRIES (members, error) = Inr info"
  shows "error = None \<and> st_entry_count info = length members \<and> 0 < length members \<and> length members \<le> 20000 \<and>
    st_declared_size info = sum_list (map (\<lambda>m. max (tm_size m) 0) members) \<and>
    st_declared_size info \<le> 4294967296 \<and>
    (\<forall>m \<in> set members. tm_type m \<noteq> OTHER_TYPE \<and> \<not> is_unsafe_path (tm_name m) \<and>
       (tm_type m \<in> {SYMTYPE, LNKTYPE} \<longrightarrow> \<not> is_unsafe_path (tm_linkname m)))"
proof -
  obtain s where s: "scan_members MAX_UNCOMPRESSED_BYTES MAX_TAR_ENTRIES members error empty_scan = Inr s"
    "st_entry_count info = sc_count s" "st_declared_size info = sc_declared s" "0 < sc_count s"
    using check_structure_scan [OF assms] by auto
  have "sc_declared empty_scan \<le> MAX_UNCOMPRESSED_BYTES" "sc_count empty_scan \<le> MAX_TAR_ENTRIES"
    "0 \<le> MAX_UNCOMPRESSED_BYTES"
    by (simp_all add: empty_scan_def MAX_UNCOMPRESSED_BYTES_def)
  note ok = scan_members_ok [OF s(1) this(3,1,2)]
  have safe: "tm_type m \<noteq> OTHER_TYPE \<and> \<not> is_unsafe_path (tm_name m) \<and>
      (tm_type m \<in> {SYMTYPE, LNKTYPE} \<longrightarrow> \<not> is_unsafe_path (tm_linkname m))"
    if "assert_safe_member m = None" for m
    using that by (auto simp: assert_safe_member_def split: if_splits)
  from ok s safe show ?thesis
    by (simp add: empty_scan_def MAX_UNCOMPRESSED_BYTES_def MAX_TAR_ENTRIES_def)
qed

theorem accepted_archive_is_safe_witness:
  "\<not> is_unsafe_path (tm_name \<lparr>tm_name = ''manifest.json'', tm_type = REGTYPE, tm_linkname = [], tm_size = 2, tm_data = Some ''[]''\<rparr>)"
proof -
  let ?m = "\<lparr>tm_name = ''manifest.json'', tm_type = REGTYPE, tm_linkname = [], tm_size = 2, tm_data = Some ''[]''\<rparr>"
  let ?loads = "\<lambda>_ :: string. Json (JList [JDict [(''Config'', JStr ''c''), (''Layers'', JList [])]])"
  have "\<exists>info. check_structure ?loads (\<lambda>_. []) MAX_UNCOMPRESSED_BYTES MAX_TAR_ENTRIES ([?m], None) = Inr info"
    by (simp add: check_structure_def scan_member_def assert_safe_member_def is_unsafe_path_def
        windows_drive_def path_parts_def empty_scan_def read_metadata_def normalize_name_def
        MAX_UNCOMPRESSED_BYTES_def MAX_TAR_ENTRIES_def MAX_METADATA_BYTES_def parse_docker_manifest_def)
  then show ?thesis using accepted_archive_is_safe [of ?loads "\<lambda>_. []" "[?m]" None] by auto
qed

end
