(* ===== verification/Agent_Db.thy ===== *)
theory Agent_Db
  imports Verdicts
begin

text \<open>
  \<open>secqurityVali/db.py\<close>: the SQLite tables as lists of rows in insertion order, with the autoincrement
  counters.  Values come back from their columns as they went in, and every value can be stored (\<open>Db_Rows\<close> looks at
  the values SQLite refuses); the clock is an argument.  The job queue is a step relation of racing workers.
\<close>

section \<open>Tables\<close>

record submission_row =
  sr_id :: nat
  sr_received_at :: string
  sr_verdict :: verdict

record agent_row =
  ag_digest :: string
  ag_owner :: string
  ag_first_submission :: nat
  ag_first_seen_at :: string
  ag_image_id :: "string option"
  ag_repo_tags :: "string list"
  ag_entrypoint :: "string list"

datatype job_state = JOB_QUEUED | JOB_RUNNING | JOB_DONE | JOB_FAILED

record job_row =
  jb_id :: nat
  jb_miner_id :: string
  jb_image_ref :: string
  jb_state :: job_state
  jb_submission_id :: "nat option"
  jb_created_at :: string
  jb_started_at :: "string option"
  jb_finished_at :: "string option"
  jb_error :: "string option"

record database =
  db_submissions :: "submission_row list"
  db_last_submission :: nat
  db_agents :: "agent_row list"
  db_jobs :: "job_row list"
  db_last_job :: nat

definition empty_db :: database where
  "empty_db = \<lparr>db_submissions = [], db_last_submission = 0, db_agents = [], db_jobs = [], db_last_job = 0\<rparr>"

text \<open>\<open>LIMIT n\<close>: a negative bound means none.\<close>

definition sql_limit :: "int \<Rightarrow> 'a list \<Rightarrow> 'a list" where
  "sql_limit n rows = (if n < 0 then rows else take (nat n) rows)"

section \<open>Submissions\<close>

definition record_verdict :: "string \<Rightarrow> verdict \<Rightarrow> database \<Rightarrow> nat \<times> database" where
  "record_verdict received_at v db =
     (let row_id = db_last_submission db + 1 in
      (row_id, db\<lparr>db_submissions := db_submissions db @
                    [\<lparr>sr_id = row_id, sr_received_at = received_at, sr_verdict = v\<rparr>],
                  db_last_submission := row_id\<rparr>))"

definition get_submission :: "database \<Rightarrow> nat \<Rightarrow> submission_row option" where
  "get_submission db row_id = find (\<lambda>r. sr_id r = row_id) (db_submissions db)"

definition submissions_for_sha256 :: "database \<Rightarrow> string \<Rightarrow> submission_row list" where
  "submissions_for_sha256 db sha =
     filter (\<lambda>r. ev_file_sha256 (vd_evidence (sr_verdict r)) = Some sha) (rev (db_submissions db))"

definition recent_submissions :: "database \<Rightarrow> int \<Rightarrow> submission_row list" where
  "recent_submissions db n = sql_limit n (rev (db_submissions db))"

definition replayable :: "submission_row \<Rightarrow> bool" where
  "replayable r \<longleftrightarrow> \<not> vd_from_cache (sr_verdict r) \<and>
     (case vd_reject_reason (sr_verdict r) of
        None \<Rightarrow> True | Some reason \<Rightarrow> reason \<notin> set VALIDATOR_FAULT_REASONS)"

definition latest_checked_for_sha256 :: "database \<Rightarrow> string \<Rightarrow> submission_row option" where
  "latest_checked_for_sha256 db sha = find replayable (submissions_for_sha256 db sha)"

section \<open>Agents\<close>

definition get_agent :: "database \<Rightarrow> string \<Rightarrow> agent_row option" where
  "get_agent db digest = find (\<lambda>a. ag_digest a = digest) (db_agents db)"

text \<open>\<open>INSERT OR IGNORE\<close>: the primary key refuses a second row for the digest.\<close>

definition register_agent ::
  "string \<Rightarrow> string option \<Rightarrow> string list \<Rightarrow> string list \<Rightarrow> string \<Rightarrow> string \<Rightarrow> nat \<Rightarrow> database
     \<Rightarrow> bool \<times> database" where
  "register_agent received_at image_id repo_tags entrypoint digest miner_id submission_id db =
     (if \<exists>a \<in> set (db_agents db). ag_digest a = digest then (False, db)
      else (True, db\<lparr>db_agents := db_agents db @
        [\<lparr>ag_digest = digest, ag_owner = miner_id, ag_first_submission = submission_id,
          ag_first_seen_at = received_at, ag_image_id = image_id, ag_repo_tags = repo_tags,
          ag_entrypoint = entrypoint\<rparr>]\<rparr>))"

definition agent_count :: "database \<Rightarrow> nat" where
  "agent_count db = length (db_agents db)"

text \<open>\<open>SqliteRegistry.register_agent\<close>.\<close>

definition register_verdict :: "string \<Rightarrow> verdict \<Rightarrow> nat \<Rightarrow> database \<Rightarrow> bool \<times> database" where
  "register_verdict received_at v submission_id db =
     (case ev_agent_digest (vd_evidence v) of
        None \<Rightarrow> (False, db)
      | Some digest \<Rightarrow>
          if digest = [] \<or> vd_status v \<noteq> ACCEPTED then (False, db)
          else register_agent received_at (ev_image_id (vd_evidence v)) (ev_repo_tags (vd_evidence v))
                 (ev_entrypoint (vd_evidence v)) digest (vd_miner_id v) submission_id db)"

section \<open>Jobs\<close>

definition create_job :: "string \<Rightarrow> string \<Rightarrow> string \<Rightarrow> database \<Rightarrow> nat \<times> database" where
  "create_job now miner_id image_ref db =
     (let job_id = db_last_job db + 1 in
      (job_id, db\<lparr>db_jobs := db_jobs db @
                    [\<lparr>jb_id = job_id, jb_miner_id = miner_id, jb_image_ref = image_ref, jb_state = JOB_QUEUED,
                      jb_submission_id = None, jb_created_at = now, jb_started_at = None,
                      jb_finished_at = None, jb_error = None\<rparr>],
                  db_last_job := job_id\<rparr>))"

definition get_job :: "database \<Rightarrow> nat \<Rightarrow> job_row option" where
  "get_job db job_id = find (\<lambda>j. jb_id j = job_id) (db_jobs db)"

text \<open>The two statements of \<open>claim_next_job\<close>, which another worker may separate, and their sequence.\<close>

definition oldest_queued :: "database \<Rightarrow> job_row option" where
  "oldest_queued db = find (\<lambda>j. jb_state j = JOB_QUEUED) (db_jobs db)"

definition start_if_queued :: "string \<Rightarrow> nat \<Rightarrow> job_row \<Rightarrow> job_row" where
  "start_if_queued now job_id j =
     (if jb_id j = job_id \<and> jb_state j = JOB_QUEUED
      then j\<lparr>jb_state := JOB_RUNNING, jb_started_at := Some now\<rparr> else j)"

definition claim_update :: "string \<Rightarrow> nat \<Rightarrow> database \<Rightarrow> nat \<times> database" where
  "claim_update now job_id db =
     (length (filter (\<lambda>j. jb_id j = job_id \<and> jb_state j = JOB_QUEUED) (db_jobs db)),
      db\<lparr>db_jobs := map (start_if_queued now job_id) (db_jobs db)\<rparr>)"

definition claim_next_job :: "string \<Rightarrow> database \<Rightarrow> job_row option \<times> database" where
  "claim_next_job now db = (case oldest_queued db of
      None \<Rightarrow> (None, db)
    | Some row \<Rightarrow>
        (case claim_update now (jb_id row) db of (rowcount, db') \<Rightarrow>
           (if rowcount = 0 then None else get_job db' (jb_id row), db')))"

definition finish_row :: "string \<Rightarrow> nat option \<Rightarrow> string option \<Rightarrow> job_row \<Rightarrow> job_row" where
  "finish_row now submission_id err j =
     j\<lparr>jb_state := (if err \<noteq> None \<and> err \<noteq> Some [] then JOB_FAILED else JOB_DONE),
       jb_submission_id := submission_id, jb_finished_at := Some now, jb_error := err\<rparr>"

definition finish_job :: "string \<Rightarrow> nat \<Rightarrow> nat option \<Rightarrow> string option \<Rightarrow> database \<Rightarrow> database" where
  "finish_job now job_id submission_id err db =
     db\<lparr>db_jobs := map (\<lambda>j. if jb_id j = job_id then finish_row now submission_id err j else j) (db_jobs db)\<rparr>"

definition requeue_running_jobs :: "database \<Rightarrow> nat \<times> database" where
  "requeue_running_jobs db =
     (length (filter (\<lambda>j. jb_state j = JOB_RUNNING) (db_jobs db)),
      db\<lparr>db_jobs := map (\<lambda>j. if jb_state j = JOB_RUNNING
                             then j\<lparr>jb_state := JOB_QUEUED, jb_started_at := None\<rparr> else j) (db_jobs db)\<rparr>)"

definition recent_jobs :: "database \<Rightarrow> int \<Rightarrow> job_row list" where
  "recent_jobs db n = sql_limit n (rev (db_jobs db))"

section \<open>The registry of agents as an interface\<close>

text \<open>What the pipeline relies on: a digest has at most one owner, who was the first.\<close>

locale agent_registry =
  fixes find_owner :: "'s \<Rightarrow> string \<Rightarrow> string option"
    and register :: "string \<Rightarrow> string \<Rightarrow> nat \<Rightarrow> 's \<Rightarrow> bool \<times> 's"
  assumes register_fresh: "find_owner s d = None \<Longrightarrow>
      fst (register d m i s) \<and> find_owner (snd (register d m i s)) d = Some m"
    and register_taken: "find_owner s d \<noteq> None \<Longrightarrow> register d m i s = (False, s)"
    and register_other: "d' \<noteq> d \<Longrightarrow> find_owner (snd (register d m i s)) d' = find_owner s d'"
begin

definition registered :: "(string \<times> string \<times> nat) list \<Rightarrow> 's \<Rightarrow> 's" where
  "registered ops s = fold (\<lambda>(d, m, i) s. snd (register d m i s)) ops s"

lemma owner_stays:
  assumes "find_owner s d = Some m"
  shows "find_owner (snd (register d' m' i s)) d = Some m"
  using assms register_taken [of s d' m' i] register_other [of d d' m' i s]
  by (cases "d = d'") auto

lemma owner_stays_registered:
  "find_owner s d = Some m \<Longrightarrow> find_owner (registered ops s) d = Some m"
  unfolding registered_def
  by (induction ops arbitrary: s) (auto simp: owner_stays)

lemma first_registration_wins:
  assumes "find_owner s d = None"
  shows "find_owner (registered ops s) d =
    map_option (\<lambda>(d, m, i). m) (find (\<lambda>(d', m, i). d' = d) ops)"
  using assms
proof (induction ops arbitrary: s)
  case Nil
  then show ?case by (simp add: registered_def)
next
  case (Cons op ops)
  obtain d' m i where op: "op = (d', m, i)" by (cases op) auto
  show ?case
  proof (cases "d' = d")
    case True
    have "find_owner (snd (register d m i s)) d = Some m" using register_fresh Cons.prems by simp
    then show ?thesis
      using True op owner_stays_registered [of "snd (register d m i s)" d m ops] by (simp add: registered_def)
  next
    case False
    have "find_owner (snd (register d' m i s)) d = None" using register_other [of d d' m i s] False Cons.prems by simp
    from Cons.IH [OF this] show ?thesis using False op by (simp add: registered_def)
  qed
qed

lemma register_accepted_once:
  assumes "fst (register d m i s)"
  shows "\<not> fst (register d m' j (registered ops (snd (register d m i s))))"
proof -
  have "find_owner s d = None" using assms register_taken [of s d m i] by (cases "find_owner s d") auto
  then have "find_owner (snd (register d m i s)) d = Some m" using register_fresh by simp
  from owner_stays_registered [OF this] show ?thesis
    using register_taken [of "registered ops (snd (register d m i s))" d m' j] by simp
qed

end

definition agent_owner :: "database \<Rightarrow> string \<Rightarrow> string option" where
  "agent_owner db digest = map_option ag_owner (get_agent db digest)"

lemma get_agent_None: "get_agent db d = None \<longleftrightarrow> (\<forall>a \<in> set (db_agents db). ag_digest a \<noteq> d)"
  by (auto simp: get_agent_def find_None_iff)

lemma get_agent_append:
  "get_agent (db\<lparr>db_agents := db_agents db @ [a]\<rparr>) d =
     (case get_agent db d of Some x \<Rightarrow> Some x | None \<Rightarrow> if ag_digest a = d then Some a else None)"
proof -
  have "find P (xs @ [a]) = (case find P xs of Some x \<Rightarrow> Some x | None \<Rightarrow> if P a then Some a else None)"
    for P :: "agent_row \<Rightarrow> bool" and xs by (induction xs) auto
  then show ?thesis by (simp add: get_agent_def)
qed

interpretation agents: agent_registry agent_owner "register_agent received_at image_id repo_tags entrypoint"
  for received_at image_id repo_tags entrypoint
proof
  fix db d d' m i
  show "agent_owner db d = None \<Longrightarrow>
      fst (register_agent received_at image_id repo_tags entrypoint d m i db) \<and>
      agent_owner (snd (register_agent received_at image_id repo_tags entrypoint d m i db)) d = Some m"
    using get_agent_None [of db d]
    by (auto simp: agent_owner_def register_agent_def get_agent_append)
  show "agent_owner db d \<noteq> None \<Longrightarrow>
      register_agent received_at image_id repo_tags entrypoint d m i db = (False, db)"
    using get_agent_None [of db d] by (auto simp: agent_owner_def register_agent_def)
  show "d' \<noteq> d \<Longrightarrow>
      agent_owner (snd (register_agent received_at image_id repo_tags entrypoint d m i db)) d' = agent_owner db d'"
    by (auto simp: agent_owner_def register_agent_def get_agent_append split: option.split)
qed

section \<open>The job queue with racing workers\<close>

definition job_ok :: "job_row \<Rightarrow> bool" where
  "job_ok j = (case jb_state j of
      JOB_QUEUED \<Rightarrow> jb_started_at j = None \<and> jb_finished_at j = None
    | JOB_RUNNING \<Rightarrow> jb_started_at j \<noteq> None \<and> jb_finished_at j = None
    | JOB_DONE \<Rightarrow> jb_finished_at j \<noteq> None \<and> (jb_error j = None \<or> jb_error j = Some [])
    | JOB_FAILED \<Rightarrow> jb_finished_at j \<noteq> None \<and> jb_error j \<noteq> None \<and> jb_error j \<noteq> Some [])"

definition jobs_wf :: "database \<Rightarrow> bool" where
  "jobs_wf db \<longleftrightarrow> distinct (map jb_id (db_jobs db)) \<and>
     (\<forall>j \<in> set (db_jobs db). job_ok j \<and> jb_id j \<le> db_last_job db)"

definition running_ids :: "database \<Rightarrow> nat set" where
  "running_ids db = jb_id ` {j \<in> set (db_jobs db). jb_state j = JOB_RUNNING}"

text \<open>
  Workers on one database, each in a loop of its own: \<open>q_live\<close> are those that have started and not ended,
  \<open>q_selected\<close> those between the two statements of \<open>claim_next_job\<close>, \<open>q_running\<close> those that won a job and have
  not finished it; \<open>q_abandoned\<close> are the jobs of workers that ended in the middle of one.  A worker that starts
  requeues every running job (\<open>api.py\<close>, \<open>Worker.run\<close>) and stops nobody else.  \<open>overlap\<close> says whether it may do so
  while another is at work on a job; the API starts one worker per process.
\<close>

record queue_state =
  q_db :: database
  q_live :: "nat list"
  q_selected :: "(nat \<times> nat) list"
  q_running :: "(nat \<times> nat) list"
  q_abandoned :: "nat list"

definition q_idle :: "queue_state \<Rightarrow> nat \<Rightarrow> bool" where
  "q_idle s w \<longleftrightarrow> w \<in> set (q_live s) \<and> w \<notin> fst ` set (q_selected s) \<and> w \<notin> fst ` set (q_running s)"

inductive queue_step :: "bool \<Rightarrow> queue_state \<Rightarrow> queue_state \<Rightarrow> bool" for overlap where
  submit: "queue_step overlap s (s\<lparr>q_db := snd (create_job now miner_id image_ref (q_db s))\<rparr>)"
| start: "w \<notin> set (q_live s) \<Longrightarrow> overlap \<or> q_running s = [] \<Longrightarrow>
    queue_step overlap s (s\<lparr>q_db := snd (requeue_running_jobs (q_db s)), q_live := w # q_live s, q_abandoned := []\<rparr>)"
| select: "q_idle s w \<Longrightarrow> oldest_queued (q_db s) = Some row \<Longrightarrow>
    queue_step overlap s (s\<lparr>q_selected := (w, jb_id row) # q_selected s\<rparr>)"
| claim: "(w, i) \<in> set (q_selected s) \<Longrightarrow> claim_update now i (q_db s) = (n, db) \<Longrightarrow> n \<noteq> 0 \<Longrightarrow>
    queue_step overlap s (s\<lparr>q_db := db, q_selected := remove1 (w, i) (q_selected s),
                    q_running := (w, i) # q_running s\<rparr>)"
| lose: "(w, i) \<in> set (q_selected s) \<Longrightarrow> claim_update now i (q_db s) = (0, db) \<Longrightarrow>
    queue_step overlap s (s\<lparr>q_db := db, q_selected := remove1 (w, i) (q_selected s)\<rparr>)"
| finish: "(w, i) \<in> set (q_running s) \<Longrightarrow>
    queue_step overlap s (s\<lparr>q_db := finish_job now i submission_id err (q_db s),
                    q_running := remove1 (w, i) (q_running s)\<rparr>)"
| die: "queue_step overlap s (s\<lparr>q_live := removeAll w (q_live s), q_selected := filter (\<lambda>(v, _). v \<noteq> w) (q_selected s),
      q_running := filter (\<lambda>(v, _). v \<noteq> w) (q_running s),
      q_abandoned := map snd (filter (\<lambda>(v, _). v = w) (q_running s)) @ q_abandoned s\<rparr>)"

inductive queue_reachable :: "bool \<Rightarrow> queue_state \<Rightarrow> bool" for overlap where
  initial: "queue_reachable overlap
    \<lparr>q_db = empty_db, q_live = [], q_selected = [], q_running = [], q_abandoned = []\<rparr>"
| step: "queue_reachable overlap s \<Longrightarrow> queue_step overlap s s' \<Longrightarrow> queue_reachable overlap s'"

inductive_cases queue_stepE: "queue_step overlap s s'"

text \<open>The rows and the workers, however they overlap; and who holds what when they do not.\<close>

definition rows_inv :: "queue_state \<Rightarrow> bool" where
  "rows_inv s \<longleftrightarrow> jobs_wf (q_db s) \<and> distinct (map fst (q_selected s @ q_running s)) \<and>
     set (map fst (q_selected s @ q_running s)) \<subseteq> set (q_live s)"

definition holders_inv :: "queue_state \<Rightarrow> bool" where
  "holders_inv s \<longleftrightarrow> distinct (map snd (q_running s) @ q_abandoned s) \<and>
     set (map snd (q_running s) @ q_abandoned s) = running_ids (q_db s)"

lemma create_job_wf: "jobs_wf db \<Longrightarrow> jobs_wf (snd (create_job now m r db))"
  by (fastforce simp: jobs_wf_def create_job_def Let_def job_ok_def)

lemma create_job_running: "running_ids (snd (create_job now m r db)) = running_ids db"
  by (auto simp: running_ids_def create_job_def Let_def)

text \<open>An update of some rows that keeps their ids.\<close>

lemma jobs_wf_map:
  assumes "jobs_wf db" "\<And>j. jb_id (f j) = jb_id j" "\<And>j. job_ok j \<Longrightarrow> job_ok (f j)"
  shows "jobs_wf (db\<lparr>db_jobs := map f (db_jobs db)\<rparr>)"
proof -
  have "jb_id \<circ> f = jb_id" using assms(2) by auto
  with assms show ?thesis by (auto simp: jobs_wf_def)
qed

lemma start_if_queued_simps [simp]: "jb_id (start_if_queued now i j) = jb_id j"
  by (simp add: start_if_queued_def)

lemma claim_update_wf: "jobs_wf db \<Longrightarrow> jobs_wf (snd (claim_update now i db))"
  unfolding claim_update_def snd_conv
  by (rule jobs_wf_map) (auto simp: start_if_queued_def job_ok_def)

lemma finish_job_wf: "jobs_wf db \<Longrightarrow> jobs_wf (finish_job now i sub err db)"
  unfolding finish_job_def
  by (rule jobs_wf_map) (auto simp: finish_row_def job_ok_def)

lemma requeue_wf: "jobs_wf db \<Longrightarrow> jobs_wf (snd (requeue_running_jobs db))"
  unfolding requeue_running_jobs_def snd_conv
  by (rule jobs_wf_map) (auto simp: job_ok_def)

lemma jobs_wf_idD:
  assumes "jobs_wf db" "j \<in> set (db_jobs db)" "k \<in> set (db_jobs db)" "jb_id j = jb_id k"
  shows "j = k"
  using assms by (auto simp: jobs_wf_def distinct_map dest: inj_onD)

lemma claim_update_won:
  assumes "jobs_wf db" "claim_update now i db = (n, db')" "n \<noteq> 0"
  shows "i \<notin> running_ids db \<and> running_ids db' = insert i (running_ids db)"
proof -
  have "filter (\<lambda>j. jb_id j = i \<and> jb_state j = JOB_QUEUED) (db_jobs db) \<noteq> []"
    using assms(2,3) by (auto simp: claim_update_def)
  then obtain j where j: "j \<in> set (db_jobs db)" "jb_id j = i" "jb_state j = JOB_QUEUED"
    by (auto simp: filter_empty_conv)
  have fresh: "i \<notin> running_ids db"
  proof
    assume "i \<in> running_ids db"
    then obtain k where k: "k \<in> set (db_jobs db)" "jb_id k = i" "jb_state k = JOB_RUNNING"
      by (auto simp: running_ids_def)
    then have "k = j" using jobs_wf_idD [OF assms(1) k(1) j(1)] j(2) by simp
    with k(3) j(3) show False by simp
  qed
  have db': "db_jobs db' = map (start_if_queued now i) (db_jobs db)"
    using assms(2) by (auto simp: claim_update_def)
  have state: "jb_state (start_if_queued now i k) = JOB_RUNNING \<longleftrightarrow>
      jb_state k = JOB_RUNNING \<or> (jb_id k = i \<and> jb_state k = JOB_QUEUED)" for k
    by (auto simp: start_if_queued_def)
  have "running_ids db' = {x. \<exists>k \<in> set (db_jobs db). x = jb_id (start_if_queued now i k) \<and>
      jb_state (start_if_queued now i k) = JOB_RUNNING}"
    unfolding running_ids_def db' by (auto simp del: start_if_queued_simps simp: image_iff)
  also have "\<dots> = {x. \<exists>k \<in> set (db_jobs db). x = jb_id k \<and>
      (jb_state k = JOB_RUNNING \<or> (jb_id k = i \<and> jb_state k = JOB_QUEUED))}"
    by (simp add: state)
  also have "\<dots> = insert i (running_ids db)"
    using j by (auto simp: running_ids_def)
  finally show ?thesis using fresh by simp
qed

lemma claim_update_lost:
  assumes "claim_update now i db = (0, db')"
  shows "db' = db"
proof -
  have "\<forall>j \<in> set (db_jobs db). start_if_queued now i j = j"
    using assms by (auto simp: claim_update_def start_if_queued_def filter_empty_conv)
  then have "map (start_if_queued now i) (db_jobs db) = db_jobs db" by (simp add: map_idI)
  with assms show ?thesis by (auto simp: claim_update_def)
qed

lemma finish_job_running: "running_ids (finish_job now i sub err db) = running_ids db - {i}"
proof -
  let ?f = "\<lambda>j. if jb_id j = i then finish_row now sub err j else j"
  have f: "jb_id (?f j) = jb_id j \<and> (jb_state (?f j) = JOB_RUNNING \<longleftrightarrow> jb_state j = JOB_RUNNING \<and> jb_id j \<noteq> i)" for j
    by (simp add: finish_row_def)
  have "running_ids (finish_job now i sub err db) =
      {x. \<exists>j \<in> set (db_jobs db). x = jb_id (?f j) \<and> jb_state (?f j) = JOB_RUNNING}"
    by (auto simp: running_ids_def finish_job_def image_iff)
  also have "\<dots> = running_ids db - {i}"
    unfolding running_ids_def using f by auto
  finally show ?thesis .
qed

lemma requeue_running: "running_ids (snd (requeue_running_jobs db)) = {}"
  by (auto simp: running_ids_def requeue_running_jobs_def split: if_splits)

text \<open>Taking a worker's entry out, and setting those of a worker apart.\<close>

lemma distinct_map_snd_remove1:
  assumes "distinct (map snd xs)" "(w, i) \<in> set xs"
  shows "distinct (map snd (remove1 (w, i) xs)) \<and>
    set (map snd (remove1 (w, i) xs)) = set (map snd xs) - {i}"
  using assms
proof (induction xs)
  case (Cons x xs)
  show ?case
  proof (cases "x = (w, i)")
    case True
    with Cons.prems show ?thesis by auto
  next
    case False
    then have mem: "(w, i) \<in> set xs" using Cons.prems by simp
    then have "i \<in> snd ` set xs" by force
    then have "snd x \<noteq> i" using Cons.prems(1) by auto
    with False Cons.IH mem Cons.prems(1) show ?thesis by (auto dest: notin_set_remove1)
  qed
qed simp

lemma drop_entry:
  assumes "distinct (map fst (xs @ ys))" "(w, i) \<in> set xs" "fst ` set (xs @ ys) \<subseteq> L"
  shows "distinct (map fst (remove1 (w, i) xs @ ys)) \<and> w \<notin> fst ` set (remove1 (w, i) xs @ ys) \<and>
     fst ` set (remove1 (w, i) xs @ ys) \<subseteq> L \<and> w \<in> L"
  using assms
proof (induction xs)
  case (Cons x xs)
  show ?case
  proof (cases "x = (w, i)")
    case True
    with Cons.prems show ?thesis by auto
  next
    case False
    then have mem: "(w, i) \<in> set xs" using Cons.prems by simp
    then have "w \<in> fst ` set xs" by force
    moreover have "fst x \<notin> fst ` set xs" using Cons.prems(1) by simp
    ultimately have "fst x \<noteq> w" by auto
    moreover have "fst ` set (remove1 (w, i) xs) \<subseteq> fst ` set xs" by (intro image_mono set_remove1_subset)
    ultimately show ?thesis using False Cons.IH mem Cons.prems \<open>fst x \<notin> fst ` set xs\<close> by (auto simp: image_Un)
  qed
qed simp

lemma drop_worker:
  assumes "distinct (map fst (xs @ ys))" "fst ` set (xs @ ys) \<subseteq> set L"
  shows "distinct (map fst (filter (\<lambda>(v, _). v \<noteq> w) xs @ filter (\<lambda>(v, _). v \<noteq> w) ys)) \<and>
    fst ` set (filter (\<lambda>(v, _). v \<noteq> w) xs @ filter (\<lambda>(v, _). v \<noteq> w) ys) \<subseteq> set (removeAll w L)"
proof -
  have "distinct (map fst (filter (\<lambda>(v, _). v \<noteq> w) (xs @ ys)))" using assms(1) by (rule distinct_map_filter)
  moreover have "fst ` set (filter (\<lambda>(v, _). v \<noteq> w) (xs @ ys)) \<subseteq> set (removeAll w L)" using assms(2) by force
  ultimately show ?thesis by simp
qed

lemma split_by_worker:
  "set (map snd (filter (\<lambda>(v, _). v \<noteq> w) xs) @ map snd (filter (\<lambda>(v, _). v = w) xs) @ ys) = set (map snd xs @ ys)"
  "distinct (map snd xs @ ys) \<Longrightarrow>
     distinct (map snd (filter (\<lambda>(v, _). v \<noteq> w) xs) @ map snd (filter (\<lambda>(v, _). v = w) xs) @ ys)"
proof -
  show sets: "set (map snd (filter (\<lambda>(v, _). v \<noteq> w) xs) @ map snd (filter (\<lambda>(v, _). v = w) xs) @ ys) = set (map snd xs @ ys)"
    for xs by (induction xs) auto
  show "distinct (map snd xs @ ys) \<Longrightarrow>
     distinct (map snd (filter (\<lambda>(v, _). v \<noteq> w) xs) @ map snd (filter (\<lambda>(v, _). v = w) xs) @ ys)"
  proof (induction xs)
    case (Cons x xs)
    with sets [of xs] show ?case by (cases x) auto
  qed simp
qed

lemma rows_inv_step: "queue_step overlap s s' \<Longrightarrow> rows_inv s \<Longrightarrow> rows_inv s'"
proof (induction rule: queue_step.induct)
  case (claim w i s now n db)
  then have "jobs_wf db" using claim_update_wf [of "q_db s" now i] by (simp add: rows_inv_def)
  with claim(1,4) drop_entry [of "q_selected s" "q_running s" w i "set (q_live s)"] show ?case
    by (simp add: rows_inv_def image_Un)
next
  case (lose w i s now db)
  with claim_update_lost [OF lose(2)] drop_entry [of "q_selected s" "q_running s" w i "set (q_live s)"] show ?case
    by (simp add: rows_inv_def image_Un)
next
  case (finish w i s now sub err)
  with drop_entry [of "q_running s" "q_selected s" w i "set (q_live s)"] show ?case
    by (simp add: rows_inv_def finish_job_wf image_Un Int_commute)
next
  case (die s w)
  with drop_worker [of "q_selected s" "q_running s" "q_live s" w] show ?case by (simp add: rows_inv_def image_Un)
next
  case (select s w row)
  then show ?case by (auto simp: rows_inv_def q_idle_def)
qed (auto simp: rows_inv_def create_job_wf requeue_wf)

lemma holders_inv_step: "queue_step overlap s s' \<Longrightarrow> \<not> overlap \<Longrightarrow> rows_inv s \<Longrightarrow> holders_inv s \<Longrightarrow> holders_inv s'"
proof (induction rule: queue_step.induct)
  case (claim w i s now n db)
  with claim_update_won [of "q_db s" now i n db] show ?case by (auto simp: holders_inv_def rows_inv_def)
next
  case (lose w i s now db)
  then show ?case using claim_update_lost [of now i "q_db s" db] by (simp add: holders_inv_def)
next
  case (finish w i s now sub err)
  then have "i \<in> snd ` set (q_running s)" by force
  with finish distinct_map_snd_remove1 [of "q_running s" w i] show ?case
    by (auto simp: holders_inv_def finish_job_running)
next
  case (die s w)
  then show ?case
    using split_by_worker [where w = w and xs = "q_running s" and ys = "q_abandoned s"]
    unfolding holders_inv_def by simp
qed (simp_all add: holders_inv_def create_job_running requeue_running)

lemma queue_reachable_rows: "queue_reachable overlap s \<Longrightarrow> rows_inv s"
proof (induction rule: queue_reachable.induct)
  case (step s s')
  then show ?case using rows_inv_step by blast
qed (simp add: rows_inv_def jobs_wf_def empty_db_def)

lemma queue_reachable_holders: "queue_reachable overlap s \<Longrightarrow> \<not> overlap \<Longrightarrow> holders_inv s"
proof (induction rule: queue_reachable.induct)
  case (step s s')
  then show ?case using holders_inv_step queue_reachable_rows by blast
qed (simp add: holders_inv_def running_ids_def empty_db_def)

section \<open>Properties\<close>

text \<open>C19: No job is worked on twice at once, as long as workers start while nobody is at work.  In every state
  that submissions, starts and deaths of workers, their races between the read and the update of a claim, and
  finished jobs can reach: every row's times and error fit its state, ids are unique and each worker holds at
  most one job.  And if no worker starts while a live one is in the middle of a job, as with the single worker
  of the API, the jobs that workers hold are pairwise distinct, and the rows marked running are exactly those and
  the ones whose worker died since the last start.\<close>

theorem job_claims_exclusive:
  assumes "queue_reachable overlap s"
  shows "(\<forall>j \<in> set (db_jobs (q_db s)). job_ok j) \<and> distinct (map jb_id (db_jobs (q_db s))) \<and>
    distinct (map fst (q_running s)) \<and>
    (\<not> overlap \<longrightarrow> distinct (map snd (q_running s)) \<and>
      (\<forall>j \<in> set (db_jobs (q_db s)). jb_state j = JOB_RUNNING \<longleftrightarrow>
         jb_id j \<in> snd ` set (q_running s) \<union> set (q_abandoned s)))"
proof -
  have rows: "rows_inv s" using queue_reachable_rows [OF assms] .
  then have wf: "jobs_wf (q_db s)" by (simp add: rows_inv_def)
  have "jb_state j = JOB_RUNNING \<longleftrightarrow> jb_id j \<in> running_ids (q_db s)" if "j \<in> set (db_jobs (q_db s))" for j
    using that jobs_wf_idD [OF wf that] by (auto simp: running_ids_def)
  with rows wf queue_reachable_holders [OF assms] show ?thesis
    by (auto simp: rows_inv_def holders_inv_def jobs_wf_def)
qed

text \<open>Two workers select the same job; the second loses the race.\<close>

definition raced_queue :: queue_state where
  "raced_queue =
     \<lparr>q_db = snd (claim_update ''t1'' 1 (snd (create_job ''t0'' ''alice'' ''ghcr.io/a:1'' empty_db))),
      q_live = [2, 1], q_selected = [(2, 1)], q_running = [(1, 1)], q_abandoned = []\<rparr>"

text \<open>A job in the queue and one worker, or two, that have started.\<close>

lemma requeue_empty [simp]: "requeue_running_jobs empty_db = (0, empty_db)"
  by (simp add: requeue_running_jobs_def empty_db_def)

abbreviation one_job :: database where
  "one_job \<equiv> snd (create_job ''t0'' ''alice'' ''ghcr.io/a:1'' empty_db)"

lemma oldest_one_job: "\<exists>row. oldest_queued one_job = Some row \<and> jb_id row = 1"
  by (simp add: create_job_def empty_db_def oldest_queued_def)

lemma claim_one_job: "claim_update now 1 one_job = (1, snd (claim_update now 1 one_job))"
  by (simp add: claim_update_def create_job_def empty_db_def)

lemma started_workers:
  "queue_reachable overlap \<lparr>q_db = empty_db, q_live = [1], q_selected = [], q_running = [], q_abandoned = []\<rparr>"
  "queue_reachable overlap \<lparr>q_db = empty_db, q_live = [2, 1], q_selected = [], q_running = [], q_abandoned = []\<rparr>"
proof -
  show 1: "queue_reachable overlap \<lparr>q_db = empty_db, q_live = [1], q_selected = [], q_running = [], q_abandoned = []\<rparr>"
    using queue_reachable.step [OF initial start [of 1]] by simp
  show "queue_reachable overlap \<lparr>q_db = empty_db, q_live = [2, 1], q_selected = [], q_running = [], q_abandoned = []\<rparr>"
    using queue_reachable.step [OF 1 start [of 2]] by simp
qed

theorem job_claims_exclusive_witness:
  "queue_reachable False raced_queue \<and> fst (claim_update ''t2'' 1 (q_db raced_queue)) = 0 \<and>
   distinct (map snd (q_running raced_queue))"
proof -
  obtain row where row: "oldest_queued one_job = Some row" "jb_id row = 1" using oldest_one_job by blast
  have 1: "queue_reachable False \<lparr>q_db = one_job, q_live = [2, 1], q_selected = [], q_running = [], q_abandoned = []\<rparr>"
    using queue_reachable.step [OF started_workers(2) submit [of _ _ "''t0''" "''alice''" "''ghcr.io/a:1''"]] by simp
  have 2: "queue_reachable False \<lparr>q_db = one_job, q_live = [2, 1], q_selected = [(1, 1)], q_running = [], q_abandoned = []\<rparr>"
    using queue_reachable.step [OF 1 select [of _ 1 row]] row by (simp add: q_idle_def)
  have 3: "queue_reachable False \<lparr>q_db = one_job, q_live = [2, 1], q_selected = [(2, 1), (1, 1)], q_running = [], q_abandoned = []\<rparr>"
    using queue_reachable.step [OF 2 select [of _ 2 row]] row by (simp add: q_idle_def)
  have 4: "queue_reachable False raced_queue"
    using queue_reachable.step [OF 3 claim [of 1 1 _ "''t1''" 1 "snd (claim_update ''t1'' 1 one_job)"]] claim_one_job
    by (simp add: raced_queue_def)
  moreover have "fst (claim_update ''t2'' 1 (q_db raced_queue)) = 0"
    by (simp add: raced_queue_def claim_update_def create_job_def empty_db_def start_if_queued_def)
  ultimately show ?thesis using job_claims_exclusive [OF 4] by simp
qed

text \<open>
  Without that proviso it fails: a worker that starts while another is at work requeues the job that one
  holds, and takes it as well.
\<close>

lemma overlapping_start_shares_a_job: "\<exists>s. queue_reachable True s \<and> q_running s = [(2, 1), (1, 1)]"
proof -
  obtain row where row: "oldest_queued one_job = Some row" "jb_id row = 1" using oldest_one_job by blast
  let ?held = "snd (claim_update ''t1'' 1 one_job)"
  let ?again = "snd (requeue_running_jobs ?held)"
  have 1: "queue_reachable True \<lparr>q_db = one_job, q_live = [1], q_selected = [], q_running = [], q_abandoned = []\<rparr>"
    using queue_reachable.step [OF started_workers(1) submit [of _ _ "''t0''" "''alice''" "''ghcr.io/a:1''"]] by simp
  have 2: "queue_reachable True \<lparr>q_db = one_job, q_live = [1], q_selected = [(1, 1)], q_running = [], q_abandoned = []\<rparr>"
    using queue_reachable.step [OF 1 select [of _ 1 row]] row by (simp add: q_idle_def)
  have 3: "queue_reachable True \<lparr>q_db = ?held, q_live = [1], q_selected = [], q_running = [(1, 1)], q_abandoned = []\<rparr>"
    using queue_reachable.step [OF 2 claim [of 1 1 _ "''t1''" 1 ?held]] claim_one_job by simp
  have 4: "queue_reachable True \<lparr>q_db = ?again, q_live = [2, 1], q_selected = [], q_running = [(1, 1)], q_abandoned = []\<rparr>"
    using queue_reachable.step [OF 3 start [of 2]] by simp
  obtain row2 where row2: "oldest_queued ?again = Some row2" "jb_id row2 = 1"
    by (simp add: create_job_def empty_db_def oldest_queued_def claim_update_def requeue_running_jobs_def start_if_queued_def)
  have 5: "queue_reachable True \<lparr>q_db = ?again, q_live = [2, 1], q_selected = [(2, 1)], q_running = [(1, 1)], q_abandoned = []\<rparr>"
    using queue_reachable.step [OF 4 select [of _ 2 row2]] row2 by (simp add: q_idle_def)
  have c: "claim_update ''t2'' 1 ?again = (1, snd (claim_update ''t2'' 1 ?again))"
    by (simp add: create_job_def empty_db_def claim_update_def requeue_running_jobs_def start_if_queued_def)
  from queue_reachable.step [OF 5 claim [of 2 1 _ "''t2''" 1 "snd (claim_update ''t2'' 1 ?again)"]] c show ?thesis
    by (intro exI conjI) (assumption | simp)+
qed

end
