(* ===== verification/Pipeline.thy ===== *)
theory Pipeline
  imports Registry_Intake Archive Agent_Db
begin

text \<open>
  \<open>secqurityVali/pipeline.py\<close>: the stages in sequence, the two lookups that avoid repeated work, the
  cleanup, and the write to the ledger.  A stage takes the run so far (the stage being tried, the
  evidence, the image to clean up) and the Docker history; it raises, returns a verdict, or goes on.
\<close>

section \<open>Replayed and duplicate verdicts\<close>

text \<open>The facts of a replay: what this run measured, and the earlier row for the rest.\<close>

definition replayed_evidence :: "evidence \<Rightarrow> evidence \<Rightarrow> evidence" where
  "replayed_evidence measured row =
     \<lparr>ev_source = ev_source measured, ev_image_ref = ev_image_ref measured,
      ev_file_sha256 = keep_old (ev_file_sha256 measured) (ev_file_sha256 row),
      ev_file_size = keep_old (ev_file_size measured) (ev_file_size row),
      ev_image_id = keep_old (ev_image_id measured) (ev_image_id row),
      ev_repo_tags = keep_old_list (ev_repo_tags measured) (ev_repo_tags row),
      ev_arch = keep_old_json (ev_arch measured) (ev_arch row),
      ev_os_name = keep_old_json (ev_os_name measured) (ev_os_name row),
      ev_layer_count = keep_old (ev_layer_count measured) (ev_layer_count row),
      ev_image_size = keep_old (ev_image_size measured) (ev_image_size row),
      ev_entrypoint = keep_old_list (ev_entrypoint measured) (ev_entrypoint row),
      ev_image_user = keep_old_json (ev_image_user measured) (ev_image_user row),
      ev_dry_run_exit_code = ev_dry_run_exit_code row,
      ev_dry_run_ms = ev_dry_run_ms row,
      ev_log_excerpt = ev_log_excerpt row,
      ev_agent_digest = keep_old (ev_agent_digest measured) (ev_agent_digest row)\<rparr>"

definition cached_verdict :: "submission_row \<Rightarrow> string \<Rightarrow> string \<Rightarrow> evidence \<Rightarrow> verdict" where
  "cached_verdict row miner_id file_path measured =
     (let old = sr_verdict row in
      \<lparr>vd_miner_id = miner_id, vd_file_path = file_path, vd_status = vd_status old,
       vd_stage_reached = vd_stage_reached old, vd_reject_reason = vd_reject_reason old,
       vd_evidence = replayed_evidence measured (vd_evidence old),
       vd_duplicate_of = Some (sr_id row), vd_from_cache = True,
       vd_error_detail = vd_error_detail old\<rparr>)"

definition duplicate_verdict ::
  "string \<Rightarrow> string \<Rightarrow> stage \<Rightarrow> string \<Rightarrow> nat \<Rightarrow> evidence \<Rightarrow> verdict" where
  "duplicate_verdict miner_id file_path stage owner submission_id ev =
     (reject miner_id file_path stage DUPLICATE_AGENT
        (Some (''already submitted by '' @ owner @ '' (submission '' @ show_nat submission_id @ '')'')) ev)
       \<lparr>vd_duplicate_of := Some submission_id\<rparr>"

section \<open>Evidence\<close>

definition add_file :: "file_info \<Rightarrow> evidence \<Rightarrow> evidence" where
  "add_file info ev = ev\<lparr>ev_file_sha256 := Some (fi_sha256 info), ev_file_size := Some (fi_size info)\<rparr>"

definition add_structure :: "structure_info \<Rightarrow> evidence \<Rightarrow> evidence" where
  "add_structure info ev =
     ev\<lparr>ev_repo_tags := keep_old_list (st_repo_tags info) (ev_repo_tags ev),
        ev_layer_count := keep_old (st_layer_count info) (ev_layer_count ev)\<rparr>"

definition add_image :: "image_info \<Rightarrow> evidence \<Rightarrow> evidence" where
  "add_image img ev =
     ev\<lparr>ev_image_id := Some (im_image_id img),
        ev_repo_tags := keep_old_list (im_repo_tags img) (ev_repo_tags ev),
        ev_arch := keep_old_json (im_arch img) (ev_arch ev),
        ev_os_name := keep_old_json (im_os_name img) (ev_os_name ev),
        ev_layer_count := keep_old (im_layer_count img) (ev_layer_count ev),
        ev_image_size := keep_old (im_image_size img) (ev_image_size ev),
        ev_image_user := keep_old_json (im_image_user img) (ev_image_user ev)\<rparr>"

definition add_dry_run :: "dry_run_result \<Rightarrow> evidence \<Rightarrow> evidence" where
  "add_dry_run outcome ev =
     ev\<lparr>ev_dry_run_exit_code := keep_old (dr_exit_code outcome) (ev_dry_run_exit_code ev),
        ev_dry_run_ms := Some (dr_duration_ms outcome),
        ev_log_excerpt := (if dr_log_excerpt outcome = [] then ev_log_excerpt ev
                           else Some (dr_log_excerpt outcome))\<rparr>"

section \<open>Stages\<close>

record pipeline_env =
  pe_loads :: "string \<Rightarrow> json_outcome"
  pe_rp :: "json \<Rightarrow> string"
  pe_sha256 :: "string \<Rightarrow> string"
  pe_runner :: runner
  pe_runtime :: string
  pe_limits :: image_limits
  pe_duration_ms :: nat
  pe_keep_image :: bool
  pe_skip_dry_run :: bool
  pe_registry :: "database option"

record submitted_file =
  sf_path :: string
  sf_view :: file_view
  sf_stream :: "tar_member list \<times> string option"

record run_state =
  rn_stage :: stage
  rn_evidence :: evidence
  rn_image :: "string option"

type_synonym 'a stage_run = "run_state \<Rightarrow> docker_call list \<Rightarrow> (failure + 'a) \<times> run_state \<times> docker_call list"

definition goes_on :: "verdict option stage_run" where
  "goes_on r h = (Inr None, r, h)"

definition raises :: "failure \<Rightarrow> 'a stage_run" where
  "raises f r h = (Inl f, r, h)"

definition returns :: "verdict \<Rightarrow> verdict option stage_run" where
  "returns v r h = (Inr (Some v), r, h)"

text \<open>One stage after another: a verdict or an exception ends the run.\<close>

definition then_stage :: "verdict option stage_run \<Rightarrow> verdict stage_run \<Rightarrow> verdict stage_run" where
  "then_stage p q r h = (case p r h of
      (Inl f, r', h') \<Rightarrow> (Inl f, r', h')
    | (Inr (Some v), r', h') \<Rightarrow> (Inr v, r', h')
    | (Inr None, r', h') \<Rightarrow> q r' h')"

definition with_docker :: "'a docker \<Rightarrow> ('a \<Rightarrow> 'b stage_run) \<Rightarrow> 'b stage_run" where
  "with_docker m k r h = (case m h of (Inl f, h') \<Rightarrow> (Inl f, r, h') | (Inr x, h') \<Rightarrow> k x r h')"

definition stage_file :: "pipeline_env \<Rightarrow> submitted_file \<Rightarrow> string \<Rightarrow> verdict option stage_run" where
  "stage_file env f miner_id r =
     (let r = r\<lparr>rn_stage := FILE\<rparr> in
      case check_file MAX_FILE_SIZE_BYTES (sf_view f) of
        Inl fail \<Rightarrow> raises fail r
      | Inr info \<Rightarrow>
          let r = r\<lparr>rn_evidence := add_file info (rn_evidence r)\<rparr> in
          (case pe_registry env of
             None \<Rightarrow> goes_on r
           | Some db \<Rightarrow>
               (case latest_checked_for_sha256 db (fi_sha256 info) of
                  None \<Rightarrow> goes_on r
                | Some seen \<Rightarrow>
                    if vd_miner_id (sr_verdict seen) = miner_id
                    then returns (cached_verdict seen miner_id (sf_path f) (rn_evidence r)) r
                    else if vd_status (sr_verdict seen) = ACCEPTED
                    then returns (duplicate_verdict miner_id (sf_path f) FILE
                           (vd_miner_id (sr_verdict seen)) (sr_id seen) (rn_evidence r)) r
                    else goes_on r)))"

definition stage_structure :: "pipeline_env \<Rightarrow> submitted_file \<Rightarrow> verdict option stage_run" where
  "stage_structure env f r =
     (let r = r\<lparr>rn_stage := STRUCTURE\<rparr> in
      case check_structure (pe_loads env) (pe_rp env) MAX_UNCOMPRESSED_BYTES MAX_TAR_ENTRIES (sf_stream f) of
        Inl fail \<Rightarrow> raises fail r
      | Inr info \<Rightarrow> goes_on (r\<lparr>rn_evidence := add_structure info (rn_evidence r)\<rparr>))"

text \<open>The lookup by agent digest, the end of stage INSPECT.\<close>

definition dedupe_agent :: "pipeline_env \<Rightarrow> string \<Rightarrow> string \<Rightarrow> string option \<Rightarrow> verdict option stage_run" where
  "dedupe_agent env subject miner_id digest r =
     (case (pe_registry env, digest) of
        (Some db, Some d) \<Rightarrow>
          if d = [] then goes_on r
          else
            (case get_agent db d of
               None \<Rightarrow> goes_on r
             | Some known \<Rightarrow>
                 if ag_owner known \<noteq> miner_id
                 then returns (duplicate_verdict miner_id subject INSPECT (ag_owner known)
                        (ag_first_submission known) (rn_evidence r)) r
                 else
                   (case get_submission db (ag_first_submission known) of
                      None \<Rightarrow> goes_on r
                    | Some previous \<Rightarrow> returns (cached_verdict previous miner_id subject (rn_evidence r)) r))
      | _ \<Rightarrow> goes_on r)"

definition judge_image :: "pipeline_env \<Rightarrow> string \<Rightarrow> string \<Rightarrow> image_info \<Rightarrow> verdict option stage_run" where
  "judge_image env subject miner_id img r =
     (let r = r\<lparr>rn_evidence := add_image img (rn_evidence r)\<rparr> in
      case check_image (pe_limits env) img of
        Some fail \<Rightarrow> raises fail r
      | None \<Rightarrow>
          (case entrypoint_of img of
             Inl fail \<Rightarrow> raises fail r
           | Inr entrypoint \<Rightarrow>
               let digest = agent_digest_of (pe_sha256 env) img;
                   r = r\<lparr>rn_evidence := (rn_evidence r)
                         \<lparr>ev_entrypoint := entrypoint,
                          ev_agent_digest := keep_old digest (ev_agent_digest (rn_evidence r))\<rparr>\<rparr>
               in dedupe_agent env subject miner_id digest r))"

definition stage_inspect :: "pipeline_env \<Rightarrow> string \<Rightarrow> string \<Rightarrow> string \<Rightarrow> verdict option stage_run" where
  "stage_inspect env subject miner_id ref r =
     with_docker (inspect_image (pe_loads env) (pe_rp env) (pe_runner env) ref)
       (judge_image env subject miner_id) (r\<lparr>rn_stage := INSPECT\<rparr>)"

definition judge_dry_run :: "string \<Rightarrow> string \<Rightarrow> dry_run_result \<Rightarrow> verdict stage_run" where
  "judge_dry_run subject miner_id outcome r h =
     (let r = r\<lparr>rn_evidence := add_dry_run outcome (rn_evidence r)\<rparr> in
      case check_dry_run outcome of
        Some fail \<Rightarrow> (Inl fail, r, h)
      | None \<Rightarrow> (Inr (accept miner_id subject DRY_RUN (rn_evidence r)), r, h))"

definition stage_dry_run :: "pipeline_env \<Rightarrow> string \<Rightarrow> string \<Rightarrow> string \<Rightarrow> verdict stage_run" where
  "stage_dry_run env subject miner_id ref r h =
     (if pe_skip_dry_run env then (Inr (accept miner_id subject INSPECT (rn_evidence r)), r, h)
      else with_docker (dry_run (pe_runner env) (pe_runtime env) (pe_duration_ms env) ref)
             (judge_dry_run subject miner_id) (r\<lparr>rn_stage := DRY_RUN\<rparr>) h)"

definition examine :: "pipeline_env \<Rightarrow> string \<Rightarrow> string \<Rightarrow> string \<Rightarrow> verdict stage_run" where
  "examine env subject miner_id ref =
     then_stage (stage_inspect env subject miner_id ref) (stage_dry_run env subject miner_id ref)"

text \<open>Stage LOAD of a file and of a reference.\<close>

definition load_file :: "pipeline_env \<Rightarrow> submitted_file \<Rightarrow> string \<Rightarrow> verdict stage_run" where
  "load_file env f miner_id r =
     with_docker (load_image (pe_runner env) (sf_path f))
       (\<lambda>ref r. examine env (sf_path f) miner_id ref (r\<lparr>rn_image := Some ref\<rparr>)) (r\<lparr>rn_stage := LOAD\<rparr>)"

definition load_reference :: "pipeline_env \<Rightarrow> string \<Rightarrow> string \<Rightarrow> verdict stage_run" where
  "load_reference env image_ref miner_id r =
     with_docker (pull_image (pe_loads env) (pe_rp env) (pe_runner env) (pe_limits env) image_ref)
       (\<lambda>p r. examine env image_ref miner_id (pl_digest_ref p)
          (r\<lparr>rn_image := Some (pl_digest_ref p),
             rn_evidence := (rn_evidence r)\<lparr>ev_image_ref := Some (pl_digest_ref p)\<rparr>\<rparr>))
       (r\<lparr>rn_stage := LOAD\<rparr>)"

section \<open>The two entry points\<close>

text \<open>
  \<open>except\<close> and \<open>finally\<close>: a failure becomes a rejection at the stage that was running, then the image is
  removed.  Only a crash of the removal itself is raised to the caller.
\<close>

definition conclude ::
  "pipeline_env \<Rightarrow> string \<Rightarrow> string \<Rightarrow> (failure + verdict) \<times> run_state \<times> docker_call list
     \<Rightarrow> (failure + verdict) \<times> docker_call list" where
  "conclude env subject miner_id run = (case run of (result, r, h) \<Rightarrow>
     let v = (case result of
                Inr v \<Rightarrow> v
              | Inl f \<Rightarrow> reject_failure miner_id subject (rn_stage r) f (rn_evidence r))
     in case rn_image r of
          None \<Rightarrow> (Inr v, h)
        | Some ref \<Rightarrow>
            if pe_keep_image env then (Inr v, h)
            else (case remove_image (pe_runner env) ref h of
                    (Inl crash, h') \<Rightarrow> (Inl crash, h')
                  | (Inr _, h') \<Rightarrow> (Inr v, h')))"

definition fresh_run :: "stage \<Rightarrow> evidence \<Rightarrow> run_state" where
  "fresh_run s ev = \<lparr>rn_stage = s, rn_evidence = ev, rn_image = None\<rparr>"

definition check_submission :: "pipeline_env \<Rightarrow> submitted_file \<Rightarrow> string \<Rightarrow> verdict docker" where
  "check_submission env f miner_id h =
     conclude env (sf_path f) miner_id
       (then_stage (stage_file env f miner_id)
         (then_stage (stage_structure env f) (load_file env f miner_id)) (fresh_run FILE no_evidence) h)"

definition check_registry_submission :: "pipeline_env \<Rightarrow> string \<Rightarrow> string \<Rightarrow> verdict docker" where
  "check_registry_submission env image_ref miner_id h =
     conclude env image_ref miner_id
       (load_reference env image_ref miner_id
         (fresh_run LOAD (no_evidence\<lparr>ev_source := ''registry''\<rparr>)) h)"

datatype submission = By_File submitted_file | By_Reference string

definition check_entry :: "pipeline_env \<Rightarrow> submission \<Rightarrow> string \<Rightarrow> verdict docker" where
  "check_entry env s miner_id = (case s of
      By_File f \<Rightarrow> check_submission env f miner_id
    | By_Reference ref \<Rightarrow> check_registry_submission env ref miner_id)"

definition check_and_record ::
  "pipeline_env \<Rightarrow> bool \<Rightarrow> string \<Rightarrow> submission \<Rightarrow> string \<Rightarrow> database \<Rightarrow> docker_call list
     \<Rightarrow> (failure + nat \<times> verdict) \<times> database \<times> docker_call list" where
  "check_and_record env dedupe received_at s miner_id db h =
     (case check_entry (env\<lparr>pe_registry := (if dedupe then Some db else None)\<rparr>) s miner_id h of
        (Inl f, h') \<Rightarrow> (Inl f, db, h')
      | (Inr v, h') \<Rightarrow>
          (case record_verdict received_at v db of (row_id, db) \<Rightarrow>
             (Inr (row_id, v),
              (if dedupe \<and> \<not> vd_from_cache v then snd (register_verdict received_at v row_id db) else db), h')))"

section \<open>The ledger\<close>

text \<open>A verdict repeats a row: same miner, same outcome, and that row was really checked.\<close>

definition replays :: "submission_row \<Rightarrow> verdict \<Rightarrow> bool" where
  "replays q v \<longleftrightarrow> vd_duplicate_of v = Some (sr_id q) \<and> \<not> vd_from_cache (sr_verdict q) \<and>
     \<not> validator_fault (sr_verdict q) \<and> vd_status v = vd_status (sr_verdict q) \<and>
     vd_reject_reason v = vd_reject_reason (sr_verdict q) \<and>
     vd_stage_reached v = vd_stage_reached (sr_verdict q) \<and> vd_miner_id v = vd_miner_id (sr_verdict q)"

text \<open>The submission an agent row rests on.\<close>

definition backs :: "submission_row \<Rightarrow> agent_row \<Rightarrow> bool" where
  "backs q a \<longleftrightarrow> sr_id q = ag_first_submission a \<and> vd_status (sr_verdict q) = ACCEPTED \<and>
     \<not> vd_from_cache (sr_verdict q) \<and> vd_miner_id (sr_verdict q) = ag_owner a \<and>
     ev_agent_digest (vd_evidence (sr_verdict q)) = Some (ag_digest a) \<and> ag_digest a \<noteq> []"

definition ledger_wf :: "database \<Rightarrow> bool" where
  "ledger_wf db \<longleftrightarrow>
     distinct (map sr_id (db_submissions db)) \<and>
     (\<forall>q \<in> set (db_submissions db). sr_id q \<le> db_last_submission db \<and> verdict_wf (sr_verdict q) \<and>
        (vd_from_cache (sr_verdict q) \<longrightarrow> (\<exists>q' \<in> set (db_submissions db). replays q' (sr_verdict q)))) \<and>
     distinct (map ag_digest (db_agents db)) \<and>
     (\<forall>a \<in> set (db_agents db). \<exists>q \<in> set (db_submissions db). backs q a)"

definition admitted :: "database option \<Rightarrow> string \<Rightarrow> string option \<Rightarrow> bool" where
  "admitted reg miner_id digest \<longleftrightarrow> (case (reg, digest) of
      (Some db, Some d) \<Rightarrow> d = [] \<or> agent_owner db d \<in> {None, Some miner_id}
    | _ \<Rightarrow> True)"

definition sound_verdict :: "database option \<Rightarrow> string \<Rightarrow> verdict \<Rightarrow> bool" where
  "sound_verdict reg miner_id v \<longleftrightarrow> verdict_wf v \<and> vd_miner_id v = miner_id \<and>
     (if vd_from_cache v
      then (\<exists>db. reg = Some db \<and> (\<exists>q \<in> set (db_submissions db). replays q v))
      else vd_status v = ACCEPTED \<longrightarrow> admitted reg miner_id (ev_agent_digest (vd_evidence v)))"

definition registry_wf :: "database option \<Rightarrow> bool" where
  "registry_wf reg = (case reg of None \<Rightarrow> True | Some db \<Rightarrow> ledger_wf db)"

lemma latest_checked_SomeD:
  assumes "latest_checked_for_sha256 db sha = Some q"
  shows "q \<in> set (db_submissions db) \<and> \<not> vd_from_cache (sr_verdict q) \<and> \<not> validator_fault (sr_verdict q)"
proof -
  have "q \<in> set (submissions_for_sha256 db sha)" "replayable q"
    using assms by (auto simp: latest_checked_for_sha256_def find_Some_iff)
  then show ?thesis
    by (auto simp: submissions_for_sha256_def replayable_def validator_fault_def split: option.splits)
qed

lemma get_submission_SomeD:
  "get_submission db i = Some q \<Longrightarrow> q \<in> set (db_submissions db) \<and> sr_id q = i"
  by (auto simp: get_submission_def find_Some_iff)

lemma get_agent_SomeD: "get_agent db d = Some a \<Longrightarrow> a \<in> set (db_agents db) \<and> ag_digest a = d"
  by (auto simp: get_agent_def find_Some_iff)

text \<open>The row an agent's entry points at is the accepted one it rests on.\<close>

lemma first_submission_backs:
  assumes "ledger_wf db" "a \<in> set (db_agents db)" "get_submission db (ag_first_submission a) = Some q"
  shows "backs q a"
proof -
  obtain q' where q': "q' \<in> set (db_submissions db)" "backs q' a"
    using assms(1,2) by (auto simp: ledger_wf_def)
  have "sr_id q = sr_id q'" "q \<in> set (db_submissions db)"
    using get_submission_SomeD [OF assms(3)] q'(2) by (simp_all add: backs_def)
  moreover have "inj_on sr_id (set (db_submissions db))"
    using assms(1) by (simp add: ledger_wf_def distinct_map)
  ultimately have "q = q'" using q'(1) by (auto dest: inj_onD)
  with q'(2) show ?thesis by simp
qed

lemma cached_verdict_sound:
  assumes "q \<in> set (db_submissions db)" "\<not> vd_from_cache (sr_verdict q)" "\<not> validator_fault (sr_verdict q)"
    and "vd_miner_id (sr_verdict q) = m" "verdict_wf (sr_verdict q)"
  shows "sound_verdict (Some db) m (cached_verdict q m path ev)"
proof -
  have "replays q (cached_verdict q m path ev)"
    using assms by (simp add: replays_def cached_verdict_def Let_def)
  moreover have "verdict_wf (cached_verdict q m path ev) \<and> vd_from_cache (cached_verdict q m path ev) \<and>
      vd_miner_id (cached_verdict q m path ev) = m"
    using assms(5) by (simp add: verdict_wf_def cached_verdict_def Let_def)
  ultimately show ?thesis using assms(1) by (auto simp: sound_verdict_def)
qed

lemma duplicate_verdict_sound [simp]: "sound_verdict reg m (duplicate_verdict m path s owner i ev)"
  by (simp add: sound_verdict_def duplicate_verdict_def reject_def verdict_wf_def)

lemma reject_failure_sound [simp]: "sound_verdict reg m (reject_failure m path s f ev)"
  by (simp add: sound_verdict_def reject_failure_def reject_def verdict_wf_def split: failure.split)

lemma accept_sound: "admitted reg m (ev_agent_digest ev) \<Longrightarrow> sound_verdict reg m (accept m path s ev)"
  by (simp add: sound_verdict_def accept_def verdict_wf_def)

text \<open>Stage by stage.\<close>

lemmas stage_defs = goes_on_def raises_def returns_def

lemma stage_file_sound:
  assumes "registry_wf (pe_registry env)" "stage_file env f m r h = (Inr (Some v), r', h')"
  shows "sound_verdict (pe_registry env) m v"
proof (cases "pe_registry env")
  case None
  with assms(2) show ?thesis by (auto simp: stage_file_def stage_defs Let_def split: sum.splits)
next
  case (Some db)
  obtain info where "check_file MAX_FILE_SIZE_BYTES (sf_view f) = Inr info"
    using assms(2) by (auto simp: stage_file_def stage_defs Let_def split: sum.splits)
  with assms(2) Some obtain seen where seen: "latest_checked_for_sha256 db (fi_sha256 info) = Some seen"
    and v: "if vd_miner_id (sr_verdict seen) = m
        then \<exists>ev. v = cached_verdict seen m (sf_path f) ev
        else \<exists>i ev. v = duplicate_verdict m (sf_path f) FILE (vd_miner_id (sr_verdict seen)) i ev"
    by (auto simp: stage_file_def stage_defs Let_def split: option.splits if_splits)
  note q = latest_checked_SomeD [OF seen]
  then have "verdict_wf (sr_verdict seen)" using assms(1) Some by (simp add: registry_wf_def ledger_wf_def)
  with v q Some show ?thesis by (auto intro: cached_verdict_sound split: if_splits)
qed

lemma stage_file_on:
  assumes "stage_file env f m r h = (Inr None, r', h')"
  shows "ev_agent_digest (rn_evidence r') = ev_agent_digest (rn_evidence r) \<and> rn_image r' = rn_image r"
  using assms by (auto simp: stage_file_def stage_defs Let_def add_file_def split: sum.splits option.splits if_splits)

lemma stage_structure_result:
  assumes "stage_structure env f r h = (res, r', h')"
  shows "res \<noteq> Inr (Some v) \<and> h' = h \<and> rn_image r' = rn_image r \<and>
    ev_agent_digest (rn_evidence r') = ev_agent_digest (rn_evidence r)"
  using assms by (auto simp: stage_structure_def stage_defs Let_def add_structure_def split: sum.splits)

lemma dedupe_agent_sound:
  assumes "registry_wf (pe_registry env)" "dedupe_agent env subject m digest r h = (Inr (Some v), r', h')"
  shows "sound_verdict (pe_registry env) m v"
proof -
  obtain db d known where db: "pe_registry env = Some db" and d: "digest = Some d" "d \<noteq> []"
    and known: "get_agent db d = Some known"
    using assms(2) by (auto simp: dedupe_agent_def stage_defs split: option.splits if_splits)
  have wf: "ledger_wf db" using assms(1) db by (simp add: registry_wf_def)
  show ?thesis
  proof (cases "ag_owner known = m")
    case False
    with assms(2) db d known show ?thesis by (auto simp: dedupe_agent_def stage_defs)
  next
    case True
    with assms(2) db d known obtain q where q: "get_submission db (ag_first_submission known) = Some q"
      and v: "v = cached_verdict q m subject (rn_evidence r)"
      by (auto simp: dedupe_agent_def stage_defs split: option.splits)
    have b: "backs q known" using first_submission_backs [OF wf] get_agent_SomeD [OF known] q by blast
    note q_in = get_submission_SomeD [OF q]
    have wf_q: "verdict_wf (sr_verdict q)" using wf q_in by (simp add: ledger_wf_def)
    then have "\<not> validator_fault (sr_verdict q)"
      using b by (simp add: verdict_wf_def backs_def validator_fault_def)
    with b q_in wf_q True show ?thesis
      unfolding v db by (intro cached_verdict_sound) (auto simp: backs_def)
  qed
qed

lemma dedupe_agent_on:
  assumes "dedupe_agent env subject m digest r h = (Inr None, r', h')"
  shows "r' = r \<and> admitted (pe_registry env) m digest"
  using assms
  by (auto simp: dedupe_agent_def stage_defs admitted_def agent_owner_def
      split: option.splits if_splits)

lemma judge_image_sound:
  assumes "registry_wf (pe_registry env)" "judge_image env subject m img r h = (Inr (Some v), r', h')"
  shows "sound_verdict (pe_registry env) m v"
  using assms dedupe_agent_sound
  by (auto simp: judge_image_def Let_def raises_def split: option.splits sum.splits)

lemma judge_image_on:
  assumes "judge_image env subject m img r h = (Inr None, r', h')" "ev_agent_digest (rn_evidence r) = None"
  shows "admitted (pe_registry env) m (ev_agent_digest (rn_evidence r'))"
  using assms
  by (auto simp: judge_image_def Let_def raises_def keep_old_def add_image_def
      dest!: dedupe_agent_on split: option.splits sum.splits)

lemma examine_sound:
  assumes "registry_wf (pe_registry env)" "examine env subject m ref r h = (Inr v, r', h')"
    and "ev_agent_digest (rn_evidence r) = None"
  shows "sound_verdict (pe_registry env) m v"
proof -
  consider r1 h1 where "stage_inspect env subject m ref r h = (Inr (Some v), r1, h1)"
    | r1 h1 where "stage_inspect env subject m ref r h = (Inr None, r1, h1)"
        "stage_dry_run env subject m ref r1 h1 = (Inr v, r', h')"
    using assms(2) by (auto simp: examine_def then_stage_def split: prod.splits sum.splits option.splits)
  then show ?thesis
  proof cases
    case 1
    then obtain img h2 where "judge_image env subject m img (r\<lparr>rn_stage := INSPECT\<rparr>) h2 = (Inr (Some v), r1, h1)"
      by (auto simp: stage_inspect_def with_docker_def split: prod.splits sum.splits)
    then show ?thesis using judge_image_sound [OF assms(1)] by blast
  next
    case 2
    from 2(1) obtain img h2 where "judge_image env subject m img (r\<lparr>rn_stage := INSPECT\<rparr>) h2 = (Inr None, r1, h1)"
      by (auto simp: stage_inspect_def with_docker_def split: prod.splits sum.splits)
    then have adm: "admitted (pe_registry env) m (ev_agent_digest (rn_evidence r1))"
      using judge_image_on assms(3) by fastforce
    from 2(2) obtain s ev where "v = accept m subject s ev" "ev_agent_digest ev = ev_agent_digest (rn_evidence r1)"
      by (auto simp: stage_dry_run_def with_docker_def judge_dry_run_def add_dry_run_def Let_def
          split: prod.splits sum.splits if_splits option.splits)
    with adm show ?thesis using accept_sound by metis
  qed
qed

lemma conclude_sound:
  assumes "fst (conclude env subject m (res, r, h)) = Inr v"
    and "\<And>w. res = Inr w \<Longrightarrow> sound_verdict reg m w"
  shows "sound_verdict reg m v"
proof -
  have "v = (case res of Inr v \<Rightarrow> v | Inl f \<Rightarrow> reject_failure m subject (rn_stage r) f (rn_evidence r))"
    using assms(1)
    by (auto simp: conclude_def Let_def split: option.splits if_splits prod.splits sum.splits)
  with assms(2) show ?thesis by (cases res) auto
qed

lemma check_submission_sound:
  assumes "registry_wf (pe_registry env)" "fst (check_submission env f m h) = Inr v"
  shows "sound_verdict (pe_registry env) m v"
proof -
  let ?run = "then_stage (stage_file env f m) (then_stage (stage_structure env f) (load_file env f m))
    (fresh_run FILE no_evidence) h"
  obtain res r h' where run: "?run = (res, r, h')" by (cases ?run) auto
  have "sound_verdict (pe_registry env) m w" if "res = Inr w" for w
  proof -
    have run': "?run = (Inr w, r, h')" using run that by simp
    consider r1 h1 where "stage_file env f m (fresh_run FILE no_evidence) h = (Inr (Some w), r1, h1)"
      | r1 h1 r2 h2 where "stage_file env f m (fresh_run FILE no_evidence) h = (Inr None, r1, h1)"
          "stage_structure env f r1 h1 = (Inr None, r2, h2)" "load_file env f m r2 h2 = (Inr w, r, h')"
      using run' stage_structure_result [of env f _ _ "Inr (Some w)" _ _ w]
      by (auto simp: then_stage_def [of "stage_file env f m"] then_stage_def [of "stage_structure env f"]
          split: prod.splits sum.splits option.splits)
    then show ?thesis
    proof cases
      case 1
      then show ?thesis using stage_file_sound [OF assms(1)] by blast
    next
      case 2
      have "ev_agent_digest (rn_evidence r2) = None"
        using stage_file_on [OF 2(1)] stage_structure_result [OF 2(2)]
        by (simp add: fresh_run_def no_evidence_def)
      moreover obtain ref r3 h3 where "examine env (sf_path f) m ref r3 h3 = (Inr w, r, h')"
        "ev_agent_digest (rn_evidence r3) = ev_agent_digest (rn_evidence r2)"
        using 2(3) by (fastforce simp: load_file_def with_docker_def split: prod.splits sum.splits)
      ultimately show ?thesis using examine_sound [OF assms(1)] by metis
    qed
  qed
  with conclude_sound [of env "sf_path f" m res r h' v] assms(2) run show ?thesis
    by (simp add: check_submission_def)
qed

lemma check_registry_submission_sound:
  assumes "registry_wf (pe_registry env)" "fst (check_registry_submission env ref m h) = Inr v"
  shows "sound_verdict (pe_registry env) m v"
proof -
  let ?r = "fresh_run LOAD (no_evidence\<lparr>ev_source := ''registry''\<rparr>)"
  obtain res r h' where run: "load_reference env ref m ?r h = (res, r, h')"
    by (cases "load_reference env ref m ?r h") auto
  have "sound_verdict (pe_registry env) m w" if w: "res = Inr w" for w
  proof -
    obtain d r3 h3 where "examine env ref m d r3 h3 = (Inr w, r, h')"
        "ev_agent_digest (rn_evidence r3) = None"
      using run w by (fastforce simp: load_reference_def with_docker_def fresh_run_def no_evidence_def
          split: prod.splits sum.splits)
    then show ?thesis using examine_sound [OF assms(1)] by metis
  qed
  with conclude_sound [of env ref m res r h' v] assms(2) run show ?thesis
    by (simp add: check_registry_submission_def)
qed

text \<open>Writing to the ledger.\<close>

lemma replays_in_more: "(\<exists>q \<in> set xs. replays q v) \<Longrightarrow> set xs \<subseteq> set ys \<Longrightarrow> \<exists>q \<in> set ys. replays q v"
  by blast

lemma record_verdict_ledger:
  assumes wf: "ledger_wf db" and v: "sound_verdict (if dedupe then Some db else None) m v"
  shows "ledger_wf (snd (record_verdict t v db))"
proof -
  let ?row = "\<lparr>sr_id = db_last_submission db + 1, sr_received_at = t, sr_verdict = v\<rparr>"
  have rows: "db_submissions (snd (record_verdict t v db)) = db_submissions db @ [?row]"
    "db_last_submission (snd (record_verdict t v db)) = db_last_submission db + 1"
    "db_agents (snd (record_verdict t v db)) = db_agents db"
    by (simp_all add: record_verdict_def Let_def)
  have fresh: "db_last_submission db + 1 \<notin> set (map sr_id (db_submissions db))"
    using wf by (auto simp: ledger_wf_def)
  have new: "verdict_wf v" "vd_from_cache v \<longrightarrow> (\<exists>q \<in> set (db_submissions db). replays q v)"
    using v by (auto simp: sound_verdict_def split: if_splits)
  have old: "sr_id q \<le> db_last_submission db + 1 \<and> verdict_wf (sr_verdict q) \<and>
      (vd_from_cache (sr_verdict q) \<longrightarrow> (\<exists>q' \<in> set (db_submissions db @ [?row]). replays q' (sr_verdict q)))"
    if "q \<in> set (db_submissions db)" for q
    using wf that unfolding ledger_wf_def by fastforce
  show ?thesis
    unfolding ledger_wf_def rows
  proof (intro conjI ballI)
    show "distinct (map sr_id (db_submissions db @ [?row]))"
      using wf fresh by (simp add: ledger_wf_def)
    show "distinct (map ag_digest (db_agents db))" using wf by (simp add: ledger_wf_def)
    fix a
    assume "a \<in> set (db_agents db)"
    then show "\<exists>q \<in> set (db_submissions db @ [?row]). backs q a" using wf by (auto simp: ledger_wf_def)
  next
    fix q
    assume q: "q \<in> set (db_submissions db @ [?row])"
    show "sr_id q \<le> db_last_submission db + 1" "verdict_wf (sr_verdict q)"
      "vd_from_cache (sr_verdict q) \<longrightarrow> (\<exists>q' \<in> set (db_submissions db @ [?row]). replays q' (sr_verdict q))"
      using q old new by auto
  qed
qed

lemma register_verdict_cases:
  "snd (register_verdict t v i db) = db \<or>
   (\<exists>d a. get_agent db d = None \<and> ag_digest a = d \<and> d \<noteq> [] \<and> ev_agent_digest (vd_evidence v) = Some d \<and>
      ag_owner a = vd_miner_id v \<and> ag_first_submission a = i \<and> vd_status v = ACCEPTED \<and>
      snd (register_verdict t v i db) = db\<lparr>db_agents := db_agents db @ [a]\<rparr>)"
proof (cases "ev_agent_digest (vd_evidence v)")
  case (Some d)
  let ?a = "\<lparr>ag_digest = d, ag_owner = vd_miner_id v, ag_first_submission = i, ag_first_seen_at = t,
    ag_image_id = ev_image_id (vd_evidence v), ag_repo_tags = ev_repo_tags (vd_evidence v),
    ag_entrypoint = ev_entrypoint (vd_evidence v)\<rparr>"
  show ?thesis
  proof (cases "d \<noteq> [] \<and> vd_status v = ACCEPTED \<and> get_agent db d = None")
    case True
    then have "snd (register_verdict t v i db) = db\<lparr>db_agents := db_agents db @ [?a]\<rparr>"
      using Some get_agent_None [of db d] by (auto simp: register_verdict_def register_agent_def)
    with True Some show ?thesis by (intro disjI2 exI [of _ d] exI [of _ ?a]) simp
  next
    case False
    then have "snd (register_verdict t v i db) = db"
      using Some get_agent_None [of db d] by (auto simp: register_verdict_def register_agent_def)
    then show ?thesis by blast
  qed
qed (simp add: register_verdict_def)

lemma register_verdict_ledger:
  assumes wf: "ledger_wf db" and row: "q \<in> set (db_submissions db)" "sr_id q = i" "sr_verdict q = v"
    and "\<not> vd_from_cache v"
  shows "ledger_wf (snd (register_verdict t v i db))"
proof -
  consider "snd (register_verdict t v i db) = db"
    | d a where "get_agent db d = None" "ag_digest a = d" "d \<noteq> []" "ev_agent_digest (vd_evidence v) = Some d"
        "ag_owner a = vd_miner_id v" "ag_first_submission a = i" "vd_status v = ACCEPTED"
        "snd (register_verdict t v i db) = db\<lparr>db_agents := db_agents db @ [a]\<rparr>"
    using register_verdict_cases [of t v i db] by blast
  then show ?thesis
  proof cases
    case 1
    with wf show ?thesis by simp
  next
    case 2
    have "backs q a" using row 2 assms(5) by (simp add: backs_def)
    moreover have "d \<notin> set (map ag_digest (db_agents db))" using 2(1) get_agent_None by auto
    ultimately show ?thesis
      using wf row(1) 2(2,8) by (auto simp: ledger_wf_def)
  qed
qed

lemma register_verdict_keeps:
  "get_agent db d = Some a \<Longrightarrow> get_agent (snd (register_verdict t v i db)) d = Some a"
  using register_verdict_cases [of t v i db] by (auto simp: get_agent_append)

lemma get_agent_record [simp]: "get_agent (snd (record_verdict t v db)) d = get_agent db d"
  by (simp add: record_verdict_def get_agent_def Let_def)

lemma check_entry_sound:
  "registry_wf (pe_registry env) \<Longrightarrow> fst (check_entry env s m h) = Inr v \<Longrightarrow> sound_verdict (pe_registry env) m v"
  using check_submission_sound check_registry_submission_sound
  by (auto simp: check_entry_def split: submission.splits)

text \<open>A call that recorded something, in terms of its parts.\<close>

lemma check_and_record_InrE:
  assumes "check_and_record env dedupe t s m db h = (Inr (i, v), db', h')"
  obtains "fst (check_entry (env\<lparr>pe_registry := (if dedupe then Some db else None)\<rparr>) s m h) = Inr v"
    "i = db_last_submission db + 1"
    "db' = (if dedupe \<and> \<not> vd_from_cache v
            then snd (register_verdict t v i (snd (record_verdict t v db))) else snd (record_verdict t v db))"
proof -
  from assms obtain h1 where e: "check_entry (env\<lparr>pe_registry := (if dedupe then Some db else None)\<rparr>) s m h = (Inr v, h1)"
    and r: "i = fst (record_verdict t v db)"
    and d: "db' = (if dedupe \<and> \<not> vd_from_cache v
            then snd (register_verdict t v i (snd (record_verdict t v db))) else snd (record_verdict t v db))"
    unfolding check_and_record_def by (auto simp del: if_split split: prod.splits sum.splits)
  have "i = db_last_submission db + 1" using r by (simp add: record_verdict_def Let_def)
  with that e d show ?thesis by (metis fst_conv)
qed

lemma check_and_record_parts:
  assumes "ledger_wf db" "check_and_record env dedupe t s m db h = (Inr (i, v), db', h')"
  shows "sound_verdict (if dedupe then Some db else None) m v \<and> ledger_wf db' \<and>
    (\<forall>d a. get_agent db d = Some a \<longrightarrow> get_agent db' d = Some a)"
proof -
  let ?env = "env\<lparr>pe_registry := (if dedupe then Some db else None)\<rparr>"
  from assms(2) show ?thesis
  proof (rule check_and_record_InrE)
    assume e: "fst (check_entry ?env s m h) = Inr v" and i: "i = db_last_submission db + 1"
      and db': "db' = (if dedupe \<and> \<not> vd_from_cache v
            then snd (register_verdict t v i (snd (record_verdict t v db))) else snd (record_verdict t v db))"
    have "registry_wf (pe_registry ?env)" using assms(1) by (simp add: registry_wf_def)
    from check_entry_sound [OF this e] have v: "sound_verdict (if dedupe then Some db else None) m v" by simp
    note rec = record_verdict_ledger [OF assms(1) v, of t]
    have row: "\<lparr>sr_id = i, sr_received_at = t, sr_verdict = v\<rparr> \<in> set (db_submissions (snd (record_verdict t v db)))"
      using i by (simp add: record_verdict_def Let_def)
    have "ledger_wf db'" using rec register_verdict_ledger [OF rec row] db' by simp
    moreover have "\<forall>d a. get_agent db d = Some a \<longrightarrow> get_agent db' d = Some a"
      using db' by (simp add: register_verdict_keeps)
    ultimately show ?thesis using v by blast
  qed
qed

section \<open>Gates and cleanup\<close>

lemma dedupe_agent_image: "dedupe_agent env subject m digest r h = (res, r', h') \<Longrightarrow> rn_image r' = rn_image r"
  by (auto simp: dedupe_agent_def stage_defs split: option.splits if_splits)

lemma judge_image_image: "judge_image env subject m img r h = (res, r', h') \<Longrightarrow> rn_image r' = rn_image r"
  by (auto simp: judge_image_def Let_def raises_def dest!: dedupe_agent_image split: option.splits sum.splits)

lemma stage_inspect_image: "stage_inspect env subject m ref r h = (res, r', h') \<Longrightarrow> rn_image r' = rn_image r"
  by (auto simp: stage_inspect_def with_docker_def dest!: judge_image_image split: prod.splits sum.splits)

lemma stage_dry_run_image: "stage_dry_run env subject m ref r h = (res, r', h') \<Longrightarrow> rn_image r' = rn_image r"
  by (auto simp: stage_dry_run_def with_docker_def judge_dry_run_def Let_def
      split: prod.splits sum.splits if_splits option.splits)

lemma examine_image: "examine env subject m ref r h = (res, r', h') \<Longrightarrow> rn_image r' = rn_image r"
  by (auto simp: examine_def then_stage_def dest!: stage_inspect_image stage_dry_run_image
      split: prod.splits sum.splits option.splits)

lemma load_image_safe: "load_image runner path h = (Inr ref, h') \<Longrightarrow> safe_image_ref ref"
proof -
  assume "load_image runner path h = (Inr ref, h')"
  then have "fst (load_image runner path h) = Inr ref" by simp
  then show ?thesis
    unfolding load_image_def
    by (rule dbind_InrE)
      (auto simp: Let_def dfail_def dreturn_def assert_safe_image_ref_def split: if_splits option.splits)
qed

lemma remove_image_result:
  assumes "safe_image_ref ref"
  shows "snd (remove_image runner ref h) = h @ [[''image'', ''rm'', ''--force'', ref]] \<and>
    (\<forall>c. fst (remove_image runner ref h) = Inl c \<longrightarrow>
       (\<exists>msg. runner h [''image'', ''rm'', ''--force'', ref] = Run_Crash msg))"
  using assms
  by (auto simp: remove_image_def assert_safe_image_ref_def docker_defs run_docker_def
      split: run_outcome.splits if_splits)

lemma conclude_image:
  assumes "rn_image r = Some ref" "safe_image_ref ref" "\<not> pe_keep_image env"
  shows "last (snd (conclude env subject m (res, r, h))) = [''image'', ''rm'', ''--force'', ref]"
  using assms remove_image_result [OF assms(2), of "pe_runner env" h]
  by (auto simp: conclude_def Let_def split: prod.splits sum.splits)

lemma conclude_total:
  assumes "fst (conclude env subject m (res, r, h)) = Inl c" "\<And>ref. rn_image r = Some ref \<Longrightarrow> safe_image_ref ref"
  shows "\<exists>ref h msg. pe_runner env h [''image'', ''rm'', ''--force'', ref] = Run_Crash msg"
proof -
  obtain ref where ref: "rn_image r = Some ref" "fst (remove_image (pe_runner env) ref h) = Inl c"
    using assms(1) by (auto simp: conclude_def Let_def split: option.splits if_splits prod.splits sum.splits)
  then show ?thesis using remove_image_result [OF assms(2) [OF ref(1)], of "pe_runner env" h] by blast
qed

text \<open>The run of a file: how it depends on the two stages that read the bytes.\<close>

definition file_run :: "pipeline_env \<Rightarrow> submitted_file \<Rightarrow> string \<Rightarrow> docker_call list
    \<Rightarrow> (failure + verdict) \<times> run_state \<times> docker_call list" where
  "file_run env f m h =
     then_stage (stage_file env f m) (then_stage (stage_structure env f) (load_file env f m))
       (fresh_run FILE no_evidence) h"

lemma stage_file_history: "stage_file env f m r h = (res, r', h') \<Longrightarrow> h' = h \<and> rn_image r' = rn_image r"
  by (auto simp: stage_file_def stage_defs Let_def split: sum.splits option.splits if_splits)

lemma file_run_cases:
  obtains res r where "file_run env f m h = (res, r, h)" "rn_image r = None"
  | info st r2 where "check_file MAX_FILE_SIZE_BYTES (sf_view f) = Inr info"
      "check_structure (pe_loads env) (pe_rp env) MAX_UNCOMPRESSED_BYTES MAX_TAR_ENTRIES (sf_stream f) = Inr st"
      "file_run env f m h = load_file env f m r2 h" "rn_image r2 = None"
proof -
  obtain res1 r1 h1 where 1: "stage_file env f m (fresh_run FILE no_evidence) h = (res1, r1, h1)"
    by (cases "stage_file env f m (fresh_run FILE no_evidence) h") auto
  obtain res2 r2 h2 where 2: "stage_structure env f r1 h1 = (res2, r2, h2)"
    by (cases "stage_structure env f r1 h1") auto
  have none: "h1 = h" "h2 = h" "rn_image r1 = None" "rn_image r2 = None"
    using stage_file_history [OF 1] stage_structure_result [OF 2] by (simp_all add: fresh_run_def)
  show ?thesis
  proof (cases "res1 = Inr None \<and> res2 = Inr None")
    case True
    have "file_run env f m h = load_file env f m r2 h"
      using 1 2 True none by (simp add: file_run_def then_stage_def)
    moreover obtain info where "check_file MAX_FILE_SIZE_BYTES (sf_view f) = Inr info"
      using 1 True by (auto simp: stage_file_def stage_defs Let_def split: sum.splits)
    moreover obtain st where "check_structure (pe_loads env) (pe_rp env) MAX_UNCOMPRESSED_BYTES MAX_TAR_ENTRIES (sf_stream f) = Inr st"
      using 2 True by (auto simp: stage_structure_def stage_defs Let_def split: sum.splits)
    ultimately show ?thesis using that(2) none(4) by blast
  next
    case False
    then have "\<exists>res r. file_run env f m h = (res, r, h) \<and> rn_image r = None"
      using 1 2 none stage_structure_result [OF 2]
      by (auto simp: file_run_def then_stage_def split: sum.splits option.splits)
    then show ?thesis using that(1) by blast
  qed
qed

lemma load_file_failed:
  assumes "load_image (pe_runner env) (sf_path f) h = (Inl fl, h1)"
  shows "\<exists>r'. load_file env f m r h = (Inl fl, r', h1) \<and> rn_image r' = rn_image r"
  using assms by (simp add: load_file_def with_docker_def)

lemma load_file_image:
  assumes "load_file env f m r h = (res, r', h')" "rn_image r = None"
  shows "(case load_image (pe_runner env) (sf_path f) h of
      (Inl _, _) \<Rightarrow> rn_image r' = None | (Inr ref, _) \<Rightarrow> rn_image r' = Some ref \<and> safe_image_ref ref)"
  using assms
  by (auto simp: load_file_def with_docker_def dest!: examine_image dest: load_image_safe
      split: prod.splits sum.splits)

section \<open>A sample agent\<close>

text \<open>An archive, the daemon's answers to it, and the run they lead to.\<close>

definition sample_inspect :: json where
  "sample_inspect = JList [JDict [(''Id'', JStr ''sha256:1''), (''Architecture'', JStr ''amd64''), (''Os'', JStr ''linux''),
     (''Config'', JDict [(''Cmd'', JList [JStr ''run''])]), (''RootFS'', JDict [(''Layers'', JList [JStr ''l1''])])]]"

definition sample_loads :: "string \<Rightarrow> json_outcome" where
  "sample_loads raw = (if raw = ''M'' then Json (JList [JDict [(''Config'', JStr ''c''), (''Layers'', JList [])]])
     else Json sample_inspect)"

definition sample_runner :: runner where
  "sample_runner h args =
     (if hd args = ''load'' then Ran 0 ''Loaded image: a:1'' []
      else if hd args = ''create'' then Ran 0 ''0123456789ab'' []
      else if hd args = ''wait'' then Ran 0 ''0'' []
      else if take 4 args = [''image'', ''inspect'', ''--format'', ''{{json .}}''] then Ran 0 ''I'' []
      else if take 2 args = [''image'', ''inspect''] then Ran 0 sample_digest []
      else Ran 0 [] [])"

definition sample_env :: pipeline_env where
  "sample_env = \<lparr>pe_loads = sample_loads, pe_rp = (\<lambda>_. []), pe_sha256 = (\<lambda>s. s), pe_runner = sample_runner,
     pe_runtime = ''runsc'', pe_limits = default_limits, pe_duration_ms = 5, pe_keep_image = False,
     pe_skip_dry_run = False, pe_registry = None\<rparr>"

definition sample_file :: submitted_file where
  "sample_file = \<lparr>sf_path = ''agent.tar'',
     sf_view = \<lparr>fv_is_file = True, fv_size = 10, fv_head = GZIP_MAGIC, fv_sha256 = ''00''\<rparr>,
     sf_stream = ([\<lparr>tm_name = ''manifest.json'', tm_type = REGTYPE, tm_linkname = [], tm_size = 1,
        tm_data = Some ''M''\<rparr>], None)\<rparr>"

definition sample_run :: run_state where
  "sample_run = \<lparr>rn_stage = STRUCTURE, rn_evidence = no_evidence\<lparr>ev_file_sha256 := Some ''00'',
     ev_file_size := Some 10, ev_layer_count := Some 0\<rparr>, rn_image = None\<rparr>"

lemma sample_file_ok: "check_file MAX_FILE_SIZE_BYTES (sf_view sample_file) = Inr \<lparr>fi_size = 10, fi_sha256 = ''00'', fi_compression = GZIP\<rparr>"
  by (simp add: check_file_def MAX_FILE_SIZE_BYTES_def sample_file_def sniff_compression_def GZIP_MAGIC_def)

lemma sample_structure_ok: "check_structure sample_loads (\<lambda>_. []) MAX_UNCOMPRESSED_BYTES MAX_TAR_ENTRIES (sf_stream sample_file) =
   Inr \<lparr>st_format = DOCKER_ARCHIVE, st_entry_count = 1, st_declared_size = 1, st_repo_tags = [],
        st_layer_count = Some 0, st_config_entry = Some ''c''\<rparr>"
    by (simp add: check_structure_def scan_member_def assert_safe_member_def is_unsafe_path_def sample_file_def sample_loads_def jget_def
        windows_drive_def path_parts_def empty_scan_def read_metadata_def normalize_name_def
        MAX_UNCOMPRESSED_BYTES_def MAX_TAR_ENTRIES_def MAX_METADATA_BYTES_def parse_docker_manifest_def)

lemma sample_submission: "check_submission sample_env sample_file ''alice'' [] =
   conclude sample_env ''agent.tar'' ''alice'' (load_file sample_env sample_file ''alice'' sample_run [])"
proof -
  have 1: "stage_file sample_env sample_file ''alice'' (fresh_run FILE no_evidence) [] =
     (Inr None, \<lparr>rn_stage = FILE, rn_evidence = no_evidence\<lparr>ev_file_sha256 := Some ''00'',
     ev_file_size := Some 10\<rparr>, rn_image = None\<rparr>, [])"
    by (simp add: stage_file_def sample_file_ok Let_def goes_on_def add_file_def sample_env_def fresh_run_def)
  have 2: "stage_structure sample_env sample_file \<lparr>rn_stage = FILE, rn_evidence = no_evidence\<lparr>ev_file_sha256 := Some ''00'',
     ev_file_size := Some 10\<rparr>, rn_image = None\<rparr> [] = (Inr None, sample_run, [])"
    using sample_structure_ok by (simp add: stage_structure_def Let_def goes_on_def add_structure_def sample_env_def sample_run_def keep_old_list_def keep_old_def no_evidence_def)
  have "sf_path sample_file = ''agent.tar''" by (simp add: sample_file_def)
  with 1 2 show ?thesis by (simp add: check_submission_def then_stage_def)
qed

section \<open>Properties\<close>

text \<open>C16: Docker sees no byte that was not checked, and what was loaded under a name is removed.  If checking
  a file issues any Docker command, the file passed both stages that read it without Docker.  If the load
  answered with a reference that can be read, whatever happened next (a rejection, a crash, a
  duplicate, an acceptance) the last command is the forced removal of that reference, unless the
  caller asked to keep it; if the load failed or its answer names no such reference, the load is the
  last command, nothing is removed, and the file is not accepted.  A verdict for this miner is returned,
  well-formed, unless that removal command itself crashes, which a caller that keeps the image is spared.\<close>

theorem submission_is_gated_and_cleaned_up:
  assumes "registry_wf (pe_registry env)"
  shows "(snd (check_submission env f m h) \<noteq> h \<longrightarrow>
      (\<exists>info st. check_file MAX_FILE_SIZE_BYTES (sf_view f) = Inr info \<and>
         check_structure (pe_loads env) (pe_rp env) MAX_UNCOMPRESSED_BYTES MAX_TAR_ENTRIES (sf_stream f) = Inr st) \<and>
      (\<forall>ref h'. load_image (pe_runner env) (sf_path f) h = (Inr ref, h') \<and> \<not> pe_keep_image env \<longrightarrow>
         last (snd (check_submission env f m h)) = [''image'', ''rm'', ''--force'', ref]) \<and>
      (\<forall>failed h'. load_image (pe_runner env) (sf_path f) h = (Inl failed, h') \<longrightarrow>
         snd (check_submission env f m h) = h' \<and>
         (\<exists>v. fst (check_submission env f m h) = Inr v \<and> vd_status v \<noteq> ACCEPTED))) \<and>
   (case fst (check_submission env f m h) of
      Inr v \<Rightarrow> verdict_wf v \<and> vd_miner_id v = m
    | Inl _ \<Rightarrow> \<not> pe_keep_image env \<and>
        (\<exists>ref hist msg. pe_runner env hist [''image'', ''rm'', ''--force'', ref] = Run_Crash msg))"
proof -
  obtain res r h' where run: "file_run env f m h = (res, r, h')" by (cases "file_run env f m h") auto
  have sub: "check_submission env f m h = conclude env (sf_path f) m (res, r, h')"
    using run by (simp add: check_submission_def file_run_def)
  have sound: "verdict_wf v \<and> vd_miner_id v = m" if "fst (check_submission env f m h) = Inr v" for v
    using check_submission_sound [OF assms that] by (simp add: sound_verdict_def)
  show ?thesis
  proof (rule file_run_cases [of env f m h])
    fix res' r'
    assume "file_run env f m h = (res', r', h)" "rn_image r' = None"
    then have none: "rn_image r = None" "h' = h" using run by simp_all
    then have "snd (check_submission env f m h) = h" "\<exists>v. fst (check_submission env f m h) = Inr v"
      unfolding sub by (simp_all add: conclude_def Let_def)
    with sound show ?thesis by auto
  next
    fix info st r2
    assume ok: "check_file MAX_FILE_SIZE_BYTES (sf_view f) = Inr info"
      "check_structure (pe_loads env) (pe_rp env) MAX_UNCOMPRESSED_BYTES MAX_TAR_ENTRIES (sf_stream f) = Inr st"
      and load: "file_run env f m h = load_file env f m r2 h" and none: "rn_image r2 = None"
    have img: "case load_image (pe_runner env) (sf_path f) h of
        (Inl _, _) \<Rightarrow> rn_image r = None | (Inr ref, _) \<Rightarrow> rn_image r = Some ref \<and> safe_image_ref ref"
      by (rule load_file_image [OF _ none, of env f m h res r h']) (use run load in simp)
    then have safe: "safe_image_ref ref" if "rn_image r = Some ref" for ref
      using that by (auto split: prod.splits sum.splits)
    have crash: "\<not> pe_keep_image env \<and> (\<exists>ref hist msg. pe_runner env hist [''image'', ''rm'', ''--force'', ref] = Run_Crash msg)"
      if "fst (check_submission env f m h) = Inl c" for c
    proof -
      have "\<not> pe_keep_image env"
        using that unfolding sub by (auto simp: conclude_def Let_def split: option.splits)
      with conclude_total [of env "sf_path f" m res r h' c] that safe show ?thesis unfolding sub by blast
    qed
    have removed: "last (snd (check_submission env f m h)) = [''image'', ''rm'', ''--force'', ref]"
      if "load_image (pe_runner env) (sf_path f) h = (Inr ref, h1)" "\<not> pe_keep_image env" for ref h1
      using img that conclude_image [of r ref env "sf_path f" m res h'] unfolding sub by simp
    have failed: "snd (check_submission env f m h) = h1 \<and>
        (\<exists>v. fst (check_submission env f m h) = Inr v \<and> vd_status v \<noteq> ACCEPTED)"
      if "load_image (pe_runner env) (sf_path f) h = (Inl fl, h1)" for fl h1
      using load_file_failed [OF that, of m r2] none run load unfolding sub
      by (auto simp: conclude_def Let_def reject_failure_def reject_def split: failure.splits)
    from ok crash sound removed failed show ?thesis by (auto split: sum.splits)
  qed
qed

theorem submission_is_gated_and_cleaned_up_witness:
  "last (snd (check_submission sample_env sample_file ''alice'' [])) = [''image'', ''rm'', ''--force'', ''a:1''] \<and>
   (\<exists>v. fst (check_submission sample_env sample_file ''alice'' []) = Inr v \<and> vd_status v = ACCEPTED \<and> verdict_wf v)"
proof -
  have reg: "registry_wf (pe_registry sample_env)" by (simp add: registry_wf_def sample_env_def)
  have load: "load_image (pe_runner sample_env) (sf_path sample_file) [] =
      (Inr ''a:1'', [[''load'', ''--input'', ''agent.tar'']])" by code_simp
  have keep: "\<not> pe_keep_image sample_env" by (simp add: sample_env_def)
  have run: "map_prod (map_sum id vd_status) (\<lambda>h. h = []) (check_submission sample_env sample_file ''alice'' []) =
      (Inr ACCEPTED, False)" unfolding sample_submission by code_simp
  then obtain v h where v: "check_submission sample_env sample_file ''alice'' [] = (Inr v, h)"
    "vd_status v = ACCEPTED" "h \<noteq> []"
    by (cases "check_submission sample_env sample_file ''alice'' []"; cases "fst (check_submission sample_env sample_file ''alice'' [])")
      auto
  from submission_is_gated_and_cleaned_up [OF reg, of sample_file "''alice''" "[]"] load keep v
  show ?thesis by auto
qed

lemma check_and_record_sound:
  assumes "ledger_wf db"
  shows "ledger_wf (fst (snd (check_and_record env dedupe t s m db h))) \<and>
    (\<forall>d a. get_agent db d = Some a \<longrightarrow>
       get_agent (fst (snd (check_and_record env dedupe t s m db h))) d = Some a)"
proof (cases "fst (check_and_record env dedupe t s m db h)")
  case (Inl f)
  then have "fst (snd (check_and_record env dedupe t s m db h)) = db"
    by (auto simp: check_and_record_def split: prod.splits sum.splits)
  with assms show ?thesis by simp
next
  case (Inr iv)
  then obtain i v db' h' where "check_and_record env dedupe t s m db h = (Inr (i, v), db', h')"
    by (cases "check_and_record env dedupe t s m db h"; cases iv) auto
  with check_and_record_parts [OF assms this] show ?thesis by simp
qed

text \<open>C17: The ledger stays sound.  Whatever is submitted, in whichever way and with whatever Docker and the
  archive do: row ids stay unique, every verdict names a reason exactly when it rejects, every
  replayed row points at an earlier row of the same miner with the same outcome that was really
  checked and was not our own failure, no agent digest is stored twice, and every agent rests on an
  accepted submission of its owner that carries its digest.  An agent, once stored, never changes.\<close>

theorem ledger_stays_sound:
  assumes "ledger_wf db"
  shows "ledger_wf (fst (snd (check_and_record env dedupe t s m db h))) \<and>
    (\<forall>d a. get_agent db d = Some a \<longrightarrow>
       get_agent (fst (snd (check_and_record env dedupe t s m db h))) d = Some a)"
  using assms by (rule check_and_record_sound)

text \<open>Two miners submit the same image, one after the other.\<close>

definition sample_ledger :: "string list \<Rightarrow> database" where
  "sample_ledger miners = foldl (\<lambda>db m. fst (snd
     (check_and_record sample_env True ''now'' (By_Reference ''ghcr.io/org/agent:1'') m db []))) empty_db miners"

lemma empty_ledger_wf [wf_intros, simp]: "ledger_wf empty_db"
  by (simp add: ledger_wf_def empty_db_def)

theorem ledger_stays_sound_witness:
  "ledger_wf (sample_ledger [''alice'']) \<and>
   map (\<lambda>q. (vd_status (sr_verdict q), vd_reject_reason (sr_verdict q)))
     (db_submissions (sample_ledger [''alice'', ''bob''])) = [(ACCEPTED, None), (REJECTED, Some DUPLICATE_AGENT)]"
proof
  show "ledger_wf (sample_ledger [''alice''])"
    using ledger_stays_sound [OF empty_ledger_wf] by (simp add: sample_ledger_def)
  show "map (\<lambda>q. (vd_status (sr_verdict q), vd_reject_reason (sr_verdict q)))
     (db_submissions (sample_ledger [''alice'', ''bob''])) = [(ACCEPTED, None), (REJECTED, Some DUPLICATE_AGENT)]"
    by code_simp
qed

text \<open>C18: An agent belongs to whoever was accepted with it first.  When a freshly checked submission is
  accepted, its agent is, from then on, owned by this miner, and nobody else owned it before: a
  copy of another miner's agent is never accepted.\<close>

theorem accepted_agent_has_one_owner:
  assumes "ledger_wf db" "fst (check_and_record env True t s m db h) = Inr (i, v)"
    and "vd_status v = ACCEPTED" "\<not> vd_from_cache v"
    and "ev_agent_digest (vd_evidence v) = Some d" "d \<noteq> []"
  shows "agent_owner (fst (snd (check_and_record env True t s m db h))) d = Some m \<and>
    agent_owner db d \<in> {None, Some m}"
proof -
  obtain db' h' where run: "check_and_record env True t s m db h = (Inr (i, v), db', h')"
    using assms(2) by (cases "check_and_record env True t s m db h") auto
  have sound: "sound_verdict (Some db) m v" using check_and_record_parts [OF assms(1) run] by simp
  then have adm: "agent_owner db d \<in> {None, Some m}" and m: "vd_miner_id v = m"
    using assms(3-6) by (auto simp: sound_verdict_def admitted_def)
  let ?db = "snd (record_verdict t v db)"
  have owner: "agent_owner ?db d = agent_owner db d" by (simp add: agent_owner_def)
  have "db' = snd (register_verdict t v i ?db)"
    using assms(4) by (rule_tac check_and_record_InrE [OF run]) simp
  also have "\<dots> = snd (register_agent t (ev_image_id (vd_evidence v)) (ev_repo_tags (vd_evidence v))
      (ev_entrypoint (vd_evidence v)) d m i ?db)"
    using assms(3,5,6) m by (simp add: register_verdict_def)
  finally have "agent_owner db' d = Some m"
    using adm owner agents.register_fresh [of ?db d t] agents.owner_stays [of ?db d m t] by auto
  with run adm show ?thesis by simp
qed

theorem accepted_agent_has_one_owner_witness:
  "\<exists>d. agent_owner (sample_ledger [''alice'']) d = Some ''alice''"
proof -
  have run: "map_sum id (\<lambda>(i, v). (vd_status v, vd_from_cache v, map_option (\<lambda>d. d \<noteq> []) (ev_agent_digest (vd_evidence v))))
      (fst (check_and_record sample_env True ''now'' (By_Reference ''ghcr.io/org/agent:1'') ''alice'' empty_db [])) =
    Inr (ACCEPTED, False, Some True)" by code_simp
  then obtain i v d where v: "fst (check_and_record sample_env True ''now'' (By_Reference ''ghcr.io/org/agent:1'') ''alice'' empty_db []) = Inr (i, v)"
    "vd_status v = ACCEPTED" "\<not> vd_from_cache v" "ev_agent_digest (vd_evidence v) = Some d" "d \<noteq> []"
    by (cases "fst (check_and_record sample_env True ''now'' (By_Reference ''ghcr.io/org/agent:1'') ''alice'' empty_db [])") auto
  from accepted_agent_has_one_owner [OF empty_ledger_wf v] show ?thesis by (auto simp: sample_ledger_def)
qed

text \<open>Only real checks are replayed.  A verdict answered from the ledger repeats a row of the same
  miner that was itself checked, with its outcome, reason and stage; a run that failed on our side
  is never turned into a standing verdict.  Without the lookup nothing is ever replayed.\<close>

theorem replays_are_checked_work:
  assumes "ledger_wf db" "fst (check_and_record env dedupe t s m db h) = Inr (i, v)" "vd_from_cache v"
  shows "dedupe \<and> \<not> validator_fault v \<and> vd_miner_id v = m \<and> (\<exists>q \<in> set (db_submissions db). replays q v)"
proof -
  obtain db' h' where run: "check_and_record env dedupe t s m db h = (Inr (i, v), db', h')"
    using assms(2) by (cases "check_and_record env dedupe t s m db h") auto
  have "sound_verdict (if dedupe then Some db else None) m v" using check_and_record_parts [OF assms(1) run] by simp
  with assms(3) have "dedupe \<and> vd_miner_id v = m \<and> (\<exists>q \<in> set (db_submissions db). replays q v)"
    by (auto simp: sound_verdict_def split: if_splits)
  then show ?thesis by (auto simp: replays_def validator_fault_def)
qed

text \<open>The same tarball once more, from the miner whose submission of it was accepted.\<close>

definition sample_checked :: database where
  "sample_checked = empty_db\<lparr>db_submissions := [\<lparr>sr_id = 1, sr_received_at = ''now'',
     sr_verdict = accept ''alice'' ''agent.tar'' DRY_RUN (no_evidence\<lparr>ev_file_sha256 := Some ''00''\<rparr>)\<rparr>],
     db_last_submission := 1\<rparr>"

theorem replays_are_checked_work_witness:
  "\<exists>q \<in> set (db_submissions sample_checked). \<not> validator_fault (sr_verdict q) \<and> vd_status (sr_verdict q) = ACCEPTED"
proof -
  have wf: "ledger_wf sample_checked"
    by (simp add: ledger_wf_def sample_checked_def empty_db_def) (simp add: accept_def)
  let ?again = "fst (check_and_record sample_env True ''now'' (By_File sample_file) ''alice'' sample_checked [])"
  have "\<exists>i v. ?again = Inr (i, v) \<and> vd_from_cache v \<and> vd_status v = ACCEPTED"
    by (simp add: check_and_record_def check_entry_def check_submission_def stage_file_def sample_file_ok then_stage_def
        Let_def returns_def add_file_def sample_env_def fresh_run_def sample_checked_def empty_db_def accept_def
        latest_checked_for_sha256_def submissions_for_sha256_def replayable_def validator_fault_def cached_verdict_def
        conclude_def record_verdict_def)
  then obtain i v where v: "?again = Inr (i, v)" "vd_from_cache v" "vd_status v = ACCEPTED" by blast
  from replays_are_checked_work [OF wf v(1,2)] v(3) show ?thesis by (auto simp: replays_def)
qed

end
