(* ===== verification/Findings.thy ===== *)
theory Findings
  imports Py_Text
begin

text \<open>
  \<open>secqurityVali/eval/findings.py\<close>: the agent's report, parsed as untrusted data.  \<open>json.loads\<close> is an
  argument; undecodable bytes count as its \<open>Json_Decode_Error\<close>.  An exception that is not a
  \<open>FindingsError\<close> is kept apart, as the caller does not catch it.
\<close>

section \<open>Results\<close>

datatype parse_failure = Findings_Error string | Uncaught py_exc

type_synonym 'a parsed = "parse_failure + 'a"

fun pbind :: "'a parsed \<Rightarrow> ('a \<Rightarrow> 'b parsed) \<Rightarrow> 'b parsed" where
  "pbind (Inl e) k = Inl e"
| "pbind (Inr x) k = k x"

fun pmap :: "('a \<Rightarrow> 'b parsed) \<Rightarrow> 'a list \<Rightarrow> 'b list parsed" where
  "pmap f [] = Inr []"
| "pmap f (x # xs) = pbind (f x) (\<lambda>y. pbind (pmap f xs) (\<lambda>ys. Inr (y # ys)))"

definition require :: "bool \<Rightarrow> string \<Rightarrow> unit parsed" where
  "require cond message = (if cond then Inr () else Inl (Findings_Error message))"

lemma pbind_Inr: "pbind m k = Inr y \<longleftrightarrow> (\<exists>x. m = Inr x \<and> k x = Inr y)"
  by (cases m) auto

lemma require_Inr [simp]: "require c m = Inr u \<longleftrightarrow> c"
  by (simp add: require_def)

lemma pmap_Inr:
  "pmap f xs = Inr ys \<Longrightarrow> length ys = length xs \<and> (\<forall>y \<in> set ys. \<exists>x \<in> set xs. f x = Inr y)"
proof (induction xs arbitrary: ys)
  case (Cons x xs)
  then obtain y ys' where "f x = Inr y" "pmap f xs = Inr ys'" "ys = y # ys'"
    by (auto simp: pbind_Inr)
  with Cons.IH show ?case by auto
qed simp

section \<open>The report\<close>

record finding =
  fd_endpoint :: string
  fd_parameter :: string
  fd_injection_type :: string
  fd_payload :: string
  fd_severity :: string
  fd_confidence :: rat
  fd_canary :: "string option"
  fd_response_excerpt :: string

record repro_step =
  rep_finding_index :: int
  rep_method :: string
  rep_path :: string
  rep_query :: "(string, string) dict"

record report =
  rpt_run_id :: string
  rpt_findings :: "finding list"
  rpt_reproduction :: "repro_step list"
  rpt_schema_version :: string
  rpt_agent_name :: string
  rpt_agent_version :: string

definition MAX_FILE_BYTES :: nat where "MAX_FILE_BYTES = 1 * 1024 * 1024"
definition MAX_FINDINGS :: nat where "MAX_FINDINGS = 200"
definition MAX_STRING :: nat where "MAX_STRING = 8192"

section \<open>Defensive primitives\<close>

definition item_get :: "(string \<times> json) list \<Rightarrow> string \<Rightarrow> json" where
  "item_get d k = (case dget d k of None \<Rightarrow> JNull | Some v \<Rightarrow> v)"

definition str_field :: "bool \<Rightarrow> string \<Rightarrow> json \<Rightarrow> string \<Rightarrow> string parsed" where
  "str_field needed dflt value name = (case value of
      JNull \<Rightarrow> if needed then Inl (Findings_Error (name @ '' is required'')) else Inr dflt
    | JStr s \<Rightarrow> if length s \<le> MAX_STRING then Inr s
        else Inl (Findings_Error (name @ '' exceeds 8192 chars''))
    | _ \<Rightarrow> Inl (Findings_Error (name @ '' must be a string'')))"

text \<open>\<open>float(value)\<close> of an integer raises once rounding would leave the doubles.\<close>

definition overflows_double :: "int \<Rightarrow> bool" where
  "overflows_double i \<longleftrightarrow> 2 ^ 1024 - 2 ^ 970 \<le> \<bar>i\<bar>"

fun float01 :: "json \<Rightarrow> string \<Rightarrow> rat parsed" where
  "float01 JNull name = Inr 0"
| "float01 (JInt i) name =
     (if overflows_double i then Inl (Uncaught OverflowError)
      else if 0 \<le> i \<and> i \<le> 1 then Inr (of_int i)
      else Inl (Findings_Error (name @ '' must be within [0, 1]'')))"
| "float01 (JFloat (Fin q)) name =
     (if 0 \<le> q \<and> q \<le> 1 then Inr q else Inl (Findings_Error (name @ '' must be within [0, 1]'')))"
| "float01 (JFloat _) name = Inl (Findings_Error (name @ '' must be within [0, 1]''))"
| "float01 _ name = Inl (Findings_Error (name @ '' must be a number''))"

section \<open>Findings\<close>

definition str_or_none :: "string \<Rightarrow> string option" where
  "str_or_none s = (if s = [] then None else Some s)"

definition extract_canary :: "(string \<times> json) list \<Rightarrow> string \<Rightarrow> string option parsed" where
  "extract_canary item name =
     (if item_get item ''canary'' \<noteq> JNull
      then pbind (str_field False [] (item_get item ''canary'') (name @ '' canary'')) (\<lambda>s. Inr (str_or_none s))
      else case item_get item ''evidence'' of
          JDict evidence \<Rightarrow>
            if item_get evidence ''canary'' \<noteq> JNull
            then pbind (str_field False [] (item_get evidence ''canary'') (name @ '' evidence.canary''))
                   (\<lambda>s. Inr (str_or_none s))
            else Inr None
        | _ \<Rightarrow> Inr None)"

fun parse_finding :: "json \<Rightarrow> finding parsed" where
  "parse_finding (JDict item) =
     pbind (str_field True [] (item_get item ''endpoint'') ''endpoint'') (\<lambda>endpoint.
     pbind (str_field True [] (item_get item ''parameter'') ''parameter'') (\<lambda>parameter.
     pbind (str_field False ''sql_injection'' (item_get item ''injection_type'') ''injection_type'') (\<lambda>kind.
     pbind (str_field False [] (item_get item ''payload'') ''payload'') (\<lambda>payload.
     pbind (str_field False ''unknown'' (item_get item ''severity'') ''severity'') (\<lambda>severity.
     pbind (float01 (item_get item ''confidence'') ''confidence'') (\<lambda>confidence.
     pbind (extract_canary item ''finding'') (\<lambda>canary.
     pbind (str_field False [] (item_get item ''response_excerpt'') ''response_excerpt'') (\<lambda>text.
       Inr \<lparr>fd_endpoint = endpoint, fd_parameter = parameter, fd_injection_type = kind, fd_payload = payload,
            fd_severity = severity, fd_confidence = confidence, fd_canary = canary,
            fd_response_excerpt = take MAX_STRING text\<rparr>))))))))"
| "parse_finding _ = Inl (Findings_Error ''finding must be an object'')"

section \<open>Reproduction steps\<close>

text \<open>\<open>int(text)\<close> on what \<open>isdigit\<close> let through: superscript digits and more than 4300 digits raise.\<close>

definition int_of_digits :: "string \<Rightarrow> int parsed" where
  "int_of_digits s =
     (if list_all is_decimal s \<and> length s \<le> 4300 then Inr (int (digits_value s)) else Inl (Uncaught ValueError))"

definition lstrip_f :: "string \<Rightarrow> string" where
  "lstrip_f s = dropWhile (\<lambda>c. c = CHR ''f'') s"

text \<open>\<open>item.get("finding_index", item.get("finding_id"))\<close>, with \<open>"f1"\<close>-style ids mapped to positions.\<close>

definition finding_index_of :: "(string \<times> json) list \<Rightarrow> int parsed" where
  "finding_index_of item =
     (let value = (case dget item ''finding_index'' of Some v \<Rightarrow> v | None \<Rightarrow> item_get item ''finding_id'') in
      case value of
        JStr s \<Rightarrow>
          if isdigit (lstrip_f s) then pbind (int_of_digits (lstrip_f s)) (\<lambda>i. Inr (i - 1))
          else Inl (Findings_Error ''finding_index must be an int'')
      | _ \<Rightarrow> (case as_int value of
            Some i \<Rightarrow> Inr i | None \<Rightarrow> Inl (Findings_Error ''finding_index must be an int'')))"

definition parse_query :: "(string \<times> json) list \<Rightarrow> (string, string) dict parsed" where
  "parse_query query =
     pmap (\<lambda>(k, v). pbind (str_field True [] (JStr k) ''query key'') (\<lambda>k.
                    pbind (str_field False [] v ''query value'') (\<lambda>v. Inr (k, v)))) query"

definition query_dict :: "json \<Rightarrow> (string \<times> json) list parsed" where
  "query_dict value =
     (if \<not> json_truthy value then Inr []
      else case value of JDict d \<Rightarrow> Inr d | _ \<Rightarrow> Inl (Findings_Error ''query must be an object''))"

fun parse_repro :: "nat \<Rightarrow> json \<Rightarrow> repro_step parsed" where
  "parse_repro n_findings (JDict item) =
     pbind (finding_index_of item) (\<lambda>i.
     pbind (require (0 \<le> i \<and> i < int (max n_findings 1)) ''points at no finding'') (\<lambda>_.
     pbind (str_field False ''GET'' (item_get item ''method'') ''method'') (\<lambda>method.
     pbind (require (py_upper method \<in> {''GET'', ''POST''}) ''method must be GET or POST'') (\<lambda>_.
     pbind (query_dict (item_get item ''query'')) (\<lambda>query.
     pbind (require (length query \<le> 32) ''too many query params'') (\<lambda>_.
     pbind (parse_query query) (\<lambda>clean_query.
     pbind (str_field True [] (item_get item ''path'') ''path'') (\<lambda>path.
       Inr \<lparr>rep_finding_index = i, rep_method = py_upper method, rep_path = path,
            rep_query = clean_query\<rparr>))))))))"
| "parse_repro n_findings _ = Inl (Findings_Error ''reproduction must be an object'')"

section \<open>The document\<close>

definition list_field :: "(string \<times> json) list \<Rightarrow> string \<Rightarrow> json list parsed" where
  "list_field d k = (case dget d k of
      None \<Rightarrow> Inr []
    | Some (JList xs) \<Rightarrow>
        if length xs \<le> MAX_FINDINGS then Inr xs else Inl (Findings_Error (''too many '' @ k))
    | Some _ \<Rightarrow> Inl (Findings_Error (k @ '' must be a list'')))"

definition agent_field :: "(string \<times> json) list \<Rightarrow> (string \<times> json) list" where
  "agent_field d = (case item_get d ''agent'' of JDict a \<Rightarrow> a | _ \<Rightarrow> [])"

definition parse_document :: "(string \<times> json) list \<Rightarrow> string option \<Rightarrow> report parsed" where
  "parse_document d expected_run_id =
     pbind (str_field True [] (item_get d ''run_id'') ''run_id'') (\<lambda>run_id.
     pbind (require (case expected_run_id of None \<Rightarrow> True | Some r \<Rightarrow> run_id = r)
              ''run_id does not match this run'') (\<lambda>_.
     pbind (list_field d ''findings'') (\<lambda>raw_findings.
     pbind (pmap parse_finding raw_findings) (\<lambda>found.
     pbind (list_field d ''reproduction'') (\<lambda>raw_repro.
     pbind (pmap (parse_repro (length found)) raw_repro) (\<lambda>repro.
     pbind (str_field False [] (item_get d ''schema_version'') ''schema_version'') (\<lambda>schema.
     pbind (str_field False [] (item_get (agent_field d) ''name'') ''agent.name'') (\<lambda>name.
     pbind (str_field False [] (item_get (agent_field d) ''version'') ''agent.version'') (\<lambda>version.
       Inr \<lparr>rpt_run_id = run_id, rpt_findings = found, rpt_reproduction = repro,
            rpt_schema_version = schema, rpt_agent_name = name, rpt_agent_version = version\<rparr>)))))))))"

definition parse_findings_bytes ::
  "(string \<Rightarrow> json_outcome) \<Rightarrow> string \<Rightarrow> string option \<Rightarrow> report parsed" where
  "parse_findings_bytes loads raw expected_run_id =
     pbind (require (length raw \<le> MAX_FILE_BYTES) ''findings file is too large'') (\<lambda>_.
       case loads (if raw = [] then ''{}'' else raw) of
         Json_Decode_Error \<Rightarrow> Inl (Findings_Error ''not valid JSON'')
       | Json_Value_Error \<Rightarrow> Inl (Uncaught ValueError)
       | Json_Recursion_Error \<Rightarrow> Inl (Uncaught RuntimeError)
       | Json (JDict d) \<Rightarrow> parse_document d expected_run_id
       | Json _ \<Rightarrow> Inl (Findings_Error ''top level must be a JSON object''))"

section \<open>Lemmas\<close>

definition text_ok :: "string \<Rightarrow> bool" where
  "text_ok s \<longleftrightarrow> length s \<le> MAX_STRING"

definition finding_ok :: "finding \<Rightarrow> bool" where
  "finding_ok f \<longleftrightarrow> text_ok (fd_endpoint f) \<and> text_ok (fd_parameter f) \<and> text_ok (fd_injection_type f) \<and>
     text_ok (fd_payload f) \<and> text_ok (fd_severity f) \<and> text_ok (fd_response_excerpt f) \<and>
     0 \<le> fd_confidence f \<and> fd_confidence f \<le> 1 \<and>
     (case fd_canary f of None \<Rightarrow> True | Some c \<Rightarrow> c \<noteq> [] \<and> text_ok c)"

definition repro_ok :: "nat \<Rightarrow> repro_step \<Rightarrow> bool" where
  "repro_ok n r \<longleftrightarrow> 0 \<le> rep_finding_index r \<and> rep_finding_index r < int (max n 1) \<and>
     rep_method r \<in> {''GET'', ''POST''} \<and> text_ok (rep_path r) \<and> length (rep_query r) \<le> 32 \<and>
     list_all (\<lambda>(k, v). text_ok k \<and> text_ok v) (rep_query r)"

definition report_ok :: "report \<Rightarrow> bool" where
  "report_ok r \<longleftrightarrow> text_ok (rpt_run_id r) \<and> length (rpt_findings r) \<le> 200 \<and> list_all finding_ok (rpt_findings r) \<and>
     length (rpt_reproduction r) \<le> 200 \<and> list_all (repro_ok (length (rpt_findings r))) (rpt_reproduction r) \<and>
     text_ok (rpt_schema_version r) \<and> text_ok (rpt_agent_name r) \<and> text_ok (rpt_agent_version r)"

lemma str_field_Inr:
  "str_field needed dflt value name = Inr s \<Longrightarrow> text_ok dflt \<Longrightarrow> text_ok s"
  by (auto simp: str_field_def text_ok_def split: json.splits if_splits)

lemma text_ok_defaults [simp]: "text_ok []" "text_ok ''sql_injection''" "text_ok ''unknown''" "text_ok ''GET''"
  by (simp_all add: text_ok_def MAX_STRING_def)

lemma str_field_text: "str_field needed [] v nm = Inr s \<Longrightarrow> text_ok s"
  by (erule str_field_Inr) simp

lemma float01_Inr: "float01 v nm = Inr q \<Longrightarrow> 0 \<le> q \<and> q \<le> 1"
  by (induction v nm rule: float01.induct) (auto split: if_splits)

lemma extract_canary_Inr:
  assumes "extract_canary item name = Inr c"
  shows "case c of None \<Rightarrow> True | Some s \<Rightarrow> s \<noteq> [] \<and> text_ok s"
  using assms
  by (auto simp: extract_canary_def pbind_Inr str_or_none_def dest: str_field_Inr
      split: if_splits json.splits)

lemma parse_finding_ok: "parse_finding j = Inr f \<Longrightarrow> finding_ok f"
proof (induction j rule: parse_finding.induct)
  case (1 item)
  then show ?case
    by (auto simp: pbind_Inr finding_ok_def text_ok_def [of "take _ _"] dest: str_field_Inr float01_Inr extract_canary_Inr)
qed simp_all

lemma parse_query_Inr:
  "parse_query q = Inr d \<Longrightarrow> length d = length q \<and> list_all (\<lambda>(k, v). text_ok k \<and> text_ok v) d"
  unfolding parse_query_def list_all_iff
  by (drule pmap_Inr) (fastforce simp: pbind_Inr dest: str_field_Inr)

lemma parse_repro_ok: "parse_repro n j = Inr r \<Longrightarrow> repro_ok n r"
proof (induction n j rule: parse_repro.induct)
  case (1 n item)
  then show ?case
    by (auto simp: pbind_Inr repro_ok_def dest: str_field_Inr parse_query_Inr)
qed simp_all

lemma list_field_Inr: "list_field d k = Inr xs \<Longrightarrow> length xs \<le> 200"
  by (auto simp: list_field_def MAX_FINDINGS_def split: option.splits json.splits if_splits)

lemma parse_document_ok:
  assumes "parse_document d expected = Inr r"
  shows "report_ok r \<and> (case expected of None \<Rightarrow> True | Some want \<Rightarrow> rpt_run_id r = want)"
proof -
  obtain raw_f raw_r where f: "list_field d ''findings'' = Inr raw_f" "pmap parse_finding raw_f = Inr (rpt_findings r)"
    and r: "list_field d ''reproduction'' = Inr raw_r"
      "pmap (parse_repro (length (rpt_findings r))) raw_r = Inr (rpt_reproduction r)"
    and rest: "text_ok (rpt_run_id r)" "case expected of None \<Rightarrow> True | Some want \<Rightarrow> rpt_run_id r = want"
      "text_ok (rpt_schema_version r)" "text_ok (rpt_agent_name r)" "text_ok (rpt_agent_version r)"
    using assms by (cases expected) (auto simp: parse_document_def pbind_Inr dest!: str_field_text)
  have "length (rpt_findings r) \<le> 200" "list_all finding_ok (rpt_findings r)"
    using pmap_Inr [OF f(2)] list_field_Inr [OF f(1)] by (auto simp: list_all_iff dest: parse_finding_ok)
  moreover have "length (rpt_reproduction r) \<le> 200"
    "list_all (repro_ok (length (rpt_findings r))) (rpt_reproduction r)"
    using pmap_Inr [OF r(2)] list_field_Inr [OF r(1)] by (auto simp: list_all_iff dest: parse_repro_ok)
  ultimately show ?thesis using rest by (simp add: report_ok_def)
qed

lemma parse_findings_ok:
  assumes "parse_findings_bytes loads raw expected = Inr r"
  shows "report_ok r \<and> (case expected of None \<Rightarrow> True | Some want \<Rightarrow> rpt_run_id r = want) \<and> length raw \<le> 1048576"
proof -
  obtain d where "length raw \<le> MAX_FILE_BYTES" "parse_document d expected = Inr r"
    using assms by (auto simp: parse_findings_bytes_def pbind_Inr split: json_outcome.splits json.splits)
  then show ?thesis using parse_document_ok by (simp add: MAX_FILE_BYTES_def)
qed

section \<open>Properties\<close>

text \<open>C25: Nothing malformed reaches the grader.  A report that parses has at most 200 findings and 200
  reproduction steps, only texts within the cap, confidences between 0 and 1, canaries that are not
  empty, and steps that use GET or POST, at most 32 parameters and the index of a finding that
  exists (or 0); and it answers the expected run.\<close>

theorem parsed_report_is_well_formed:
  assumes "parse_findings_bytes loads raw expected = Inr r"
  shows "report_ok r \<and> (case expected of None \<Rightarrow> True | Some want \<Rightarrow> rpt_run_id r = want) \<and> length raw \<le> 1048576"
  using assms by (rule parse_findings_ok)

definition sample_report :: json where
  "sample_report = JDict [(''run_id'', JStr ''r1''),
     (''findings'', JList [JDict [(''endpoint'', JStr ''/api/search''), (''parameter'', JStr ''q''),
        (''canary'', JStr ''c0ffee''), (''confidence'', JInt 1)]]),
     (''reproduction'', JList [JDict [(''finding_id'', JStr ''f1''), (''path'', JStr ''/api/search''),
        (''query'', JDict [(''q'', JStr ''x'')])]])]"

theorem parsed_report_is_well_formed_witness:
  "\<exists>r. parse_findings_bytes (\<lambda>_. Json sample_report) ''{}'' (Some ''r1'') = Inr r \<and> report_ok r \<and>
     map rep_finding_index (rpt_reproduction r) = [0]"
proof -
  have "map_sum id (\<lambda>r. map rep_finding_index (rpt_reproduction r)) (parse_document
      (case sample_report of JDict d \<Rightarrow> d | _ \<Rightarrow> []) (Some ''r1'')) = Inr [0]" by code_simp
  then have "\<exists>r. parse_findings_bytes (\<lambda>_. Json sample_report) ''{}'' (Some ''r1'') = Inr r \<and>
      map rep_finding_index (rpt_reproduction r) = [0]"
    by (cases "parse_document (case sample_report of JDict d \<Rightarrow> d | _ \<Rightarrow> []) (Some ''r1'')")
      (auto simp: parse_findings_bytes_def require_def MAX_FILE_BYTES_def sample_report_def)
  then show ?thesis
  proof (elim exE conjE)
    fix r
    assume r: "parse_findings_bytes (\<lambda>_. Json sample_report) ''{}'' (Some ''r1'') = Inr r"
      "map rep_finding_index (rpt_reproduction r) = [0]"
    have "report_ok r" using parsed_report_is_well_formed [OF r(1)] by (rule conjunct1)
    then show ?thesis by (intro exI [of _ r] conjI r)
  qed
qed

text \<open>One character of a report escapes the parser's own error handling: a superscript digit as a
  finding id is a digit for \<open>isdigit\<close> and not for \<open>int\<close>, so \<open>ValueError\<close> leaves the parser instead of
  \<open>FindingsError\<close>.\<close>

theorem superscript_id_escapes_the_parser:
  "parse_repro n (JDict [(''finding_index'', JStr (''f'' @ [char_of (178 :: nat)])), (''path'', JStr ''/'')]) =
     Inl (Uncaught ValueError)"
proof -
  have "char_of (178 :: nat) \<noteq> CHR ''f''" by code_simp
  then show ?thesis
    by (simp add: finding_index_of_def item_get_def lstrip_f_def isdigit_def is_digit_def int_of_digits_def
        is_decimal_def Let_def)
qed

end
