(* ===== verification/Submission_Api.thy ===== *)
theory Submission_Api
  imports Pipeline Findings "HOL-Library.Char_ord" "HOL-Library.List_Lexorder"
begin

text \<open>
  \<open>secqurityVali/api.py\<close>: the HTTP API, which only queues jobs, and the worker that runs them one at a time.
  A handler is a function from the request and the database to a status, a payload and the database.
  Rendering database rows as JSON and the health of Docker are arguments.
\<close>

section \<open>Handlers\<close>

text \<open>\<open>ApiError\<close>, or any other exception, which the handlers answer with 500.\<close>

datatype api_error = Api_Error nat string | Internal

type_synonym 'a api = "api_error + 'a"

fun abind :: "'a api \<Rightarrow> ('a \<Rightarrow> 'b api) \<Rightarrow> 'b api" where
  "abind (Inl e) k = Inl e"
| "abind (Inr x) k = k x"

definition API_MAX_BODY_BYTES :: int where "API_MAX_BODY_BYTES = 64 * 1024"

record api_request =
  aq_path :: string
  aq_authorization :: "string option"
  aq_content_length :: "string option"
  aq_body :: string

record api_config =
  ac_token :: string
  ac_loads :: "string \<Rightarrow> json_outcome"
  ac_submission_json :: "submission_row \<Rightarrow> json"
  ac_agent_json :: "agent_row \<Rightarrow> json"
  ac_docker :: bool
  ac_schema_version :: int

type_synonym response_sent = "nat \<times> json"

text \<open>\<open>self.path.split("?", 1)[0].rstrip("/")\<close>.\<close>

definition route_of :: "string \<Rightarrow> string" where
  "route_of path = rstrip_chars (\<lambda>c. c = CHR ''/'') (takeWhile (\<lambda>c. c \<noteq> CHR ''?'') path)"

text \<open>\<open>secrets.compare_digest\<close> raises for texts that are not ASCII.\<close>

definition is_ascii :: "string \<Rightarrow> bool" where
  "is_ascii s = list_all (\<lambda>c. code c < 128) s"

definition supplied_token :: "api_request \<Rightarrow> string" where
  "supplied_token rq =
     (let header = (case aq_authorization rq of None \<Rightarrow> [] | Some h \<Rightarrow> h)
      in if starts_with header ''Bearer '' then drop 7 header else [])"

definition authorize :: "api_config \<Rightarrow> api_request \<Rightarrow> unit api" where
  "authorize cfg rq =
     (if \<not> is_ascii (supplied_token rq) \<or> \<not> is_ascii (ac_token cfg) then Inl Internal
      else if supplied_token rq \<noteq> ac_token cfg then Inl (Api_Error 401 ''missing or invalid bearer token'')
      else Inr ())"

text \<open>A negative length passes the cap, and \<open>read\<close> then takes the whole body.\<close>

definition content_length :: "api_request \<Rightarrow> int api" where
  "content_length rq = (case aq_content_length rq of
      None \<Rightarrow> Inr 0
    | Some [] \<Rightarrow> Inr 0
    | Some text \<Rightarrow> (case py_int text of None \<Rightarrow> Inl Internal | Some n \<Rightarrow> Inr n))"

definition body_read :: "int \<Rightarrow> string \<Rightarrow> string" where
  "body_read n body = (if n < 0 then body else take (nat n) body)"

definition read_json :: "api_config \<Rightarrow> api_request \<Rightarrow> (string \<times> json) list api" where
  "read_json cfg rq =
     abind (content_length rq) (\<lambda>n.
       if API_MAX_BODY_BYTES < n then Inl (Api_Error 413 ''request body too large'')
       else
         let raw = body_read n (aq_body rq) in
         (case ac_loads cfg (if raw = [] then ''{}'' else raw) of
            Json_Recursion_Error \<Rightarrow> Inl Internal
          | Json (JDict d) \<Rightarrow> Inr d
          | Json _ \<Rightarrow> Inl (Api_Error 400 ''body must be a JSON object'')
          | _ \<Rightarrow> Inl (Api_Error 400 ''body is not valid JSON'')))"

definition require_str :: "(string \<times> json) list \<Rightarrow> string \<Rightarrow> nat \<Rightarrow> string api" where
  "require_str body field max_length = (case dget body field of
      Some (JStr s) \<Rightarrow>
        if py_strip s = [] then Inl (Api_Error 400 (field @ '' is required and must be a non-empty string''))
        else if length (py_strip s) > max_length
        then Inl (Api_Error 400 (field @ '' exceeds '' @ show_nat max_length @ '' characters''))
        else Inr (py_strip s)
    | _ \<Rightarrow> Inl (Api_Error 400 (field @ '' is required and must be a non-empty string'')))"

text \<open>The miner and the reference of an acceptable request.\<close>

definition read_submission :: "api_config \<Rightarrow> api_request \<Rightarrow> (string \<times> string) api" where
  "read_submission cfg rq =
     (if route_of (aq_path rq) \<noteq> ''/v1/submissions'' then Inl (Api_Error 404 ''no such endpoint'')
      else
        abind (authorize cfg rq) (\<lambda>_.
        abind (read_json cfg rq) (\<lambda>body.
        abind (require_str body ''miner_id'' 128) (\<lambda>miner_id.
        abind (require_str body ''image'' 512) (\<lambda>img. Inr (miner_id, img))))))"

definition error_response :: "api_error \<Rightarrow> response_sent" where
  "error_response e = (case e of
      Api_Error status message \<Rightarrow> (status, JDict [(''error'', JStr message)])
    | Internal \<Rightarrow> (500, JDict [(''error'', JStr ''internal error'')]))"

definition do_POST :: "api_config \<Rightarrow> string \<Rightarrow> api_request \<Rightarrow> database \<Rightarrow> response_sent \<times> database" where
  "do_POST cfg now rq db = (case read_submission cfg rq of
      Inl e \<Rightarrow> (error_response e, db)
    | Inr (miner_id, img) \<Rightarrow>
        (case create_job now miner_id img db of (job_id, db) \<Rightarrow>
           ((202, JDict [(''job_id'', JInt (int job_id)), (''state'', JStr ''queued''),
              (''poll'', JStr (''/v1/submissions/'' @ show_nat job_id))]), db)))"

definition state_name :: "job_state \<Rightarrow> string" where
  "state_name s = (case s of JOB_QUEUED \<Rightarrow> ''queued'' | JOB_RUNNING \<Rightarrow> ''running'' | JOB_DONE \<Rightarrow> ''done'' | JOB_FAILED \<Rightarrow> ''failed'')"

definition text_or_null :: "string option \<Rightarrow> json" where
  "text_or_null s = (case s of None \<Rightarrow> JNull | Some t \<Rightarrow> JStr t)"

definition verdict_payload :: "api_config \<Rightarrow> database \<Rightarrow> job_row \<Rightarrow> json" where
  "verdict_payload cfg db job = JDict
     ([(''job_id'', JInt (int (jb_id job))), (''miner_id'', JStr (jb_miner_id job)), (''image'', JStr (jb_image_ref job)),
       (''state'', JStr (state_name (jb_state job))), (''created_at'', JStr (jb_created_at job)),
       (''started_at'', text_or_null (jb_started_at job)), (''finished_at'', text_or_null (jb_finished_at job)),
       (''verdict'', (case jb_submission_id job of
          Some i \<Rightarrow> if i = 0 then JNull
            else (case get_submission db i of None \<Rightarrow> JNull | Some r \<Rightarrow> ac_submission_json cfg r)
        | None \<Rightarrow> JNull))] @
      (if jb_error job \<noteq> None \<and> jb_error job \<noteq> Some []
       then [(''error'', JStr ''validator error, see server logs'')] else []))"

text \<open>\<open>isdigit\<close> lets through what \<open>int\<close> or SQLite then refuse.\<close>

definition lookup_job :: "database \<Rightarrow> string \<Rightarrow> job_row api" where
  "lookup_job db raw_id =
     (if \<not> isdigit raw_id then Inl (Api_Error 400 ''job id must be an integer'')
      else if \<not> list_all is_decimal raw_id \<or> 4300 < length raw_id \<or> 2 ^ 63 \<le> digits_value raw_id then Inl Internal
      else case get_job db (digits_value raw_id) of
          None \<Rightarrow> Inl (Api_Error 404 ''no such job'')
        | Some job \<Rightarrow> Inr job)"

definition after_slash :: "string \<Rightarrow> string" where
  "after_slash s = rev (takeWhile (\<lambda>c. c \<noteq> CHR ''/'') (rev s))"

definition job_summary :: "job_row \<Rightarrow> json" where
  "job_summary job = JDict [(''id'', JInt (int (jb_id job))), (''miner_id'', JStr (jb_miner_id job)),
     (''image_ref'', JStr (jb_image_ref job)), (''state'', JStr (state_name (jb_state job))),
     (''submission_id'', (case jb_submission_id job of None \<Rightarrow> JNull | Some i \<Rightarrow> JInt (int i))),
     (''created_at'', JStr (jb_created_at job))]"

text \<open>\<open>list_agents\<close> orders by the time of first sight, newest first.\<close>

definition list_agents :: "database \<Rightarrow> int \<Rightarrow> agent_row list" where
  "list_agents db n = sql_limit n (rev (sort_key ag_first_seen_at (rev (db_agents db))))"

definition do_GET :: "api_config \<Rightarrow> api_request \<Rightarrow> database \<Rightarrow> response_sent" where
  "do_GET cfg rq db =
     (let path = (if route_of (aq_path rq) = [] then ''/'' else route_of (aq_path rq)) in
      if path = ''/v1/health'' then
        (200, JDict [(''ok'', JBool True), (''docker'', JBool (ac_docker cfg)),
          (''schema_version'', JInt (ac_schema_version cfg)), (''agents'', JInt (int (agent_count db)))])
      else if path = ''/v1/submissions'' then
        (200, JDict [(''jobs'', JList (map job_summary (recent_jobs db 20)))])
      else if starts_with path ''/v1/submissions/'' then
        (case lookup_job db (after_slash path) of
           Inl e \<Rightarrow> error_response e
         | Inr job \<Rightarrow> (200, verdict_payload cfg db job))
      else if path = ''/v1/agents'' then
        (200, JDict [(''agents'', JList (map (ac_agent_json cfg) (list_agents db 50)))])
      else error_response (Api_Error 404 ''no such endpoint''))"

text \<open>\<open>serve\<close> refuses to start without a token.\<close>

definition serve_token :: "env \<Rightarrow> string option \<Rightarrow> string option" where
  "serve_token e token =
     (let t = (case token of Some t \<Rightarrow> if t = [] then env_text e ''SECVAL_API_TOKEN'' else t
                 | None \<Rightarrow> env_text e ''SECVAL_API_TOKEN'')
      in if t = [] then None else Some t)"

section \<open>The worker\<close>

record worker_context =
  wc_pipeline :: pipeline_env
  wc_now :: string
  wc_trace :: "failure \<Rightarrow> string"

type_synonym worker_world = "database \<times> docker_call list"

text \<open>\<open>_run_job\<close>: the job leaves \<open>running\<close> whether or not the check raised; a traceback is never empty.\<close>

definition worker_run_job :: "worker_context \<Rightarrow> job_row \<Rightarrow> worker_world \<Rightarrow> worker_world" where
  "worker_run_job ctx job = (\<lambda>(db, h).
     case check_and_record (wc_pipeline ctx) True (wc_now ctx) (By_Reference (jb_image_ref job)) (jb_miner_id job) db h of
       (Inr (submission_id, _), db, h) \<Rightarrow> (finish_job (wc_now ctx) (jb_id job) (Some submission_id) None db, h)
     | (Inl f, db, h) \<Rightarrow> (finish_job (wc_now ctx) (jb_id job) None (Some (''Traceback'' @ wc_trace ctx f)) db, h))"

text \<open>One turn of the loop of \<open>run\<close>, and as many as are given; an idle turn waits for a nudge.\<close>

definition worker_turn :: "worker_context \<Rightarrow> worker_world \<Rightarrow> worker_world" where
  "worker_turn ctx = (\<lambda>(db, h). case claim_next_job (wc_now ctx) db of
      (None, db) \<Rightarrow> (db, h)
    | (Some job, db) \<Rightarrow> worker_run_job ctx job (db, h))"

fun worker_turns :: "worker_context \<Rightarrow> nat \<Rightarrow> worker_world \<Rightarrow> worker_world" where
  "worker_turns ctx 0 s = s"
| "worker_turns ctx (Suc n) s = worker_turns ctx n (worker_turn ctx s)"

definition worker_run :: "worker_context \<Rightarrow> nat \<Rightarrow> worker_world \<Rightarrow> worker_world" where
  "worker_run ctx turns = (\<lambda>(db, h). worker_turns ctx turns (snd (requeue_running_jobs db), h))"

section \<open>Properties of the handlers\<close>

lemma abind_InrE:
  assumes "abind m k = Inr y"
  obtains x where "m = Inr x" "k x = Inr y"
  using assms by (cases m) auto

lemma abind_InlD: "abind m k = Inl e \<Longrightarrow> m = Inl e \<or> (\<exists>x. m = Inr x \<and> k x = Inl e)"
  by (cases m) auto

text \<open>A field of a request that \<open>_require_str\<close> reads as the given text.\<close>

definition names :: "(string \<times> json) list \<Rightarrow> string \<Rightarrow> nat \<Rightarrow> string \<Rightarrow> bool" where
  "names body field n s \<longleftrightarrow>
     (\<exists>raw. dget body field = Some (JStr raw) \<and> s = py_strip raw) \<and> s \<noteq> [] \<and> length s \<le> n"

lemma require_str_Inr: "require_str body field n = Inr s \<longleftrightarrow> names body field n s"
  by (auto simp: require_str_def names_def split: option.split json.split)

lemma bearer_split: "starts_with h ''Bearer '' \<Longrightarrow> h = ''Bearer '' @ drop 7 h"
proof -
  assume "starts_with h ''Bearer ''"
  then have "take (length ''Bearer '') h = ''Bearer ''" by (rule starts_with_iff [THEN iffD1])
  moreover have "length ''Bearer '' = 7" by simp
  ultimately show ?thesis by (metis append_take_drop_id)
qed

lemma authorize_Inr: "authorize cfg rq = Inr u \<longleftrightarrow> is_ascii (ac_token cfg) \<and> supplied_token rq = ac_token cfg"
  by (auto simp: authorize_def)

text \<open>The errors the routes raise.\<close>

definition client_error :: "api_error \<Rightarrow> bool" where
  "client_error e \<longleftrightarrow> (case e of Internal \<Rightarrow> True | Api_Error status _ \<Rightarrow> status \<in> {400, 401, 404, 413})"

lemma client_error_simps [simp]:
  "client_error Internal" "client_error (Api_Error n msg) \<longleftrightarrow> n \<in> {400, 401, 404, 413}"
  by (simp_all add: client_error_def)

text \<open>A computation whose errors are all such.\<close>

definition client_api :: "'a api \<Rightarrow> bool" where
  "client_api m \<longleftrightarrow> (\<forall>e. m = Inl e \<longrightarrow> client_error e)"

lemma client_api_simps [simp]: "client_api (Inl e) = client_error e" "client_api (Inr x)"
  by (simp_all add: client_api_def)

lemma client_api_bind: "client_api m \<Longrightarrow> (\<And>x. client_api (k x)) \<Longrightarrow> client_api (abind m k)"
  by (cases m) auto

lemma authorize_errors: "client_api (authorize cfg rq)"
  by (simp add: authorize_def)

lemma content_length_errors: "client_api (content_length rq)"
  by (simp add: content_length_def split: option.split list.split)

lemma read_json_errors: "client_api (read_json cfg rq)"
  unfolding read_json_def
  by (rule client_api_bind [OF content_length_errors])
    (simp add: Let_def split: json_outcome.split json.split)

lemma require_str_errors: "client_api (require_str body field n)"
  by (simp add: require_str_def split: option.split json.split)

lemma read_submission_errors: "client_api (read_submission cfg rq)"
proof -
  have "client_api (abind (authorize cfg rq) (\<lambda>_. abind (read_json cfg rq) (\<lambda>body.
      abind (require_str body ''miner_id'' 128) (\<lambda>miner_id.
      abind (require_str body ''image'' 512) (\<lambda>img. Inr (miner_id, img))))))"
    by (intro client_api_bind authorize_errors read_json_errors require_str_errors) simp
  then show ?thesis by (simp add: read_submission_def)
qed

text \<open>What an acceptable request looks like.\<close>

definition admissible :: "api_config \<Rightarrow> api_request \<Rightarrow> string \<Rightarrow> string \<Rightarrow> bool" where
  "admissible cfg rq miner_id img \<longleftrightarrow>
     route_of (aq_path rq) = ''/v1/submissions'' \<and>
     is_ascii (ac_token cfg) \<and> supplied_token rq = ac_token cfg \<and>
     (\<exists>n body. content_length rq = Inr n \<and> n \<le> 65536 \<and>
        ac_loads cfg (if body_read n (aq_body rq) = [] then ''{}'' else body_read n (aq_body rq)) = Json (JDict body) \<and>
        names body ''miner_id'' 128 miner_id \<and> names body ''image'' 512 img)"

lemma abind_Inr: "abind m k = Inr y \<longleftrightarrow> (\<exists>x. m = Inr x \<and> k x = Inr y)"
  by (cases m) auto

lemma read_json_Inr: "read_json cfg rq = Inr d \<longleftrightarrow>
    (\<exists>n. content_length rq = Inr n \<and> n \<le> 65536 \<and>
       ac_loads cfg (if body_read n (aq_body rq) = [] then ''{}'' else body_read n (aq_body rq)) = Json (JDict d))"
  unfolding read_json_def abind_Inr
  by (rule arg_cong [of _ _ Ex], rule ext)
    (auto simp: API_MAX_BODY_BYTES_def Let_def split: json_outcome.split json.split)

lemma read_submission_Inr: "read_submission cfg rq = Inr (miner_id, img) \<longleftrightarrow> admissible cfg rq miner_id img"
proof (cases "route_of (aq_path rq) = ''/v1/submissions''")
  case True
  then show ?thesis
    unfolding read_submission_def admissible_def
    by (simp add: abind_Inr authorize_Inr read_json_Inr require_str_Inr) blast
next
  case False
  then show ?thesis by (simp add: read_submission_def admissible_def)
qed

text \<open>C34: The API admits only authorised, well-formed jobs, and admits all of those.  A request is answered 202
  exactly when it goes to the submissions route, carries the token, fits the body limit and names a
  miner and an image of allowed length; then one queued job with a fresh id and those two names is
  appended and nothing else changes.  Every other request leaves the database as it was and is
  answered with an error status.\<close>

theorem api_admits_only_authorised_jobs:
  "(fst (fst (do_POST cfg now rq db)) = 202 \<longleftrightarrow> (\<exists>miner_id img. admissible cfg rq miner_id img)) \<and>
   (if fst (fst (do_POST cfg now rq db)) = 202
    then \<exists>miner_id img. admissible cfg rq miner_id img \<and>
      snd (do_POST cfg now rq db) = db\<lparr>db_jobs := db_jobs db @
        [\<lparr>jb_id = db_last_job db + 1, jb_miner_id = miner_id, jb_image_ref = img, jb_state = JOB_QUEUED,
          jb_submission_id = None, jb_created_at = now, jb_started_at = None, jb_finished_at = None,
          jb_error = None\<rparr>], db_last_job := db_last_job db + 1\<rparr>
    else snd (do_POST cfg now rq db) = db \<and> fst (fst (do_POST cfg now rq db)) \<in> {400, 401, 404, 413, 500})"
proof (cases "read_submission cfg rq")
  case (Inl e)
  then have "\<not> admissible cfg rq miner_id img" for miner_id img
    using read_submission_Inr [of cfg rq miner_id img] by simp
  moreover have "client_error e" using read_submission_errors [of cfg rq] Inl by (simp add: client_api_def)
  ultimately show ?thesis
    using Inl by (auto simp: do_POST_def error_response_def split: api_error.split)
next
  case (Inr mi)
  then obtain m i where mi: "read_submission cfg rq = Inr (m, i)" by (cases mi) auto
  then have "admissible cfg rq m i" by (simp add: read_submission_Inr)
  with mi show ?thesis by (auto simp: do_POST_def create_job_def Let_def)
qed

text \<open>With the token of \<open>serve\<close>, which is not empty, an accepted request carries it in its header.\<close>

lemma admissible_bears_token:
  assumes "serve_token e given = Some (ac_token cfg)" "admissible cfg rq miner_id img"
  shows "aq_authorization rq = Some (''Bearer '' @ ac_token cfg)"
proof -
  have "ac_token cfg \<noteq> []" using assms(1) by (simp add: serve_token_def Let_def split: if_splits)
  with assms(2) have t: "supplied_token rq \<noteq> []" "supplied_token rq = ac_token cfg"
    by (simp_all add: admissible_def)
  then obtain h where h: "aq_authorization rq = Some h" "starts_with h ''Bearer ''"
    by (auto simp: supplied_token_def split: option.splits if_splits)
  then have "drop 7 h = ac_token cfg" using t(2) by (simp add: supplied_token_def)
  with bearer_split [OF h(2)] h(1) show ?thesis by metis
qed


section \<open>The worker drains the queue\<close>

lemma check_and_record_jobs:
  "db_jobs (fst (snd (check_and_record env dedupe t s m db h))) = db_jobs db \<and>
   db_last_job (fst (snd (check_and_record env dedupe t s m db h))) = db_last_job db \<and>
   set (db_submissions db) \<subseteq> set (db_submissions (fst (snd (check_and_record env dedupe t s m db h))))"
  by (auto simp: check_and_record_def record_verdict_def register_verdict_def register_agent_def Let_def
      split: prod.split sum.split option.split)

lemma check_and_record_row:
  assumes "fst (check_and_record env dedupe t s m db h) = Inr (i, v)"
  shows "i \<in> sr_id ` set (db_submissions (fst (snd (check_and_record env dedupe t s m db h))))"
proof -
  obtain db' h' where run: "check_and_record env dedupe t s m db h = (Inr (i, v), db', h')"
    using assms by (cases "check_and_record env dedupe t s m db h") auto
  then show ?thesis
    using run by (rule_tac check_and_record_InrE [OF run])
      (simp add: record_verdict_def register_verdict_def register_agent_def Let_def split: option.split)
qed

definition queued_ids :: "database \<Rightarrow> nat set" where
  "queued_ids db = jb_id ` {j \<in> set (db_jobs db). jb_state j = JOB_QUEUED}"

text \<open>A job that is over, and one that ended with a verdict on record or with an error.\<close>

definition over :: "job_row \<Rightarrow> bool" where
  "over j \<longleftrightarrow> jb_state j \<in> {JOB_DONE, JOB_FAILED} \<and> jb_finished_at j \<noteq> None"

definition answered :: "database \<Rightarrow> job_row \<Rightarrow> bool" where
  "answered db j \<longleftrightarrow> over j \<and> (jb_state j = JOB_DONE \<longrightarrow>
     (\<exists>i. jb_submission_id j = Some i \<and> i \<in> sr_id ` set (db_submissions db)))"

text \<open>How the database may change while jobs run: rows keep their places and ids, rows that are over stay,
  and rows that become over are answered.\<close>

definition advanced :: "database \<Rightarrow> database \<Rightarrow> bool" where
  "advanced db db' \<longleftrightarrow> map jb_id (db_jobs db') = map jb_id (db_jobs db) \<and>
     set (db_submissions db) \<subseteq> set (db_submissions db') \<and>
     (\<forall>(j, j') \<in> set (zip (db_jobs db) (db_jobs db')).
        (jb_miner_id j', jb_image_ref j') = (jb_miner_id j, jb_image_ref j) \<and>
        (over j \<longrightarrow> j' = j) \<and> (over j' \<and> \<not> over j \<longrightarrow> answered db' j'))"

lemma answered_mono:
  "answered db j \<Longrightarrow> set (db_submissions db) \<subseteq> set (db_submissions db') \<Longrightarrow> answered db' j"
  by (auto simp: answered_def)

lemma advanced_length: "advanced db db' \<Longrightarrow> length (db_jobs db') = length (db_jobs db)"
  unfolding advanced_def by (metis length_map)

lemma advanced_nth:
  "advanced db db' \<longleftrightarrow> map jb_id (db_jobs db') = map jb_id (db_jobs db) \<and>
     set (db_submissions db) \<subseteq> set (db_submissions db') \<and>
     (\<forall>k < length (db_jobs db). let j = db_jobs db ! k; j' = db_jobs db' ! k in
        (jb_miner_id j', jb_image_ref j') = (jb_miner_id j, jb_image_ref j) \<and>
        (over j \<longrightarrow> j' = j) \<and> (over j' \<and> \<not> over j \<longrightarrow> answered db' j'))"
proof (cases "map jb_id (db_jobs db') = map jb_id (db_jobs db)")
  case True
  then have "length (db_jobs db') = length (db_jobs db)" by (metis length_map)
  then show ?thesis by (simp add: advanced_def Let_def set_zip) blast
next
  case False
  then show ?thesis by (simp add: advanced_def)
qed

lemma advanced_refl: "advanced db db"
  by (simp add: advanced_nth Let_def)

lemma advanced_trans:
  assumes "advanced a b" "advanced b c"
  shows "advanced a c"
  using assms answered_mono advanced_length [OF assms(1)] unfolding advanced_nth Let_def by (metis (no_types, lifting) order_trans)

text \<open>An update that maps the rows.\<close>

lemma advanced_map:
  assumes "db_jobs db' = map f (db_jobs db)" "set (db_submissions db) \<subseteq> set (db_submissions db')"
    and "\<And>j. j \<in> set (db_jobs db) \<Longrightarrow> jb_id (f j) = jb_id j \<and>
      (jb_miner_id (f j), jb_image_ref (f j)) = (jb_miner_id j, jb_image_ref j) \<and>
      (over j \<longrightarrow> f j = j) \<and> (over (f j) \<and> \<not> over j \<longrightarrow> answered db' (f j))"
  shows "advanced db db'"
  using assms by (auto simp: advanced_nth Let_def)


lemma worker_run_job_rows:
  "\<exists>sub err. db_jobs (fst (worker_run_job ctx job (db, h))) =
       map (\<lambda>j. if jb_id j = jb_id job then finish_row (wc_now ctx) sub err j else j) (db_jobs db) \<and>
     set (db_submissions db) \<subseteq> set (db_submissions (fst (worker_run_job ctx job (db, h)))) \<and>
     db_last_job (fst (worker_run_job ctx job (db, h))) = db_last_job db \<and>
     (err = None \<longrightarrow> (\<exists>i. sub = Some i \<and> i \<in> sr_id ` set (db_submissions (fst (worker_run_job ctx job (db, h)))))) \<and>
     err \<noteq> Some []"
proof -
  let ?run = "check_and_record (wc_pipeline ctx) True (wc_now ctx) (By_Reference (jb_image_ref job)) (jb_miner_id job) db h"
  obtain r db1 h1 where run: "?run = (r, db1, h1)" by (cases ?run) auto
  have jobs: "db_jobs db1 = db_jobs db" "db_last_job db1 = db_last_job db" "set (db_submissions db) \<subseteq> set (db_submissions db1)"
    using check_and_record_jobs [of "wc_pipeline ctx" True "wc_now ctx" "By_Reference (jb_image_ref job)" "jb_miner_id job" db h]
    by (simp_all add: run)
  show ?thesis
  proof (cases r)
    case (Inl f)
    then show ?thesis using run jobs
      by (intro exI [of _ None] exI [of _ "Some (''Traceback'' @ wc_trace ctx f)"])
        (simp add: worker_run_job_def finish_job_def)
  next
    case (Inr iv)
    then obtain i v where r: "r = Inr (i, v)" by (cases iv) auto
    then have "i \<in> sr_id ` set (db_submissions db1)"
      using check_and_record_row [of "wc_pipeline ctx" True "wc_now ctx" "By_Reference (jb_image_ref job)" "jb_miner_id job" db h i v]
      by (simp add: run)
    then show ?thesis using run jobs r
      by (intro exI [of _ "Some i"] exI [of _ None]) (simp add: worker_run_job_def finish_job_def)
  qed
qed

lemma oldest_queued_SomeD:
  assumes "jobs_wf db" "oldest_queued db = Some row"
  shows "row \<in> set (db_jobs db) \<and> jb_state row = JOB_QUEUED \<and>
    claim_next_job now db =
      (Some (start_if_queued now (jb_id row) row),
       db\<lparr>db_jobs := map (start_if_queued now (jb_id row)) (db_jobs db)\<rparr>)"
proof -
  have row: "row \<in> set (db_jobs db)" "jb_state row = JOB_QUEUED"
    using assms(2) by (auto simp: oldest_queued_def find_Some_iff)
  let ?db = "db\<lparr>db_jobs := map (start_if_queued now (jb_id row)) (db_jobs db)\<rparr>"
  have wf: "jobs_wf ?db" using claim_update_wf [OF assms(1), of now "jb_id row"] by (simp add: claim_update_def)
  have mem: "start_if_queued now (jb_id row) row \<in> set (db_jobs ?db)" using row(1) by simp
  have found: "get_job ?db (jb_id row) = Some (start_if_queued now (jb_id row) row)"
  proof (cases "get_job ?db (jb_id row)")
    case None
    then show ?thesis using row(1) by (auto simp: get_job_def find_None_iff)
  next
    case (Some j)
    then have "j \<in> set (db_jobs ?db) \<and> jb_id j = jb_id row"
      unfolding get_job_def find_Some_iff by (metis nth_mem)
    then have "j = start_if_queued now (jb_id row) row"
      using jobs_wf_idD [OF wf _ mem] by (metis start_if_queued_simps)
    with Some show ?thesis by simp
  qed
  have "length (filter (\<lambda>j. jb_id j = jb_id row \<and> jb_state j = JOB_QUEUED) (db_jobs db)) \<noteq> 0"
    using row by (auto simp: filter_empty_conv)
  with found row assms(2) show ?thesis
    unfolding claim_next_job_def claim_update_def by simp
qed

lemma jobs_wf_rows:
  assumes "jobs_wf db" "db_jobs db' = map f (db_jobs db)" "db_last_job db' = db_last_job db"
    and "\<And>j. jb_id (f j) = jb_id j" "\<And>j. job_ok j \<Longrightarrow> job_ok (f j)"
  shows "jobs_wf db'"
  using jobs_wf_map [OF assms(1,4,5)] assms(2,3) by (simp add: jobs_wf_def)

lemma worker_turn_idle: "oldest_queued db = None \<Longrightarrow> worker_turn ctx (db, h) = (db, h)"
  by (simp add: worker_turn_def claim_next_job_def)

lemma worker_turn_busy:
  fixes ctx h
  assumes wf: "jobs_wf db" and row: "oldest_queued db = Some row"
  defines "db' \<equiv> fst (worker_turn ctx (db, h))"
  shows "jobs_wf db' \<and> advanced db db' \<and> queued_ids db' = queued_ids db - {jb_id row} \<and>
    running_ids db' = running_ids db"
proof -
  let ?i = "jb_id row" and ?now = "wc_now ctx"
  note claimed = oldest_queued_SomeD [OF wf row, of ?now]
  let ?job = "start_if_queued ?now ?i row"
  let ?db = "db\<lparr>db_jobs := map (start_if_queued ?now ?i) (db_jobs db)\<rparr>"
  have db': "db' = fst (worker_run_job ctx ?job (?db, h))"
    using claimed by (simp add: db'_def worker_turn_def)
  obtain sub err where rows: "db_jobs db' =
       map (\<lambda>j. if jb_id j = ?i then finish_row ?now sub err j else j) (db_jobs ?db)"
    and subs: "set (db_submissions db) \<subseteq> set (db_submissions db')" and last: "db_last_job db' = db_last_job db"
    and err: "err = None \<longrightarrow> (\<exists>i. sub = Some i \<and> i \<in> sr_id ` set (db_submissions db'))" "err \<noteq> Some []"
    using worker_run_job_rows [of ctx ?job ?db h] unfolding db' by auto
  let ?f = "\<lambda>j. if jb_id j = ?i then finish_row ?now sub err (start_if_queued ?now ?i j) else j"
  have f: "db_jobs db' = map ?f (db_jobs db)"
    unfolding rows by (auto simp: start_if_queued_def)
  have mine: "j = row" if "j \<in> set (db_jobs db)" "jb_id j = ?i" for j
    using jobs_wf_idD [OF wf that(1)] claimed that(2) by blast
  have "jobs_wf db'"
    by (rule jobs_wf_rows [OF wf f last]) (auto simp: finish_row_def start_if_queued_def job_ok_def)
  moreover have "advanced db db'"
    by (rule advanced_map [OF f subs])
      (use mine claimed err in \<open>auto simp: finish_row_def start_if_queued_def over_def answered_def\<close>)
  moreover have "queued_ids db' = queued_ids db - {?i}"
    unfolding queued_ids_def f by (force simp: finish_row_def start_if_queued_def split: if_splits)
  moreover have "running_ids db' = running_ids db"
    unfolding running_ids_def f using mine claimed by (force simp: finish_row_def start_if_queued_def split: if_splits)
  ultimately show ?thesis by blast
qed

lemma oldest_queued_None: "oldest_queued db = None \<longleftrightarrow> queued_ids db = {}"
  by (auto simp: oldest_queued_def queued_ids_def find_None_iff)

lemma oldest_queued_mem: "oldest_queued db = Some row \<Longrightarrow> jb_id row \<in> queued_ids db"
  by (auto simp: oldest_queued_def queued_ids_def find_Some_iff)

text \<open>The worker drains its queue in the sense of the interface; the turns of a run are its iterations.\<close>

definition worker_ready :: "worker_world \<Rightarrow> bool" where
  "worker_ready s \<longleftrightarrow> jobs_wf (fst s) \<and> running_ids (fst s) = {}"

interpretation worker: draining "worker_turn ctx" worker_ready "\<lambda>s. card (queued_ids (fst s))"
    "\<lambda>s t. advanced (fst s) (fst t)" for ctx
proof
  have fin: "finite (queued_ids db)" for db by (simp add: queued_ids_def)
  have turn: "worker_ready (worker_turn ctx s) \<and> advanced (fst s) (fst (worker_turn ctx s)) \<and>
      card (queued_ids (fst (worker_turn ctx s))) = card (queued_ids (fst s)) - 1" if "worker_ready s" for s
  proof (cases "oldest_queued (fst s)")
    case None
    with that worker_turn_idle [of "fst s" ctx "snd s"] show ?thesis
      by (simp add: advanced_refl oldest_queued_None)
  next
    case (Some row)
    from worker_turn_busy [OF _ Some, of ctx "snd s"] that oldest_queued_mem [OF Some] fin show ?thesis
      by (simp add: worker_ready_def card_Diff_singleton)
  qed
  show "advanced (fst s) (fst s)" for s by (rule advanced_refl)
  show "advanced (fst s) (fst t) \<Longrightarrow> advanced (fst t) (fst u) \<Longrightarrow> advanced (fst s) (fst u)" for s t u
    by (rule advanced_trans)
  show "worker_ready s \<Longrightarrow> worker_ready (worker_turn ctx s) \<and> advanced (fst s) (fst (worker_turn ctx s))" for s
    using turn by blast
  show "worker_ready s \<Longrightarrow> card (queued_ids (fst s)) \<noteq> 0 \<Longrightarrow>
      card (queued_ids (fst (worker_turn ctx s))) < card (queued_ids (fst s))" for s
    using turn by simp
  show "worker_ready s \<Longrightarrow> card (queued_ids (fst s)) = 0 \<Longrightarrow> card (queued_ids (fst (worker_turn ctx s))) = 0" for s
    using turn by simp
qed

lemma worker_turns_iterate: "worker_turns ctx n s = (worker_turn ctx ^^ n) s"
  by (induction n arbitrary: s) (simp_all add: funpow_swap1)

lemma worker_turns_drain:
  assumes "jobs_wf db" "running_ids db = {}" "card (queued_ids db) \<le> n"
  shows "jobs_wf (fst (worker_turns ctx n (db, h))) \<and> advanced db (fst (worker_turns ctx n (db, h))) \<and>
    queued_ids (fst (worker_turns ctx n (db, h))) = {} \<and> running_ids (fst (worker_turns ctx n (db, h))) = {}"
proof -
  have "finite (queued_ids db')" for db' by (simp add: queued_ids_def)
  with worker.drains [of "(db, h)" n ctx] assms show ?thesis
    by (simp add: worker_ready_def worker_turns_iterate)
qed

lemma no_work_all_over:
  assumes "jobs_wf db" "queued_ids db = {}" "running_ids db = {}" "j \<in> set (db_jobs db)"
  shows "over j"
proof -
  have "jb_state j \<noteq> JOB_QUEUED" "jb_state j \<noteq> JOB_RUNNING"
    using assms(2-4) by (auto simp: queued_ids_def running_ids_def)
  moreover have "job_ok j" using assms(1,4) by (simp add: jobs_wf_def)
  ultimately show ?thesis by (cases "jb_state j") (auto simp: over_def job_ok_def)
qed


lemma claim_next_job_wf: "jobs_wf db \<Longrightarrow> jobs_wf (snd (claim_next_job now db))"
  using claim_update_wf by (auto simp: claim_next_job_def split: option.split prod.split) (metis snd_conv)

definition unfinished :: "database \<Rightarrow> nat" where
  "unfinished db = length (filter (\<lambda>j. jb_state j \<in> {JOB_QUEUED, JOB_RUNNING}) (db_jobs db))"

lemma requeue_advanced: "jobs_wf db \<Longrightarrow> advanced db (snd (requeue_running_jobs db))"
  by (rule advanced_map [of _ "\<lambda>j. if jb_state j = JOB_RUNNING then j\<lparr>jb_state := JOB_QUEUED, jb_started_at := None\<rparr> else j"])
    (auto simp: requeue_running_jobs_def over_def answered_def)

lemma image_selected: "g ` {j \<in> set (map f xs). P j} = {x. \<exists>j \<in> set xs. x = g (f j) \<and> P (f j)}"
  by auto

lemma requeue_queued: "card (queued_ids (snd (requeue_running_jobs db))) \<le> unfinished db"
proof -
  let ?f = "\<lambda>j. if jb_state j = JOB_RUNNING then j\<lparr>jb_state := JOB_QUEUED, jb_started_at := None\<rparr> else j"
  have f: "jb_id (?f j) = jb_id j \<and> (jb_state (?f j) = JOB_QUEUED \<longleftrightarrow> jb_state j \<in> {JOB_QUEUED, JOB_RUNNING})" for j
    by (cases "jb_state j") simp_all
  have rows: "db_jobs (snd (requeue_running_jobs db)) = map ?f (db_jobs db)" by (simp add: requeue_running_jobs_def)
  have "queued_ids (snd (requeue_running_jobs db)) =
      {x. \<exists>j \<in> set (db_jobs db). x = jb_id (?f j) \<and> jb_state (?f j) = JOB_QUEUED}"
    unfolding queued_ids_def rows by (rule image_selected)
  also have "\<dots> = set (map jb_id (filter (\<lambda>j. jb_state j \<in> {JOB_QUEUED, JOB_RUNNING}) (db_jobs db)))"
    unfolding f by auto
  finally have "queued_ids (snd (requeue_running_jobs db)) =
      set (map jb_id (filter (\<lambda>j. jb_state j \<in> {JOB_QUEUED, JOB_RUNNING}) (db_jobs db)))" .
  then show ?thesis unfolding unfinished_def by (metis card_length length_map)
qed

text \<open>C35: The queue drains.  Started on any database, whatever an earlier process left running, the worker has
  after at most as many turns as there were unfinished jobs brought every job to an end: none is
  queued or running, every job has a finishing time, the jobs are the same as before in the same
  order, those that were already over are untouched, and each one ended by this worker is either
  failed or points at a verdict on record.\<close>

theorem worker_drains_the_queue:
  assumes "jobs_wf db" "unfinished db \<le> turns"
  shows "(\<forall>j \<in> set (db_jobs (fst (worker_run ctx turns (db, h)))).
      jb_state j \<in> {JOB_DONE, JOB_FAILED} \<and> jb_finished_at j \<noteq> None) \<and>
    advanced db (fst (worker_run ctx turns (db, h)))"
proof -
  let ?db = "snd (requeue_running_jobs db)"
  have "card (queued_ids ?db) \<le> turns" using requeue_queued [of db] assms(2) by simp
  note drained = worker_turns_drain [OF requeue_wf [OF assms(1)] requeue_running this, of ctx h]
  have "over j" if "j \<in> set (db_jobs (fst (worker_turns ctx turns (?db, h))))" for j
    using no_work_all_over [OF _ _ _ that] drained by blast
  moreover have "advanced db (fst (worker_turns ctx turns (?db, h)))"
    using advanced_trans [OF requeue_advanced [OF assms(1)]] drained by blast
  ultimately show ?thesis by (simp add: worker_run_def over_def)
qed

text \<open>A job left running by a dead process and a queued one.\<close>

definition stale_queue :: database where
  "stale_queue = snd (create_job ''t1'' ''bob'' ''ghcr.io/org/agent:1''
     (snd (claim_next_job ''t0'' (snd (create_job ''t0'' ''alice'' ''ghcr.io/org/agent:1'' empty_db)))))"

definition sample_worker :: worker_context where
  "sample_worker = \<lparr>wc_pipeline = sample_env, wc_now = ''t2'', wc_trace = (\<lambda>_. [])\<rparr>"

theorem worker_drains_the_queue_witness:
  "map jb_state (db_jobs stale_queue) = [JOB_RUNNING, JOB_QUEUED] \<and>
   list_all (\<lambda>j. jb_state j \<in> {JOB_DONE, JOB_FAILED} \<and> jb_finished_at j \<noteq> None)
     (db_jobs (fst (worker_run sample_worker 2 (stale_queue, []))))"
proof
  show states: "map jb_state (db_jobs stale_queue) = [JOB_RUNNING, JOB_QUEUED]" by code_simp
  have "jobs_wf empty_db" by (simp add: jobs_wf_def empty_db_def)
  then have "jobs_wf stale_queue" unfolding stale_queue_def
    by (intro create_job_wf claim_next_job_wf)
  moreover have "unfinished stale_queue \<le> 2" by code_simp
  ultimately show "list_all (\<lambda>j. jb_state j \<in> {JOB_DONE, JOB_FAILED} \<and> jb_finished_at j \<noteq> None)
     (db_jobs (fst (worker_run sample_worker 2 (stale_queue, []))))"
    using worker_drains_the_queue unfolding list_all_iff by blast
qed

end
