(* ===== verification/Neuron_Loop.thy ===== *)
theory Neuron_Loop
  imports Weights
begin

text \<open>
  The loops that drive a neuron: \<open>template/base/neuron.py\<close> (\<open>sync\<close>), \<open>template/base/validator.py\<close> and
  \<open>template/base/miner.py\<close> (\<open>run\<close> and the background thread) and \<open>template/utils/misc.py\<close> (the cached
  block number).  What one iteration reads from the chain, and what raises, is its input; a run is a
  list of iterations.
\<close>

section \<open>The cached block number\<close>

text \<open>
  \<open>ttl_cache(maxsize=1)\<close>: the slot of time is part of the key, and slots are counted from the first call.
  A fetch that raises (\<open>None\<close>) leaves the cache alone.
\<close>

record ttl_state =
  ts_start :: "rat option"
  ts_entry :: "(int \<times> int) option"

definition effective_ttl :: "int \<Rightarrow> int" where
  "effective_ttl ttl = (if ttl \<le> 0 then 65536 else ttl)"

definition ttl_slot :: "int \<Rightarrow> rat \<Rightarrow> rat \<Rightarrow> int" where
  "ttl_slot ttl start now = \<lfloor>(now - start) / of_int (effective_ttl ttl)\<rfloor>"

definition ttl_call :: "int \<Rightarrow> rat \<Rightarrow> int option \<Rightarrow> ttl_state \<Rightarrow> int option \<times> ttl_state" where
  "ttl_call ttl now fetched st =
     (let start = (case ts_start st of Some t \<Rightarrow> t | None \<Rightarrow> now);
          slot = ttl_slot ttl start now;
          st = st\<lparr>ts_start := Some start\<rparr>
      in case ts_entry st of
          Some (s, v) \<Rightarrow> if s = slot then (Some v, st)
            else (fetched, case fetched of Some x \<Rightarrow> st\<lparr>ts_entry := Some (slot, x)\<rparr> | None \<Rightarrow> st)
        | None \<Rightarrow> (fetched, case fetched of Some x \<Rightarrow> st\<lparr>ts_entry := Some (slot, x)\<rparr> | None \<Rightarrow> st))"

definition ttl_get_block :: "rat \<Rightarrow> int option \<Rightarrow> ttl_state \<Rightarrow> int option \<times> ttl_state" where
  "ttl_get_block = ttl_call 12"

section \<open>sync\<close>

text \<open>What leaves a call: an \<open>Exception\<close>, \<open>exit()\<close>, or the keyboard.\<close>

datatype loop_exc = Failed | System_Exit | Interrupt

datatype loop_effect = Forwarded | Resynced int | Weights_Set int int | State_Saved | Synced int | Axon_Stopped

text \<open>The reads of one \<open>sync\<close>; \<open>None\<close> and \<open>False\<close> are calls that raise an \<open>Exception\<close>.\<close>

record sync_reads =
  sy_registration :: registration_read
  sy_block :: "int option"
  sy_resync_ok :: bool
  sy_metagraph_block :: int
  sy_weight_block :: "int option"
  sy_last_update :: "int list"
  sy_mech_row :: "int list option"
  sy_set_weights_ok :: bool
  sy_save_ok :: bool

record loop_state =
  lp_step :: nat
  lp_last_sync :: int
  lp_metagraph_sync :: int
  lp_effects :: "loop_effect list"

definition happens :: "loop_effect \<Rightarrow> loop_state \<Rightarrow> loop_state" where
  "happens x st = st\<lparr>lp_effects := lp_effects st @ [x]\<rparr>"

definition sync_metagraph ::
  "neuron_conf \<Rightarrow> sync_reads \<Rightarrow> loop_state \<Rightarrow> (loop_exc + unit) \<times> loop_state" where
  "sync_metagraph cfg rd st = (case sy_block rd of
      None \<Rightarrow> (Inl Failed, st)
    | Some block \<Rightarrow>
        if should_sync_metagraph cfg block (Some (lp_metagraph_sync st)) (sy_metagraph_block rd) then
          if sy_resync_ok rd
          then (Inr (), (happens (Resynced block) st)\<lparr>lp_metagraph_sync := max block (sy_metagraph_block rd)\<rparr>)
          else (Inl Failed, st)
        else (Inr (), st))"

definition sync_weights ::
  "neuron_conf \<Rightarrow> sync_reads \<Rightarrow> loop_state \<Rightarrow> (loop_exc + unit) \<times> loop_state" where
  "sync_weights cfg rd st =
     (let cfg = cfg\<lparr>n_step := lp_step st\<rparr> in
      if n_is_miner cfg \<or> n_step cfg = 0 \<or> n_disable_set_weights cfg then (Inr (), st)
      else case sy_weight_block rd of
          None \<Rightarrow> (Inl Failed, st)
        | Some block \<Rightarrow>
            (case should_set_weights cfg block (sy_last_update rd) (sy_mech_row rd) of
               Inl x \<Rightarrow> (Inl Failed, st)
             | Inr False \<Rightarrow> (Inr (), st)
             | Inr True \<Rightarrow>
                 if sy_set_weights_ok rd
                 then (Inr (), happens (Weights_Set block (case last_weight_update_block cfg (sy_last_update rd) (sy_mech_row rd) of
                    Inr b \<Rightarrow> b | Inl _ \<Rightarrow> 0)) st)
                 else (Inl Failed, st)))"

definition sync ::
  "neuron_conf \<Rightarrow> string \<Rightarrow> string list \<Rightarrow> sync_reads \<Rightarrow> loop_state \<Rightarrow> (loop_exc + unit) \<times> loop_state" where
  "sync cfg hotkey local_hotkeys rd st =
     (case check_registered (sy_registration rd) hotkey local_hotkeys of
        Raise_Error \<Rightarrow> (Inl Failed, st)
      | Exit_Process \<Rightarrow> (Inl System_Exit, st)
      | Go_On \<Rightarrow>
        (case sync_metagraph cfg rd st of
           (Inl x, st) \<Rightarrow> (Inl x, st)
         | (Inr _, st) \<Rightarrow>
           (case sync_weights cfg rd st of
              (Inl x, st) \<Rightarrow> (Inl x, st)
            | (Inr _, st) \<Rightarrow>
                if sy_save_ok rd then (Inr (), happens State_Saved st) else (Inl Failed, st))))"

section \<open>The validator's loop\<close>

text \<open>
  One iteration: the stop flag and the block at its head, what the forwards raised, the stop flag and
  the block after them, and what \<open>sync\<close> reads.
\<close>

record tick =
  tk_exit_before :: bool
  tk_head_block :: "int option"
  tk_forward :: "loop_exc option"
  tk_exit_after :: bool
  tk_block :: "int option"
  tk_sync :: sync_reads

datatype loop_end = Stopped | Interrupted | Crashed | Exited | Still_Running

fun end_of :: "loop_exc \<Rightarrow> loop_end" where
  "end_of Failed = Crashed"
| "end_of System_Exit = Exited"
| "end_of Interrupt = Interrupted"

text \<open>The \<open>try\<close> around \<open>sync\<close>: an \<open>Exception\<close> is logged, anything else leaves the loop.\<close>

definition maybe_sync ::
  "neuron_conf \<Rightarrow> string \<Rightarrow> string list \<Rightarrow> tick \<Rightarrow> loop_state \<Rightarrow> loop_exc option \<times> loop_state" where
  "maybe_sync cfg hotkey local_hotkeys tk st = (case tk_block tk of
      None \<Rightarrow> (None, st)
    | Some block \<Rightarrow>
        if n_epoch_length cfg \<le> block - lp_last_sync st then
          (case sync cfg hotkey local_hotkeys (tk_sync tk) st of
             (Inr _, st) \<Rightarrow> (None, (happens (Synced block) st)\<lparr>lp_last_sync := block\<rparr>)
           | (Inl Failed, st) \<Rightarrow> (None, st)
           | (Inl x, st) \<Rightarrow> (Some x, st))
        else (None, st))"

fun validator_loop ::
  "neuron_conf \<Rightarrow> string \<Rightarrow> string list \<Rightarrow> tick list \<Rightarrow> loop_state \<Rightarrow> loop_end \<times> loop_state" where
  "validator_loop cfg hotkey local_hotkeys [] st = (Still_Running, st)"
| "validator_loop cfg hotkey local_hotkeys (tk # ticks) st =
     (if tk_exit_before tk then (Stopped, st)
      else case tk_head_block tk of
          None \<Rightarrow> (Crashed, st)
        | Some _ \<Rightarrow>
            (case tk_forward tk of
               Some Failed \<Rightarrow> validator_loop cfg hotkey local_hotkeys ticks st
             | Some x \<Rightarrow> (end_of x, st)
             | None \<Rightarrow>
                 let st = happens Forwarded st in
                 if tk_exit_after tk then (Stopped, st)
                 else (case maybe_sync cfg hotkey local_hotkeys tk st of
                     (Some x, st) \<Rightarrow> (end_of x, st)
                   | (None, st) \<Rightarrow>
                       validator_loop cfg hotkey local_hotkeys ticks (st\<lparr>lp_step := lp_step st + 1\<rparr>))))"

text \<open>
  \<open>run\<close>: the first \<open>sync\<close> and block read are outside every \<open>try\<close>; the keyboard stops the axon, if one
  was made.
\<close>

definition validator_run ::
  "neuron_conf \<Rightarrow> bool \<Rightarrow> string \<Rightarrow> string list \<Rightarrow> sync_reads \<Rightarrow> int option \<Rightarrow> tick list \<Rightarrow> loop_state
     \<Rightarrow> (loop_exc + loop_end) \<times> loop_state" where
  "validator_run cfg has_axon hotkey local_hotkeys first block ticks st =
     (case sync cfg hotkey local_hotkeys first st of
        (Inl x, st) \<Rightarrow> (Inl x, st)
      | (Inr _, st) \<Rightarrow>
        (case block of
           None \<Rightarrow> (Inl Failed, st)
         | Some b \<Rightarrow>
           (case validator_loop cfg hotkey local_hotkeys ticks ((happens (Synced b) st)\<lparr>lp_last_sync := b\<rparr>) of
              (Interrupted, st) \<Rightarrow>
                if has_axon then (Inr Interrupted, happens Axon_Stopped st) else (Inl Failed, st)
            | (e, st) \<Rightarrow> (Inr e, st))))"


section \<open>The miner's loop\<close>

text \<open>One turn of the inner waiting loop; \<open>mt_exit_head\<close> is the flag at the head of the outer one.\<close>

record miner_tick =
  mt_exit_head :: bool
  mt_block :: "int option"
  mt_exit :: bool
  mt_sync :: sync_reads
  mt_block_after :: "int option"

fun miner_loop ::
  "neuron_conf \<Rightarrow> string \<Rightarrow> string list \<Rightarrow> bool \<Rightarrow> miner_tick list \<Rightarrow> loop_state \<Rightarrow> loop_end \<times> loop_state" where
  "miner_loop cfg hotkey local_hotkeys at_head [] st = (Still_Running, st)"
| "miner_loop cfg hotkey local_hotkeys at_head (tk # ticks) st =
     (if at_head \<and> mt_exit_head tk then (Stopped, st)
      else case mt_block tk of
          None \<Rightarrow> (Crashed, st)
        | Some block \<Rightarrow>
            if mt_exit tk then (Stopped, st)
            else if block - lp_last_sync st < n_epoch_length cfg
            then miner_loop cfg hotkey local_hotkeys False ticks st
            else
              (case sync cfg hotkey local_hotkeys (mt_sync tk) st of
                 (Inl Failed, st) \<Rightarrow> miner_loop cfg hotkey local_hotkeys True ticks st
               | (Inl x, st) \<Rightarrow> (end_of x, st)
               | (Inr _, st) \<Rightarrow>
                   (case mt_block_after tk of
                      None \<Rightarrow> miner_loop cfg hotkey local_hotkeys True ticks st
                    | Some b \<Rightarrow> miner_loop cfg hotkey local_hotkeys True ticks
                        ((happens (Synced b) st)\<lparr>lp_last_sync := b, lp_step := lp_step st + 1\<rparr>))))"

section \<open>The background thread\<close>

text \<open>
  \<open>is_running\<close> and \<open>should_exit\<close>, the thread last started, and the threads whose \<open>run\<close> has not returned.
\<close>

record thread_state =
  th_running :: bool
  th_should_exit :: bool
  th_thread :: "nat option"
  th_alive :: "nat set"
  th_started :: nat

definition new_threads :: thread_state where
  "new_threads = \<lparr>th_running = False, th_should_exit = False, th_thread = None, th_alive = {}, th_started = 0\<rparr>"

definition run_in_background_thread :: "thread_state \<Rightarrow> thread_state" where
  "run_in_background_thread st =
     (if th_running st then st
      else st\<lparr>th_should_exit := False, th_thread := Some (th_started st),
              th_alive := insert (th_started st) (th_alive st), th_started := th_started st + 1,
              th_running := True\<rparr>)"

text \<open>\<open>join(5)\<close> returns when the thread has ended or after five seconds, and does not say which.\<close>

definition stop_run_thread :: "bool \<Rightarrow> thread_state \<Rightarrow> thread_state" where
  "stop_run_thread ended st =
     (if th_running st
      then st\<lparr>th_should_exit := True, th_running := False,
              th_alive := (if ended then th_alive st - set_option (th_thread st) else th_alive st)\<rparr>
      else st)"

inductive thread_step :: "bool \<Rightarrow> thread_state \<Rightarrow> thread_state \<Rightarrow> bool" where
  thread_start: "thread_step prompt st (run_in_background_thread st)"
| thread_stop: "(prompt \<longrightarrow> ended) \<Longrightarrow> thread_step prompt st (stop_run_thread ended st)"
| thread_ends: "t \<in> th_alive st \<Longrightarrow> thread_step prompt st (st\<lparr>th_alive := th_alive st - {t}\<rparr>)"

inductive threads_reachable :: "bool \<Rightarrow> thread_state \<Rightarrow> bool" where
  threads_initial: "threads_reachable prompt new_threads"
| threads_step: "threads_reachable prompt st \<Longrightarrow> thread_step prompt st st' \<Longrightarrow> threads_reachable prompt st'"

section \<open>The loop paces itself\<close>

definition synced_blocks :: "loop_state \<Rightarrow> int list" where
  "synced_blocks st = concat (map (\<lambda>x. case x of Synced b \<Rightarrow> [b] | _ \<Rightarrow> []) (lp_effects st))"

fun spaced :: "int \<Rightarrow> int list \<Rightarrow> bool" where
  "spaced e (a # b # xs) = (e \<le> b - a \<and> spaced e (b # xs))"
| "spaced e xs = True"

lemma spaced_snoc: "spaced e (xs @ [a, b]) \<longleftrightarrow> spaced e (xs @ [a]) \<and> e \<le> b - a"
  by (induction e xs rule: spaced.induct) (auto simp: neq_Nil_conv)

text \<open>What \<open>sync\<close> may do when the loop has completed \<open>n\<close> steps.\<close>

definition sync_effect_ok :: "neuron_conf \<Rightarrow> nat \<Rightarrow> loop_effect \<Rightarrow> bool" where
  "sync_effect_ok cfg n x = (case x of
      Weights_Set b u \<Rightarrow> 0 < n \<and> n_epoch_length cfg < b - u \<and> \<not> n_is_miner cfg \<and> \<not> n_disable_set_weights cfg
    | Resynced _ \<Rightarrow> True
    | State_Saved \<Rightarrow> True
    | _ \<Rightarrow> False)"

definition appends :: "(loop_effect \<Rightarrow> bool) \<Rightarrow> loop_state \<Rightarrow> loop_state \<Rightarrow> bool" where
  "appends P st st' \<longleftrightarrow> (\<exists>new. lp_effects st' = lp_effects st @ new \<and> (\<forall>x \<in> set new. P x)) \<and>
     lp_step st' = lp_step st \<and> lp_last_sync st' = lp_last_sync st"

lemma appends_refl [simp]: "appends P st st"
  by (simp add: appends_def)

lemma appends_trans: "appends P a b \<Longrightarrow> appends P b c \<Longrightarrow> appends P a c"
  by (fastforce simp: appends_def)

lemma appends_happens: "P x \<Longrightarrow> appends P st (happens x st)"
  by (simp add: appends_def happens_def)

lemma sync_metagraph_appends:
  assumes "sync_metagraph cfg rd st = (r, st')"
  shows "appends (sync_effect_ok cfg n) st st'"
  using assms
  by (auto simp: sync_metagraph_def appends_def happens_def sync_effect_ok_def split: option.splits if_splits)

lemma should_set_weights_True:
  assumes "should_set_weights cfg block last_update mech_row = Inr True"
  shows "\<exists>b. last_weight_update_block cfg last_update mech_row = Inr b \<and> n_epoch_length cfg < block - b \<and>
    0 < n_step cfg \<and> \<not> n_is_miner cfg \<and> \<not> n_disable_set_weights cfg"
  using assms by (auto simp: should_set_weights_def split: if_splits sum.splits)

lemma last_weight_update_block_step [simp]:
  "last_weight_update_block (cfg\<lparr>n_step := n\<rparr>) last_update mech_row = last_weight_update_block cfg last_update mech_row"
  by (simp add: last_weight_update_block_def split: option.split)

lemma sync_weights_appends:
  assumes "sync_weights cfg rd st = (r, st')"
  shows "appends (sync_effect_ok cfg (lp_step st)) st st'"
  using assms
  by (auto simp: sync_weights_def Let_def sync_effect_ok_def intro!: appends_happens
      dest!: should_set_weights_True split: if_splits option.splits sum.splits bool.splits)

lemma sync_appends:
  assumes "sync cfg hotkey local_hotkeys rd st = (r, st')"
  shows "appends (sync_effect_ok cfg (lp_step st)) st st'"
proof -
  obtain r1 st1 where m: "sync_metagraph cfg rd st = (r1, st1)" by (cases "sync_metagraph cfg rd st") auto
  obtain r2 st2 where w: "sync_weights cfg rd st1 = (r2, st2)" by (cases "sync_weights cfg rd st1") auto
  note 1 = sync_metagraph_appends [OF m, of "lp_step st"]
  then have step: "lp_step st1 = lp_step st" by (simp add: appends_def)
  note 2 = appends_trans [OF 1 sync_weights_appends [OF w, unfolded step]]
  note 3 = appends_trans [OF 2 appends_happens [of "sync_effect_ok cfg (lp_step st)" State_Saved]]
  show ?thesis
    using assms m w 1 2 3
    by (auto simp: sync_def sync_effect_ok_def split: registration_verdict.splits sum.splits if_splits)
qed


text \<open>A loop that has synced at \<open>lp_last_sync\<close> and set no weights out of turn.\<close>

definition weights_in_turn :: "neuron_conf \<Rightarrow> loop_effect list \<Rightarrow> bool" where
  "weights_in_turn cfg effs \<longleftrightarrow> (\<forall>xs b u ys. effs = xs @ Weights_Set b u # ys \<longrightarrow>
     Forwarded \<in> set xs \<and> n_epoch_length cfg < b - u \<and> \<not> n_is_miner cfg \<and> \<not> n_disable_set_weights cfg)"

definition loop_paced :: "neuron_conf \<Rightarrow> loop_state \<Rightarrow> bool" where
  "loop_paced cfg st \<longleftrightarrow> (0 < lp_step st \<longrightarrow> Forwarded \<in> set (lp_effects st)) \<and>
     weights_in_turn cfg (lp_effects st)"

definition loop_synced :: "neuron_conf \<Rightarrow> loop_state \<Rightarrow> bool" where
  "loop_synced cfg st \<longleftrightarrow> (\<exists>bs. synced_blocks st = bs @ [lp_last_sync st]) \<and>
     spaced (n_epoch_length cfg) (synced_blocks st)"

lemma weights_in_turn_append:
  assumes "weights_in_turn cfg effs"
    and "\<forall>x \<in> set new. \<forall>b u. x = Weights_Set b u \<longrightarrow> Forwarded \<in> set effs \<and> n_epoch_length cfg < b - u \<and>
      \<not> n_is_miner cfg \<and> \<not> n_disable_set_weights cfg"
  shows "weights_in_turn cfg (effs @ new)"
  unfolding weights_in_turn_def
proof (intro allI impI)
  fix xs b u ys
  assume "effs @ new = xs @ Weights_Set b u # ys"
  then consider zs where "effs = xs @ Weights_Set b u # zs" | zs where "xs = effs @ zs" "new = zs @ Weights_Set b u # ys"
    by (auto simp: append_eq_append_conv2 append_eq_Cons_conv)
  then show "Forwarded \<in> set xs \<and> n_epoch_length cfg < b - u \<and> \<not> n_is_miner cfg \<and> \<not> n_disable_set_weights cfg"
  proof cases
    case 1
    then show ?thesis using assms(1) by (auto simp: weights_in_turn_def)
  next
    case 2
    then show ?thesis using assms(2) by auto
  qed
qed

lemma loop_paced_appends:
  assumes "appends (sync_effect_ok cfg (lp_step st)) st st'" "loop_paced cfg st"
  shows "loop_paced cfg st'"
proof -
  obtain new where new: "lp_effects st' = lp_effects st @ new" "lp_step st' = lp_step st"
    and ok: "\<forall>x \<in> set new. sync_effect_ok cfg (lp_step st) x" using assms(1) by (auto simp: appends_def)
  have "weights_in_turn cfg (lp_effects st @ new)"
    by (rule weights_in_turn_append) (use assms(2) ok in \<open>auto simp: loop_paced_def sync_effect_ok_def\<close>)
  with new assms(2) show ?thesis by (auto simp: loop_paced_def)
qed

lemma loop_paced_happens:
  assumes "loop_paced cfg st" "\<forall>b u. x \<noteq> Weights_Set b u"
  shows "loop_paced cfg (happens x st)"
  using assms weights_in_turn_append [of cfg "lp_effects st" "[x]"] by (auto simp: loop_paced_def happens_def)

lemma loop_paced_update [simp]:
  "loop_paced cfg (st\<lparr>lp_last_sync := b\<rparr>) = loop_paced cfg st"
  by (simp add: loop_paced_def)

lemma synced_blocks_appends:
  assumes "appends (sync_effect_ok cfg n) st st'"
  shows "synced_blocks st' = synced_blocks st \<and> lp_last_sync st' = lp_last_sync st \<and> lp_step st' = lp_step st"
proof -
  obtain new where new: "lp_effects st' = lp_effects st @ new"
    and ok: "\<forall>x \<in> set new. sync_effect_ok cfg n x" using assms by (auto simp: appends_def)
  have "concat (map (\<lambda>x. case x of Synced b \<Rightarrow> [b] | _ \<Rightarrow> []) new) = []"
    using ok by (auto simp: sync_effect_ok_def split: loop_effect.splits)
  with new assms show ?thesis by (simp add: synced_blocks_def appends_def)
qed

lemma synced_blocks_happens [simp]:
  "synced_blocks (happens x st) = synced_blocks st @ (case x of Synced b \<Rightarrow> [b] | _ \<Rightarrow> [])"
  by (simp add: synced_blocks_def happens_def)

lemma happens_simps [simp]:
  "lp_step (happens x st) = lp_step st" "lp_last_sync (happens x st) = lp_last_sync st"
  "lp_metagraph_sync (happens x st) = lp_metagraph_sync st"
  by (simp_all add: happens_def)

lemma synced_blocks_update [simp]:
  "synced_blocks (st\<lparr>lp_last_sync := b\<rparr>) = synced_blocks st" "synced_blocks (st\<lparr>lp_step := n\<rparr>) = synced_blocks st"
  by (simp_all add: synced_blocks_def)

lemma maybe_sync_keeps:
  assumes "maybe_sync cfg hotkey local_hotkeys tk st = (r, st')" "loop_paced cfg st" "loop_synced cfg st"
  shows "loop_paced cfg st' \<and> loop_synced cfg st' \<and> lp_step st' = lp_step st \<and>
    set (lp_effects st) \<subseteq> set (lp_effects st')"
proof -
  have unchanged: ?thesis if "appends (sync_effect_ok cfg (lp_step st)) st st'"
    using that synced_blocks_appends [OF that] loop_paced_appends [OF that assms(2)] assms(3)
    by (auto simp: loop_synced_def appends_def)
  show ?thesis
  proof (cases "tk_block tk")
    case None
    then show ?thesis using assms by (simp add: maybe_sync_def)
  next
    case (Some block)
    show ?thesis
    proof (cases "n_epoch_length cfg \<le> block - lp_last_sync st")
      case False
      then show ?thesis using assms Some by (simp add: maybe_sync_def)
    next
      case True
      obtain r1 st1 where s: "sync cfg hotkey local_hotkeys (tk_sync tk) st = (r1, st1)"
        by (cases "sync cfg hotkey local_hotkeys (tk_sync tk) st") auto
      note app = sync_appends [OF s]
      show ?thesis
      proof (cases r1)
        case (Inl x)
        then have "st' = st1" using assms(1) Some True s by (cases x) (auto simp: maybe_sync_def)
        with unchanged app show ?thesis by simp
      next
        case (Inr u)
        then have st': "st' = (happens (Synced block) st1)\<lparr>lp_last_sync := block\<rparr>"
          using assms(1) Some True s by (simp add: maybe_sync_def)
        have "spaced (n_epoch_length cfg) (synced_blocks st1 @ [block])"
          using assms(3) True synced_blocks_appends [OF app] by (auto simp: loop_synced_def spaced_snoc)
        then have "loop_synced cfg st'" by (simp add: loop_synced_def st')
        moreover have "loop_paced cfg st'"
          unfolding st' using loop_paced_happens [OF loop_paced_appends [OF app assms(2)]] by simp
        moreover have "set (lp_effects st) \<subseteq> set (lp_effects st')"
          using app by (auto simp: st' happens_def appends_def)
        ultimately show ?thesis using synced_blocks_appends [OF app] by (simp add: st')
      qed
    qed
  qed
qed

lemma validator_loop_keeps:
  "loop_paced cfg st \<Longrightarrow> loop_synced cfg st \<Longrightarrow>
   loop_paced cfg (snd (validator_loop cfg hotkey local_hotkeys ticks st)) \<and>
   loop_synced cfg (snd (validator_loop cfg hotkey local_hotkeys ticks st))"
proof (induction ticks arbitrary: st)
  case (Cons tk ticks)
  let ?fst = "happens Forwarded st"
  have f: "loop_paced cfg ?fst" "loop_synced cfg ?fst" "Forwarded \<in> set (lp_effects ?fst)"
    using Cons.prems loop_paced_happens [of cfg st Forwarded] by (auto simp: loop_synced_def happens_def synced_blocks_def)
  obtain r st1 where m: "maybe_sync cfg hotkey local_hotkeys tk ?fst = (r, st1)"
    by (cases "maybe_sync cfg hotkey local_hotkeys tk ?fst") auto
  note k = maybe_sync_keeps [OF m f(1,2)]
  then have next_ok: "loop_paced cfg (st1\<lparr>lp_step := lp_step st1 + 1\<rparr>)" "loop_synced cfg (st1\<lparr>lp_step := lp_step st1 + 1\<rparr>)"
    using f(3) by (auto simp: loop_paced_def loop_synced_def)
  show ?case
  proof (cases "tk_exit_before tk \<or> tk_head_block tk = None")
    case True
    then show ?thesis using Cons.prems by auto
  next
    case False
    then obtain b where b: "\<not> tk_exit_before tk" "tk_head_block tk = Some b" by auto
    show ?thesis
    proof (cases "tk_forward tk")
      case None
      then show ?thesis
        using b f(1,2) k m Cons.IH [OF next_ok] by (auto simp: Let_def split: option.split)
    next
      case (Some x)
      then show ?thesis using b Cons.IH [OF Cons.prems] Cons.prems by (cases x) auto
    qed
  qed
qed simp

text \<open>C36: Weights are paced.  However the chain, the miners and the clock behave, in a run that starts fresh
  the blocks at which the validator synced are at least an epoch apart; weights are set only after a
  completed round of forwards and only when more than an epoch of blocks has passed since the last
  update on record; and a neuron that is a miner, or that has setting weights disabled, sets none.\<close>

theorem weights_are_paced:
  assumes "lp_step st = 0" "lp_effects st = []"
    and "validator_run cfg has_axon hotkey local_hotkeys first block ticks st = (r, st')"
  shows "spaced (n_epoch_length cfg) (synced_blocks st') \<and>
    (\<forall>xs b u ys. lp_effects st' = xs @ Weights_Set b u # ys \<longrightarrow>
       Forwarded \<in> set xs \<and> n_epoch_length cfg < b - u \<and> \<not> n_is_miner cfg \<and> \<not> n_disable_set_weights cfg)"
proof -
  have fresh: "loop_paced cfg st" "synced_blocks st = []"
    using assms(1,2) by (simp_all add: loop_paced_def weights_in_turn_def synced_blocks_def)
  obtain r1 st1 where s: "sync cfg hotkey local_hotkeys first st = (r1, st1)"
    by (cases "sync cfg hotkey local_hotkeys first st") auto
  have p1: "loop_paced cfg st1" using loop_paced_appends [OF sync_appends [OF s] fresh(1)] .
  have e1: "synced_blocks st1 = []" using synced_blocks_appends [OF sync_appends [OF s]] fresh(2) by simp
  have "loop_paced cfg st' \<and> spaced (n_epoch_length cfg) (synced_blocks st')"
  proof (cases "r1 = Inr () \<and> block \<noteq> None")
    case False
    then have "st' = st1" using assms(3) s by (cases r1) (auto simp: validator_run_def split: option.splits)
    with p1 e1 show ?thesis by simp
  next
    case True
    then obtain b where b: "block = Some b" by auto
    let ?st = "(happens (Synced b) st1)\<lparr>lp_last_sync := b\<rparr>"
    have "loop_paced cfg ?st" using loop_paced_happens [OF p1] by simp
    moreover have "loop_synced cfg ?st" using e1 by (simp add: loop_synced_def)
    ultimately have k: "loop_paced cfg (snd (validator_loop cfg hotkey local_hotkeys ticks ?st))"
        "loop_synced cfg (snd (validator_loop cfg hotkey local_hotkeys ticks ?st))"
      using validator_loop_keeps by blast+
    obtain e st2 where l: "validator_loop cfg hotkey local_hotkeys ticks ?st = (e, st2)"
      by (cases "validator_loop cfg hotkey local_hotkeys ticks ?st") auto
    have "st' = st2 \<or> st' = happens Axon_Stopped st2"
      using assms(3) s True b l by (auto simp: validator_run_def split: loop_end.splits if_splits)
    then show ?thesis using k l loop_paced_happens [of cfg st2 Axon_Stopped] by (auto simp: loop_synced_def)
  qed
  then show ?thesis by (simp add: loop_paced_def weights_in_turn_def)
qed

text \<open>An iteration in which nothing but an \<open>Exception\<close> of a forward or of \<open>sync\<close> goes wrong.\<close>

definition survivable :: "string \<Rightarrow> string list \<Rightarrow> tick \<Rightarrow> bool" where
  "survivable hotkey local_hotkeys tk \<longleftrightarrow> \<not> tk_exit_before tk \<and> \<not> tk_exit_after tk \<and>
     tk_head_block tk \<noteq> None \<and> tk_forward tk \<in> {None, Some Failed} \<and>
     check_registered (sy_registration (tk_sync tk)) hotkey local_hotkeys \<noteq> Exit_Process"

lemma maybe_sync_step: "lp_step (snd (maybe_sync cfg hotkey local_hotkeys tk st)) = lp_step st"
proof -
  have "lp_step (snd (sync cfg hotkey local_hotkeys (tk_sync tk) st)) = lp_step st"
    using sync_appends [of cfg hotkey local_hotkeys "tk_sync tk" st]
    by (cases "sync cfg hotkey local_hotkeys (tk_sync tk) st") (auto simp: appends_def)
  then show ?thesis
    by (cases "sync cfg hotkey local_hotkeys (tk_sync tk) st"; cases "fst (sync cfg hotkey local_hotkeys (tk_sync tk) st)")
      (auto simp: maybe_sync_def split: option.split loop_exc.split)
qed

lemma sync_outcomes:
  assumes "check_registered (sy_registration rd) hotkey local_hotkeys \<noteq> Exit_Process"
  shows "fst (sync cfg hotkey local_hotkeys rd st) \<in> {Inr (), Inl Failed}"
  using assms
  by (auto simp: sync_def sync_metagraph_def sync_weights_def Let_def
      split: registration_verdict.split prod.split sum.split option.split bool.split)

lemma maybe_sync_survives:
  assumes "survivable hotkey local_hotkeys tk"
  shows "fst (maybe_sync cfg hotkey local_hotkeys tk st) = None"
proof -
  have "fst (sync cfg hotkey local_hotkeys (tk_sync tk) st) \<in> {Inr (), Inl Failed}"
    using assms by (intro sync_outcomes) (simp add: survivable_def)
  then show ?thesis by (auto simp: maybe_sync_def split: option.split prod.split)
qed

text \<open>C37: The validator's loop outlives every failure of a round or of a sync.  As long as nobody stops it, the
  block can be read at the head of an iteration and the hotkey stays registered, the loop is still
  running after any number of iterations, whatever the forwards, the metagraph, the weight setting or
  the saving of state raised, and it has completed exactly the iterations whose forwards succeeded.\<close>

theorem validator_loop_survives:
  assumes "\<forall>tk \<in> set ticks. survivable hotkey local_hotkeys tk"
  shows "fst (validator_loop cfg hotkey local_hotkeys ticks st) = Still_Running \<and>
    lp_step (snd (validator_loop cfg hotkey local_hotkeys ticks st)) =
      lp_step st + length (filter (\<lambda>tk. tk_forward tk = None) ticks)"
  using assms
proof (induction ticks arbitrary: st)
  case (Cons tk ticks)
  then have ok: "survivable hotkey local_hotkeys tk" and rest: "\<forall>tk \<in> set ticks. survivable hotkey local_hotkeys tk"
    by simp_all
  let ?fst = "happens Forwarded st"
  obtain st1 where m: "maybe_sync cfg hotkey local_hotkeys tk ?fst = (None, st1)"
    using maybe_sync_survives [OF ok, of cfg ?fst] by (cases "maybe_sync cfg hotkey local_hotkeys tk ?fst") auto
  then have step: "lp_step st1 = lp_step st" using maybe_sync_step [of cfg hotkey local_hotkeys tk ?fst] by simp
  show ?case
    using ok m step Cons.IH [OF rest] by (auto simp: survivable_def Let_def)
qed simp


definition sample_conf :: neuron_conf where
  "sample_conf = \<lparr>n_is_miner = False, n_step = 0, n_disable_set_weights = False, n_epoch_length = 100,
     n_mechid = 0, n_mock = False, n_uid = 0\<rparr>"

definition sample_reads :: "int \<Rightarrow> int \<Rightarrow> sync_reads" where
  "sample_reads block updated = \<lparr>sy_registration = Registered True, sy_block = Some block, sy_resync_ok = True,
     sy_metagraph_block = block, sy_weight_block = Some block, sy_last_update = [updated], sy_mech_row = None,
     sy_set_weights_ok = True, sy_save_ok = True\<rparr>"

definition sample_tick :: "int \<Rightarrow> int \<Rightarrow> loop_exc option \<Rightarrow> tick" where
  "sample_tick block updated raised = \<lparr>tk_exit_before = False, tk_head_block = Some block, tk_forward = raised,
     tk_exit_after = False, tk_block = Some block, tk_sync = sample_reads block updated\<rparr>"

definition sample_start :: loop_state where
  "sample_start = \<lparr>lp_step = 0, lp_last_sync = 0, lp_metagraph_sync = 1000, lp_effects = []\<rparr>"

theorem weights_are_paced_witness:
  "\<exists>r st'. validator_run sample_conf True ''hk'' [''hk''] (sample_reads 1000 900) (Some 1000)
      [sample_tick 1050 900 None, sample_tick 1101 900 (Some Failed), sample_tick 1102 900 None] sample_start = (r, st') \<and>
     synced_blocks st' = [1000, 1102] \<and> Weights_Set 1102 900 \<in> set (lp_effects st') \<and>
     spaced (n_epoch_length sample_conf) (synced_blocks st')"
proof -
  let ?run = "validator_run sample_conf True ''hk'' [''hk''] (sample_reads 1000 900) (Some 1000)
      [sample_tick 1050 900 None, sample_tick 1101 900 (Some Failed), sample_tick 1102 900 None] sample_start"
  have "synced_blocks (snd ?run) = [1000, 1102] \<and> Weights_Set 1102 900 \<in> set (lp_effects (snd ?run))"
    by code_simp
  moreover have "spaced (n_epoch_length sample_conf) (synced_blocks (snd ?run))"
    using weights_are_paced [of sample_start sample_conf True "''hk''" "[''hk'']" "sample_reads 1000 900" "Some 1000"
        "[sample_tick 1050 900 None, sample_tick 1101 900 (Some Failed), sample_tick 1102 900 None]" "fst ?run" "snd ?run"]
    by (simp add: sample_start_def)
  ultimately show ?thesis by (metis prod.collapse)
qed

theorem validator_loop_survives_witness:
  "fst (validator_loop sample_conf ''hk'' [''hk'']
     [sample_tick 1050 900 (Some Failed), sample_tick 1101 900 None] sample_start) = Still_Running"
proof -
  have "\<forall>tk \<in> set [sample_tick 1050 900 (Some Failed), sample_tick 1101 900 None]. survivable ''hk'' [''hk''] tk"
    by code_simp
  from validator_loop_survives [OF this] show ?thesis by blast
qed

text \<open>A block number that cannot be read at the head of an iteration ends the loop for good.\<close>

theorem unreadable_block_ends_the_loop:
  "\<not> tk_exit_before tk \<Longrightarrow> tk_head_block tk = None \<Longrightarrow>
   validator_loop cfg hotkey local_hotkeys (tk # ticks) st = (Crashed, st)"
  by simp

text \<open>
  The loop syncs after one epoch, but weights want more than one: a sync exactly an epoch after the
  last update on record, or earlier, sets none, and weights set at a sync go on record no earlier
  than that sync.
\<close>

theorem punctual_sync_sets_no_weights:
  assumes "last_weight_update_block cfg last_update mech_row = Inr b" "block \<le> b + n_epoch_length cfg"
  shows "should_set_weights cfg block last_update mech_row = Inr False"
  using assms by (simp add: should_set_weights_def)

section \<open>Threads\<close>

definition threads_ok :: "thread_state \<Rightarrow> bool" where
  "threads_ok st \<longleftrightarrow> th_alive st \<subseteq> (if th_running st then set_option (th_thread st) else {}) \<and>
     (\<forall>t \<in> th_alive st. t < th_started st)"

text \<open>If every stop waits long enough, there is never a second loop.\<close>

theorem prompt_stops_leave_one_loop:
  assumes "threads_reachable True st"
  shows "card (th_alive st) \<le> 1"
proof -
  have "threads_ok st"
    using assms
  proof (induction True st rule: threads_reachable.induct)
    case threads_initial
    then show ?case by (simp add: threads_ok_def new_threads_def)
  next
    case (threads_step st st')
    from this(3,2) show ?case
      by (induction True st st' rule: thread_step.induct)
        (auto simp: threads_ok_def run_in_background_thread_def stop_run_thread_def)
  qed
  then have "th_alive st \<subseteq> set_option (th_thread st)" by (auto simp: threads_ok_def split: if_splits)
  then have "card (th_alive st) \<le> card (set_option (th_thread st))" by (intro card_mono) simp_all
  also have "\<dots> \<le> 1" by (cases "th_thread st") simp_all
  finally show ?thesis .
qed

text \<open>
  A stop that gives up after five seconds, followed by a start, leaves two: the new start clears the
  flag the first loop had not yet seen.
\<close>

theorem slow_stop_leaves_two_loops:
  "\<exists>st. threads_reachable False st \<and> card (th_alive st) = 2 \<and> \<not> th_should_exit st"
proof -
  let ?a = "run_in_background_thread new_threads"
  let ?c = "run_in_background_thread (stop_run_thread False ?a)"
  have "threads_reachable False ?a" by (rule threads_step [OF threads_initial thread_start])
  then have "threads_reachable False (stop_run_thread False ?a)" by (rule threads_step) (rule thread_stop, simp)
  then have "threads_reachable False ?c" by (rule threads_step) (rule thread_start)
  moreover have "card (th_alive ?c) = 2 \<and> \<not> th_should_exit ?c"
    by (simp add: run_in_background_thread_def stop_run_thread_def new_threads_def)
  ultimately show ?thesis by blast
qed

section \<open>The cached block is fresh\<close>

lemma ttl_slot_close:
  assumes "0 < ttl" "ttl_slot ttl start t = ttl_slot ttl start now"
  shows "\<bar>now - t\<bar> < of_int ttl"
proof -
  let ?s = "of_int (ttl_slot ttl start now) :: rat" and ?d = "of_int ttl :: rat"
  have pos: "0 < ?d" using assms(1) by simp
  have now: "?s \<le> (now - start) / ?d \<and> (now - start) / ?d < ?s + 1"
    using assms(1) by (simp add: ttl_slot_def effective_ttl_def) linarith
  have t: "?s \<le> (t - start) / ?d \<and> (t - start) / ?d < ?s + 1"
    using assms by (simp add: ttl_slot_def effective_ttl_def) linarith
  have "\<bar>(now - start) / ?d - (t - start) / ?d\<bar> < 1" using now t by linarith
  then have "\<bar>(now - t) / ?d\<bar> < 1" by (simp add: diff_divide_distrib)
  then show ?thesis using pos by (simp add: abs_divide divide_less_eq)
qed

text \<open>The calls so far, each with its time and what a fetch then would have given.\<close>

fun ttl_run :: "int \<Rightarrow> (rat \<times> int option) list \<Rightarrow> ttl_state \<Rightarrow> int option list \<times> ttl_state" where
  "ttl_run ttl [] st = ([], st)"
| "ttl_run ttl ((now, fetched) # calls) st =
     (case ttl_call ttl now fetched st of (r, st) \<Rightarrow>
       (case ttl_run ttl calls st of (rs, st) \<Rightarrow> (r # rs, st)))"


definition ttl_empty :: ttl_state where
  "ttl_empty = \<lparr>ts_start = None, ts_entry = None\<rparr>"

definition ttl_backed :: "int \<Rightarrow> (rat \<times> int option) set \<Rightarrow> ttl_state \<Rightarrow> bool" where
  "ttl_backed ttl past st \<longleftrightarrow> (\<forall>slot v. ts_entry st = Some (slot, v) \<longrightarrow>
     (\<exists>start t. ts_start st = Some start \<and> (t, Some v) \<in> past \<and> ttl_slot ttl start t = slot))"

lemma ttl_call_backed:
  assumes "0 < ttl" "ttl_backed ttl past st" "ttl_call ttl now fetched st = (r, st')"
  shows "ttl_backed ttl (insert (now, fetched) past) st' \<and>
    (\<forall>v. r = Some v \<longrightarrow> (\<exists>t. (t, Some v) \<in> insert (now, fetched) past \<and> \<bar>now - t\<bar> < of_int ttl))"
proof (cases "ts_entry st")
  case None
  then show ?thesis
    using assms by (auto simp: ttl_call_def Let_def ttl_backed_def split: option.splits)
next
  case (Some entry)
  obtain slot v where entry: "entry = (slot, v)" by (cases entry)
  from assms(2) Some entry obtain start t
    where start: "ts_start st = Some start" and t: "(t, Some v) \<in> past" "ttl_slot ttl start t = slot"
    by (auto simp: ttl_backed_def)
  show ?thesis
  proof (cases "slot = ttl_slot ttl start now")
    case True
    then have "r = Some v" "st' = st\<lparr>ts_start := Some start\<rparr>"
      using assms(3) Some entry start by (simp_all add: ttl_call_def Let_def)
    moreover have "\<bar>now - t\<bar> < of_int ttl" using ttl_slot_close [OF assms(1)] t(2) True by simp
    ultimately show ?thesis using t Some entry start by (auto simp: ttl_backed_def)
  next
    case False
    then show ?thesis
      using assms Some entry start t by (auto simp: ttl_call_def Let_def ttl_backed_def split: option.splits)
  qed
qed

lemma ttl_run_fresh:
  assumes "0 < ttl" "ttl_backed ttl past st" "k < length calls" "fst (ttl_run ttl calls st) ! k = Some v"
  shows "\<exists>t. (t, Some v) \<in> past \<union> set (take (Suc k) calls) \<and> \<bar>fst (calls ! k) - t\<bar> < of_int ttl"
  using assms(2-4)
proof (induction calls arbitrary: past st k)
  case (Cons c calls)
  obtain now fetched where c: "c = (now, fetched)" by (cases c)
  obtain r st1 where call: "ttl_call ttl now fetched st = (r, st1)" by (cases "ttl_call ttl now fetched st") auto
  note b = ttl_call_backed [OF assms(1) Cons.prems(1) call]
  show ?case
  proof (cases k)
    case 0
    then show ?thesis using b Cons.prems(3) c call by (simp split: prod.splits)
  next
    case (Suc m)
    then have "fst (ttl_run ttl calls st1) ! m = Some v" using Cons.prems(3) c call by (simp split: prod.splits)
    with Cons.IH [of "insert (now, fetched) past" st1 m] b Cons.prems(2) Suc c show ?thesis by auto
  qed
qed simp

text \<open>The block number a neuron sees was current less than twelve seconds away.\<close>

theorem block_is_fresh:
  assumes "k < length calls" "fst (ttl_run 12 calls ttl_empty) ! k = Some v"
  shows "\<exists>t. (t, Some v) \<in> set (take (Suc k) calls) \<and> \<bar>fst (calls ! k) - t\<bar> < 12"
  using ttl_run_fresh [OF _ _ assms, of "{}"] by (simp add: ttl_backed_def ttl_empty_def)

end
