(* ===== verification/Miner.thy ===== *)
theory Miner
  imports Llm_Validator
begin

text \<open>
  The two miners: \<open>neurons/miner.py\<close> (LLM keys) and \<open>neurons/security_miner.py\<close> with the
  blob hosting of \<open>masxai/agent_blob.py\<close>.  Encryption, hashing and the Docker CLI are arguments.
\<close>

section \<open>The configured keys\<close>

type_synonym key_config = "string \<times> string \<times> string"

fun collect_entries :: "(json \<Rightarrow> string) \<Rightarrow> json list \<Rightarrow> key_config list \<Rightarrow> key_config list" where
  "collect_entries rp [] configs = configs"
| "collect_entries rp (entry # entries) configs =
     (if LLM_KEY_MAX_KEYS_PER_HOTKEY \<le> length configs then configs
      else case entry of
          JDict d \<Rightarrow>
            let provider = item_text rp d ''provider'';
                model = item_text rp d ''model'';
                api_key = item_text rp d ''api_key''
            in if provider = [] \<or> model = [] \<or> api_key = []
                  \<or> api_key \<in> set (map (snd \<circ> snd) configs)
               then collect_entries rp entries configs
               else collect_entries rp entries (configs @ [(provider, model, api_key)])
        | _ \<Rightarrow> collect_entries rp entries configs)"

definition env_stripped :: "env \<Rightarrow> string \<Rightarrow> string" where
  "env_stripped e name = py_strip (env_text e name)"

definition llm_key_contrib_configs ::
  "(json \<Rightarrow> string) \<Rightarrow> (string \<Rightarrow> json_outcome) \<Rightarrow> env \<Rightarrow> py_exc + key_config list" where
  "llm_key_contrib_configs rp loads e =
     (if \<not> env_flag_not_off e ''MASXAI_LLM_KEY_CONTRIB_ENABLED'' False then Inr []
      else
        let raw_json = env_stripped e ''MASXAI_LLM_KEYS_JSON'';
            enough = (\<lambda>configs. if length configs < LLM_KEY_MIN_KEYS_PER_HOTKEY then [] else configs)
        in if raw_json \<noteq> [] then
             (case loads raw_json of
                Json_Value_Error \<Rightarrow> Inl ValueError
              | Json_Recursion_Error \<Rightarrow> Inl RuntimeError
              | Json_Decode_Error \<Rightarrow> Inr []
              | Json (JList entries) \<Rightarrow> Inr (enough (collect_entries rp entries []))
              | Json _ \<Rightarrow> Inr [])
           else
             let provider = env_stripped e ''MASXAI_LLM_KEY_CONTRIB_PROVIDER'';
                 model = env_stripped e ''MASXAI_LLM_KEY_CONTRIB_MODEL'';
                 api_key = env_stripped e ''MASXAI_LLM_KEY_CONTRIB_API_KEY''
             in Inr (enough (if provider \<noteq> [] \<and> model \<noteq> [] \<and> api_key \<noteq> []
                             then [(provider, model, api_key)] else [])))"

section \<open>Answering the ask for keys\<close>

record key_request =
  rq_pubkey_id :: string
  rq_pubkey_b64 :: string
  rq_allowed_models :: "string list"

text \<open>\<open>encrypt key pubkey\<close> is \<open>None\<close> when the encryption raises.\<close>

fun sealed_keys ::
  "(string \<Rightarrow> string \<Rightarrow> string option) \<Rightarrow> key_request \<Rightarrow> (nat \<times> key_config) list \<Rightarrow> json list option" where
  "sealed_keys encrypt rq [] = Some []"
| "sealed_keys encrypt rq ((slot, provider, model, api_key) # rest) =
     (if rq_allowed_models rq \<noteq> [] \<and> (provider @ ''/'' @ model) \<notin> set (rq_allowed_models rq)
      then sealed_keys encrypt rq rest
      else case encrypt api_key (rq_pubkey_b64 rq) of
          None \<Rightarrow> None
        | Some blob \<Rightarrow>
            map_option (Cons (JDict
              [(''slot'', JInt (int slot)), (''provider'', JStr provider), (''model'', JStr model),
               (''encrypted_key_blob'', JStr blob), (''blob_encoding'', JStr ''nacl-sealedbox-v1''),
               (''pubkey_id_used'', JStr (rq_pubkey_id rq))]))
              (sealed_keys encrypt rq rest))"

text \<open>The answer's \<open>has_key\<close> and \<open>keys\<close>; no failure leaves the function.\<close>

definition llm_forward ::
  "(json \<Rightarrow> string) \<Rightarrow> (string \<Rightarrow> json_outcome) \<Rightarrow> (string \<Rightarrow> string \<Rightarrow> string option) \<Rightarrow> env
     \<Rightarrow> key_request \<Rightarrow> bool \<times> json list" where
  "llm_forward rp loads encrypt e rq =
     (case llm_key_contrib_configs rp loads e of
        Inl _ \<Rightarrow> (False, [])
      | Inr configs \<Rightarrow>
          if configs = [] \<or> rq_pubkey_b64 rq = [] then (False, [])
          else (case sealed_keys encrypt rq (enumerate 0 configs) of
              None \<Rightarrow> (False, [])
            | Some keys \<Rightarrow> (keys \<noteq> [], keys)))"

section \<open>Who may ask\<close>

datatype gate = Rejected string | Accepted nat

text \<open>\<open>_require_validator\<close>; \<open>None\<close>: no dendrite or no hotkey.  \<open>Inl\<close>: the permit array is too short.\<close>

definition require_validator :: "metagraph \<Rightarrow> string option \<Rightarrow> py_exc + gate" where
  "require_validator mg caller = (case caller of
      None \<Rightarrow> Inr (Rejected ''missing dendrite/hotkey'')
    | Some hotkey \<Rightarrow>
        (case index_of hotkey (mg_hotkeys mg) of
           None \<Rightarrow> Inr (Rejected (''unregistered hotkey '' @ hotkey))
         | Some uid \<Rightarrow>
             (case mg_validator_permit mg of
                None \<Rightarrow> Inr (Rejected ''validator permit unavailable'')
              | Some permits \<Rightarrow>
                  if length permits \<le> uid then Inl IndexError
                  else if \<not> permits ! uid then Inr (Rejected ''no validator permit'')
                  else Inr (Accepted uid))))"

definition stake_priority :: "metagraph \<Rightarrow> rat list \<Rightarrow> string option \<Rightarrow> py_exc + rat" where
  "stake_priority mg stake caller = (case caller of
      None \<Rightarrow> Inr 0
    | Some hotkey \<Rightarrow>
        (case index_of hotkey (mg_hotkeys mg) of
           None \<Rightarrow> Inr 0
         | Some uid \<Rightarrow> if length stake \<le> uid then Inl IndexError else Inr (stake ! uid)))"

section \<open>Exporting the agent image\<close>

text \<open>One run of the Docker CLI: not installed, timed out, or finished.\<close>

datatype proc = Proc_Missing | Proc_Timeout | Proc int string string

text \<open>\<open>Inl\<close> carries the message of the \<open>AgentBlobError\<close>.\<close>

definition docker_save :: "proc \<Rightarrow> string + string option" where
  "docker_save run = (case run of
      Proc_Missing \<Rightarrow> Inl ''docker CLI not found''
    | Proc_Timeout \<Rightarrow> Inl ''docker save timed out after 600s''
    | Proc returncode stdout stderr \<Rightarrow>
        if returncode \<noteq> 0 then
          (let detail = py_strip stderr in
           if contains (py_lower detail) ''no such image'' then Inr None
           else Inl (''docker save failed: '' @ take 300 detail))
        else if stdout = [] then Inl ''docker save produced no output''
        else Inr (Some stdout))"

text \<open>The first save, and the save after the pull.\<close>

definition save_image_tar :: "string \<Rightarrow> proc \<Rightarrow> proc \<Rightarrow> string + string" where
  "save_image_tar image_ref first after_pull = (case docker_save first of
      Inl m \<Rightarrow> Inl m
    | Inr (Some tar) \<Rightarrow> Inr tar
    | Inr None \<Rightarrow> (case docker_save after_pull of
          Inl m \<Rightarrow> Inl m
        | Inr (Some tar) \<Rightarrow> Inr tar
        | Inr None \<Rightarrow> Inl (''image not available even after pull: '' @ image_ref)))"

section \<open>Answering the ask for an agent\<close>

text \<open>The files the blob server hosts, and the two caches.\<close>

record blob_state =
  bs_up :: bool
  bs_host :: string
  bs_port :: int
  bs_files :: "(string, string) dict"
  bs_tar :: "(string \<times> string) option"
  bs_blobs :: "(string \<times> string, string \<times> string) dict"

definition blob_url_for :: "blob_state \<Rightarrow> string \<Rightarrow> string" where
  "blob_url_for bs name = ''http://'' @ bs_host bs @ '':'' @ show_int (bs_port bs) @ ''/'' @ name"

definition blob_name :: "string \<Rightarrow> string \<Rightarrow> string" where
  "blob_name pubkey_id tar_sha = take 16 (if pubkey_id = [] then ''k'' else pubkey_id) @ ''-''
     @ take 12 tar_sha @ ''.enc''"

definition publish_blob :: "string \<Rightarrow> string \<Rightarrow> blob_state \<Rightarrow> string \<times> blob_state" where
  "publish_blob blob name bs = (blob_url_for bs name, bs\<lparr>bs_files := dput name blob (bs_files bs)\<rparr>)"

definition agent_blob_for ::
  "(string \<Rightarrow> string + string) \<Rightarrow> (string \<Rightarrow> string) \<Rightarrow> (string \<Rightarrow> string \<Rightarrow> string option)
     \<Rightarrow> string \<Rightarrow> string \<Rightarrow> string \<Rightarrow> blob_state \<Rightarrow> (string + string \<times> string) \<times> blob_state" where
  "agent_blob_for save sha256 encrypt image_ref pubkey_b64 pubkey_id bs =
     (let saved =
        (case bs_tar bs of
           Some (saved_ref, tar) \<Rightarrow> if saved_ref = image_ref then Inr (tar, bs)
             else map_sum id (\<lambda>tar. (tar, bs\<lparr>bs_tar := Some (image_ref, tar), bs_blobs := []\<rparr>)) (save image_ref)
         | None \<Rightarrow> map_sum id (\<lambda>tar. (tar, bs\<lparr>bs_tar := Some (image_ref, tar), bs_blobs := []\<rparr>)) (save image_ref))
      in case saved of
           Inl m \<Rightarrow> (Inl m, bs)
         | Inr (tar, bs) \<Rightarrow>
             let tar_sha = sha256 tar; cache_key = (pubkey_b64, tar_sha) in
             (case dget (bs_blobs bs) cache_key of
                Some cached \<Rightarrow> (Inr cached, bs)
              | None \<Rightarrow>
                  (case encrypt tar pubkey_b64 of
                     None \<Rightarrow> (Inl ''encryption failed'', bs)
                   | Some blob \<Rightarrow>
                       let (url, bs) = publish_blob blob (blob_name pubkey_id tar_sha) bs;
                           answer = (url, sha256 blob)
                       in (Inr answer, bs\<lparr>bs_blobs := dput cache_key answer (bs_blobs bs)\<rparr>))))"

record agent_answer =
  an_has_agent :: bool
  an_blob_url :: string
  an_ciphertext_sha256 :: string
  an_blob_encoding :: string
  an_pubkey_id_used :: string
  an_image_ref :: string

definition no_agent :: agent_answer where
  "no_agent = \<lparr>an_has_agent = False, an_blob_url = [], an_ciphertext_sha256 = [],
     an_blob_encoding = [], an_pubkey_id_used = [], an_image_ref = []\<rparr>"

definition security_forward ::
  "(string \<Rightarrow> string + string) \<Rightarrow> (string \<Rightarrow> string) \<Rightarrow> (string \<Rightarrow> string \<Rightarrow> string option) \<Rightarrow> env
     \<Rightarrow> string \<Rightarrow> string \<Rightarrow> blob_state \<Rightarrow> agent_answer \<times> blob_state" where
  "security_forward save sha256 encrypt e validator_pubkey_b64 pubkey_id bs =
     (if \<not> env_flag_not_off e ''MASXAI_SECURITY_AGENT_ENABLED'' False then (no_agent, bs)
      else
        let image_ref = env_stripped e ''MASXAI_SECURITY_AGENT_IMAGE'' in
        if image_ref = [] then (no_agent, bs)
        else
          let pubkey = py_strip validator_pubkey_b64 in
          if pubkey \<noteq> [] \<and> bs_up bs then
            (case agent_blob_for save sha256 encrypt image_ref pubkey pubkey_id bs of
               (Inl _, bs) \<Rightarrow> (no_agent, bs)
             | (Inr (url, cipher_sha), bs) \<Rightarrow>
                 (no_agent\<lparr>an_has_agent := True, an_blob_url := url, an_ciphertext_sha256 := cipher_sha,
                    an_blob_encoding := ''nacl-sealedbox-v1'', an_pubkey_id_used := pubkey_id\<rparr>, bs))
          else (no_agent\<lparr>an_has_agent := True, an_image_ref := image_ref\<rparr>, bs))"

section \<open>Lemmas\<close>

definition config_ok :: "key_config \<Rightarrow> bool" where
  "config_ok c = (case c of (provider, model, api_key) \<Rightarrow>
     provider \<noteq> [] \<and> py_strip provider = provider \<and> model \<noteq> [] \<and> py_strip model = model \<and>
     api_key \<noteq> [] \<and> py_strip api_key = api_key)"

definition configs_ok :: "key_config list \<Rightarrow> bool" where
  "configs_ok configs \<longleftrightarrow> length configs \<le> 5 \<and> distinct (map (snd \<circ> snd) configs) \<and> (\<forall>c \<in> set configs. config_ok c)"

lemma item_text_stripped: "py_strip (item_text rp d f) = item_text rp d f"
  by (auto simp: item_text_def py_strip_idem py_strip_idem_empty split: option.splits)

lemma collect_entries_ok: "configs_ok configs \<Longrightarrow> configs_ok (collect_entries rp entries configs)"
proof (induction entries arbitrary: configs)
  case (Cons entry entries)
  show ?case
  proof (cases "LLM_KEY_MAX_KEYS_PER_HOTKEY \<le> length configs")
    case False
    have "configs_ok (configs @ [(item_text rp d ''provider'', item_text rp d ''model'', item_text rp d ''api_key'')])"
      if "item_text rp d ''provider'' \<noteq> []" "item_text rp d ''model'' \<noteq> []" "item_text rp d ''api_key'' \<noteq> []"
        "item_text rp d ''api_key'' \<notin> set (map (snd \<circ> snd) configs)" for d
      using Cons.prems False that
      by (auto simp: configs_ok_def config_ok_def LLM_KEY_MAX_KEYS_PER_HOTKEY_def item_text_stripped)
    with False Cons.IH Cons.prems show ?thesis by (cases entry) (simp_all add: Let_def)
  qed (use Cons.prems in simp)
qed simp

lemma contrib_configs_five:
  assumes "llm_key_contrib_configs rp loads e = Inr configs" "configs \<noteq> []"
  shows "configs_ok configs \<and> length configs = 5"
proof -
  have empty: "configs_ok []" by (simp add: configs_ok_def)
  note ok = collect_entries_ok [OF empty, of rp]
  then have le: "length (collect_entries rp es []) \<le> 5" for es by (simp add: configs_ok_def)
  show ?thesis
    using assms ok le
    by (auto simp: llm_key_contrib_configs_def Let_def LLM_KEY_MIN_KEYS_PER_HOTKEY_def
        intro: le_antisym split: if_splits json_outcome.splits json.splits)
qed

text \<open>The payload the validator makes of one honest entry.\<close>

definition payload_of :: "key_request \<Rightarrow> (string \<Rightarrow> string \<Rightarrow> string option) \<Rightarrow> nat \<Rightarrow> key_config \<Rightarrow> key_payload" where
  "payload_of rq encrypt slot c = (case c of (provider, model, api_key) \<Rightarrow>
     \<lparr>kp_slot = int slot, kp_provider = provider, kp_model = model,
      kp_blob = py_strip (the (encrypt api_key (rq_pubkey_b64 rq))),
      kp_encoding = ''nacl-sealedbox-v1'', kp_pubkey_id = py_strip (rq_pubkey_id rq)\<rparr>)"

lemma validate_sealed:
  assumes "sealed_keys encrypt rq (enumerate n configs) = Some keys" "\<forall>c \<in> set configs. config_ok c"
    and "\<forall>c \<in> set configs. rq_allowed_models rq = [] \<or> fst c @ ''/'' @ fst (snd c) \<in> set (rq_allowed_models rq)"
    and "\<forall>c \<in> set configs. \<forall>blob. encrypt (snd (snd c)) (rq_pubkey_b64 rq) = Some blob \<longrightarrow> py_strip blob \<noteq> []"
    and "py_strip (rq_pubkey_id rq) \<noteq> []"
    and "n + length configs \<le> 5" "length payload = n" "\<forall>p \<in> set payload. kp_slot p < int n"
  shows "validate_items rp keys payload = payload @ map (\<lambda>(i, c). payload_of rq encrypt i c) (enumerate n configs)"
  using assms
proof (induction configs arbitrary: n keys payload)
  case (Cons c configs)
  obtain provider model api_key where c: "c = (provider, model, api_key)" by (cases c)
  obtain blob rest where blob: "encrypt api_key (rq_pubkey_b64 rq) = Some blob"
    and rest: "sealed_keys encrypt rq (enumerate (Suc n) configs) = Some rest"
    and keys: "keys = JDict [(''slot'', JInt (int n)), (''provider'', JStr provider), (''model'', JStr model),
               (''encrypted_key_blob'', JStr blob), (''blob_encoding'', JStr ''nacl-sealedbox-v1''),
               (''pubkey_id_used'', JStr (rq_pubkey_id rq))] # rest"
    using Cons.prems(1,3) by (auto simp: c split: if_splits option.splits)
  let ?p = "payload_of rq encrypt n c"
  have "key_item rp (map kp_slot payload) [(''slot'', JInt (int n)), (''provider'', JStr provider), (''model'', JStr model),
               (''encrypted_key_blob'', JStr blob), (''blob_encoding'', JStr ''nacl-sealedbox-v1''),
               (''pubkey_id_used'', JStr (rq_pubkey_id rq))] = Some ?p"
    using Cons.prems(2,4-) blob
    by (auto simp: key_item_def Let_def item_text_def c payload_of_def config_ok_def LLM_KEY_MAX_KEYS_PER_HOTKEY_def)
  moreover have "\<not> LLM_KEY_MAX_KEYS_PER_HOTKEY \<le> length payload"
    using Cons.prems(6,7) by (simp add: LLM_KEY_MAX_KEYS_PER_HOTKEY_def)
  ultimately have "validate_items rp keys payload = validate_items rp rest (payload @ [?p])"
    by (simp add: keys)
  also have "\<dots> = (payload @ [?p]) @ map (\<lambda>(i, c). payload_of rq encrypt i c) (enumerate (Suc n) configs)"
  proof (rule Cons.IH [OF rest])
    show "\<forall>p \<in> set (payload @ [?p]). kp_slot p < int (Suc n)"
      using Cons.prems(8) by (auto simp: payload_of_def c)
  qed (use Cons.prems in auto)
  finally show ?case by simp
qed simp

lemma sealed_keys_length:
  "sealed_keys encrypt rq cs = Some keys \<Longrightarrow>
   \<forall>(i, c) \<in> set cs. rq_allowed_models rq = [] \<or> fst c @ ''/'' @ fst (snd c) \<in> set (rq_allowed_models rq) \<Longrightarrow>
   length keys = length cs"
  by (induction encrypt rq cs arbitrary: keys rule: sealed_keys.induct) (auto split: if_splits option.splits)

section \<open>Properties\<close>

text \<open>What a miner offers of its list: the entries whose model is allowed, each in its slot of the list, sealed.\<close>

definition model_allowed :: "key_request \<Rightarrow> nat \<times> key_config \<Rightarrow> bool" where
  "model_allowed rq = (\<lambda>(slot, provider, model, api_key).
     rq_allowed_models rq = [] \<or> provider @ ''/'' @ model \<in> set (rq_allowed_models rq))"

definition can_be_sealed :: "key_request \<Rightarrow> (string \<Rightarrow> string \<Rightarrow> string option) \<Rightarrow> nat \<times> key_config \<Rightarrow> bool" where
  "can_be_sealed rq encrypt = (\<lambda>(slot, provider, model, api_key). encrypt api_key (rq_pubkey_b64 rq) \<noteq> None)"

definition allowed_configs :: "key_request \<Rightarrow> key_config list \<Rightarrow> (nat \<times> key_config) list" where
  "allowed_configs rq configs = filter (model_allowed rq) (enumerate 0 configs)"

definition offered_entry :: "key_request \<Rightarrow> (string \<Rightarrow> string \<Rightarrow> string option) \<Rightarrow> nat \<times> key_config \<Rightarrow> json" where
  "offered_entry rq encrypt = (\<lambda>(slot, provider, model, api_key). JDict
     [(''slot'', JInt (int slot)), (''provider'', JStr provider), (''model'', JStr model),
      (''encrypted_key_blob'', JStr (the (encrypt api_key (rq_pubkey_b64 rq)))),
      (''blob_encoding'', JStr ''nacl-sealedbox-v1''), (''pubkey_id_used'', JStr (rq_pubkey_id rq))])"

lemma sealed_keys_offered:
  "sealed_keys encrypt rq cs =
     (if list_all (can_be_sealed rq encrypt) (filter (model_allowed rq) cs)
      then Some (map (offered_entry rq encrypt) (filter (model_allowed rq) cs)) else None)"
  by (induction encrypt rq cs rule: sealed_keys.induct)
    (auto simp: offered_entry_def model_allowed_def can_be_sealed_def split: option.split)

text \<open>C23: A miner works from five keys or from none, and offers those of them that are allowed.  Whatever
  its configuration, the list it works with is empty or holds exactly five complete entries without
  surrounding blanks and with pairwise distinct API keys.  Its answer carries exactly the entries of that
  list whose model the validator allows this round, in order, each under its slot in the list and
  sealed for the validator: all five, in the slots 0 to 4, when every model is allowed, fewer otherwise.
  It carries none if the list is empty, the request names no key to seal for, or an entry it would offer
  cannot be sealed; and it says it has keys exactly when it carries some.\<close>

theorem miner_offers_its_allowed_keys:
  "(\<forall>configs. llm_key_contrib_configs rp loads e = Inr configs \<longrightarrow>
      configs = [] \<or> (length configs = 5 \<and> distinct (map (snd \<circ> snd) configs) \<and> (\<forall>c \<in> set configs. config_ok c))) \<and>
   (\<forall>configs. llm_key_contrib_configs rp loads e = Inr configs \<longrightarrow>
      snd (llm_forward rp loads encrypt e rq) =
        (if rq_pubkey_b64 rq \<noteq> [] \<and>
            list_all (can_be_sealed rq encrypt) (allowed_configs rq configs)
         then map (offered_entry rq encrypt) (allowed_configs rq configs) else []) \<and>
      (configs \<noteq> [] \<and> list_all (model_allowed rq) (enumerate 0 configs) \<longrightarrow>
        map fst (allowed_configs rq configs) = [0, 1, 2, 3, 4])) \<and>
   (\<forall>exc. llm_key_contrib_configs rp loads e = Inl exc \<longrightarrow> snd (llm_forward rp loads encrypt e rq) = []) \<and>
   (fst (llm_forward rp loads encrypt e rq) \<longleftrightarrow> snd (llm_forward rp loads encrypt e rq) \<noteq> [])"
proof -
  have five: "configs = [] \<or> (length configs = 5 \<and> distinct (map (snd \<circ> snd) configs) \<and> (\<forall>c \<in> set configs. config_ok c))"
    if "llm_key_contrib_configs rp loads e = Inr configs" for configs
    using contrib_configs_five [OF that] by (auto simp: configs_ok_def)
  have offer: "snd (llm_forward rp loads encrypt e rq) =
      (if rq_pubkey_b64 rq \<noteq> [] \<and>
          list_all (can_be_sealed rq encrypt) (allowed_configs rq configs)
       then map (offered_entry rq encrypt) (allowed_configs rq configs) else [])"
    if "llm_key_contrib_configs rp loads e = Inr configs" for configs
    using that by (auto simp: llm_forward_def sealed_keys_offered allowed_configs_def Let_def)
  have slots: "map fst (allowed_configs rq configs) = [0, 1, 2, 3, 4]"
    if "llm_key_contrib_configs rp loads e = Inr configs" "configs \<noteq> []"
      "list_all (model_allowed rq) (enumerate 0 configs)"
    for configs
  proof -
    have "length configs = 5" using five [OF that(1)] that(2) by blast
    moreover have "allowed_configs rq configs = enumerate 0 configs"
      using that(3) by (simp add: allowed_configs_def list_all_iff)
    ultimately show ?thesis by (simp add: upt_conv_Cons)
  qed
  show ?thesis
  proof (intro conjI allI impI)
    show "fst (llm_forward rp loads encrypt e rq) \<longleftrightarrow> snd (llm_forward rp loads encrypt e rq) \<noteq> []"
      by (auto simp: llm_forward_def split: sum.splits option.splits)
    show "snd (llm_forward rp loads encrypt e rq) = []" if "llm_key_contrib_configs rp loads e = Inl exc" for exc
      using that by (simp add: llm_forward_def)
  qed (use five offer slots in blast)+
qed

text \<open>Five keys, of which the validator allows the models of the second and the fourth.\<close>

theorem miner_offers_its_allowed_keys_witness:
  "snd (llm_forward (\<lambda>_. [])
     (\<lambda>_. Json (JList (map (\<lambda>k. JDict [(''provider'', JStr ''p''), (''model'', JStr [k]), (''api_key'', JStr [k])]) ''abcde'')))
     (\<lambda>k p. Some (k @ p))
     [''MASXAI_LLM_KEY_CONTRIB_ENABLED'' \<mapsto> ''1'', ''MASXAI_LLM_KEYS_JSON'' \<mapsto> ''x'']
     \<lparr>rq_pubkey_id = ''i'', rq_pubkey_b64 = ''-'', rq_allowed_models = [''p/b'', ''p/d'']\<rparr>) =
   map (\<lambda>(slot, k). JDict [(''slot'', JInt slot), (''provider'', JStr ''p''), (''model'', JStr [k]),
      (''encrypted_key_blob'', JStr [k, CHR ''-'']), (''blob_encoding'', JStr ''nacl-sealedbox-v1''),
      (''pubkey_id_used'', JStr ''i'')]) [(1, CHR ''b''), (3, CHR ''d'')]"
proof -
  let ?loads = "\<lambda>_ :: string. Json (JList (map (\<lambda>k. JDict [(''provider'', JStr ''p''), (''model'', JStr [k]),
      (''api_key'', JStr [k])]) ''abcde''))"
  let ?e = "[''MASXAI_LLM_KEY_CONTRIB_ENABLED'' \<mapsto> ''1'', ''MASXAI_LLM_KEYS_JSON'' \<mapsto> ''x'']"
  let ?rq = "\<lparr>rq_pubkey_id = ''i'', rq_pubkey_b64 = ''-'', rq_allowed_models = [''p/b'', ''p/d'']\<rparr>"
  have configs: "llm_key_contrib_configs (\<lambda>_. []) ?loads ?e = Inr (map (\<lambda>k. (''p'', [k], [k])) ''abcde'')"
    by code_simp
  have allowed: "allowed_configs ?rq (map (\<lambda>k. (''p'', [k], [k])) ''abcde'') = [(1, ''p'', ''b'', ''b''), (3, ''p'', ''d'', ''d'')]"
    by code_simp
  from miner_offers_its_allowed_keys [of "\<lambda>_. []" ?loads ?e "\<lambda>k p. Some (k @ p)" ?rq] configs
  show ?thesis by (simp add: allowed [simplified] offered_entry_def can_be_sealed_def)
qed

text \<open>C24: The honest path through both ends of the wire: when every configured model is allowed this
  round and the sealed boxes are not blank, the validator's check accepts the miner's whole answer
  and relays five entries, slot \<open>i\<close> carrying the \<open>i\<close>-th configured provider and model.\<close>

theorem honest_batch_is_relayed_whole:
  assumes "llm_key_contrib_configs rp loads e = Inr configs" "configs \<noteq> []" "rq_pubkey_b64 rq \<noteq> []"
    and "\<forall>c \<in> set configs. rq_allowed_models rq = [] \<or> fst c @ ''/'' @ fst (snd c) \<in> set (rq_allowed_models rq)"
    and "\<forall>k. \<exists>blob. encrypt k (rq_pubkey_b64 rq) = Some blob \<and> py_strip blob \<noteq> []"
    and "py_strip (rq_pubkey_id rq) \<noteq> []"
  shows "\<exists>keys. llm_forward rp loads encrypt e rq = (True, keys) \<and>
    validate_miner_keys rp (JList keys) = map (\<lambda>(i, c). payload_of rq encrypt i c) (enumerate 0 configs) \<and>
    length (validate_miner_keys rp (JList keys)) = LLM_KEY_MIN_KEYS_PER_HOTKEY"
proof -
  have five: "configs_ok configs" "length configs = 5" using contrib_configs_five [OF assms(1,2)] by auto
  have "\<exists>keys. sealed_keys encrypt rq cs = Some keys" for cs
  proof (induction cs)
    case (Cons x cs)
    obtain i p m k where x: "x = (i, p, m, k)" by (cases x) auto
    obtain blob where "encrypt k (rq_pubkey_b64 rq) = Some blob" using assms(5) by blast
    with Cons show ?case by (auto simp: x)
  qed simp
  then obtain keys where keys: "sealed_keys encrypt rq (enumerate 0 configs) = Some keys" by blast
  have allowed: "\<forall>(i, c) \<in> set (enumerate 0 configs).
      rq_allowed_models rq = [] \<or> fst c @ ''/'' @ fst (snd c) \<in> set (rq_allowed_models rq)"
  proof -
    have "c \<in> set configs" if "(i, c) \<in> set (enumerate 0 configs)" for i c
      using that by (auto simp: in_set_enumerate_eq)
    with assms(4) show ?thesis by blast
  qed
  have "length keys = 5" using sealed_keys_length [OF keys allowed] five(2) by simp
  then have fwd: "llm_forward rp loads encrypt e rq = (True, keys)"
    using assms(1,2,3) keys by (auto simp: llm_forward_def)
  have "validate_items rp keys [] = [] @ map (\<lambda>(i, c). payload_of rq encrypt i c) (enumerate 0 configs)"
  proof (rule validate_sealed [OF keys _ assms(4) _ assms(6)])
    show "\<forall>c \<in> set configs. \<forall>blob. encrypt (snd (snd c)) (rq_pubkey_b64 rq) = Some blob \<longrightarrow> py_strip blob \<noteq> []"
      using assms(5) by (metis option.inject)
  qed (use five in \<open>simp_all add: configs_ok_def\<close>)
  then show ?thesis
    using fwd five(2) by (auto simp: validate_miner_keys_def LLM_KEY_MIN_KEYS_PER_HOTKEY_def)
qed

theorem honest_batch_is_relayed_whole_witness:
  "\<exists>keys. llm_forward (\<lambda>_. [])
     (\<lambda>_. Json (JList (map (\<lambda>k. JDict [(''provider'', JStr ''p''), (''model'', JStr ''m''), (''api_key'', JStr [k])]) ''abcde'')))
     (\<lambda>k p. Some (k @ p))
     [''MASXAI_LLM_KEY_CONTRIB_ENABLED'' \<mapsto> ''1'', ''MASXAI_LLM_KEYS_JSON'' \<mapsto> ''x'']
     \<lparr>rq_pubkey_id = ''i'', rq_pubkey_b64 = ''b'', rq_allowed_models = [''p/m'']\<rparr> = (True, keys) \<and>
   length (validate_miner_keys (\<lambda>_. []) (JList keys)) = LLM_KEY_MIN_KEYS_PER_HOTKEY"
proof -
  let ?rp = "\<lambda>_ :: json. [] :: string"
  let ?loads = "\<lambda>_ :: string. Json (JList (map (\<lambda>k. JDict [(''provider'', JStr ''p''), (''model'', JStr ''m''),
      (''api_key'', JStr [k])]) ''abcde''))"
  let ?e = "[''MASXAI_LLM_KEY_CONTRIB_ENABLED'' \<mapsto> ''1'', ''MASXAI_LLM_KEYS_JSON'' \<mapsto> ''x'']"
  let ?rq = "\<lparr>rq_pubkey_id = ''i'', rq_pubkey_b64 = ''b'', rq_allowed_models = [''p/m'']\<rparr>"
  have configs: "llm_key_contrib_configs ?rp ?loads ?e =
      Inr (map (\<lambda>k. (''p'', ''m'', [k])) ''abcde'')"
    by code_simp
  have strip: "py_strip (k @ ''b'') \<noteq> []" for k
    by (simp add: py_strip_def py_rstrip_def py_lstrip_def dropWhile_append is_space_def)
  have id: "py_strip ''i'' \<noteq> []" by code_simp
  show ?thesis
    using honest_batch_is_relayed_whole [OF configs, of ?rq "\<lambda>k p. Some (k @ p)"] strip id by auto
qed

text \<open>Only permitted validators get through to a miner: a caller is accepted exactly when its
  hotkey is on the metagraph and the first uid holding it has a validator permit.\<close>

theorem only_validators_are_served:
  "require_validator mg caller = Inr (Accepted uid) \<longleftrightarrow>
    (\<exists>hotkey permits. caller = Some hotkey \<and> index_of hotkey (mg_hotkeys mg) = Some uid \<and>
       mg_validator_permit mg = Some permits \<and> uid < length permits \<and> permits ! uid)"
  by (auto simp: require_validator_def split: option.splits)

end
