(* ===== verification/Task_Score.thy ===== *)
theory Task_Score
  imports Findings
begin

text \<open>
  The answer key of one run (\<open>secqurityVali/eval/challenge.py\<close>) and the grade of a report against it
  (\<open>secqurityVali/eval/task_score.py\<close>).  What the random generator drew is an argument.
\<close>

section \<open>The challenge\<close>

record challenge =
  ch_canary :: string
  ch_secret_table :: string
  ch_secret_column :: string
  ch_vulnerable_endpoint :: string
  ch_vulnerable_parameter :: string
  ch_injection_type :: string
  ch_category :: string
  ch_variant :: string
  ch_safe_endpoints :: "string list"
  ch_error_trap_endpoint :: string

definition SECRET_HOLDERS :: "string list" where
  "SECRET_HOLDERS = [''vault'', ''store'', ''cache'', ''registry'', ''ledger'', ''safe'', ''locker'']"

definition COLUMN_NOUNS :: "string list" where
  "COLUMN_NOUNS = [''value'', ''data'', ''content'', ''payload'', ''detail'', ''field'', ''note'', ''secret'']"

definition CANDIDATE_ENDPOINTS :: "string list" where
  "CANDIDATE_ENDPOINTS = [''/api/products'', ''/api/search'', ''/api/users'', ''/api/orders'', ''/api/lookup'',
     ''/api/items'', ''/api/inventory'', ''/api/report'', ''/api/accounts'', ''/api/catalog'']"

definition PARAMETERS :: "string list" where
  "PARAMETERS = [''q'', ''id'', ''name'', ''filter'', ''query'']"

definition SQLI_VARIANTS :: "string list" where
  "SQLI_VARIANTS = [''union'', ''union_numeric'', ''boolean'', ''boolean_numeric'']"

text \<open>The draws: hexadecimal tokens, the shuffled endpoints, and what each \<open>choice\<close> returned.\<close>

record draws =
  dw_canary :: string
  dw_holder :: string
  dw_table_suffix :: string
  dw_column :: string
  dw_column_suffix :: string
  dw_endpoints :: "string list"
  dw_trap :: string
  dw_parameter :: string
  dw_variant :: string

definition draws_ok :: "draws \<Rightarrow> bool" where
  "draws_ok d \<longleftrightarrow> dw_canary d \<noteq> [] \<and> dw_holder d \<in> set SECRET_HOLDERS \<and> dw_column d \<in> set COLUMN_NOUNS \<and>
     distinct (dw_endpoints d) \<and> set (dw_endpoints d) = set CANDIDATE_ENDPOINTS \<and>
     dw_trap d \<in> set (tl (dw_endpoints d)) \<and> dw_parameter d \<in> set PARAMETERS \<and>
     dw_variant d \<in> set SQLI_VARIANTS"

definition generate_challenge :: "draws \<Rightarrow> challenge" where
  "generate_challenge d =
     \<lparr>ch_canary = dw_canary d,
      ch_secret_table = dw_holder d @ ''_'' @ dw_table_suffix d,
      ch_secret_column = dw_column d @ ''_'' @ dw_column_suffix d,
      ch_vulnerable_endpoint = hd (dw_endpoints d),
      ch_vulnerable_parameter = dw_parameter d,
      ch_injection_type = ''sql_injection'',
      ch_category = ''sqli'',
      ch_variant = dw_variant d,
      ch_safe_endpoints = tl (dw_endpoints d),
      ch_error_trap_endpoint = (if tl (dw_endpoints d) \<noteq> [] then dw_trap d else [])\<rparr>"

section \<open>Grading\<close>

record task_result =
  tr_score :: rat
  tr_canary_found :: bool
  tr_replay_confirmed :: bool
  tr_located :: bool
  tr_false_positives :: nat
  tr_matched_finding_index :: "nat option"
  tr_notes :: "string list"

definition normalize_endpoint :: "string \<Rightarrow> string" where
  "normalize_endpoint s = ''/'' @ py_lower (strip_chars (\<lambda>c. c = CHR ''/'') (py_strip s))"

definition normalize_parameter :: "string \<Rightarrow> string" where
  "normalize_parameter s = py_lower (py_strip s)"

definition carries_canary :: "challenge \<Rightarrow> finding \<Rightarrow> bool" where
  "carries_canary c f \<longleftrightarrow> fd_canary f \<noteq> None \<and> fd_canary f \<noteq> Some [] \<and> fd_canary f = Some (ch_canary c)"

fun first_match :: "('a \<Rightarrow> bool) \<Rightarrow> nat \<Rightarrow> 'a list \<Rightarrow> nat option" where
  "first_match p i [] = None"
| "first_match p i (x # xs) = (if p x then Some i else first_match p (Suc i) xs)"

text \<open>Findings on decoys, the matched one apart.\<close>

fun count_false_positives :: "string list \<Rightarrow> nat option \<Rightarrow> nat \<Rightarrow> finding list \<Rightarrow> nat" where
  "count_false_positives safe matched i [] = 0"
| "count_false_positives safe matched i (f # fs) =
     (if matched \<noteq> Some i \<and> normalize_endpoint (fd_endpoint f) \<in> set safe then 1 else 0) +
     count_false_positives safe matched (Suc i) fs"

definition FALSE_POSITIVE_PENALTY :: rat where "FALSE_POSITIVE_PENALTY = 1 / 10"
definition SCORE_CANARY_ONLY :: rat where "SCORE_CANARY_ONLY = 1 / 2"
definition SCORE_CANARY_AND_REPLAY :: rat where "SCORE_CANARY_AND_REPLAY = 4 / 5"
definition SCORE_FULL :: rat where "SCORE_FULL = 1"

definition score_task :: "challenge \<Rightarrow> report \<Rightarrow> bool \<Rightarrow> task_result" where
  "score_task c r replay_confirmed =
     (let found = rpt_findings r;
          matched = first_match (carries_canary c) 0 found;
          canary_found = (matched \<noteq> None);
          safe = map normalize_endpoint (ch_safe_endpoints c);
          false_positives = count_false_positives safe matched 0 found;
          endpoint_ok = (case matched of None \<Rightarrow> False | Some i \<Rightarrow>
            normalize_endpoint (fd_endpoint (found ! i)) = normalize_endpoint (ch_vulnerable_endpoint c));
          parameter_ok = (case matched of None \<Rightarrow> False | Some i \<Rightarrow>
            normalize_parameter (fd_parameter (found ! i)) = normalize_parameter (ch_vulnerable_parameter c));
          located = (canary_found \<and> endpoint_ok \<and> parameter_ok);
          (base, note) =
            (if \<not> canary_found then (0, [])
             else if \<not> replay_confirmed
             then (SCORE_CANARY_ONLY, [''canary extracted, but replay has not confirmed it''])
             else if \<not> located then (SCORE_CANARY_AND_REPLAY, [''exploit reproduced on a fresh target''])
             else (SCORE_FULL, [''exploit reproduced and precisely located'']))
      in \<lparr>tr_score = max 0 (base - of_nat false_positives * FALSE_POSITIVE_PENALTY),
          tr_canary_found = canary_found,
          tr_replay_confirmed = (replay_confirmed \<and> canary_found),
          tr_located = located,
          tr_false_positives = false_positives,
          tr_matched_finding_index = matched,
          tr_notes =
            (if \<not> canary_found then [''no finding returned this run's canary; nothing was proven''] else []) @
            (if false_positives > 0
             then [show_nat false_positives @ '' finding(s) on endpoints that are not vulnerable''] else []) @
            (if canary_found
             then (if \<not> endpoint_ok then [''canary found but the reported endpoint is wrong'']
                   else if \<not> parameter_ok then [''canary and endpoint correct, but the parameter is wrong'']
                   else [])
             else []) @ note\<rparr>)"

section \<open>Lemmas\<close>

lemma first_match_Some:
  "first_match p k xs = Some i \<Longrightarrow> k \<le> i \<and> i - k < length xs \<and> p (xs ! (i - k)) \<and> (\<forall>j < i - k. \<not> p (xs ! j))"
proof (induction p k xs rule: first_match.induct)
  case (2 p k x xs)
  show ?case
  proof (cases "p x")
    case True
    with 2 show ?thesis by simp
  next
    case False
    with 2 have "Suc k \<le> i" "i - Suc k < length xs" "p (xs ! (i - Suc k))"
      "\<forall>j < i - Suc k. \<not> p (xs ! j)" by auto
    moreover from this have "i - k = Suc (i - Suc k)" by simp
    ultimately show ?thesis using False by (auto simp: nth_Cons split: nat.split)
  qed
qed simp

lemma first_match_None: "first_match p k xs = None \<longleftrightarrow> (\<forall>x \<in> set xs. \<not> p x)"
  by (induction p k xs rule: first_match.induct) auto

lemma carries_canary_iff: "carries_canary c f \<longleftrightarrow> fd_canary f = Some (ch_canary c) \<and> ch_canary c \<noteq> []"
  by (auto simp: carries_canary_def)

lemma first_match_canary:
  "first_match (carries_canary c) 0 fs \<noteq> None \<longleftrightarrow> Some (ch_canary c) \<in> fd_canary ` set fs \<and> ch_canary c \<noteq> []"
proof -
  have "first_match (carries_canary c) 0 fs \<noteq> None \<longleftrightarrow> (\<exists>f \<in> set fs. carries_canary c f)"
    using first_match_None [of "carries_canary c" 0 fs] by simp
  also have "\<dots> \<longleftrightarrow> Some (ch_canary c) \<in> fd_canary ` set fs \<and> ch_canary c \<noteq> []"
    unfolding carries_canary_iff image_iff by metis
  finally show ?thesis .
qed

lemma count_false_positives_le: "count_false_positives safe matched i fs \<le> length fs"
  by (induction safe matched i fs rule: count_false_positives.induct) auto

text \<open>The grade as a table.\<close>

definition grade :: "bool \<Rightarrow> bool \<Rightarrow> bool \<Rightarrow> nat \<Rightarrow> rat" where
  "grade canary replay located fp =
     max 0 ((if \<not> canary then 0 else if \<not> replay then 1 / 2 else if \<not> located then 4 / 5 else 1) - of_nat fp / 10)"

lemma grade_range: "0 \<le> grade canary replay located fp" "grade canary replay located fp \<le> 1"
  by (simp_all add: grade_def)

lemma grade_needs_canary: "0 < grade canary replay located fp \<Longrightarrow> canary"
  by (simp add: grade_def split: if_splits)

lemma grade_full: "grade canary replay located fp = 1 \<longleftrightarrow> canary \<and> replay \<and> located \<and> fp = 0"
  by (auto simp: grade_def max_def split: if_splits)

lemma grade_mono: "fp' \<le> fp \<Longrightarrow> grade canary False False fp \<le> grade canary replay located fp'"
  by (auto simp: grade_def max_def)

lemma score_task_grade:
  "tr_score (score_task c r replay) =
     grade (tr_canary_found (score_task c r replay)) replay (tr_located (score_task c r replay))
       (tr_false_positives (score_task c r replay))"
  by (simp add: score_task_def Let_def grade_def FALSE_POSITIVE_PENALTY_def SCORE_CANARY_ONLY_def
      SCORE_CANARY_AND_REPLAY_def SCORE_FULL_def)

lemma score_task_canary:
  "tr_canary_found (score_task c r replay) \<longleftrightarrow>
     Some (ch_canary c) \<in> fd_canary ` set (rpt_findings r) \<and> ch_canary c \<noteq> []"
  unfolding first_match_canary [symmetric] by (simp add: score_task_def Let_def split_beta)

lemma score_task_replay [simp]:
  "tr_replay_confirmed (score_task c r replay) \<longleftrightarrow> replay \<and> tr_canary_found (score_task c r replay)"
  by (simp add: score_task_def Let_def split_beta)

text \<open>A generated challenge tells the vulnerable endpoint from its decoys.\<close>

definition challenge_ok :: "challenge \<Rightarrow> bool" where
  "challenge_ok c \<longleftrightarrow> ch_canary c \<noteq> [] \<and> ch_vulnerable_endpoint c \<in> set CANDIDATE_ENDPOINTS \<and>
     ch_vulnerable_endpoint c \<notin> set (ch_safe_endpoints c) \<and> distinct (ch_safe_endpoints c) \<and>
     set (ch_safe_endpoints c) \<subseteq> set CANDIDATE_ENDPOINTS \<and>
     length (ch_safe_endpoints c) = 9 \<and> ch_error_trap_endpoint c \<in> set (ch_safe_endpoints c) \<and>
     ch_variant c \<in> set SQLI_VARIANTS"

lemma generate_challenge_ok:
  assumes "draws_ok d"
  shows "challenge_ok (generate_challenge d)"
proof -
  have "length (dw_endpoints d) = 10"
  proof -
    have "length (dw_endpoints d) = card (set CANDIDATE_ENDPOINTS)"
      using assms by (metis draws_ok_def distinct_card)
    then show ?thesis by (simp add: CANDIDATE_ENDPOINTS_def)
  qed
  then obtain e es where es: "dw_endpoints d = e # es" "length es = 9" by (cases "dw_endpoints d") auto
  with assms show ?thesis
    by (auto simp: challenge_ok_def generate_challenge_def draws_ok_def)
qed

lemma normalize_candidates: "e \<in> set CANDIDATE_ENDPOINTS \<Longrightarrow> normalize_endpoint e = e"
proof -
  have "list_all (\<lambda>e. normalize_endpoint e = e) CANDIDATE_ENDPOINTS" by code_simp
  then show "e \<in> set CANDIDATE_ENDPOINTS \<Longrightarrow> normalize_endpoint e = e" by (simp add: list_all_iff)
qed

text \<open>Pointing at the vulnerable endpoint is never a false positive.\<close>

lemma vulnerable_not_safe:
  assumes "draws_ok d"
  shows "normalize_endpoint (ch_vulnerable_endpoint (generate_challenge d)) \<notin>
    set (map normalize_endpoint (ch_safe_endpoints (generate_challenge d)))"
proof -
  note ok = generate_challenge_ok [OF assms, unfolded challenge_ok_def]
  have "map normalize_endpoint (ch_safe_endpoints (generate_challenge d)) = ch_safe_endpoints (generate_challenge d)"
    using ok by (intro map_idI) (auto intro: normalize_candidates)
  with ok show ?thesis by (simp add: normalize_candidates)
qed

lemma count_false_positives_vulnerable:
  assumes "\<forall>f \<in> set fs. normalize_endpoint (fd_endpoint f) \<notin> set safe"
  shows "count_false_positives safe matched i fs = 0"
  using assms by (induction safe matched i fs rule: count_false_positives.induct) auto

section \<open>What a report earns, from the report alone\<close>

text \<open>The proof of a report is its first finding with the canary of the run.  It is located when it
  names the place of the flaw; every other finding on a decoy counts against the report.\<close>

definition proof_at :: "challenge \<Rightarrow> report \<Rightarrow> nat \<Rightarrow> bool" where
  "proof_at c r i \<longleftrightarrow> ch_canary c \<noteq> [] \<and> i < length (rpt_findings r) \<and>
     fd_canary (rpt_findings r ! i) = Some (ch_canary c) \<and>
     (\<forall>j < i. fd_canary (rpt_findings r ! j) \<noteq> Some (ch_canary c))"

definition proof_located :: "challenge \<Rightarrow> report \<Rightarrow> bool" where
  "proof_located c r \<longleftrightarrow> (\<exists>i. proof_at c r i \<and>
     normalize_endpoint (fd_endpoint (rpt_findings r ! i)) = normalize_endpoint (ch_vulnerable_endpoint c) \<and>
     normalize_parameter (fd_parameter (rpt_findings r ! i)) = normalize_parameter (ch_vulnerable_parameter c))"

definition decoys_named :: "challenge \<Rightarrow> report \<Rightarrow> nat set" where
  "decoys_named c r = {i. i < length (rpt_findings r) \<and> \<not> proof_at c r i \<and>
     normalize_endpoint (fd_endpoint (rpt_findings r ! i)) \<in> normalize_endpoint ` set (ch_safe_endpoints c)}"

lemma matched_is_proof: "first_match (carries_canary c) 0 (rpt_findings r) = Some i \<longleftrightarrow> proof_at c r i"
proof
  assume "first_match (carries_canary c) 0 (rpt_findings r) = Some i"
  from first_match_Some [OF this] show "proof_at c r i" by (auto simp: proof_at_def carries_canary_iff)
next
  assume i: "proof_at c r i"
  then obtain k where k: "first_match (carries_canary c) 0 (rpt_findings r) = Some k"
    using first_match_None [of "carries_canary c" 0 "rpt_findings r"]
    by (cases "first_match (carries_canary c) 0 (rpt_findings r)")
      (force simp: proof_at_def carries_canary_iff dest: nth_mem)+
  from first_match_Some [OF k] i have "\<not> k < i" "\<not> i < k"
    by (auto simp: proof_at_def carries_canary_iff)
  with k show "first_match (carries_canary c) 0 (rpt_findings r) = Some i" by simp
qed

lemma matched_no_proof: "first_match (carries_canary c) 0 (rpt_findings r) = None \<longleftrightarrow> (\<forall>i. \<not> proof_at c r i)"
  unfolding matched_is_proof [symmetric] by (metis not_Some_eq)

lemma count_false_positives_card:
  "count_false_positives safe matched k fs =
     card {i. i < length fs \<and> matched \<noteq> Some (k + i) \<and> normalize_endpoint (fd_endpoint (fs ! i)) \<in> set safe}"
proof (induction safe matched k fs rule: count_false_positives.induct)
  case (2 safe matched k f fs)
  let ?P = "\<lambda>g j. matched \<noteq> Some j \<and> normalize_endpoint (fd_endpoint g) \<in> set safe"
  have "{i. i < length (f # fs) \<and> ?P ((f # fs) ! i) (k + i)} =
      (if ?P f k then {0} else {}) \<union> Suc ` {i. i < length fs \<and> ?P (fs ! i) (Suc k + i)}"
    by (auto simp: nth_Cons image_iff split: nat.splits if_splits)
      (metis Suc_less_eq diff_Suc_1 gr0_implies_Suc not_gr0)+
  then show ?case using "2.IH" by (simp add: card_image card_insert_if image_iff)
qed simp

lemma score_task_matched: "tr_matched_finding_index (score_task c r replay) = Some i \<longleftrightarrow> proof_at c r i"
  unfolding matched_is_proof [symmetric] by (simp add: score_task_def Let_def split_beta)

lemma score_task_located: "tr_located (score_task c r replay) \<longleftrightarrow> proof_located c r"
proof (cases "first_match (carries_canary c) 0 (rpt_findings r)")
  case None
  then have "\<not> proof_located c r" using matched_no_proof [of c r] by (simp add: proof_located_def)
  with None show ?thesis by (simp add: score_task_def Let_def split_beta)
next
  case (Some i)
  then have "proof_at c r j \<longleftrightarrow> j = i" for j using matched_is_proof [of c r j] by auto
  with Some show ?thesis by (auto simp: score_task_def Let_def split_beta proof_located_def)
qed

lemma score_task_false_positives: "tr_false_positives (score_task c r replay) = card (decoys_named c r)"
proof -
  have "tr_false_positives (score_task c r replay) = count_false_positives
      (map normalize_endpoint (ch_safe_endpoints c)) (first_match (carries_canary c) 0 (rpt_findings r)) 0 (rpt_findings r)"
    by (simp add: score_task_def Let_def split_beta)
  also have "\<dots> = card (decoys_named c r)"
    by (simp add: count_false_positives_card matched_is_proof decoys_named_def)
  finally show ?thesis .
qed

lemma score_task_found: "tr_canary_found (score_task c r replay) \<longleftrightarrow> (\<exists>i. proof_at c r i)"
  using score_task_matched [of c r replay] matched_no_proof [of c r]
  by (auto simp: score_task_def Let_def split_beta)

section \<open>Properties\<close>

text \<open>C26: The grade follows the report.  The matched finding is the first that carries this run's
  canary; the run counts as located exactly if that finding names the vulnerable endpoint and the
  vulnerable parameter (up to case, blanks and slashes), and each other finding on a decoy endpoint is
  one false positive.  The score is 0 without such a finding, 0.5 without a confirmed replay, 0.8 for
  a replayed and 1 for a replayed and located one, less a tenth per false positive and never below 0:
  so it is within 0 and 1, positive only for the canary, and 1 only for a canary that was replayed,
  located and not accompanied by a claim about a decoy.  A report about the vulnerable endpoint alone
  is never charged a false positive, whatever the generator drew.\<close>

theorem task_score_is_graded:
  "(\<forall>i. tr_matched_finding_index (score_task c r replay) = Some i \<longleftrightarrow> proof_at c r i) \<and>
   (tr_located (score_task c r replay) \<longleftrightarrow> proof_located c r) \<and>
   tr_false_positives (score_task c r replay) = card (decoys_named c r) \<and>
   tr_score (score_task c r replay) =
     grade (\<exists>i. proof_at c r i) replay (proof_located c r) (card (decoys_named c r)) \<and>
   0 \<le> tr_score (score_task c r replay) \<and> tr_score (score_task c r replay) \<le> 1 \<and>
   (0 < tr_score (score_task c r replay) \<longrightarrow>
      ch_canary c \<noteq> [] \<and> Some (ch_canary c) \<in> fd_canary ` set (rpt_findings r)) \<and>
   (tr_score (score_task c r replay) = 1 \<longleftrightarrow> replay \<and> proof_located c r \<and> decoys_named c r = {}) \<and>
   (\<forall>d. draws_ok d \<and> c = generate_challenge d \<and>
      (\<forall>f \<in> set (rpt_findings r). normalize_endpoint (fd_endpoint f) = normalize_endpoint (ch_vulnerable_endpoint c)) \<longrightarrow>
      tr_false_positives (score_task c r replay) = 0)"
proof -
  let ?t = "score_task c r replay"
  have score: "tr_score ?t = grade (\<exists>i. proof_at c r i) replay (proof_located c r) (card (decoys_named c r))"
    unfolding score_task_grade score_task_found score_task_located score_task_false_positives ..
  have found: "proof_located c r \<Longrightarrow> \<exists>i. proof_at c r i" by (auto simp: proof_located_def)
  have none: "card (decoys_named c r) = 0 \<longleftrightarrow> decoys_named c r = {}" by (simp add: decoys_named_def)
  have fp: "tr_false_positives ?t = 0"
    if "draws_ok d" "c = generate_challenge d"
      "\<forall>f \<in> set (rpt_findings r). normalize_endpoint (fd_endpoint f) = normalize_endpoint (ch_vulnerable_endpoint c)" for d
  proof -
    have "tr_false_positives ?t = count_false_positives
        (map normalize_endpoint (ch_safe_endpoints c)) (first_match (carries_canary c) 0 (rpt_findings r)) 0 (rpt_findings r)"
      by (simp add: score_task_def Let_def split_beta)
    with count_false_positives_vulnerable vulnerable_not_safe [OF that(1)] that(2,3) show ?thesis by metis
  qed
  show ?thesis
  proof (intro conjI allI impI)
    show "tr_matched_finding_index ?t = Some i \<longleftrightarrow> proof_at c r i" for i by (rule score_task_matched)
    show "tr_located ?t \<longleftrightarrow> proof_located c r" by (rule score_task_located)
    show "tr_false_positives ?t = card (decoys_named c r)" by (rule score_task_false_positives)
    show "tr_score ?t = grade (\<exists>i. proof_at c r i) replay (proof_located c r) (card (decoys_named c r))"
      by (rule score)
    show "0 \<le> tr_score ?t" "tr_score ?t \<le> 1" unfolding score by (rule grade_range)+
    show "tr_score ?t = 1 \<longleftrightarrow> replay \<and> proof_located c r \<and> decoys_named c r = {}"
      unfolding score grade_full none using found by blast
    assume "0 < tr_score ?t"
    then have "tr_canary_found ?t" unfolding score_task_grade by (rule grade_needs_canary)
    then show "ch_canary c \<noteq> []" "Some (ch_canary c) \<in> fd_canary ` set (rpt_findings r)"
      by (simp_all add: score_task_canary)
  next
    fix d
    assume d: "draws_ok d \<and> c = generate_challenge d \<and>
      (\<forall>f \<in> set (rpt_findings r). normalize_endpoint (fd_endpoint f) = normalize_endpoint (ch_vulnerable_endpoint c))"
    show "tr_false_positives ?t = 0"
      by (rule fp [OF conjunct1 [OF d] conjunct1 [OF conjunct2 [OF d]] conjunct2 [OF conjunct2 [OF d]]])
  qed
qed

definition sample_draws :: draws where
  "sample_draws = \<lparr>dw_canary = ''c0ffee'', dw_holder = ''vault'', dw_table_suffix = ''7f3a'', dw_column = ''data'',
     dw_column_suffix = ''0001'', dw_endpoints = CANDIDATE_ENDPOINTS, dw_trap = ''/api/search'',
     dw_parameter = ''id'', dw_variant = ''union''\<rparr>"

definition sample_findings :: report where
  "sample_findings = \<lparr>rpt_run_id = ''r1'', rpt_findings =
     [\<lparr>fd_endpoint = ''/api/products/'', fd_parameter = ''ID'', fd_injection_type = [], fd_payload = [],
       fd_severity = [], fd_confidence = 1, fd_canary = Some ''c0ffee'', fd_response_excerpt = []\<rparr>],
     rpt_reproduction = [], rpt_schema_version = [], rpt_agent_name = [], rpt_agent_version = []\<rparr>"

theorem task_score_is_graded_witness:
  "tr_score (score_task (generate_challenge sample_draws) sample_findings True) = 1 \<and>
   tr_false_positives (score_task (generate_challenge sample_draws) sample_findings True) = 0 \<and>
   proof_located (generate_challenge sample_draws) sample_findings"
proof -
  let ?c = "generate_challenge sample_draws"
  have draws: "draws_ok sample_draws" by code_simp
  have vuln: "\<forall>f \<in> set (rpt_findings sample_findings).
      normalize_endpoint (fd_endpoint f) = normalize_endpoint (ch_vulnerable_endpoint ?c)" by code_simp
  have loc: "tr_located (score_task ?c sample_findings True)" by code_simp
  note task = task_score_is_graded [of ?c sample_findings True]
  have zero: "tr_false_positives (score_task ?c sample_findings True) = 0" using task draws vuln by blast
  have "decoys_named ?c sample_findings = {}"
    using zero task by (simp add: decoys_named_def)
  with zero loc task show ?thesis by blast
qed

end
