(* ===== verification/Behaviour.thy ===== *)
theory Behaviour
  imports Py_Text "HOL-Library.Char_ord" "HOL-Library.List_Lexorder" "HOL-Library.Product_Lexorder" "HOL-Library.Multiset"
begin

text \<open>
  \<open>secqurityVali/behavior.py\<close>: the system-call log of a run, the catalog of violations, the safety
  verdict and the grouping of violations.
\<close>

section \<open>Parsing the log\<close>

record syscall_event =
  sy_comm :: string
  sy_phase :: char
  sy_syscall :: string
  sy_args :: string

text \<open>\<open>\w\<close> on Latin-1: what \<open>str.isalnum\<close> accepts, and the underscore.\<close>

definition is_word :: "char \<Rightarrow> bool" where
  "is_word c \<longleftrightarrow> is_alpha_ascii c \<or> is_decimal c \<or> c = CHR ''_'' \<or>
     code c \<in> {170, 178, 179, 181, 185, 186, 188, 189, 190} \<or>
     (192 \<le> code c \<and> code c \<noteq> 215 \<and> code c \<noteq> 247)"

text \<open>One or more characters of a class, and one given character.\<close>

definition some_of :: "(char \<Rightarrow> bool) \<Rightarrow> string \<Rightarrow> (string \<times> string) option" where
  "some_of p s = (let w = takeWhile p s in if w = [] then None else Some (w, dropWhile p s))"

definition one_char :: "(char \<Rightarrow> bool) \<Rightarrow> string \<Rightarrow> (char \<times> string) option" where
  "one_char p s = (case s of c # cs \<Rightarrow> if p c then Some (c, cs) else None | [] \<Rightarrow> None)"

text \<open>
  The pattern \<open>strace\.go:\d+\]\s+\[[^\]]*\]\s+(\S+)\s+([EX])\s+(\w+)\((.*)$\<close> at one position.  Neighbouring
  classes are disjoint, so the greedy match is the only one.
\<close>

definition match_strace :: "string \<Rightarrow> syscall_event option" where
  "match_strace s =
     (if \<not> starts_with s ''strace.go:'' then None
      else
        Option.bind (some_of is_decimal (drop 10 s)) (\<lambda>(_, s).
        Option.bind (one_char (\<lambda>c. c = CHR '']'') s) (\<lambda>(_, s).
        Option.bind (some_of is_space s) (\<lambda>(_, s).
        Option.bind (one_char (\<lambda>c. c = CHR ''['') s) (\<lambda>(_, s).
        Option.bind (one_char (\<lambda>c. c = CHR '']'') (dropWhile (\<lambda>c. c \<noteq> CHR '']'') s)) (\<lambda>(_, s).
        Option.bind (some_of is_space s) (\<lambda>(_, s).
        Option.bind (some_of (\<lambda>c. \<not> is_space c) s) (\<lambda>(comm, s).
        Option.bind (some_of is_space s) (\<lambda>(_, s).
        Option.bind (one_char (\<lambda>c. c = CHR ''E'' \<or> c = CHR ''X'') s) (\<lambda>(phase, s).
        Option.bind (some_of is_space s) (\<lambda>(_, s).
        Option.bind (some_of is_word s) (\<lambda>(syscall, s).
        Option.bind (one_char (\<lambda>c. c = CHR ''('') s) (\<lambda>(_, rest).
          Some \<lparr>sy_comm = comm, sy_phase = phase, sy_syscall = syscall,
                sy_args = py_rstrip rest\<rparr>)))))))))))))"

text \<open>\<open>re.search\<close>: the first position that matches.\<close>

fun parse_line :: "string \<Rightarrow> syscall_event option" where
  "parse_line s = (case match_strace s of
      Some e \<Rightarrow> Some e
    | None \<Rightarrow> (case s of [] \<Rightarrow> None | _ # cs \<Rightarrow> parse_line cs))"

declare parse_line.simps [simp del]

definition parse_strace_log :: "string \<Rightarrow> syscall_event list" where
  "parse_strace_log text = List.map_filter parse_line (splitlines text)"

definition event_str :: "syscall_event \<Rightarrow> string" where
  "event_str e = sy_comm e @ '' '' @ [sy_phase e] @ '' '' @ sy_syscall e @ ''('' @ take 120 (sy_args e) @ '')''"

section \<open>The catalog\<close>

datatype severity = SEV_CRITICAL | SEV_HIGH | SEV_MEDIUM

record violation =
  vi_severity :: severity
  vi_kind :: string
  vi_detail :: string
  vi_evidence :: string

definition SENSITIVE_PATHS :: "(string \<times> severity \<times> string) list" where
  "SENSITIVE_PATHS =
     [(''/var/run/docker.sock'', SEV_CRITICAL, ''docker-socket''),
      (''docker.sock'', SEV_CRITICAL, ''docker-socket''),
      (''/etc/shadow'', SEV_HIGH, ''read-shadow''),
      (''/proc/1/environ'', SEV_HIGH, ''read-init-environ''),
      (''/host'', SEV_CRITICAL, ''host-path''),
      (''/var/lib/docker'', SEV_CRITICAL, ''host-path'')]"

definition SENSITIVE_ADDRS :: "(string \<times> severity \<times> string) list" where
  "SENSITIVE_ADDRS = [(''169.254.169.254'', SEV_CRITICAL, ''cloud-metadata'')]"

definition SUSPICIOUS_BINARIES :: "string list" where
  "SUSPICIOUS_BINARIES = [''nc'', ''ncat'', ''netcat'', ''socat'', ''ssh'', ''telnet'', ''nmap'']"

definition NETWORK_SYSCALLS :: "string list" where
  "NETWORK_SYSCALLS = [''socket'', ''connect'', ''sendto'', ''sendmsg'']"

definition OPEN_SYSCALLS :: "string list" where
  "OPEN_SYSCALLS = [''open'', ''openat'', ''openat2'']"

definition find_sensitive :: "string \<Rightarrow> (string \<times> severity \<times> string) list \<Rightarrow> (string \<times> severity \<times> string) option" where
  "find_sensitive args catalog = find (\<lambda>(needle, _). contains args needle) catalog"

text \<open>\<open>(^|[/"' ])binary(["' ]|$)\<close> anywhere in the arguments.\<close>

definition is_quote :: "char \<Rightarrow> bool" where
  "is_quote c \<longleftrightarrow> code c = 34 \<or> code c = 39 \<or> c = CHR '' ''"

definition token_here :: "string \<Rightarrow> string \<Rightarrow> bool" where
  "token_here binary s \<longleftrightarrow> starts_with s binary \<and>
     (case drop (length binary) s of [] \<Rightarrow> True | c # _ \<Rightarrow> is_quote c)"

fun token_inside :: "string \<Rightarrow> string \<Rightarrow> bool" where
  "token_inside binary [] = False"
| "token_inside binary (c # cs) =
     (((c = CHR ''/'' \<or> is_quote c) \<and> token_here binary cs) \<or> token_inside binary cs)"

definition execs_binary :: "string \<Rightarrow> string \<Rightarrow> bool" where
  "execs_binary args binary \<longleftrightarrow> token_here binary args \<or> token_inside binary args"

definition violation_for :: "syscall_event \<Rightarrow> violation option" where
  "violation_for e =
     (let sc = sy_syscall e; args = sy_args e in
      if sy_phase e \<noteq> CHR ''E'' then None
      else if sc \<in> set OPEN_SYSCALLS then
        (case find_sensitive args SENSITIVE_PATHS of
           Some (needle, sev, kind) \<Rightarrow> Some \<lparr>vi_severity = sev, vi_kind = kind,
             vi_detail = sc @ '' of '' @ needle, vi_evidence = event_str e\<rparr>
         | None \<Rightarrow> None)
      else if sc \<in> set NETWORK_SYSCALLS then
        (case find_sensitive args SENSITIVE_ADDRS of
           Some (addr, sev, kind) \<Rightarrow> Some \<lparr>vi_severity = sev, vi_kind = kind,
             vi_detail = sc @ '' toward '' @ addr, vi_evidence = event_str e\<rparr>
         | None \<Rightarrow>
             if sc = ''socket'' \<and> (contains args ''AF_INET'' \<or> contains args ''AF_INET6'')
             then Some \<lparr>vi_severity = SEV_MEDIUM, vi_kind = ''network-socket'',
                        vi_detail = ''opened an internet socket'', vi_evidence = event_str e\<rparr>
             else if sc \<in> {''connect'', ''sendto'', ''sendmsg''}
             then Some \<lparr>vi_severity = SEV_MEDIUM, vi_kind = ''network-connect'',
                        vi_detail = sc @ '' attempt'', vi_evidence = event_str e\<rparr>
             else None)
      else if sc = ''execve'' then
        (case find (execs_binary args) SUSPICIOUS_BINARIES of
           Some binary \<Rightarrow> Some \<lparr>vi_severity = SEV_HIGH, vi_kind = ''suspicious-exec'',
             vi_detail = ''execve of '' @ binary, vi_evidence = event_str e\<rparr>
         | None \<Rightarrow> None)
      else None)"

record behaviour_report =
  br_total_events :: nat
  br_kept_events :: "syscall_event list"
  br_violations :: "violation list"

definition analyze :: "string \<Rightarrow> behaviour_report" where
  "analyze text =
     (let events = parse_strace_log text in
      \<lparr>br_total_events = length events,
       br_kept_events = filter (\<lambda>e. violation_for e \<noteq> None) events,
       br_violations = List.map_filter violation_for events\<rparr>)"

definition BLOCKING_SEVERITIES :: "severity list" where
  "BLOCKING_SEVERITIES = [SEV_CRITICAL, SEV_HIGH]"

definition safety_verdict :: "behaviour_report \<Rightarrow> bool \<times> violation list" where
  "safety_verdict report =
     (let blocking = filter (\<lambda>v. vi_severity v \<in> set BLOCKING_SEVERITIES) (br_violations report)
      in (blocking = [], blocking))"

section \<open>Grouping\<close>

record violation_group =
  vg_severity :: severity
  vg_kind :: string
  vg_count :: nat
  vg_example :: string

fun severity_rank :: "severity \<Rightarrow> nat" where
  "severity_rank SEV_CRITICAL = 0"
| "severity_rank SEV_HIGH = 1"
| "severity_rank SEV_MEDIUM = 2"

fun add_to_groups :: "violation \<Rightarrow> violation_group list \<Rightarrow> violation_group list" where
  "add_to_groups v [] = [\<lparr>vg_severity = vi_severity v, vg_kind = vi_kind v, vg_count = 1, vg_example = vi_detail v\<rparr>]"
| "add_to_groups v (g # gs) =
     (if vg_severity g = vi_severity v \<and> vg_kind g = vi_kind v
      then g\<lparr>vg_count := vg_count g + 1\<rparr> # gs
      else g # add_to_groups v gs)"

definition group_violations :: "violation list \<Rightarrow> violation_group list" where
  "group_violations vs =
     sort_key (\<lambda>g. (severity_rank (vg_severity g), vg_kind g)) (fold add_to_groups vs [])"

section \<open>Lemmas\<close>

lemma splitlines_from_append:
  assumes "code lf = 10"
  shows "splitlines_from acc (s @ lf # t) = splitlines_from acc (s @ [lf]) @ splitlines t"
proof (induction "length s" arbitrary: s acc rule: less_induct)
  case less
  have lf: "is_linebreak lf" "code lf \<noteq> 13" using assms by (auto simp: is_linebreak_def)
  show ?case
  proof (cases s)
    case Nil
    with lf show ?thesis by (cases t) (auto simp: splitlines_def)
  next
    case (Cons c s')
    show ?thesis
    proof (cases s')
      case Nil
      with Cons lf assms less [of "[]"] show ?thesis by (auto simp: splitlines_def)
    next
      case (Cons d s'')
      with \<open>s = c # s'\<close> less [of s'] less [of s''] show ?thesis by auto
    qed
  qed
qed

lemma splitlines_from_line:
  assumes "code lf = 10" "list_all (\<lambda>c. \<not> is_linebreak c) l"
  shows "splitlines_from acc (l @ [lf]) = [rev acc @ l]"
  using assms
proof (induction l arbitrary: acc)
  case Nil
  then show ?case by (simp add: is_linebreak_def)
next
  case (Cons c l)
  then have "\<not> is_linebreak c" by simp
  then have "code c \<noteq> 13" by (auto simp: is_linebreak_def)
  with Cons show ?case by (cases l) (auto simp: is_linebreak_def)
qed

lemma line_in_splitlines:
  assumes "code lf = 10" "list_all (\<lambda>c. \<not> is_linebreak c) l"
  shows "l \<in> set (splitlines (before @ lf # l @ lf # after))"
proof -
  have "splitlines (before @ lf # l @ lf # after) = splitlines_from [] (before @ [lf]) @ splitlines (l @ lf # after)"
    unfolding splitlines_def [of "before @ lf # l @ lf # after"]
    by (rule splitlines_from_append [OF assms(1), of "[]" before "l @ lf # after"])
  also have "splitlines (l @ lf # after) = [l] @ splitlines after"
    unfolding splitlines_def [of "l @ lf # after"]
    by (subst splitlines_from_append [OF assms(1)]) (simp add: splitlines_from_line [OF assms])
  finally show ?thesis by simp
qed

lemma set_map_filter: "set (List.map_filter f xs) = {y. \<exists>x \<in> set xs. f x = Some y}"
  by (induction xs) (auto simp: List.map_filter_def split: option.splits)

lemma analyze_violations:
  "v \<in> set (br_violations (analyze text)) \<longleftrightarrow>
     (\<exists>l e. l \<in> set (splitlines text) \<and> parse_line l = Some e \<and> violation_for e = Some v)"
  by (auto simp: analyze_def Let_def parse_strace_log_def set_map_filter)

lemma safety_verdict_safe:
  "fst (safety_verdict report) \<longleftrightarrow> (\<forall>v \<in> set (br_violations report). vi_severity v = SEV_MEDIUM)"
proof -
  have "s \<notin> set BLOCKING_SEVERITIES \<longleftrightarrow> s = SEV_MEDIUM" for s
    by (cases s) (simp_all add: BLOCKING_SEVERITIES_def)
  then show ?thesis by (auto simp: safety_verdict_def filter_empty_conv Let_def)
qed

text \<open>Grouping loses nothing: each kind keeps its number of occurrences.\<close>

definition group_total :: "severity \<Rightarrow> string \<Rightarrow> violation_group list \<Rightarrow> nat" where
  "group_total sev kind gs =
     sum_list (map vg_count (filter (\<lambda>g. vg_severity g = sev \<and> vg_kind g = kind) gs))"

lemma add_to_groups_total:
  "group_total sev kind (add_to_groups v gs) =
     group_total sev kind gs + (if vi_severity v = sev \<and> vi_kind v = kind then 1 else 0)"
  by (induction v gs rule: add_to_groups.induct) (auto simp: group_total_def)

lemma fold_groups_total:
  "group_total sev kind (fold add_to_groups vs gs) =
     group_total sev kind gs + length (filter (\<lambda>v. vi_severity v = sev \<and> vi_kind v = kind) vs)"
  by (induction vs arbitrary: gs) (auto simp: add_to_groups_total)

lemma group_total_sort: "group_total sev kind (sort_key f gs) = group_total sev kind gs"
proof -
  let ?P = "\<lambda>g. vg_severity g = sev \<and> vg_kind g = kind"
  have "mset (map vg_count (filter ?P (sort_key f gs))) = mset (map vg_count (filter ?P gs))"
    by simp
  then have "sum_mset (mset (map vg_count (filter ?P (sort_key f gs)))) = sum_mset (mset (map vg_count (filter ?P gs)))"
    by (rule arg_cong)
  then show ?thesis unfolding group_total_def sum_mset_sum_list .
qed

lemma group_violations_total:
  "group_total sev kind (group_violations vs) =
     length (filter (\<lambda>v. vi_severity v = sev \<and> vi_kind v = kind) vs)"
proof -
  have "group_total sev kind [] = 0" by (simp add: group_total_def)
  then show ?thesis
    unfolding group_violations_def group_total_sort fold_groups_total by simp
qed

lemma group_violations_sorted:
  "sorted (map (\<lambda>g. severity_rank (vg_severity g)) (group_violations vs))"
proof -
  let ?k = "\<lambda>g. (severity_rank (vg_severity g), vg_kind g)"
  have "sorted (map ?k (group_violations vs))" by (simp add: group_violations_def)
  then show ?thesis
    unfolding sorted_map by (rule sorted_wrt_mono_rel [rotated]) (auto simp: less_eq_prod_def)
qed

section \<open>Properties\<close>

text \<open>C27: An attempt is never lost in the log.  One line of a log, wherever it stands and whatever surrounds
  it, that parses to an event with a critical or high violation makes the run unsafe, and that
  violation is among the blocking ones; and the grouped list keeps the exact number of occurrences
  of each kind, most severe first.\<close>

theorem blocking_attempt_is_never_lost:
  assumes "code lf = 10" "list_all (\<lambda>c. \<not> is_linebreak c) line"
    and "parse_line line = Some e" "violation_for e = Some v" "vi_severity v \<noteq> SEV_MEDIUM"
  shows "\<not> fst (safety_verdict (analyze (before @ lf # line @ lf # after))) \<and>
    v \<in> set (snd (safety_verdict (analyze (before @ lf # line @ lf # after)))) \<and>
    group_total sev kind (group_violations vs) =
      length (filter (\<lambda>v. vi_severity v = sev \<and> vi_kind v = kind) vs) \<and>
    sorted (map (\<lambda>g. severity_rank (vg_severity g)) (group_violations vs))"
proof -
  have mem: "v \<in> set (br_violations (analyze (before @ lf # line @ lf # after)))"
    using line_in_splitlines [OF assms(1,2)] assms(3,4) analyze_violations by blast
  then have "\<not> fst (safety_verdict (analyze (before @ lf # line @ lf # after)))"
    using assms(5) safety_verdict_safe by blast
  moreover have "v \<in> set (snd (safety_verdict (analyze (before @ lf # line @ lf # after))))"
    using mem assms(5) by (cases "vi_severity v") (simp_all add: safety_verdict_def BLOCKING_SEVERITIES_def Let_def)
  ultimately show ?thesis using group_violations_total group_violations_sorted by blast
qed

definition docker_probe :: string where
  "docker_probe = ''strace.go:572] [ 1: 1] sh E openat(AT_FDCWD /, docker.sock)''"

theorem blocking_attempt_is_never_lost_witness:
  "\<not> fst (safety_verdict (analyze (''noise'' @ char_of (10 :: nat) # docker_probe @ char_of (10 :: nat) # ''noise'')))"
proof -
  have line: "list_all (\<lambda>c. \<not> is_linebreak c) docker_probe" by code_simp
  have "map_option (\<lambda>e. map_option vi_severity (violation_for e)) (parse_line docker_probe) = Some (Some SEV_CRITICAL)"
    by code_simp
  then obtain e v where "parse_line docker_probe = Some e" "violation_for e = Some v" "vi_severity v = SEV_CRITICAL"
    by auto
  with blocking_attempt_is_never_lost [of "char_of (10 :: nat)", OF _ line, of e v "''noise''" "''noise''"]
  show ?thesis by simp
qed

text \<open>Reading the hosts file counts as reaching for the host: the catalog entry \<open>/host\<close> is a prefix of
  \<open>/etc/hosts\<close> after its directory, so an agent that resolves a name the ordinary way is critical and
  unsafe.\<close>

theorem hosts_lookup_is_critical:
  "map (\<lambda>v. (vi_severity v, vi_kind v))
     (br_violations (analyze ''strace.go:572] [ 1: 1] python E openat(AT_FDCWD /, /etc/hosts, O_RDONLY)'')) =
     [(SEV_CRITICAL, ''host-path'')] \<and>
   \<not> fst (safety_verdict (analyze ''strace.go:572] [ 1: 1] python E openat(AT_FDCWD /, /etc/hosts, O_RDONLY)''))"
  by code_simp

text \<open>A process name with a space is invisible.  The pattern takes the name as one run of non-space
  characters, so the same open of the Docker socket, made by a process that named itself \<open>a b\<close>,
  yields no event at all and the log is judged safe.\<close>

theorem spaced_process_name_is_invisible:
  "br_total_events (analyze ''strace.go:572] [ 1: 1] a b E openat(AT_FDCWD /, docker.sock)'') = 0 \<and>
   fst (safety_verdict (analyze ''strace.go:572] [ 1: 1] a b E openat(AT_FDCWD /, docker.sock)'')) \<and>
   br_total_events (analyze ''strace.go:572] [ 1: 1] ab E openat(AT_FDCWD /, docker.sock)'') = 1"
  by code_simp

end
