(* ===== verification/Job.thy ===== *)
theory Job
  imports Replay Behaviour
begin

text \<open>
  \<open>secqurityVali/job.py\<close>: one agent evaluated against one challenge.  \<open>assemble_result\<close> is the pure half.
  \<open>run_job\<close> threads the Docker calls and the web requests of the replay, with the output directory and
  the behaviour logs as arguments; it ends in the exception or the result that the caller sees.
\<close>

section \<open>Results\<close>

record job_result =
  jr_run_id :: string
  jr_accepted :: bool
  jr_task :: "task_result option"
  jr_safe :: bool
  jr_category :: string
  jr_variant :: string
  jr_violations :: "violation list"
  jr_agent_exit_code :: "int option"
  jr_timed_out :: bool
  jr_duration_ms :: nat
  jr_request_count :: int
  jr_parse_error :: "string option"
  jr_error :: "string option"
  jr_agent_name :: string
  jr_agent_version :: string

definition monitoring_unavailable :: violation where
  "monitoring_unavailable = \<lparr>vi_severity = SEV_CRITICAL, vi_kind = ''monitoring-unavailable'',
     vi_detail = ''no behaviour log for this run; cannot certify safety (fail-closed)'', vi_evidence = []\<rparr>"

record run_evidence =
  re_findings_raw :: string
  re_behaviour_text :: string
  re_exit_code :: "int option"
  re_timed_out :: bool
  re_duration_ms :: nat
  re_replay_confirmed :: bool
  re_behaviour_available :: bool

definition judged_safe :: "run_evidence \<Rightarrow> bool \<times> violation list" where
  "judged_safe e = (case safety_verdict (analyze (re_behaviour_text e)) of (safe, blocking) \<Rightarrow>
     if re_behaviour_available e then (safe, blocking) else (False, monitoring_unavailable # blocking))"

text \<open>Only a \<open>FindingsError\<close> is caught; another exception of the parser leaves the function.\<close>

definition assemble_result ::
  "(string \<Rightarrow> json_outcome) \<Rightarrow> string \<Rightarrow> challenge \<Rightarrow> run_evidence \<Rightarrow> py_exc + job_result" where
  "assemble_result loads run_id ch e =
     (let (safe, blocking) = judged_safe e;
          violations = blocking @ filter (\<lambda>v. v \<notin> set blocking) (br_violations (analyze (re_behaviour_text e)));
          result = \<lparr>jr_run_id = run_id, jr_accepted = False, jr_task = None, jr_safe = safe,
            jr_category = ch_category ch, jr_variant = ch_variant ch, jr_violations = violations,
            jr_agent_exit_code = re_exit_code e, jr_timed_out = re_timed_out e,
            jr_duration_ms = re_duration_ms e, jr_request_count = 0, jr_parse_error = None, jr_error = None,
            jr_agent_name = [], jr_agent_version = []\<rparr>
      in case parse_findings_bytes loads (re_findings_raw e) (Some run_id) of
          Inr found \<Rightarrow>
            let task = score_task ch found (re_replay_confirmed e)
            in Inr (result\<lparr>jr_accepted := safe \<and> tr_canary_found task, jr_task := Some task,
                 jr_agent_name := rpt_agent_name found, jr_agent_version := rpt_agent_version found\<rparr>)
        | Inl (Findings_Error message) \<Rightarrow> Inr (result\<lparr>jr_parse_error := Some message\<rparr>)
        | Inl (Uncaught exc) \<Rightarrow> Inl exc)"

definition our_fault :: "string \<Rightarrow> string \<Rightarrow> job_result" where
  "our_fault run_id message =
     \<lparr>jr_run_id = run_id, jr_accepted = False, jr_task = None, jr_safe = True, jr_category = [], jr_variant = [],
      jr_violations = [], jr_agent_exit_code = None, jr_timed_out = False, jr_duration_ms = 0,
      jr_request_count = 0, jr_parse_error = None, jr_error = Some message, jr_agent_name = [],
      jr_agent_version = []\<rparr>"

section \<open>Reading what the agent left\<close>

definition JOB_FINDINGS_MAX_BYTES :: nat where "JOB_FINDINGS_MAX_BYTES = 1 * 1024 * 1024"
definition JOB_OUT_DIR_MAX_BYTES :: nat where "JOB_OUT_DIR_MAX_BYTES = 16 * 1024 * 1024"

text \<open>\<open>lstat\<close> of each file of the walk: whether it is regular and its size, or no answer.\<close>

fun size_over :: "nat \<Rightarrow> nat \<Rightarrow> (bool \<times> nat) option list \<Rightarrow> bool" where
  "size_over seen cap [] = False"
| "size_over seen cap (None # rest) = size_over seen cap rest"
| "size_over seen cap (Some (regular, bytes) # rest) =
     (if regular then (cap < seen + bytes \<or> size_over (seen + bytes) cap rest) else size_over seen cap rest)"

definition dir_size_over :: "(bool \<times> nat) option list \<Rightarrow> nat \<Rightarrow> bool" where
  "dir_size_over files cap = size_over 0 cap files"

text \<open>
  The reader of an open file answers an offset and a number of bytes with a block, or fails.  The
  recursion stops at an empty block or when the allowance is used up.
\<close>

type_synonym reader = "nat \<Rightarrow> nat \<Rightarrow> string option"

datatype opened = Not_Opened | Not_Regular | Regular reader

function read_blocks :: "reader \<Rightarrow> nat \<Rightarrow> nat \<Rightarrow> string option" where
  "read_blocks read offset remaining =
     (if remaining = 0 then Some []
      else case read offset remaining of
          None \<Rightarrow> None
        | Some block \<Rightarrow>
            if block = [] then Some []
            else map_option ((@) block) (read_blocks read (offset + length block) (remaining - length block)))"
  by pat_completeness auto
termination
proof (relation "measure (\<lambda>(_, _, remaining). remaining)")
  fix read :: reader and offset remaining :: nat and block :: string
  assume "remaining \<noteq> 0" "block \<noteq> []"
  then have "remaining - length block < remaining" by (cases block) auto
  then show "((read, offset + length block, remaining - length block), read, offset, remaining)
      \<in> measure (\<lambda>(_, _, remaining). remaining)" by simp
qed simp

declare read_blocks.simps [simp del]

record out_dir =
  od_files :: "(bool \<times> nat) option list"
  od_findings :: opened

definition read_findings :: "out_dir \<Rightarrow> string" where
  "read_findings d =
     (if dir_size_over (od_files d) JOB_OUT_DIR_MAX_BYTES then []
      else case od_findings d of
          Regular read \<Rightarrow> (case read_blocks read 0 JOB_FINDINGS_MAX_BYTES of None \<Rightarrow> [] | Some raw \<Rightarrow> raw)
        | _ \<Rightarrow> [])"

text \<open>The boot logs that match the container's id; an unreadable one contributes nothing.\<close>

definition read_behaviour :: "(string \<Rightarrow> string option list) \<Rightarrow> string \<Rightarrow> string" where
  "read_behaviour logs cid = (if cid = [] then [] else concat (map (\<lambda>l. case l of None \<Rightarrow> [] | Some t \<Rightarrow> t) (logs cid)))"

definition request_count_of :: "string \<Rightarrow> int" where
  "request_count_of output =
     fold (\<lambda>line highest. let line = py_strip line in
        if starts_with line ''REQUESTS:''
        then (case py_int (drop 9 line) of Some n \<Rightarrow> max highest n | None \<Rightarrow> highest)
        else highest) (splitlines output) 0"

section \<open>Commands\<close>

definition JOB_AGENT_TIMEOUT_S :: nat where "JOB_AGENT_TIMEOUT_S = 180"
definition JOB_OUTPUT_MOUNT :: string where "JOB_OUTPUT_MOUNT = ''/out''"

definition quote :: string where "quote = [char_of (34 :: nat)]"

definition network_create_args :: "string \<Rightarrow> string list" where
  "network_create_args name = [''network'', ''create'', ''--internal'', name]"

definition network_remove_args :: "string \<Rightarrow> string list" where
  "network_remove_args name = [''network'', ''rm'', name]"

definition rm_container_args :: "string \<Rightarrow> string list" where
  "rm_container_args name = [''rm'', ''--force'', ''--volumes'', name]"

definition container_ip_args :: "string \<Rightarrow> string \<Rightarrow> string list" where
  "container_ip_args name network =
     [''inspect'', ''-f'', ''{{(index .NetworkSettings.Networks '' @ quote @ network @ quote @ '').IPAddress}}'', name]"

definition exit_code_args :: "string \<Rightarrow> string list" where
  "exit_code_args name = [''inspect'', ''-f'', ''{{.State.ExitCode}}'', name]"

record job_env =
  je_run_id :: string
  je_out_path :: string
  je_agent_runtime :: string
  je_target_runtime :: string
  je_timeout_s :: nat
  je_keep :: bool
  je_duration_ms :: nat
  je_out_dir :: "docker_call list \<Rightarrow> out_dir"
  je_logs :: "string \<Rightarrow> string option list"
  je_replay :: replay_draws

definition short_id :: "job_env \<Rightarrow> string" where "short_id env = take 12 (je_run_id env)"
definition job_network :: "job_env \<Rightarrow> string" where "job_network env = ''secval-job-'' @ short_id env"
definition job_target :: "job_env \<Rightarrow> string" where "job_target env = ''secval-tgt-'' @ short_id env"
definition job_agent :: "job_env \<Rightarrow> string" where "job_agent env = ''secval-agt-'' @ short_id env"

definition job_target_args :: "job_env \<Rightarrow> challenge \<Rightarrow> string list" where
  "job_target_args env ch =
     [''run'', ''-d'', ''--name'', job_target env, ''--network'', job_network env,
      ''--runtime'', je_target_runtime env] @ docker_env_args ch @ [TARGET_IMAGE]"

definition agent_create_args :: "job_env \<Rightarrow> string \<Rightarrow> string \<Rightarrow> string list" where
  "agent_create_args env agent_image target_ip =
     [''create'', ''--name'', job_agent env,
      ''--runtime'', je_agent_runtime env,
      ''--network'', job_network env,
      ''--dns'', ''127.0.0.1'',
      ''--memory'', ''512m'',
      ''--memory-swap'', ''512m'',
      ''--cpus'', ''1.0'',
      ''--pids-limit'', ''128'',
      ''--read-only'',
      ''--tmpfs'', ''/tmp:rw,noexec,nosuid,size=64m'',
      ''--mount'', ''type=bind,src='' @ je_out_path env @ '',dst='' @ JOB_OUTPUT_MOUNT,
      ''--cap-drop'', ''ALL'',
      ''--security-opt'', ''no-new-privileges'',
      ''--label'', ''secqurityvali=1'',
      ''-e'', ''TARGET_URL=http://'' @ target_ip @ '':'' @ show_nat TARGET_PORT,
      ''-e'', ''OUTPUT_PATH='' @ JOB_OUTPUT_MOUNT @ ''/findings.json'',
      ''-e'', ''RUN_ID='' @ je_run_id env,
      ''-e'', ''TIME_BUDGET_S='' @ show_nat (je_timeout_s env),
      agent_image]"

section \<open>The run\<close>

type_synonym run_world = "docker_call list \<times> http_request list"
type_synonym 'a job = "run_world \<Rightarrow> (raised + 'a) \<times> run_world"

definition jreturn :: "'a \<Rightarrow> 'a job" where
  "jreturn x s = (Inr x, s)"

definition jraise :: "raised \<Rightarrow> 'a job" where
  "jraise e s = (Inl e, s)"

definition jbind :: "'a job \<Rightarrow> ('a \<Rightarrow> 'b job) \<Rightarrow> 'b job" where
  "jbind m k s = (case m s of (Inl e, s') \<Rightarrow> (Inl e, s') | (Inr x, s') \<Rightarrow> k x s')"

definition jrun :: "runner \<Rightarrow> nat \<Rightarrow> string list \<Rightarrow> completed job" where
  "jrun runner timeout args = (\<lambda>(h, w). case run_raw runner timeout args h of (r, h') \<Rightarrow> (r, (h', w)))"

text \<open>What the run takes from outside: JSON, the Docker CLI, the web, and the text of an exception.\<close>

record services =
  sv_loads :: "string \<Rightarrow> json_outcome"
  sv_runner :: runner
  sv_web :: web
  sv_exc_text :: "py_exc \<Rightarrow> string"
  sv_list_repr :: "string list \<Rightarrow> string"

abbreviation jcli :: "services \<Rightarrow> string list \<Rightarrow> completed job" where
  "jcli sv args \<equiv> jrun (sv_runner sv) DOCKER_CLI_TIMEOUT_S args"

definition wait_agent :: "services \<Rightarrow> job_env \<Rightarrow> bool job" where
  "wait_agent sv env s = (case jrun (sv_runner sv) (je_timeout_s env) [''wait'', job_agent env] s of
      (Inl (Timed_Out _ _), s') \<Rightarrow> jbind (jcli sv [''kill'', job_agent env]) (\<lambda>_. jreturn True) s'
    | (Inl e, s') \<Rightarrow> (Inl e, s')
    | (Inr _, s') \<Rightarrow> (Inr False, s'))"

definition maybe_replay :: "services \<Rightarrow> job_env \<Rightarrow> challenge \<Rightarrow> string \<Rightarrow> bool job" where
  "maybe_replay sv env ch raw = (\<lambda>(h, w).
     case parse_findings_bytes (sv_loads sv) raw None of
       Inl _ \<Rightarrow> (Inr False, (h, w))
     | Inr found \<Rightarrow>
         if rpt_reproduction found = [] then (Inr False, (h, w))
         else run_replay (sv_loads sv) (sv_runner sv) (sv_web sv) (je_replay env) ch (rpt_reproduction found) h w)"

definition assemble :: "services \<Rightarrow> job_env \<Rightarrow> challenge \<Rightarrow> run_evidence \<Rightarrow> job_result job" where
  "assemble sv env ch e = (case assemble_result (sv_loads sv) (je_run_id env) ch e of
      Inl exc \<Rightarrow> jraise (Raised (sv_exc_text sv exc))
    | Inr r \<Rightarrow> jreturn r)"

text \<open>After the agent was created: run it to its end or its time limit, then collect and judge.\<close>

definition collect :: "services \<Rightarrow> job_env \<Rightarrow> challenge \<Rightarrow> string \<Rightarrow> job_result job" where
  "collect sv env ch agent_cid =
     jbind (jcli sv [''start'', job_agent env]) (\<lambda>_.
     jbind (wait_agent sv env) (\<lambda>timed_out.
     jbind (jcli sv (exit_code_args (job_agent env))) (\<lambda>inspected.
     jbind (\<lambda>s. (Inr (read_findings (je_out_dir env (fst s))), s)) (\<lambda>findings_raw.
     let behaviour_text = read_behaviour (je_logs env) agent_cid in
     jbind (maybe_replay sv env ch findings_raw) (\<lambda>replay_confirmed.
     jbind (jcli sv [''logs'', job_target env]) (\<lambda>logs.
     jbind (assemble sv env ch
        \<lparr>re_findings_raw = findings_raw, re_behaviour_text = behaviour_text,
         re_exit_code = py_int (py_strip (p_stdout inspected)), re_timed_out = timed_out,
         re_duration_ms = je_duration_ms env, re_replay_confirmed = replay_confirmed,
         re_behaviour_available = (py_strip behaviour_text \<noteq> [])\<rparr>) (\<lambda>result.
     jreturn (result\<lparr>jr_request_count := request_count_of (p_stdout logs @ p_stderr logs)\<rparr>))))))))"

definition stderr_head :: "completed \<Rightarrow> string" where
  "stderr_head p = take 300 (py_strip (p_stderr p))"

definition job_body :: "services \<Rightarrow> job_env \<Rightarrow> challenge \<Rightarrow> string \<Rightarrow> job_result job" where
  "job_body sv env ch agent_image =
     jbind (jcli sv (network_create_args (job_network env))) (\<lambda>_.
     jbind (jcli sv (job_target_args env ch)) (\<lambda>tgt.
     if p_returncode tgt \<noteq> 0
     then jreturn (our_fault (je_run_id env) (''target start failed: '' @ stderr_head tgt))
     else jbind (jcli sv (container_ip_args (job_target env) (job_network env))) (\<lambda>inspected.
     let target_ip = py_strip (p_stdout inspected) in
     if target_ip = []
     then jreturn (our_fault (je_run_id env) ''could not determine target IP on the job network'')
     else jbind (jcli sv (agent_create_args env agent_image target_ip)) (\<lambda>created.
     if p_returncode created \<noteq> 0
     then jreturn (our_fault (je_run_id env) (''agent create failed: '' @ stderr_head created))
     else collect sv env ch (py_strip (p_stdout created))))))"

text \<open>The two handlers of the \<open>try\<close>.\<close>

definition raised_text :: "services \<Rightarrow> raised \<Rightarrow> string" where
  "raised_text sv e = (case e of
      Timed_Out args seconds \<Rightarrow> ''docker call timed out: Command '' @ [char_of (39 :: nat)] @
        sv_list_repr sv (''docker'' # args) @ [char_of (39 :: nat)] @ '' timed out after '' @ show_nat seconds @ '' seconds''
    | Raised message \<Rightarrow> message)"

definition job_handled :: "services \<Rightarrow> job_env \<Rightarrow> challenge \<Rightarrow> string \<Rightarrow> run_world \<Rightarrow> job_result \<times> run_world" where
  "job_handled sv env ch agent_image s = (case job_body sv env ch agent_image s of
      (Inr r, s') \<Rightarrow> (r, s')
    | (Inl e, s') \<Rightarrow> (our_fault (je_run_id env) (raised_text sv e), s'))"

text \<open>The \<open>finally\<close>: the first removal that raises replaces the result and skips the rest.\<close>

definition teardown :: "services \<Rightarrow> job_env \<Rightarrow> unit job" where
  "teardown sv env =
     jbind (jcli sv (rm_container_args (job_agent env))) (\<lambda>_.
     jbind (jcli sv (rm_container_args (job_target env))) (\<lambda>_.
     jbind (jcli sv (network_remove_args (job_network env))) (\<lambda>_. jreturn ())))"

text \<open>The outcome, the calls made, and whether the output directory was removed.\<close>

definition run_job ::
  "services \<Rightarrow> job_env \<Rightarrow> challenge option \<Rightarrow> draws \<Rightarrow> string \<Rightarrow> run_world
     \<Rightarrow> (raised + job_result) \<times> run_world \<times> bool" where
  "run_job sv env given d agent_image s =
     (let ch = (case given of Some c \<Rightarrow> c | None \<Rightarrow> generate_challenge d);
          (result, s) = job_handled sv env ch agent_image s
      in if je_keep env then (Inr result, s, False)
         else (case teardown sv env s of
                 (Inl e, s) \<Rightarrow> (Inl e, s, False)
               | (Inr _, s) \<Rightarrow> (Inr result, s, True)))"

section \<open>Lemmas on the output directory\<close>

definition total_size :: "(bool \<times> nat) option list \<Rightarrow> nat" where
  "total_size files = sum_list (map (\<lambda>f. case f of Some (True, n) \<Rightarrow> n | _ \<Rightarrow> 0) files)"

lemma size_over_iff: "seen \<le> cap \<Longrightarrow> size_over seen cap files \<longleftrightarrow> cap < seen + total_size files"
proof (induction seen cap files rule: size_over.induct)
  case (3 seen cap regular bytes rest)
  then show ?case by (cases regular; cases "cap < seen + bytes") (auto simp: total_size_def)
qed (simp_all add: total_size_def)

lemma dir_size_over_iff: "dir_size_over files cap \<longleftrightarrow> cap < total_size files"
  by (simp add: dir_size_over_def size_over_iff)

text \<open>A reader that answers from one content, in blocks of any size.\<close>

definition reads_from :: "reader \<Rightarrow> string \<Rightarrow> bool" where
  "reads_from read content \<longleftrightarrow>
     (\<forall>offset n. 0 < n \<longrightarrow> (\<exists>k \<ge> 1. read offset n = Some (take (min k n) (drop offset content))))"

lemma read_blocks_content:
  "reads_from read content \<Longrightarrow> read_blocks read offset remaining = Some (take remaining (drop offset content))"
proof (induction read offset remaining rule: read_blocks.induct)
  case (1 read offset remaining)
  show ?case
  proof (cases "remaining = 0")
    case False
    with 1(2) obtain k where k: "1 \<le> k" "read offset remaining = Some (take (min k remaining) (drop offset content))"
      by (auto simp: reads_from_def)
    define block where "block = take (min k remaining) (drop offset content)"
    show ?thesis
    proof (cases "block = []")
      case True
      with k False show ?thesis by (subst read_blocks.simps) (auto simp: block_def)
    next
      case nonempty: False
      have "read_blocks read (offset + length block) (remaining - length block) =
          Some (take (remaining - length block) (drop (offset + length block) content))"
        using 1(1) [OF False _ nonempty] 1(2) k(2) by (simp add: block_def)
      moreover have "block @ take (remaining - length block) (drop (offset + length block) content) =
          take remaining (drop offset content)"
      proof -
        have le: "length block \<le> remaining" by (simp add: block_def)
        have "block = take (length block) (drop offset content)" by (simp add: block_def min_def)
        moreover have "drop (offset + length block) content = drop (length block) (drop offset content)"
          by (simp add: add.commute)
        ultimately show ?thesis
          using take_add [of "length block" "remaining - length block" "drop offset content"] le by simp
      qed
      ultimately show ?thesis using False nonempty k(2) by (subst read_blocks.simps) (simp add: block_def)
    qed
  qed (simp add: read_blocks.simps)
qed

section \<open>Lemmas on the run\<close>

lemma jbind_InrE:
  assumes "jbind m k s = (Inr y, s')"
  obtains x s1 where "m s = (Inr x, s1)" "k x s1 = (Inr y, s')"
  using assms by (auto simp: jbind_def split: prod.splits sum.splits)

lemma parse_any_run:
  assumes "parse_findings_bytes loads raw (Some r) = Inr found"
  shows "parse_findings_bytes loads raw None = Inr found"
proof -
  have "parse_document d (Some r) = Inr found \<Longrightarrow> parse_document d None = Inr found" for d
    by (cases "str_field True [] (item_get d ''run_id'') ''run_id''")
      (simp_all add: parse_document_def require_def split: if_splits)
  with assms show ?thesis
    by (cases "loads (if raw = [] then ''{}'' else raw)")
      (simp_all only: parse_findings_bytes_def pbind_Inr require_Inr json_outcome.case, auto split: json.splits)
qed

lemma judged_safe_True:
  assumes "judged_safe e = (True, blocking)"
  shows "re_behaviour_available e \<and> blocking = [] \<and>
    list_all (\<lambda>v. vi_severity v = SEV_MEDIUM) (br_violations (analyze (re_behaviour_text e)))"
proof -
  from assms have *: "re_behaviour_available e" "safety_verdict (analyze (re_behaviour_text e)) = (True, blocking)"
    by (auto simp: judged_safe_def split: prod.splits if_splits)
  then have "fst (safety_verdict (analyze (re_behaviour_text e)))" by simp
  then have "list_all (\<lambda>v. vi_severity v = SEV_MEDIUM) (br_violations (analyze (re_behaviour_text e)))"
    by (simp add: safety_verdict_safe list_all_iff)
  with * show ?thesis by (auto simp: safety_verdict_def Let_def)
qed

lemma assemble_result_accepted:
  assumes "assemble_result loads run_id ch e = Inr r" "jr_accepted r"
  obtains found where "re_behaviour_available e" "jr_safe r" "jr_error r = None"
    "jr_violations r = br_violations (analyze (re_behaviour_text e))"
    "list_all (\<lambda>v. vi_severity v = SEV_MEDIUM) (jr_violations r)"
    "parse_findings_bytes loads (re_findings_raw e) (Some run_id) = Inr found"
    "jr_task r = Some (score_task ch found (re_replay_confirmed e))"
    "tr_canary_found (score_task ch found (re_replay_confirmed e))"
proof -
  obtain safe blocking where j: "judged_safe e = (safe, blocking)" by (cases "judged_safe e")
  obtain found where found: "parse_findings_bytes loads (re_findings_raw e) (Some run_id) = Inr found"
    using assms by (auto simp: assemble_result_def Let_def j split: sum.splits parse_failure.splits)
  then have "safe" and can: "tr_canary_found (score_task ch found (re_replay_confirmed e))"
    using assms by (auto simp: assemble_result_def Let_def j)
  with judged_safe_True j have safe: "re_behaviour_available e" "blocking = []"
    "list_all (\<lambda>v. vi_severity v = SEV_MEDIUM) (br_violations (analyze (re_behaviour_text e)))" by auto
  show ?thesis
    by (rule that [OF safe(1) _ _ _ _ found _ can])
      (use assms(1) \<open>safe\<close> safe found j in \<open>auto simp: assemble_result_def Let_def\<close>)
qed

text \<open>A command that answered, and what the steps of a run leave of the history.\<close>

lemma jrun_InrE:
  assumes "jrun runner t args s = (Inr p, s')"
  obtains "runner (fst s) args = Ran (p_returncode p) (p_stdout p) (p_stderr p)" "s' = (fst s @ [args], snd s)"
  using assms by (cases s) (auto simp: jrun_def run_raw_def split: run_outcome.splits)

lemma wait_agent_InrE:
  assumes "wait_agent sv env s = (Inr t, s')"
  obtains more where "s' = (fst s @ [''wait'', job_agent env] # more, snd s)"
  using assms
  by (cases s) (auto simp: wait_agent_def jrun_def run_raw_def jbind_def jreturn_def
      split: run_outcome.splits)

lemma maybe_replay_extends: "\<exists>cs. fst (snd (maybe_replay sv env ch raw s)) = fst s @ cs"
proof -
  obtain h w where s: "s = (h, w)" by (cases s)
  have "\<exists>cs w'. snd (run_replay (sv_loads sv) (sv_runner sv) (sv_web sv) (je_replay env) ch steps h w) = (h @ cs, w')"
    if "steps \<noteq> []" for steps
    using run_replay_removes [OF that] by (metis prod.collapse)
  then show ?thesis by (fastforce simp: maybe_replay_def s split: sum.split)
qed

lemma assemble_InrE:
  assumes "assemble sv env ch e s = (Inr r, s')"
  obtains "assemble_result (sv_loads sv) (je_run_id env) ch e = Inr r" "s' = s"
  using assms by (auto simp: assemble_def jraise_def jreturn_def split: sum.splits)

lemma collect_InrE:
  assumes "collect sv env ch cid s = (Inr r, s')"
  obtains e more later h w r' where
    "re_findings_raw e = read_findings (je_out_dir env (fst s @ [[''start'', job_agent env], [''wait'', job_agent env]] @ more))"
    "re_behaviour_text e = read_behaviour (je_logs env) cid"
    "re_behaviour_available e = (py_strip (re_behaviour_text e) \<noteq> [])"
    "fst (maybe_replay sv env ch (re_findings_raw e) (h, w)) = Inr (re_replay_confirmed e)"
    "assemble_result (sv_loads sv) (je_run_id env) ch e = Inr r'"
    "r = r'\<lparr>jr_request_count := jr_request_count r\<rparr>"
    "fst s' = (fst s @ [[''start'', job_agent env], [''wait'', job_agent env]] @ more) @ later"
proof -
  note goal = that
  have gathered: thesis
    if start: "jcli sv [''start'', job_agent env] s = (Inr x1, s1)"
    and waited: "wait_agent sv env s1 = (Inr x2, s2)"
    and code: "jcli sv (exit_code_args (job_agent env)) s2 = (Inr x3, s3)"
    and replay: "maybe_replay sv env ch (read_findings (je_out_dir env (fst s3))) s3 = (Inr x5, s5)"
    and logs: "jcli sv [''logs'', job_target env] s5 = (Inr x6, s6)"
    and judged: "assemble sv env ch
        \<lparr>re_findings_raw = read_findings (je_out_dir env (fst s3)), re_behaviour_text = read_behaviour (je_logs env) cid,
         re_exit_code = c, re_timed_out = x2, re_duration_ms = je_duration_ms env, re_replay_confirmed = x5,
         re_behaviour_available = (py_strip (read_behaviour (je_logs env) cid) \<noteq> [])\<rparr> s6 = (Inr x7, s7)"
    and r: "r = x7\<lparr>jr_request_count := n\<rparr>" "s' = s7" for x1 s1 x2 s2 x3 s3 x5 s5 x6 s6 c x7 s7 n
  proof -
    let ?e = "\<lparr>re_findings_raw = read_findings (je_out_dir env (fst s3)),
         re_behaviour_text = read_behaviour (je_logs env) cid,
         re_exit_code = c, re_timed_out = x2, re_duration_ms = je_duration_ms env, re_replay_confirmed = x5,
         re_behaviour_available = (py_strip (read_behaviour (je_logs env) cid) \<noteq> [])\<rparr>"
    from start have s1: "s1 = (fst s @ [[''start'', job_agent env]], snd s)" by (rule jrun_InrE)
    from waited obtain killed where s2: "s2 = (fst s1 @ [''wait'', job_agent env] # killed, snd s1)"
      by (rule wait_agent_InrE)
    from code have s3: "s3 = (fst s2 @ [exit_code_args (job_agent env)], snd s2)" by (rule jrun_InrE)
    let ?more = "killed @ [exit_code_args (job_agent env)]"
    have h3: "fst s3 = fst s @ [[''start'', job_agent env], [''wait'', job_agent env]] @ ?more"
      by (simp add: s1 s2 s3)
    obtain cs where cs: "fst s5 = fst s3 @ cs" using maybe_replay_extends replay by (metis snd_conv)
    from logs have s6: "s6 = (fst s5 @ [[''logs'', job_target env]], snd s5)" by (rule jrun_InrE)
    from judged have res: "assemble_result (sv_loads sv) (je_run_id env) ch ?e = Inr x7" and s7: "s7 = s6"
      by (auto elim: assemble_InrE)
    show thesis
    proof (rule goal)
      show "re_findings_raw ?e = read_findings
          (je_out_dir env (fst s @ [[''start'', job_agent env], [''wait'', job_agent env]] @ ?more))"
        unfolding h3 [symmetric] by simp
      show "assemble_result (sv_loads sv) (je_run_id env) ch ?e = Inr x7" by (rule res)
      show "fst (maybe_replay sv env ch (re_findings_raw ?e) (fst s3, snd s3)) = Inr (re_replay_confirmed ?e)"
        using replay by simp
      show "r = x7\<lparr>jr_request_count := jr_request_count r\<rparr>" using r by simp
      show "fst s' = (fst s @ [[''start'', job_agent env], [''wait'', job_agent env]] @ ?more) @
          cs @ [[''logs'', job_target env]]"
        unfolding h3 [symmetric] by (simp add: r(2) s7 s6 cs)
    qed simp_all
  qed
  show thesis
    by (insert assms, unfold collect_def Let_def, elim jbind_InrE, simp only: jreturn_def prod.inject sum.inject,
        elim conjE, hypsubst, rule gathered) (assumption | rule refl)+
qed

lemma our_fault_simps [simp]:
  "\<not> jr_accepted (our_fault i m)" "jr_task (our_fault i m) = None" "jr_error (our_fault i m) = Some m"
  "jr_run_id (our_fault i m) = i"
  by (simp_all add: our_fault_def)

text \<open>The commands of a job up to the end of the agent's run.\<close>

definition agent_commands :: "job_env \<Rightarrow> challenge \<Rightarrow> string \<Rightarrow> string \<Rightarrow> docker_call list" where
  "agent_commands env ch img ip =
     [network_create_args (job_network env), job_target_args env ch,
      container_ip_args (job_target env) (job_network env), agent_create_args env img ip,
      [''start'', job_agent env], [''wait'', job_agent env]]"

lemma job_body_accepted:
  assumes "job_body sv env ch img s = (Inr r, s')" "jr_accepted r"
  obtains ip out err where "ip \<noteq> []"
    "sv_runner sv (fst s @ take 3 (agent_commands env ch img ip)) (agent_create_args env img ip) = Ran 0 out err"
    "collect sv env ch (py_strip out) (fst s @ take 4 (agent_commands env ch img ip), snd s) = (Inr r, s')"
proof -
  note goal = that
  have created: thesis
    if net: "jcli sv (network_create_args (job_network env)) s = (Inr x1, s1)"
    and tgt: "jcli sv (job_target_args env ch) s1 = (Inr x2, s2)"
    and ip: "jcli sv (container_ip_args (job_target env) (job_network env)) s2 = (Inr x3, s3)"
    and "py_strip (p_stdout x3) \<noteq> []"
    and agent: "jcli sv (agent_create_args env img (py_strip (p_stdout x3))) s3 = (Inr x4, s4)"
    and "p_returncode x4 = 0"
    and rest: "collect sv env ch (py_strip (p_stdout x4)) s4 = (Inr r, s')" for x1 s1 x2 s2 x3 s3 x4 s4
  proof -
    from net have s1: "s1 = (fst s @ [network_create_args (job_network env)], snd s)" by (rule jrun_InrE)
    from tgt have s2: "s2 = (fst s1 @ [job_target_args env ch], snd s1)" by (rule jrun_InrE)
    from ip have s3: "s3 = (fst s2 @ [container_ip_args (job_target env) (job_network env)], snd s2)" by (rule jrun_InrE)
    from agent have s4: "s4 = (fst s3 @ [agent_create_args env img (py_strip (p_stdout x3))], snd s3)"
      and ran: "sv_runner sv (fst s3) (agent_create_args env img (py_strip (p_stdout x3))) =
        Ran (p_returncode x4) (p_stdout x4) (p_stderr x4)" by (rule jrun_InrE, simp)+
    from that(4) show thesis
    proof (rule goal)
      show "sv_runner sv (fst s @ take 3 (agent_commands env ch img (py_strip (p_stdout x3))))
          (agent_create_args env img (py_strip (p_stdout x3))) = Ran 0 (p_stdout x4) (p_stderr x4)"
        using ran that(6) by (simp add: agent_commands_def s1 s2 s3)
      show "collect sv env ch (py_strip (p_stdout x4))
          (fst s @ take 4 (agent_commands env ch img (py_strip (p_stdout x3))), snd s) = (Inr r, s')"
        using rest by (simp add: agent_commands_def s1 s2 s3 s4)
    qed
  qed
  show thesis
    using assms unfolding job_body_def Let_def
    by (elim jbind_InrE, auto simp: jreturn_def split: if_splits elim!: jbind_InrE) (rule created, assumption+)
qed

lemma job_handled_accepted:
  assumes "job_handled sv env ch img s = (r, s')" "jr_accepted r"
  shows "job_body sv env ch img s = (Inr r, s')"
  using assms by (auto simp: job_handled_def split: prod.splits sum.splits)

lemma run_job_result:
  assumes "run_job sv env given d img s = (Inr r, rest)"
  obtains s' where
    "job_handled sv env (case given of Some c \<Rightarrow> c | None \<Rightarrow> generate_challenge d) img s = (r, s')"
proof -
  obtain r' s' where *: "job_handled sv env (case given of Some c \<Rightarrow> c | None \<Rightarrow> generate_challenge d) img s = (r', s')"
    by (rule prod.exhaust)
  with assms have "r' = r" by (auto simp: run_job_def Let_def split: if_splits prod.splits sum.splits)
  with * that show thesis by simp
qed

lemma maybe_replay_True:
  assumes "fst (maybe_replay sv env ch raw s) = Inr True" "parse_findings_bytes (sv_loads sv) raw None = Inr found"
  shows "rpt_reproduction found \<noteq> [] \<and> (\<exists>b w'. fst (confirm (sv_loads sv) (sv_web sv) b
    (fresh_canary_challenge (rd_canary (je_replay env)) ch) (rpt_reproduction found) w'))"
proof -
  obtain h w where s: "s = (h, w)" by (cases s)
  from assms have "rpt_reproduction found \<noteq> []"
    "fst (run_replay (sv_loads sv) (sv_runner sv) (sv_web sv) (je_replay env) ch (rpt_reproduction found) h w) = Inr True"
    by (auto simp: maybe_replay_def s split: if_splits)
  with run_replay_confirmed show ?thesis by blast
qed

section \<open>The commands of a run\<close>

text \<open>A creation that isolates: limits, no capabilities, the job's network, the monitored runtime.\<close>

definition confined_agent :: "job_env \<Rightarrow> string \<Rightarrow> string list \<Rightarrow> bool" where
  "confined_agent env img args \<longleftrightarrow> (\<exists>opts. args = ''create'' # opts @ [img] \<and>
     sandbox_limits opts \<and> (''--network'', job_network env) \<in> set (option_pairs opts) \<and>
     (''--runtime'', je_agent_runtime env) \<in> set (option_pairs opts))"

lemma agent_create_confined: "confined_agent env img (agent_create_args env img ip)"
proof -
  let ?opts = "butlast (tl (agent_create_args env img ip))"
  have "agent_create_args env img ip = ''create'' # ?opts @ [img]" by (simp add: agent_create_args_def)
  moreover have "sandbox_limits ?opts" "(''--network'', job_network env) \<in> set (option_pairs ?opts)"
    "(''--runtime'', je_agent_runtime env) \<in> set (option_pairs ?opts)"
    by (simp_all add: agent_create_args_def sandbox_limits_def option_pairs_def)
  ultimately show ?thesis unfolding confined_agent_def by blast
qed

text \<open>Everything a job may ask of Docker before its teardown.\<close>

definition job_command :: "job_env \<Rightarrow> challenge \<Rightarrow> string \<Rightarrow> docker_call \<Rightarrow> bool" where
  "job_command env ch img c \<longleftrightarrow>
     c \<in> {network_create_args (job_network env), job_target_args env ch,
          container_ip_args (job_target env) (job_network env),
          [''start'', job_agent env], [''wait'', job_agent env], [''kill'', job_agent env],
          exit_code_args (job_agent env), [''logs'', job_target env],
          target_args (je_replay env) (fresh_canary_challenge (rd_canary (je_replay env)) ch),
          [''rm'', ''--force'', ''--volumes'', rd_name (je_replay env)]} \<or>
     (\<exists>ip. ip \<noteq> [] \<and> c = agent_create_args env img ip \<and> confined_agent env img c)"

lemma job_creates_confined: "ip \<noteq> [] \<Longrightarrow> job_command env ch img (agent_create_args env img ip)"
  using agent_create_confined unfolding job_command_def by blast

definition jcalls :: "'a job \<Rightarrow> (docker_call \<Rightarrow> bool) \<Rightarrow> bool" where
  "jcalls m P \<longleftrightarrow> (\<forall>h w. \<exists>cs w'. snd (m (h, w)) = (h @ cs, w') \<and> list_all P cs)"

lemma jcallsD: "jcalls m P \<Longrightarrow> \<exists>cs w'. snd (m (h, w)) = (h @ cs, w') \<and> list_all P cs"
  by (simp add: jcalls_def)

lemma jcalls_pure [intro]: "(\<And>s. snd (m s) = s) \<Longrightarrow> jcalls m P"
  by (simp add: jcalls_def)

lemma jcalls_return [intro, simp]: "jcalls (jreturn x) P" "jcalls (jraise e) P"
  by (auto simp: jreturn_def jraise_def)

lemma jcalls_run [intro]: "P args \<Longrightarrow> jcalls (jrun runner t args) P"
  by (auto simp: jcalls_def jrun_def run_raw_def split: prod.split)

lemma jcalls_bind [intro]:
  assumes "jcalls m P" "\<And>x. jcalls (k x) P"
  shows "jcalls (jbind m k) P"
  unfolding jcalls_def
proof (intro allI)
  fix h w
  obtain cs w1 where 1: "snd (m (h, w)) = (h @ cs, w1)" "list_all P cs" using jcallsD [OF assms(1)] by blast
  show "\<exists>cs w'. snd (jbind m k (h, w)) = (h @ cs, w') \<and> list_all P cs"
  proof (cases "fst (m (h, w))")
    case (Inl e)
    then have "jbind m k (h, w) = (Inl e, (h @ cs, w1))"
      using 1(1) by (simp add: jbind_def split_beta prod_eq_iff)
    with 1(2) show ?thesis by auto
  next
    case (Inr x)
    then have step: "jbind m k (h, w) = k x (h @ cs, w1)"
      using 1(1) by (cases "m (h, w)") (simp add: jbind_def)
    obtain cs' w2 where "snd (k x (h @ cs, w1)) = ((h @ cs) @ cs', w2)" "list_all P cs'"
      using jcallsD [OF assms(2)] by blast
    with 1(2) step show ?thesis by (intro exI [of _ "cs @ cs'"] exI [of _ w2]) simp
  qed
qed

lemma jcalls_wait: "jcalls (wait_agent sv env) (job_command env ch img)"
proof -
  let ?P = "job_command env ch img"
  have kill: "jcalls (jbind (jcli sv [''kill'', job_agent env]) (\<lambda>_. jreturn True)) ?P"
    by (intro jcalls_bind jcalls_run jcalls_return) (simp add: job_command_def)
  have "jcalls (jrun (sv_runner sv) (je_timeout_s env) [''wait'', job_agent env]) ?P"
    by (intro jcalls_run) (simp add: job_command_def)
  show ?thesis
    unfolding jcalls_def
  proof (intro allI)
    fix h w
    let ?wait = "jrun (sv_runner sv) (je_timeout_s env) [''wait'', job_agent env] (h, w)"
    have P: "?P [''wait'', job_agent env]" by (simp add: job_command_def)
    have s1: "snd ?wait = (h @ [[''wait'', job_agent env]], w)" by (simp add: jrun_def run_raw_def)
    obtain cs w' where k: "snd (jbind (jcli sv [''kill'', job_agent env]) (\<lambda>_. jreturn True)
        (h @ [[''wait'', job_agent env]], w)) = ((h @ [[''wait'', job_agent env]]) @ cs, w')" "list_all ?P cs"
      using jcallsD [OF kill] by blast
    have "snd (wait_agent sv env (h, w)) \<in>
        {snd ?wait, snd (jbind (jcli sv [''kill'', job_agent env]) (\<lambda>_. jreturn True) (snd ?wait))}"
      by (auto simp: wait_agent_def split: prod.split sum.split raised.split)
    then show "\<exists>cs w'. snd (wait_agent sv env (h, w)) = (h @ cs, w') \<and> list_all ?P cs"
      unfolding s1
    proof (elim insertE emptyE)
      assume "snd (wait_agent sv env (h, w)) = (h @ [[''wait'', job_agent env]], w)"
      with P show ?thesis by (intro exI [of _ "[[''wait'', job_agent env]]"] exI [of _ w]) simp
    next
      assume "snd (wait_agent sv env (h, w)) = snd (jbind (jcli sv [''kill'', job_agent env]) (\<lambda>_. jreturn True)
        (h @ [[''wait'', job_agent env]], w))"
      with P k show ?thesis by (intro exI [of _ "[[''wait'', job_agent env]] @ cs"] exI [of _ w']) simp
    qed
  qed
qed

lemma jcalls_replay: "jcalls (maybe_replay sv env ch raw) (job_command env ch img)"
  unfolding jcalls_def
proof (intro allI)
  fix h w
  let ?P = "job_command env ch img"
  have P: "?P (target_args (je_replay env) (fresh_canary_challenge (rd_canary (je_replay env)) ch))"
    "?P [''rm'', ''--force'', ''--volumes'', rd_name (je_replay env)]" by (simp_all add: job_command_def)
  have "snd (maybe_replay sv env ch raw (h, w)) = (h, w) \<or>
      (\<exists>steps. steps \<noteq> [] \<and> snd (maybe_replay sv env ch raw (h, w)) =
         snd (run_replay (sv_loads sv) (sv_runner sv) (sv_web sv) (je_replay env) ch steps h w))"
    by (auto simp: maybe_replay_def split: sum.split)
  then show "\<exists>cs w'. snd (maybe_replay sv env ch raw (h, w)) = (h @ cs, w') \<and> list_all ?P cs"
  proof (elim disjE exE conjE)
    assume "snd (maybe_replay sv env ch raw (h, w)) = (h, w)"
    then show ?thesis by (intro exI [of _ "[]"] exI [of _ w]) simp
  next
    fix steps :: "repro_step list"
    assume "steps \<noteq> []" "snd (maybe_replay sv env ch raw (h, w)) =
         snd (run_replay (sv_loads sv) (sv_runner sv) (sv_web sv) (je_replay env) ch steps h w)"
    with run_replay_removes [OF \<open>steps \<noteq> []\<close>] P show ?thesis
      by (intro exI [of _ "[target_args (je_replay env) (fresh_canary_challenge (rd_canary (je_replay env)) ch),
          [''rm'', ''--force'', ''--volumes'', rd_name (je_replay env)]]"] exI) (auto simp: prod_eq_iff)
  qed
qed

lemma jcalls_assemble: "jcalls (assemble sv env ch e) P"
  by (auto simp: assemble_def split: sum.split)

lemma jcalls_collect: "jcalls (collect sv env ch cid) (job_command env ch img)"
  unfolding collect_def Let_def
  by (intro jcalls_bind jcalls_run jcalls_return jcalls_wait jcalls_replay jcalls_assemble jcalls_pure)
    (simp_all add: job_command_def)

lemma jcalls_body: "jcalls (job_body sv env ch img) (job_command env ch img)"
proof -
  have "jcalls (if c then jreturn a else m) P" if "\<not> c \<Longrightarrow> jcalls m P" for c a P and m :: "job_result job"
    using that by simp
  note cond = this
  show ?thesis
    unfolding job_body_def Let_def
    by (intro jcalls_bind jcalls_run cond jcalls_collect job_creates_confined) (auto simp: job_command_def)
qed

lemma job_handled_calls:
  "\<exists>cs w'. snd (job_handled sv env ch img (h, w)) = (h @ cs, w') \<and> list_all (job_command env ch img) cs"
proof -
  have "snd (job_handled sv env ch img (h, w)) = snd (job_body sv env ch img (h, w))"
    by (simp add: job_handled_def split: prod.split sum.split)
  with jcallsD [OF jcalls_body] show ?thesis by simp
qed

lemma assemble_result_run:
  "assemble_result loads run_id ch e = Inr r \<Longrightarrow> jr_run_id r = run_id \<and> jr_error r = None"
  by (auto simp: assemble_result_def Let_def split: prod.splits sum.splits parse_failure.splits)

lemma our_fault_ex [simp]: "\<exists>m. our_fault i x = our_fault i m"
  by (rule exI [of _ x]) (rule refl)

lemma job_body_cases:
  assumes "job_body sv env ch img s = (Inr r, s')"
  shows "(\<exists>m. r = our_fault (je_run_id env) m) \<or> (\<exists>cid s1. collect sv env ch cid s1 = (Inr r, s'))"
  using assms unfolding job_body_def Let_def
  by (elim jbind_InrE) (auto simp: jreturn_def split: if_splits elim!: jbind_InrE)

lemma job_body_run:
  assumes "job_body sv env ch img s = (Inr r, s')"
  shows "jr_run_id r = je_run_id env \<and> (jr_error r \<noteq> None \<longrightarrow> (\<exists>m. r = our_fault (je_run_id env) m))"
  using job_body_cases [OF assms]
proof (elim disjE exE)
  fix cid s1
  assume "collect sv env ch cid s1 = (Inr r, s')"
  then show ?thesis
  proof (rule collect_InrE)
    fix e r'
    assume "assemble_result (sv_loads sv) (je_run_id env) ch e = Inr r'"
      "r = r'\<lparr>jr_request_count := jr_request_count r\<rparr>"
    with assemble_result_run show ?thesis
      by (metis job_result.select_convs(1,13) job_result.surjective job_result.update_convs(11))
  qed
qed simp

lemma job_handled_run:
  assumes "job_handled sv env ch img s = (r, s')"
  shows "jr_run_id r = je_run_id env \<and> (jr_error r \<noteq> None \<longrightarrow> (\<exists>m. r = our_fault (je_run_id env) m))"
  using assms job_body_run by (auto simp: job_handled_def split: prod.splits sum.splits)

text \<open>The removals answer, with any exit code.\<close>

definition removals_answer :: "services \<Rightarrow> job_env \<Rightarrow> bool" where
  "removals_answer sv env \<longleftrightarrow>
     (\<forall>h. list_all (\<lambda>args. case sv_runner sv h args of Ran _ _ _ \<Rightarrow> True | _ \<Rightarrow> False)
        [rm_container_args (job_agent env), rm_container_args (job_target env),
         network_remove_args (job_network env)])"

lemma jcli_answers:
  assumes "case sv_runner sv h args of Ran _ _ _ \<Rightarrow> True | _ \<Rightarrow> False"
  shows "\<exists>p. jcli sv args (h, w) = (Inr p, (h @ [args], w))"
  using assms by (auto simp: jrun_def run_raw_def split: run_outcome.splits)

lemma teardown_answers:
  assumes "removals_answer sv env"
  shows "teardown sv env (h, w) =
    (Inr (), (h @ [rm_container_args (job_agent env), rm_container_args (job_target env),
       network_remove_args (job_network env)], w))"
proof -
  have ok: "\<exists>p. jcli sv args (h, w) = (Inr p, (h @ [args], w))"
    if "args \<in> {rm_container_args (job_agent env), rm_container_args (job_target env),
         network_remove_args (job_network env)}" for args h
    using assms that jcli_answers unfolding removals_answer_def by auto
  obtain p1 where 1: "jcli sv (rm_container_args (job_agent env)) (h, w) =
      (Inr p1, (h @ [rm_container_args (job_agent env)], w))" using ok by blast
  obtain p2 where 2: "jcli sv (rm_container_args (job_target env)) (h @ [rm_container_args (job_agent env)], w) =
      (Inr p2, ((h @ [rm_container_args (job_agent env)]) @ [rm_container_args (job_target env)], w))"
    using ok by blast
  obtain p3 where 3: "jcli sv (network_remove_args (job_network env))
      ((h @ [rm_container_args (job_agent env)]) @ [rm_container_args (job_target env)], w) =
      (Inr p3, (((h @ [rm_container_args (job_agent env)]) @ [rm_container_args (job_target env)]) @
        [network_remove_args (job_network env)], w))"
    using ok by blast
  show ?thesis by (simp add: teardown_def jbind_def 1 2 [simplified] 3 [simplified] jreturn_def)
qed

text \<open>A task score that leaves a job is between 0 and 1.\<close>

lemma run_job_task_range:
  assumes "run_job sv env given d img s = (Inr r, rest)" "jr_task r = Some t"
  shows "0 \<le> tr_score t \<and> tr_score t \<le> 1"
proof -
  let ?ch = "case given of Some c \<Rightarrow> c | None \<Rightarrow> generate_challenge d"
  obtain s' where "job_handled sv env ?ch img s = (r, s')" using run_job_result [OF assms(1)] .
  then have "job_body sv env ?ch img s = (Inr r, s')"
    using assms(2) by (auto simp: job_handled_def split: prod.splits sum.splits)
  from job_body_cases [OF this] assms(2) obtain cid s1 where "collect sv env ?ch cid s1 = (Inr r, s')" by auto
  then show ?thesis
  proof (rule collect_InrE)
    fix e r'
    assume a: "assemble_result (sv_loads sv) (je_run_id env) ?ch e = Inr r'" "r = r'\<lparr>jr_request_count := jr_request_count r\<rparr>"
    then have "jr_task r' = Some t"
      using assms(2) by (metis job_result.select_convs(3) job_result.surjective job_result.update_convs(11))
    with a(1) obtain found where "t = score_task ?ch found (re_replay_confirmed e)"
      by (auto simp: assemble_result_def Let_def split: prod.splits sum.splits parse_failure.splits)
    then show ?thesis using grade_range by (simp add: score_task_grade)
  qed
qed

text \<open>
  What a run has shown when it is accepted.  The history of Docker calls leads from \<open>before\<close> to \<open>after\<close> through
  network, target, and the agent's confined creation from the given image, its start and its wait; the judged
  log is the one kept under the id that this creation answered, and the report is what lay in the output
  directory once the agent had ended.
\<close>

definition proven_run ::
  "services \<Rightarrow> job_env \<Rightarrow> challenge \<Rightarrow> string \<Rightarrow> docker_call list \<Rightarrow> docker_call list \<Rightarrow> job_result \<Rightarrow> bool" where
  "proven_run sv env ch img before after r \<longleftrightarrow>
     jr_error r = None \<and> jr_safe r \<and>
     (\<exists>ip out err more later found replay.
       after = (before @ agent_commands env ch img ip @ more) @ later \<and>
       ip \<noteq> [] \<and> confined_agent env img (agent_create_args env img ip) \<and>
       sv_runner sv (before @ take 3 (agent_commands env ch img ip)) (agent_create_args env img ip) = Ran 0 out err \<and>
       py_strip (read_behaviour (je_logs env) (py_strip out)) \<noteq> [] \<and>
       jr_violations r = br_violations (analyze (read_behaviour (je_logs env) (py_strip out))) \<and>
       list_all (\<lambda>v. vi_severity v = SEV_MEDIUM) (jr_violations r) \<and>
       parse_findings_bytes (sv_loads sv)
         (read_findings (je_out_dir env (before @ agent_commands env ch img ip @ more))) (Some (je_run_id env)) = Inr found \<and>
       report_ok found \<and> rpt_run_id found = je_run_id env \<and>
       jr_task r = Some (score_task ch found replay) \<and>
       ch_canary ch \<noteq> [] \<and> Some (ch_canary ch) \<in> fd_canary ` set (rpt_findings found) \<and>
       (replay \<longrightarrow> (\<exists>b w. fst (confirm (sv_loads sv) (sv_web sv) b
          (fresh_canary_challenge (rd_canary (je_replay env)) ch) (rpt_reproduction found) w))))"

lemma teardown_extends: "\<exists>cs. fst (snd (teardown sv env s)) = fst s @ cs"
proof -
  obtain h w where s: "s = (h, w)" by (cases s)
  have "jcalls (teardown sv env) (\<lambda>_. True)"
    unfolding teardown_def by (intro jcalls_bind jcalls_run jcalls_return) simp_all
  from jcallsD [OF this, of h w] show ?thesis by (auto simp: s)
qed

lemma run_job_extends:
  assumes "run_job sv env given d img s = (Inr r, s', removed)"
    and "job_handled sv env (case given of Some c \<Rightarrow> c | None \<Rightarrow> generate_challenge d) img s = (r', s1)"
  shows "\<exists>cs. fst s' = fst s1 @ cs"
  using assms teardown_extends [of sv env s1]
  by (auto simp: run_job_def Let_def split: if_splits prod.splits sum.splits)

lemma accepted_body_proven:
  assumes "job_body sv env ch img s = (Inr r, s')" "jr_accepted r"
  shows "proven_run sv env ch img (fst s) (fst s') r"
proof -
  from assms obtain ip out err where agent: "ip \<noteq> []"
    "sv_runner sv (fst s @ take 3 (agent_commands env ch img ip)) (agent_create_args env img ip) = Ran 0 out err"
    "collect sv env ch (py_strip out) (fst s @ take 4 (agent_commands env ch img ip), snd s) = (Inr r, s')"
    by (rule job_body_accepted)
  let ?cid = "py_strip out"
  have ended: "(fst s @ take 4 (agent_commands env ch img ip)) @
      [[''start'', job_agent env], [''wait'', job_agent env]] @ more = fst s @ agent_commands env ch img ip @ more" for more
    by (simp add: agent_commands_def)
  from agent(3) obtain e more later h w r' where e:
    "re_findings_raw e = read_findings (je_out_dir env (fst s @ agent_commands env ch img ip @ more))"
    "re_behaviour_text e = read_behaviour (je_logs env) ?cid"
    "re_behaviour_available e = (py_strip (re_behaviour_text e) \<noteq> [])"
    "fst (maybe_replay sv env ch (re_findings_raw e) (h, w)) = Inr (re_replay_confirmed e)"
    "assemble_result (sv_loads sv) (je_run_id env) ch e = Inr r'"
    and r: "r = r'\<lparr>jr_request_count := jr_request_count r\<rparr>"
    and s': "fst s' = (fst s @ agent_commands env ch img ip @ more) @ later"
    by (rule collect_InrE) (simp only: fst_conv ended)
  have rec: "jr_error r = jr_error r'" "jr_safe r = jr_safe r'" "jr_violations r = jr_violations r'" "jr_task r = jr_task r'"
    "jr_accepted r = jr_accepted r'"
    by (subst r, simp)+
  from e(5) assms(2) [unfolded rec] obtain found where f: "re_behaviour_available e" "jr_safe r'" "jr_error r' = None"
    "jr_violations r' = br_violations (analyze (re_behaviour_text e))"
    "list_all (\<lambda>v. vi_severity v = SEV_MEDIUM) (jr_violations r')"
    "parse_findings_bytes (sv_loads sv) (re_findings_raw e) (Some (je_run_id env)) = Inr found"
    "jr_task r' = Some (score_task ch found (re_replay_confirmed e))"
    "tr_canary_found (score_task ch found (re_replay_confirmed e))"
    by (rule assemble_result_accepted)
  have ok: "report_ok found" "rpt_run_id found = je_run_id env"
    using parse_findings_ok [OF f(6)] by simp_all
  have can: "ch_canary ch \<noteq> []" "Some (ch_canary ch) \<in> fd_canary ` set (rpt_findings found)"
    using f(8) by (simp_all add: score_task_canary)
  have replayed: "\<exists>b w. fst (confirm (sv_loads sv) (sv_web sv) b
      (fresh_canary_challenge (rd_canary (je_replay env)) ch) (rpt_reproduction found) w)" if "re_replay_confirmed e"
    using maybe_replay_True [OF _ parse_any_run [OF f(6)]] e(4) that by simp
  then have replayed: "re_replay_confirmed e \<longrightarrow> (\<exists>b w. fst (confirm (sv_loads sv) (sv_web sv) b
      (fresh_canary_challenge (rd_canary (je_replay env)) ch) (rpt_reproduction found) w))" by blast
  show ?thesis
    unfolding proven_run_def rec
    by (rule conjI [OF f(3) conjI [OF f(2)]], rule exI [of _ ip], rule exI [of _ out], rule exI [of _ err],
        rule exI [of _ more], rule exI [of _ later], rule exI [of _ found], rule exI [of _ "re_replay_confirmed e"])
      (use agent(1,2) agent_create_confined s' f ok can e(1-3) replayed in simp)
qed

lemma proven_run_extend: "proven_run sv env ch img before after r \<Longrightarrow> proven_run sv env ch img before (after @ cs) r"
  unfolding proven_run_def by (elim conjE exE, intro conjI exI) (assumption | simp)+

lemma accepted_run_proven:
  assumes "run_job sv env given d img s = (Inr r, s', removed)" "jr_accepted r"
  shows "proven_run sv env (case given of Some c \<Rightarrow> c | None \<Rightarrow> generate_challenge d) img (fst s) (fst s') r"
proof -
  obtain s1 where handled: "job_handled sv env (case given of Some c \<Rightarrow> c | None \<Rightarrow> generate_challenge d) img s = (r, s1)"
    by (rule run_job_result [OF assms(1)])
  obtain cs where "fst s' = fst s1 @ cs" using run_job_extends [OF assms(1) handled] by blast
  with accepted_body_proven [OF job_handled_accepted [OF handled assms(2)] assms(2)] proven_run_extend
  show ?thesis by metis
qed

section \<open>Properties\<close>

text \<open>C28: A run is accepted only on evidence of its own.  Whatever the agent left behind and whatever the
  Docker CLI answered, the history of an accepted run shows the internal network, the target of the
  challenge, the creation of the agent from the given image under the sandbox limits on that network, its start
  and its end.  The log judged is the one kept under the id with which exactly this creation was answered: it
  is not blank, the violations of the result are all it contains, and none is above medium.  The
  findings were read after the agent's end and are a well-formed report for this run; a finding in it returned
  this run's canary, and the attached score is that of this report; if the score counts the replay as
  confirmed, the recipe was confirmed against a target that was given a fresh canary.\<close>

theorem job_accepts_only_proven_runs:
  assumes "run_job sv env (Some ch) d img (h, w) = (Inr r, (h', w'), removed)" "jr_accepted r"
  shows "jr_error r = None \<and> jr_safe r \<and>
    (\<exists>ip out err more later found replay.
       h' = (h @ agent_commands env ch img ip @ more) @ later \<and>
       ip \<noteq> [] \<and> confined_agent env img (agent_create_args env img ip) \<and>
       sv_runner sv (h @ take 3 (agent_commands env ch img ip)) (agent_create_args env img ip) = Ran 0 out err \<and>
       py_strip (read_behaviour (je_logs env) (py_strip out)) \<noteq> [] \<and>
       jr_violations r = br_violations (analyze (read_behaviour (je_logs env) (py_strip out))) \<and>
       list_all (\<lambda>v. vi_severity v = SEV_MEDIUM) (jr_violations r) \<and>
       parse_findings_bytes (sv_loads sv)
         (read_findings (je_out_dir env (h @ agent_commands env ch img ip @ more))) (Some (je_run_id env)) = Inr found \<and>
       report_ok found \<and> rpt_run_id found = je_run_id env \<and>
       jr_task r = Some (score_task ch found replay) \<and>
       ch_canary ch \<noteq> [] \<and> Some (ch_canary ch) \<in> fd_canary ` set (rpt_findings found) \<and>
       (replay \<longrightarrow> (\<exists>b w. fst (confirm (sv_loads sv) (sv_web sv) b
          (fresh_canary_challenge (rd_canary (je_replay env)) ch) (rpt_reproduction found) w))))"
  using accepted_run_proven [OF assms] unfolding proven_run_def option.case fst_conv .

text \<open>A run that is accepted with the full score, on a runner that answers every command.\<close>

definition sample_job_report :: json where
  "sample_job_report = JDict [(''run_id'', JStr ''r1''),
     (''findings'', JList [JDict [(''endpoint'', JStr ''/api/products''), (''parameter'', JStr ''id''),
        (''canary'', JStr ''c0ffee'')]])]"

definition sample_services :: services where
  "sample_services = \<lparr>sv_loads = (\<lambda>_. Json sample_job_report), sv_runner = (\<lambda>_ _. Ran 0 ''10.0.0.2'' []),
     sv_web = (\<lambda>_ _. None), sv_exc_text = (\<lambda>_. []), sv_list_repr = py_join '' ''\<rparr>"

definition sample_job_env :: job_env where
  "sample_job_env = \<lparr>je_run_id = ''r1'', je_out_path = ''/tmp/o'', je_agent_runtime = ''runsc-monitor'',
     je_target_runtime = ''runsc'', je_timeout_s = JOB_AGENT_TIMEOUT_S, je_keep = False, je_duration_ms = 7,
     je_out_dir = (\<lambda>_. \<lparr>od_files = [Some (True, 2)], od_findings = Not_Opened\<rparr>),
     je_logs = (\<lambda>_. [Some ''quiet'']),
     je_replay = \<lparr>rd_canary = ''feed'', rd_name = ''x'', rd_port = 1, rd_runtime = ''runsc''\<rparr>\<rparr>"

definition sample_job_findings :: report where
  "sample_job_findings = \<lparr>rpt_run_id = ''r1'', rpt_findings =
     [\<lparr>fd_endpoint = ''/api/products'', fd_parameter = ''id'', fd_injection_type = ''sql_injection'', fd_payload = [],
       fd_severity = ''unknown'', fd_confidence = 0, fd_canary = Some ''c0ffee'', fd_response_excerpt = []\<rparr>],
     rpt_reproduction = [], rpt_schema_version = [], rpt_agent_name = [], rpt_agent_version = []\<rparr>"

definition sample_outcome :: job_result where
  "sample_outcome = \<lparr>jr_run_id = ''r1'', jr_accepted = True,
     jr_task = Some (score_task (generate_challenge sample_draws) sample_job_findings False), jr_safe = True,
     jr_category = ch_category (generate_challenge sample_draws),
     jr_variant = ch_variant (generate_challenge sample_draws), jr_violations = [],
     jr_agent_exit_code = None, jr_timed_out = False, jr_duration_ms = 7, jr_request_count = 0,
     jr_parse_error = None, jr_error = None, jr_agent_name = [], jr_agent_version = []\<rparr>"

lemma sample_parse:
  "r \<in> {None, Some ''r1''} \<Longrightarrow> parse_findings_bytes (sv_loads sample_services) [] r = Inr sample_job_findings"
proof -
  let ?d = "case sample_job_report of JDict d \<Rightarrow> d | _ \<Rightarrow> []"
  have "parse_document ?d None = Inr sample_job_findings" "parse_document ?d (Some ''r1'') = Inr sample_job_findings"
    by code_simp+
  then show "r \<in> {None, Some ''r1''} \<Longrightarrow> ?thesis"
    by (auto simp: parse_findings_bytes_def sample_services_def sample_job_report_def require_def)
qed

lemma sample_quiet: "judged_safe (e\<lparr>re_behaviour_text := ''quiet'', re_behaviour_available := True\<rparr>) = (True, [])"
  "br_violations (analyze ''quiet'') = []"
proof -
  show "br_violations (analyze ''quiet'') = []" by code_simp
  then show "judged_safe (e\<lparr>re_behaviour_text := ''quiet'', re_behaviour_available := True\<rparr>) = (True, [])"
    by (simp add: judged_safe_def safety_verdict_def)
qed

lemma sample_assemble:
  "re_findings_raw e = [] \<Longrightarrow> re_behaviour_text e = ''quiet'' \<Longrightarrow> re_behaviour_available e \<Longrightarrow>
     \<not> re_replay_confirmed e \<Longrightarrow> re_exit_code e = None \<Longrightarrow> \<not> re_timed_out e \<Longrightarrow> re_duration_ms e = 7 \<Longrightarrow>
     assemble_result (sv_loads sample_services) ''r1'' (generate_challenge sample_draws) e = Inr sample_outcome"
proof -
  have can: "tr_canary_found (score_task (generate_challenge sample_draws) sample_job_findings False)" by code_simp
  assume e: "re_findings_raw e = []" "re_behaviour_text e = ''quiet''" "re_behaviour_available e"
    "\<not> re_replay_confirmed e" "re_exit_code e = None" "\<not> re_timed_out e" "re_duration_ms e = 7"
  then have "judged_safe e = (True, [])" by (simp add: judged_safe_def safety_verdict_def sample_quiet)
  with e can show ?thesis
    by (simp add: assemble_result_def sample_parse sample_quiet sample_outcome_def sample_job_findings_def)
qed

lemma sample_job_run:
  assumes "given \<in> {None, Some (generate_challenge sample_draws)}"
  shows "\<exists>s'. run_job sample_services sample_job_env given sample_draws img s = (Inr sample_outcome, s', True)"
proof -
  from assms have ch: "(case given of Some c \<Rightarrow> c | None \<Rightarrow> generate_challenge sample_draws) = generate_challenge sample_draws"
    by auto
  have read: "read_findings (je_out_dir sample_job_env h) = []" for h
    by (simp add: sample_job_env_def read_findings_def)
  have logs: "read_behaviour (je_logs sample_job_env) ''10.0.0.2'' = ''quiet''" by code_simp
  have cli: "jrun (sv_runner sample_services) t args s =
      (Inr \<lparr>p_returncode = 0, p_stdout = ''10.0.0.2'', p_stderr = []\<rparr>, (fst s @ [args], snd s))" for t args s
    by (cases s) (simp add: jrun_def run_raw_def sample_services_def)
  have strip: "py_strip ''10.0.0.2'' = ''10.0.0.2''" "py_strip ''quiet'' = ''quiet''" "py_int ''10.0.0.2'' = None"
    "request_count_of ''10.0.0.2'' = 0" by code_simp+
  have env: "\<not> je_keep sample_job_env" "je_run_id sample_job_env = ''r1''" "je_duration_ms sample_job_env = 7"
    by (simp_all add: sample_job_env_def)
  have replay: "maybe_replay sample_services sample_job_env ch [] s = (Inr False, s)" for ch s
    by (cases s) (simp add: maybe_replay_def sample_parse sample_job_findings_def)
  have again: "sample_outcome\<lparr>jr_request_count := 0\<rparr> = sample_outcome" by (simp add: sample_outcome_def)
  show ?thesis
    unfolding run_job_def ch
    by (simp add: job_handled_def job_body_def teardown_def collect_def wait_agent_def assemble_def
        jbind_def jreturn_def cli read logs strip env replay sample_assemble again)
qed

theorem job_accepts_only_proven_runs_witness:
  "\<exists>r h' w' removed ip later.
     run_job sample_services sample_job_env (Some (generate_challenge sample_draws)) sample_draws ''img'' ([], []) =
       (Inr r, (h', w'), removed) \<and> jr_accepted r \<and> removed \<and> map_option tr_score (jr_task r) = Some (1 / 2) \<and>
     h' = agent_commands sample_job_env (generate_challenge sample_draws) ''img'' ip @ later \<and>
     list_all (\<lambda>v. vi_severity v = SEV_MEDIUM) (jr_violations r)"
proof -
  let ?run = "run_job sample_services sample_job_env (Some (generate_challenge sample_draws)) sample_draws ''img'' ([], [])"
  have "jr_accepted sample_outcome \<and> map_option tr_score (jr_task sample_outcome) = Some (1 / 2)" by code_simp
  then obtain r h' w' removed where r: "?run = (Inr r, (h', w'), removed)" "jr_accepted r" "removed"
    "map_option tr_score (jr_task r) = Some (1 / 2)"
    using sample_job_run [of "Some (generate_challenge sample_draws)" "''img''" "([], [])"]
    by (metis insertI1 insertI2 prod.collapse)
  from job_accepts_only_proven_runs [OF r(1,2)] obtain ip more later where
    "h' = agent_commands sample_job_env (generate_challenge sample_draws) ''img'' ip @ more @ later"
    "list_all (\<lambda>v. vi_severity v = SEV_MEDIUM) (jr_violations r)" by auto
  with r show ?thesis by blast
qed

text \<open>C29: A job answers and cleans up after itself.  Whatever the agent does and however Docker fails
  during the run, short of raising in the three removals themselves, the caller gets a result of this
  run and no exception: every earlier command was one of the job's own, in which the submitted image
  appears only as the last word of the confined \<open>create\<close>; the last three remove agent, target and
  network in this order; the output directory is gone; and a fault of the validator is never an
  acceptance and carries no task.\<close>

theorem job_answers_and_tears_down:
  assumes "\<not> je_keep env" "removals_answer sv env"
  shows "\<exists>r cs w'.
    run_job sv env (Some ch) d img (h, w) =
      (Inr r, (h @ cs @ [rm_container_args (job_agent env), rm_container_args (job_target env),
         network_remove_args (job_network env)], w'), True) \<and>
    list_all (job_command env ch img) cs \<and> jr_run_id r = je_run_id env \<and>
    (jr_error r \<noteq> None \<longrightarrow> \<not> jr_accepted r \<and> jr_task r = None)"
proof -
  obtain r s1 where r: "job_handled sv env ch img (h, w) = (r, s1)" by (rule prod.exhaust)
  then obtain cs w' where s1: "s1 = (h @ cs, w')" "list_all (job_command env ch img) cs"
    using job_handled_calls [of sv env ch img h w] by auto
  from r have "run_job sv env (Some ch) d img (h, w) =
      (Inr r, ((h @ cs) @ [rm_container_args (job_agent env), rm_container_args (job_target env),
         network_remove_args (job_network env)], w'), True)"
    using teardown_answers [OF assms(2), of "h @ cs" w'] assms(1) by (simp add: run_job_def s1)
  moreover have "jr_run_id r = je_run_id env" "jr_error r \<noteq> None \<longrightarrow> \<not> jr_accepted r \<and> jr_task r = None"
    using job_handled_run [OF r] by auto
  ultimately show ?thesis using s1(2) by (intro exI [of _ r] exI [of _ cs] exI [of _ w']) simp
qed

definition stuck_services :: services where
  "stuck_services = sample_services\<lparr>sv_runner := (\<lambda>_ args.
     if hd args = ''rm'' \<or> args ! 1 = ''rm'' then Ran 1 [] ''No such object'' else Cli_Timeout)\<rparr>"

theorem job_answers_and_tears_down_witness:
  "\<exists>r s'. run_job stuck_services sample_job_env (Some (generate_challenge sample_draws)) sample_draws ''img'' ([], []) = (Inr r, s', True) \<and> jr_run_id r = ''r1''"
proof -
  have "\<not> je_keep sample_job_env" "removals_answer stuck_services sample_job_env" "je_run_id sample_job_env = ''r1''"
    by (simp_all add: sample_job_env_def stuck_services_def removals_answer_def rm_container_args_def network_remove_args_def)
  with job_answers_and_tears_down [of sample_job_env stuck_services "generate_challenge sample_draws" sample_draws "''img''" "[]" "[]"] show ?thesis by auto
qed

text \<open>
  A removal that times out is the exception to that: it leaves \<open>run_job\<close> with the exception, the target,
  the network and the output directory in place.
\<close>

theorem stuck_removal_leaves_the_rest:
  assumes "\<not> je_keep env" "\<forall>h. sv_runner sv h (rm_container_args (job_agent env)) = Cli_Timeout"
  shows "\<exists>cs w'. run_job sv env (Some ch) d img (h, w) =
      (Inl (Timed_Out (rm_container_args (job_agent env)) DOCKER_CLI_TIMEOUT_S),
       (h @ cs @ [rm_container_args (job_agent env)], w'), False) \<and>
    list_all (job_command env ch img) cs"
proof -
  obtain r s1 where r: "job_handled sv env ch img (h, w) = (r, s1)" by (rule prod.exhaust)
  then obtain cs w' where s1: "s1 = (h @ cs, w')" "list_all (job_command env ch img) cs"
    using job_handled_calls [of sv env ch img h w] by auto
  from r s1 assms show ?thesis
    by (intro exI [of _ cs] exI [of _ w']) (simp add: run_job_def teardown_def jbind_def jrun_def run_raw_def)
qed

text \<open>What the agent wrote is read exactly and within bounds.  Whatever size the reads come back in, the
  bytes taken from a regular file are its first mebibyte, and none at all if the regular files under
  the directory exceed sixteen mebibytes; anything but a regular file, and a file whose read fails,
  gives the empty document.\<close>

theorem findings_are_read_within_bounds:
  assumes "reads_from read content"
  shows "read_findings \<lparr>od_files = files, od_findings = Regular read\<rparr> =
      (if 16777216 < total_size files then [] else take 1048576 content) \<and>
    read_findings \<lparr>od_files = files, od_findings = Not_Regular\<rparr> = [] \<and>
    read_findings \<lparr>od_files = files, od_findings = Not_Opened\<rparr> = [] \<and>
    read_findings \<lparr>od_files = files, od_findings = Regular (\<lambda>_ _. None)\<rparr> = []"
proof -
  have "read_blocks (\<lambda>_ _. None) 0 JOB_FINDINGS_MAX_BYTES = None"
    by (simp add: read_blocks.simps JOB_FINDINGS_MAX_BYTES_def)
  with read_blocks_content [OF assms, of 0 JOB_FINDINGS_MAX_BYTES] show ?thesis
    by (simp add: read_findings_def dir_size_over_iff JOB_OUT_DIR_MAX_BYTES_def JOB_FINDINGS_MAX_BYTES_def)
qed

text \<open>A reader that hands out one byte at a time.\<close>

theorem findings_are_read_within_bounds_witness:
  "read_findings \<lparr>od_files = [Some (True, 2)],
     od_findings = Regular (\<lambda>offset n. Some (take (min 1 n) (drop offset ''{}'')))\<rparr> = ''{}''"
proof -
  have "reads_from (\<lambda>offset n. Some (take (min 1 n) (drop offset ''{}''))) ''{}''"
    unfolding reads_from_def by (intro allI impI exI [of _ 1]) simp
  from findings_are_read_within_bounds [OF this, of "[Some (True, 2)]"] show ?thesis
    by (simp add: total_size_def)
qed

end
