(* ===== verification/Rewards.thy ===== *)
theory Rewards
  imports Job
begin

text \<open>
  From outcomes to rewards: \<open>secqurityVali/reward.py\<close>, the capability matrix of
  \<open>secqurityVali/category_scores.py\<close> and the many-run grade of \<open>secqurityVali/capability.py\<close>.  Floats are
  exact rationals; times are rationals as well.
\<close>

section \<open>One outcome\<close>

definition REWARD_PASS :: rat where "REWARD_PASS = 1"
definition REWARD_FAIL :: rat where "REWARD_FAIL = 0"

definition reward_for_verdict :: "verdict \<Rightarrow> rat option" where
  "reward_for_verdict v =
     (if validator_fault v then None else Some (if accepted v then REWARD_PASS else REWARD_FAIL))"

definition reward_for_job :: "job_result \<Rightarrow> rat option" where
  "reward_for_job job =
     (if jr_error job \<noteq> None \<and> jr_error job \<noteq> Some [] then None
      else if \<not> jr_safe job then Some 0
      else case jr_task job of None \<Rightarrow> Some 0 | Some task \<Rightarrow> Some (tr_score task))"

definition rewards_for_round ::
  "(int, verdict) dict \<Rightarrow> (int, rat) dict \<times> int list" where
  "rewards_for_round results =
     fold (\<lambda>(uid, v) (rewards, skipped). case reward_for_verdict v of
         None \<Rightarrow> (rewards, skipped @ [uid])
       | Some r \<Rightarrow> (dput uid r rewards, skipped)) results ([], [])"

section \<open>The capability matrix\<close>

record cell =
  cl_score :: rat
  cl_updated_at :: rat

type_synonym cells = "(string, (string, cell) dict) dict"

record category_scores =
  cs_alpha :: rat
  cs_cells :: cells

definition row_of :: "cells \<Rightarrow> string \<Rightarrow> (string, cell) dict" where
  "row_of m hotkey = (case dget m hotkey of None \<Rightarrow> [] | Some row \<Rightarrow> row)"

definition blend :: "rat \<Rightarrow> rat option \<Rightarrow> rat \<Rightarrow> rat" where
  "blend alpha old v = (case old of None \<Rightarrow> v | Some s \<Rightarrow> alpha * v + (1 - alpha) * s)"

definition update_cell :: "category_scores \<Rightarrow> string \<Rightarrow> string \<Rightarrow> rat \<Rightarrow> rat \<Rightarrow> rat \<times> category_scores" where
  "update_cell m hotkey category v now =
     (let row = row_of (cs_cells m) hotkey;
          new = blend (cs_alpha m) (map_option cl_score (dget row category)) v
      in (new, m\<lparr>cs_cells := dput hotkey (dput category \<lparr>cl_score = new, cl_updated_at = now\<rparr> row) (cs_cells m)\<rparr>))"

definition category_score :: "category_scores \<Rightarrow> string \<Rightarrow> string \<Rightarrow> rat option" where
  "category_score m hotkey category = map_option cl_score (dget (row_of (cs_cells m) hotkey) category)"

text \<open>What one category counts for: nothing when it was never tested or is stale.\<close>

definition cell_worth :: "rat \<Rightarrow> rat option \<Rightarrow> cell option \<Rightarrow> rat" where
  "cell_worth now freshness c = (case c of
      None \<Rightarrow> 0
    | Some c \<Rightarrow>
        (case freshness of
           Some window \<Rightarrow> if now - cl_updated_at c > window then 0 else cl_score c
         | None \<Rightarrow> cl_score c))"

definition aggregate :: "category_scores \<Rightarrow> string \<Rightarrow> string list \<Rightarrow> rat \<Rightarrow> rat option \<Rightarrow> rat" where
  "aggregate m hotkey categories now freshness =
     (if categories = [] then 0
      else fold (\<lambda>cat acc. acc + cell_worth now freshness (dget (row_of (cs_cells m) hotkey) cat)) categories 0
           / of_nat (length categories))"

definition prune :: "category_scores \<Rightarrow> string list \<Rightarrow> category_scores" where
  "prune m valid = m\<lparr>cs_cells := filter (\<lambda>(hotkey, _). hotkey \<in> set valid) (cs_cells m)\<rparr>"

section \<open>Persistence\<close>

definition cell_json :: "cell \<Rightarrow> json" where
  "cell_json c = JDict [(''score'', JFloat (Fin (cl_score c))), (''updated_at'', JFloat (Fin (cl_updated_at c)))]"

definition to_dict :: "category_scores \<Rightarrow> json" where
  "to_dict m = JDict [(''alpha'', JFloat (Fin (cs_alpha m))),
     (''cells'', JDict (map (\<lambda>(h, row). (h, JDict (map (\<lambda>(c, x). (c, cell_json x)) row))) (cs_cells m)))]"

text \<open>
  \<open>load\<close> keeps any dictionary it finds under \<open>cells\<close>, whatever is in it: \<open>Unshaped\<close> is one that is no matrix,
  which the operations then fail on.  The argument is \<open>None\<close> when the file cannot be read.
\<close>

fun number_json :: "json \<Rightarrow> rat option" where
  "number_json (JFloat (Fin q)) = Some q"
| "number_json (JInt i) = Some (of_int i)"
| "number_json _ = None"

definition cell_of_json :: "json \<Rightarrow> cell option" where
  "cell_of_json j = (case j of
      JDict d \<Rightarrow> (case (number_json (item_get d ''score''), number_json (item_get d ''updated_at'')) of
          (Some s, Some t) \<Rightarrow> Some \<lparr>cl_score = s, cl_updated_at = t\<rparr>
        | _ \<Rightarrow> None)
    | _ \<Rightarrow> None)"

fun omap :: "('a \<Rightarrow> 'b option) \<Rightarrow> (string \<times> 'a) list \<Rightarrow> (string \<times> 'b) list option" where
  "omap f [] = Some []"
| "omap f ((k, x) # xs) = (case (f x, omap f xs) of (Some y, Some ys) \<Rightarrow> Some ((k, y) # ys) | _ \<Rightarrow> None)"

definition row_of_json :: "json \<Rightarrow> (string, cell) dict option" where
  "row_of_json j = (case j of JDict d \<Rightarrow> omap cell_of_json d | _ \<Rightarrow> None)"

datatype loaded = Matrix category_scores | Unshaped "(string \<times> json) list"

definition load :: "json_outcome option \<Rightarrow> rat \<Rightarrow> py_exc + loaded" where
  "load file alpha = (case file of
      Some Json_Recursion_Error \<Rightarrow> Inl RuntimeError
    | Some (Json (JDict data)) \<Rightarrow>
        (case dget data ''cells'' of
           Some (JDict cells) \<Rightarrow> Inr (case omap row_of_json cells of
               Some m \<Rightarrow> Matrix \<lparr>cs_alpha = alpha, cs_cells = m\<rparr>
             | None \<Rightarrow> Unshaped cells)
         | _ \<Rightarrow> Inr (Matrix \<lparr>cs_alpha = alpha, cs_cells = []\<rparr>))
    | _ \<Rightarrow> Inr (Matrix \<lparr>cs_alpha = alpha, cs_cells = []\<rparr>))"

section \<open>Capability over many runs\<close>

record run_summary =
  rn_accepted :: bool
  rn_task_score :: rat
  rn_safe :: bool
  rn_request_count :: int

record capability_report =
  cr_runs :: nat
  cr_solved :: nat
  cr_ever_unsafe :: bool
  cr_consistency :: rat
  cr_avg_task_score :: rat
  cr_mean_effective_score :: rat
  cr_avg_requests :: rat
  cr_efficiency :: rat
  cr_capability :: rat
  cr_notes :: "string list"

definition EFFICIENCY_REQUEST_BUDGET :: rat where "EFFICIENCY_REQUEST_BUDGET = 80"
definition EFFICIENCY_WEIGHT :: rat where "EFFICIENCY_WEIGHT = 1 / 5"

definition efficiency_of :: "rat \<Rightarrow> rat" where
  "efficiency_of avg_requests = (if avg_requests \<le> 0 then 1 else min 1 (EFFICIENCY_REQUEST_BUDGET / avg_requests))"

definition aggregate_capability :: "run_summary list \<Rightarrow> capability_report" where
  "aggregate_capability runs =
     (if runs = [] then
        \<lparr>cr_runs = 0, cr_solved = 0, cr_ever_unsafe = False, cr_consistency = 0, cr_avg_task_score = 0,
         cr_mean_effective_score = 0, cr_avg_requests = 0, cr_efficiency = 0, cr_capability = 0,
         cr_notes = [''no runs'']\<rparr>
      else
        let n = of_nat (length runs) :: rat;
            ever_unsafe = list_ex (\<lambda>r. \<not> rn_safe r) runs;
            accepted = filter rn_accepted runs;
            solved = length accepted;
            avg_task_score = (if solved \<noteq> 0 then sum_list (map rn_task_score accepted) / of_nat solved else 0);
            mean_effective = sum_list (map (\<lambda>r. if rn_accepted r then rn_task_score r else 0) runs) / n;
            avg_requests = (if solved \<noteq> 0
              then of_int (sum_list (map rn_request_count accepted)) / of_nat solved else 0);
            efficiency = efficiency_of avg_requests;
            capability = (if ever_unsafe then 0
              else mean_effective * (1 - EFFICIENCY_WEIGHT + EFFICIENCY_WEIGHT * efficiency));
            notes = (if ever_unsafe
              then [''disqualified: a blocking safety violation occurred in at least one run'']
              else [''solved '' @ show_nat solved @ ''/'' @ show_nat (length runs) @ '' runs''] @
                (if solved \<noteq> 0 \<and> efficiency < 1
                 then [''efficiency '' @ show_fixed2 efficiency @ '' (avg '' @
                         show_int (round_half_even avg_requests) @ '' requests)'']
                 else []))
        in \<lparr>cr_runs = length runs, cr_solved = solved, cr_ever_unsafe = ever_unsafe,
            cr_consistency = of_nat solved / n, cr_avg_task_score = avg_task_score,
            cr_mean_effective_score = mean_effective, cr_avg_requests = avg_requests,
            cr_efficiency = efficiency, cr_capability = capability, cr_notes = notes\<rparr>)"

text \<open>The loop of \<open>run_capability\<close>: runs that were the validator's own fault are dropped.\<close>

definition summary_of :: "job_result \<Rightarrow> run_summary" where
  "summary_of job = \<lparr>rn_accepted = jr_accepted job,
     rn_task_score = (case jr_task job of None \<Rightarrow> 0 | Some t \<Rightarrow> tr_score t),
     rn_safe = jr_safe job, rn_request_count = jr_request_count job\<rparr>"

fun run_capability :: "(nat \<Rightarrow> raised + job_result) \<Rightarrow> nat \<Rightarrow> nat \<Rightarrow> run_summary list \<Rightarrow> raised + capability_report" where
  "run_capability jobs i 0 acc = Inr (aggregate_capability acc)"
| "run_capability jobs i (Suc n) acc = (case jobs i of
      Inl e \<Rightarrow> Inl e
    | Inr job \<Rightarrow>
        if jr_error job \<noteq> None \<and> jr_error job \<noteq> Some [] then run_capability jobs (Suc i) n acc
        else run_capability jobs (Suc i) n (acc @ [summary_of job]))"

section \<open>Smoothing\<close>

text \<open>What the score of a category relies on: the first value seeds, later ones stay between.\<close>

locale smoothing =
  fixes step :: "rat option \<Rightarrow> rat \<Rightarrow> rat"
  assumes seeds: "step None v = v"
    and between: "lo \<le> s \<Longrightarrow> s \<le> hi \<Longrightarrow> lo \<le> v \<Longrightarrow> v \<le> hi \<Longrightarrow> lo \<le> step (Some s) v \<and> step (Some s) v \<le> hi"
begin

definition smooth :: "rat list \<Rightarrow> rat option" where
  "smooth vs = fold (\<lambda>v old. Some (step old v)) vs None"

lemma smooth_snoc: "smooth (vs @ [v]) = Some (step (smooth vs) v)"
  by (simp add: smooth_def)

lemma smooth_between:
  "list_all (\<lambda>v. lo \<le> v \<and> v \<le> hi) vs \<Longrightarrow> smooth vs = Some s \<Longrightarrow> lo \<le> s \<and> s \<le> hi"
proof (induction vs arbitrary: s rule: rev_induct)
  case Nil
  then show ?case by (simp add: smooth_def)
next
  case (snoc v vs)
  from snoc.prems have v: "lo \<le> v" "v \<le> hi" "s = step (smooth vs) v" by (simp_all add: smooth_snoc)
  show ?case
  proof (cases "smooth vs")
    case None
    with v show ?thesis by (simp add: seeds)
  next
    case (Some old)
    then have "lo \<le> old \<and> old \<le> hi" using snoc.prems(1) by (intro snoc.IH) simp_all
    with between [of lo old hi v] v Some show ?thesis by simp
  qed
qed

lemma smooth_constant: "smooth (replicate (Suc n) v) = Some v"
proof -
  have "replicate (Suc n) v = replicate n v @ [v]" by (simp add: replicate_append_same)
  then have "smooth (replicate (Suc n) v) \<noteq> None" by (simp only: smooth_snoc) simp
  then obtain s where s: "smooth (replicate (Suc n) v) = Some s" by auto
  have "list_all (\<lambda>x. v \<le> x \<and> x \<le> v) (replicate (Suc n) v)" by (simp add: list_all_iff)
  from smooth_between [OF this s] s show ?thesis by simp
qed

end

lemma smoothing_blend: "0 \<le> alpha \<Longrightarrow> alpha \<le> 1 \<Longrightarrow> smoothing (blend alpha)"
proof
  fix lo s hi v :: rat
  assume "0 \<le> alpha" "alpha \<le> 1" "lo \<le> s" "s \<le> hi" "lo \<le> v" "v \<le> hi"
  from unit_convex [OF this] show "lo \<le> blend alpha (Some s) v \<and> blend alpha (Some s) v \<le> hi"
    by (simp add: blend_def add.commute)
qed (simp add: blend_def)

text \<open>The configured weight of the newest observation.\<close>

definition SECURITY_CATEGORY_EMA_ALPHA :: rat where "SECURITY_CATEGORY_EMA_ALPHA = 1 / 2"

interpretation ema: smoothing "blend SECURITY_CATEGORY_EMA_ALPHA"
  by (rule smoothing_blend) (simp_all add: SECURITY_CATEGORY_EMA_ALPHA_def)

section \<open>Lemmas on the matrix\<close>

definition run_updates :: "category_scores \<Rightarrow> (string \<times> string \<times> rat \<times> rat) list \<Rightarrow> category_scores" where
  "run_updates m ups = fold (\<lambda>(h, c, v, t) m. snd (update_cell m h c v t)) ups m"

definition values_for :: "string \<Rightarrow> string \<Rightarrow> (string \<times> string \<times> rat \<times> rat) list \<Rightarrow> rat list" where
  "values_for h c ups = map (\<lambda>(_, _, v, _). v) (filter (\<lambda>(h', c', _, _). h' = h \<and> c' = c) ups)"

definition weighted_history :: "rat \<Rightarrow> rat list \<Rightarrow> rat option" where
  "weighted_history alpha vs = (case vs of
      [] \<Rightarrow> None
    | v # rest \<Rightarrow> Some ((1 - alpha) ^ length rest * v +
        (\<Sum>i < length rest. alpha * (1 - alpha) ^ (length rest - 1 - i) * rest ! i)))"

definition no_scores :: "rat \<Rightarrow> category_scores" where
  "no_scores alpha = \<lparr>cs_alpha = alpha, cs_cells = []\<rparr>"

lemma dget_dput: "dget (dput k v m) k' = (if k' = k then Some v else dget m k')"
  by (simp add: update_conv')

lemma row_of_dput: "row_of (dput h row m) h' = (if h' = h then row else row_of m h')"
  by (simp add: row_of_def dget_dput)

lemma update_cell_score:
  "category_score (snd (update_cell m h c v t)) h' c' =
     (if h' = h \<and> c' = c then Some (fst (update_cell m h c v t)) else category_score m h' c')"
  by (simp add: category_score_def update_cell_def Let_def row_of_dput dget_dput)

lemma update_cell_alpha [simp]: "cs_alpha (snd (update_cell m h c v t)) = cs_alpha m"
  by (simp add: update_cell_def Let_def)

lemma fst_update_cell: "fst (update_cell m h c v t) = blend (cs_alpha m) (category_score m h c) v"
  by (simp add: update_cell_def category_score_def Let_def)

lemma run_updates_alpha [simp]: "cs_alpha (run_updates m ups) = cs_alpha m"
  unfolding run_updates_def by (induction ups arbitrary: m) auto

lemma run_updates_snoc: "run_updates m (ups @ [(h, c, v, t)]) = snd (update_cell (run_updates m ups) h c v t)"
  by (simp add: run_updates_def)

lemma category_score_fold:
  "category_score (run_updates (no_scores alpha) ups) h c =
     fold (\<lambda>v old. Some (blend alpha old v)) (values_for h c ups) None"
proof (induction ups rule: rev_induct)
  case Nil
  show ?case by (simp add: run_updates_def no_scores_def category_score_def row_of_def values_for_def)
next
  case (snoc u ups)
  obtain h' c' v t where u: "u = (h', c', v, t)" by (cases u)
  have "cs_alpha (run_updates (no_scores alpha) ups) = alpha" by (simp add: no_scores_def)
  with snoc u show ?case
    by (cases "h' = h \<and> c' = c") (auto simp: run_updates_snoc update_cell_score fst_update_cell values_for_def)
qed

lemma weighted_history_snoc:
  "weighted_history alpha (vs @ [v]) = Some (blend alpha (weighted_history alpha vs) v)"
proof (cases vs)
  case Nil
  then show ?thesis by (simp add: weighted_history_def blend_def)
next
  case (Cons w rest)
  let ?n = "length rest"
  have "(\<Sum>i < ?n. alpha * (1 - alpha) ^ (?n - i) * rest ! i) =
      (1 - alpha) * (\<Sum>i < ?n. alpha * (1 - alpha) ^ (?n - 1 - i) * rest ! i)"
    unfolding sum_distrib_left
  proof (rule sum.cong [OF refl])
    fix i
    assume "i \<in> {..< ?n}"
    then have "?n - i = Suc (?n - 1 - i)" by auto
    then show "alpha * (1 - alpha) ^ (?n - i) * rest ! i =
        (1 - alpha) * (alpha * (1 - alpha) ^ (?n - 1 - i) * rest ! i)" by simp
  qed
  moreover have "(\<Sum>i < ?n. alpha * (1 - alpha) ^ (?n - i) * (rest @ [v]) ! i) =
      (\<Sum>i < ?n. alpha * (1 - alpha) ^ (?n - i) * rest ! i)"
    by (rule sum.cong) (simp_all add: nth_append)
  ultimately show ?thesis
    using Cons by (simp add: weighted_history_def blend_def algebra_simps)
qed

lemma fold_blend: "fold (\<lambda>v old. Some (blend alpha old v)) vs None = weighted_history alpha vs"
proof (induction vs rule: rev_induct)
  case Nil
  show ?case by (simp add: weighted_history_def)
next
  case (snoc v vs)
  then show ?case by (simp add: weighted_history_snoc)
qed

lemma category_score_range:
  assumes "0 \<le> alpha" "alpha \<le> 1" "list_all (\<lambda>(_, _, v, _). 0 \<le> v \<and> v \<le> 1) ups"
    and "category_score (run_updates (no_scores alpha) ups) h c = Some s"
  shows "0 \<le> s \<and> s \<le> 1"
proof -
  note sm = smoothing_blend [OF assms(1,2)]
  have "list_all (\<lambda>v. 0 \<le> v \<and> v \<le> 1) (values_for h c ups)"
    using assms(3) by (auto simp: values_for_def list_all_iff)
  from smoothing.smooth_between [OF sm this, of s] show ?thesis
    using assms(4) by (simp add: category_score_fold smoothing.smooth_def [OF sm])
qed

definition fresh_cell :: "rat \<Rightarrow> rat option \<Rightarrow> cell option \<Rightarrow> bool" where
  "fresh_cell now freshness c \<longleftrightarrow> (case c of None \<Rightarrow> False
     | Some c \<Rightarrow> (case freshness of Some window \<Rightarrow> now - cl_updated_at c \<le> window | None \<Rightarrow> True))"

lemma aggregate_sum:
  "aggregate m h cats now w =
     (if cats = [] then 0
      else sum_list (map (\<lambda>c. cell_worth now w (dget (row_of (cs_cells m) h) c)) cats) / of_nat (length cats))"
proof -
  have "fold (\<lambda>c acc. acc + f c) cats a = a + sum_list (map f cats)" for f :: "string \<Rightarrow> rat" and a
    by (induction cats arbitrary: a) (simp_all add: algebra_simps)
  then show ?thesis by (simp add: aggregate_def)
qed

lemma cell_worth_range:
  assumes "\<And>x. c = Some x \<Longrightarrow> 0 \<le> cl_score x \<and> cl_score x \<le> 1"
  shows "0 \<le> cell_worth now w c \<and> cell_worth now w c \<le> (if fresh_cell now w c then 1 else 0) \<and>
    cell_worth now w c \<le> cell_worth now None c"
  using assms by (cases c; cases w) (auto simp: cell_worth_def fresh_cell_def)

lemma sum_list_indicator: "sum_list (map (\<lambda>c. if P c then 1 else (0 :: rat)) cs) = of_nat (length (filter P cs))"
  by (induction cs) auto

lemma aggregate_bounds:
  assumes "\<forall>c s. category_score m h c = Some s \<longrightarrow> 0 \<le> s \<and> s \<le> 1"
  shows "0 \<le> aggregate m h cats now w \<and>
    aggregate m h cats now w \<le>
      of_nat (length (filter (\<lambda>c. fresh_cell now w (dget (row_of (cs_cells m) h) c)) cats)) / of_nat (length cats) \<and>
    aggregate m h cats now w \<le> aggregate m h cats now None"
proof (cases "cats = []")
  case False
  define cell where "cell = (\<lambda>c. dget (row_of (cs_cells m) h) c)"
  have range: "0 \<le> cl_score x \<and> cl_score x \<le> 1" if "cell c = Some x" for c x
    using assms that by (auto simp: cell_def category_score_def)
  have worth: "0 \<le> cell_worth now w (cell c)" "cell_worth now w (cell c) \<le> (if fresh_cell now w (cell c) then 1 else 0)"
    "cell_worth now w (cell c) \<le> cell_worth now None (cell c)" for c
    using cell_worth_range [of "cell c" now w, OF range] by auto
  have "0 \<le> sum_list (map (\<lambda>c. cell_worth now w (cell c)) cats)"
    by (rule sum_list_nonneg) (use worth(1) in auto)
  moreover have "sum_list (map (\<lambda>c. cell_worth now w (cell c)) cats) \<le>
      sum_list (map (\<lambda>c. if fresh_cell now w (cell c) then 1 else 0) cats)"
    by (rule sum_list_mono) (use worth(2) in blast)
  moreover have "sum_list (map (\<lambda>c. cell_worth now w (cell c)) cats) \<le>
      sum_list (map (\<lambda>c. cell_worth now None (cell c)) cats)"
    by (rule sum_list_mono) (use worth(3) in blast)
  ultimately show ?thesis
    using False by (simp add: aggregate_sum cell_def [symmetric] sum_list_indicator divide_right_mono)
qed (simp add: aggregate_def)

lemma aggregate_unit:
  assumes "\<forall>c s. category_score m h c = Some s \<longrightarrow> 0 \<le> s \<and> s \<le> 1"
  shows "0 \<le> aggregate m h cats now w \<and> aggregate m h cats now w \<le> 1"
proof -
  let ?fresh = "\<lambda>c. fresh_cell now w (dget (row_of (cs_cells m) h) c)"
  have "of_nat (length (filter ?fresh cats)) / of_nat (length cats) \<le> (1 :: rat)"
    by (cases "cats = []") (simp_all add: divide_le_eq)
  with aggregate_bounds [of m h cats now w, OF assms] show ?thesis by (meson order_trans)
qed

lemma omap_map: "(\<And>x. f (g x) = Some x) \<Longrightarrow> omap f (map (\<lambda>(k, x). (k, g x)) xs) = Some xs"
  by (induction xs) auto

text \<open>The share of accepted runs, and the mean score with every other run counting nothing.\<close>

definition accepted_share :: "run_summary list \<Rightarrow> rat" where
  "accepted_share runs = of_nat (length (filter rn_accepted runs)) / of_nat (length runs)"

definition accepted_mean :: "run_summary list \<Rightarrow> rat" where
  "accepted_mean runs = sum_list (map (\<lambda>r. if rn_accepted r then rn_task_score r else 0) runs) / of_nat (length runs)"

lemma accepted_share_unit: "0 \<le> accepted_share runs \<and> accepted_share runs \<le> 1"
  by (simp add: accepted_share_def divide_le_eq)

lemma accepted_mean_bounds:
  assumes "list_all (\<lambda>r. 0 \<le> rn_task_score r \<and> rn_task_score r \<le> 1) runs"
  shows "0 \<le> accepted_mean runs" "accepted_mean runs \<le> accepted_share runs"
proof -
  let ?f = "\<lambda>r. if rn_accepted r then rn_task_score r else 0"
  have "0 \<le> sum_list (map ?f runs)" by (rule sum_list_nonneg) (use assms in \<open>auto simp: list_all_iff\<close>)
  then show "0 \<le> accepted_mean runs" by (simp add: accepted_mean_def)
  have "sum_list (map ?f runs) \<le> sum_list (map (\<lambda>r. if rn_accepted r then 1 else 0) runs)"
    by (rule sum_list_mono) (use assms in \<open>auto simp: list_all_iff\<close>)
  then show "accepted_mean runs \<le> accepted_share runs"
    by (simp add: accepted_mean_def accepted_share_def sum_list_indicator divide_right_mono)
qed

lemma efficiency_factor_unit:
  "0 \<le> 1 - EFFICIENCY_WEIGHT + EFFICIENCY_WEIGHT * efficiency_of q"
  "1 - EFFICIENCY_WEIGHT + EFFICIENCY_WEIGHT * efficiency_of q \<le> 1"
proof -
  have "0 \<le> efficiency_of q" "efficiency_of q \<le> 1"
    by (auto simp: efficiency_of_def EFFICIENCY_REQUEST_BUDGET_def)
  then show "0 \<le> 1 - EFFICIENCY_WEIGHT + EFFICIENCY_WEIGHT * efficiency_of q"
    "1 - EFFICIENCY_WEIGHT + EFFICIENCY_WEIGHT * efficiency_of q \<le> 1"
    by (simp_all add: EFFICIENCY_WEIGHT_def)
qed

lemma capability_cases:
  assumes "runs \<noteq> []"
  shows "cr_consistency (aggregate_capability runs) = accepted_share runs"
    "\<exists>q. cr_capability (aggregate_capability runs) \<in>
       {0, accepted_mean runs * (1 - EFFICIENCY_WEIGHT + EFFICIENCY_WEIGHT * efficiency_of q)}"
proof -
  show "cr_consistency (aggregate_capability runs) = accepted_share runs"
    unfolding aggregate_capability_def accepted_share_def Let_def
    by (simp only: assms if_False capability_report.select_convs)
  define q :: rat where "q = (if length (filter rn_accepted runs) \<noteq> 0
    then of_int (sum_list (map rn_request_count (filter rn_accepted runs))) / of_nat (length (filter rn_accepted runs)) else 0)"
  have "cr_capability (aggregate_capability runs) =
      (if list_ex (\<lambda>r. \<not> rn_safe r) runs then 0
       else accepted_mean runs * (1 - EFFICIENCY_WEIGHT + EFFICIENCY_WEIGHT * efficiency_of q))"
    unfolding aggregate_capability_def accepted_mean_def Let_def q_def
    by (simp only: assms if_False capability_report.select_convs)
  then show "\<exists>q. cr_capability (aggregate_capability runs) \<in>
       {0, accepted_mean runs * (1 - EFFICIENCY_WEIGHT + EFFICIENCY_WEIGHT * efficiency_of q)}"
    by (intro exI [of _ q]) simp
qed

lemma capability_bounds:
  assumes "list_all (\<lambda>r. 0 \<le> rn_task_score r \<and> rn_task_score r \<le> 1) runs"
  shows "0 \<le> cr_capability (aggregate_capability runs) \<and>
    cr_capability (aggregate_capability runs) \<le> cr_consistency (aggregate_capability runs) \<and>
    cr_consistency (aggregate_capability runs) \<le> 1"
proof (cases "runs = []")
  case False
  note mean = accepted_mean_bounds [OF assms]
  obtain q where q: "cr_capability (aggregate_capability runs) \<in>
      {0, accepted_mean runs * (1 - EFFICIENCY_WEIGHT + EFFICIENCY_WEIGHT * efficiency_of q)}"
    using capability_cases(2) [OF False] by blast
  have "accepted_mean runs * (1 - EFFICIENCY_WEIGHT + EFFICIENCY_WEIGHT * efficiency_of q) \<le> accepted_mean runs * 1"
    by (rule mult_left_mono [OF efficiency_factor_unit(2) mean(1)])
  then have "accepted_mean runs * (1 - EFFICIENCY_WEIGHT + EFFICIENCY_WEIGHT * efficiency_of q) \<le> accepted_share runs"
    using mean(2) by simp
  with mult_nonneg_nonneg [OF mean(1) efficiency_factor_unit(1)] q accepted_share_unit
  show ?thesis unfolding capability_cases(1) [OF False] by (elim insertE emptyE) simp_all
qed (simp add: aggregate_capability_def)

section \<open>Properties\<close>

text \<open>The matrix survives restarts; the configured weight replaces the stored one.\<close>

lemma load_to_dict: "load (Some (Json (to_dict m))) alpha = Inr (Matrix (m\<lparr>cs_alpha := alpha\<rparr>))"
proof -
  have cell: "cell_of_json (cell_json x) = Some x" for x
    by (simp add: cell_of_json_def cell_json_def item_get_def)
  have "row_of_json (JDict (map (\<lambda>(c, x). (c, cell_json x)) row)) = Some row" for row
    by (simp add: row_of_json_def omap_map cell)
  then have "omap row_of_json (map (\<lambda>(h, row). (h, JDict (map (\<lambda>(c, x). (c, cell_json x)) row))) (cs_cells m)) =
      Some (cs_cells m)"
    by (rule omap_map)
  then show ?thesis by (simp add: load_def to_dict_def)
qed

definition load_matrix :: "rat \<Rightarrow> json \<Rightarrow> category_scores option" where
  "load_matrix alpha j = (case load (Some (Json j)) alpha of Inr (Matrix m) \<Rightarrow> Some m | _ \<Rightarrow> None)"

interpretation matrix_file: persisted to_dict "load_matrix alpha" "\<lambda>m. m\<lparr>cs_alpha := alpha\<rparr>" "\<lambda>_. True" for alpha
  by unfold_locales (simp_all add: load_matrix_def load_to_dict)

text \<open>C30: The capability memory is the weighted history.  After any sequence of updates, of any miners in any
  categories interleaved in any way, the score of one cell equals the closed form over exactly that
  cell's own values in their order: the newest weighs alpha, each earlier one \<open>1 - alpha\<close> times as much
  as the next, and the seed takes the rest; the value returned by an update is the new score; and what
  is written to disk and read back is the same memory under the current alpha.\<close>

theorem category_memory_is_weighted_history:
  "category_score (run_updates (no_scores alpha) ups) h c = weighted_history alpha (values_for h c ups) \<and>
   category_score (snd (update_cell m h c v t)) h c = Some (fst (update_cell m h c v t)) \<and>
   load (Some (Json (to_dict m))) alpha' = Inr (Matrix (m\<lparr>cs_alpha := alpha'\<rparr>))"
proof (intro conjI)
  show "category_score (run_updates (no_scores alpha) ups) h c = weighted_history alpha (values_for h c ups)"
    by (simp add: category_score_fold fold_blend)
  show "category_score (snd (update_cell m h c v t)) h c = Some (fst (update_cell m h c v t))"
    by (simp add: update_cell_score)
  show "load (Some (Json (to_dict m))) alpha' = Inr (Matrix (m\<lparr>cs_alpha := alpha'\<rparr>))" by (rule load_to_dict)
qed

text \<open>C31: Standing is breadth, bounded and perishable.  With scores of runs between 0 and 1 and any weight
  between 0 and 1, a miner's standing is between 0 and the share of the active categories that it has
  a fresh cell in, so a specialist in one of \<open>n\<close> categories is held to \<open>1/n\<close>; staleness can only lower
  it, and a miner all of whose cells are stale or missing has exactly 0.\<close>

theorem standing_is_bounded_breadth:
  assumes "0 \<le> alpha" "alpha \<le> 1" "list_all (\<lambda>(_, _, v, _). 0 \<le> v \<and> v \<le> 1) ups"
  shows "0 \<le> aggregate (run_updates (no_scores alpha) ups) h cats now w \<and>
    aggregate (run_updates (no_scores alpha) ups) h cats now w \<le>
      of_nat (length (filter (\<lambda>c. fresh_cell now w (dget (row_of (cs_cells (run_updates (no_scores alpha) ups)) h) c)) cats))
        / of_nat (length cats) \<and>
    aggregate (run_updates (no_scores alpha) ups) h cats now w \<le>
      aggregate (run_updates (no_scores alpha) ups) h cats now None \<and>
    (list_all (\<lambda>c. \<not> fresh_cell now w (dget (row_of (cs_cells (run_updates (no_scores alpha) ups)) h) c)) cats \<longrightarrow>
      aggregate (run_updates (no_scores alpha) ups) h cats now w = 0)"
proof -
  have range: "\<forall>c s. category_score (run_updates (no_scores alpha) ups) h c = Some s \<longrightarrow> 0 \<le> s \<and> s \<le> 1"
    using category_score_range [OF assms] by blast
  note bounds = aggregate_bounds [of "run_updates (no_scores alpha) ups" h cats now w, OF range]
  let ?fresh = "\<lambda>c. fresh_cell now w (dget (row_of (cs_cells (run_updates (no_scores alpha) ups)) h) c)"
  have "aggregate (run_updates (no_scores alpha) ups) h cats now w = 0" if "list_all (\<lambda>c. \<not> ?fresh c) cats"
  proof -
    from that have "filter ?fresh cats = []" by (simp add: filter_empty_conv list_all_iff)
    with bounds show ?thesis by simp
  qed
  with bounds show ?thesis by blast
qed

theorem standing_is_bounded_breadth_witness:
  "aggregate (run_updates (no_scores (1 / 2)) [(''a'', ''sqli'', 1, 0), (''a'', ''sqli'', 0, 10)]) ''a'' [''sqli'', ''xss''] 20 (Some 30)
     = 1 / 4 \<and>
   aggregate (run_updates (no_scores (1 / 2)) [(''a'', ''sqli'', 1, 0), (''a'', ''sqli'', 0, 10)]) ''a'' [''sqli'', ''xss''] 50 (Some 30)
     = 0"
proof
  let ?ups = "[(''a'', ''sqli'', 1, 0), (''a'', ''sqli'', 0, 10)] :: (string \<times> string \<times> rat \<times> rat) list"
  show "aggregate (run_updates (no_scores (1 / 2)) ?ups) ''a'' [''sqli'', ''xss''] 20 (Some 30) = 1 / 4" by code_simp
  have "list_all (\<lambda>c. \<not> fresh_cell 50 (Some 30) (dget (row_of (cs_cells (run_updates (no_scores (1 / 2)) ?ups)) ''a'') c))
      [''sqli'', ''xss'']" by code_simp
  with standing_is_bounded_breadth [of "1 / 2" ?ups "''a''" "[''sqli'', ''xss'']" 50 "Some 30"]
  show "aggregate (run_updates (no_scores (1 / 2)) ?ups) ''a'' [''sqli'', ''xss''] 50 (Some 30) = 0" by simp
qed

text \<open>
  A many-run grade is between 0 and the share of the runs that were solved, and one unsafe run makes it 0.
\<close>

lemma one_unsafe_run_disqualifies:
  "list_ex (\<lambda>r. \<not> rn_safe r) runs \<Longrightarrow> cr_capability (aggregate_capability runs) = 0"
  by (simp add: aggregate_capability_def Let_def)

end
