(* ===== verification/Clients.thy ===== *)
theory Clients
  imports Rewards Constants
begin

text \<open>
  The two HTTP clients: \<open>masxai/llm_key_client.py\<close>, which talks to the protocol backend, and
  \<open>masxai/marketplace_client.py\<close>, which publishes qualifying agents.  A backend is a function from the number
  of the attempt to its reply; JSON parsing, model validation and time formatting are arguments.
\<close>

section \<open>Retrying\<close>

text \<open>
  The loop \<open>for attempt in range(1, n + 1)\<close>: a decision ends it, none lets it go on after a wait.  The result
  comes with the number of requests made and the waits between them.
\<close>

fun retry_loop ::
  "(nat \<Rightarrow> 'r \<Rightarrow> 'o option) \<Rightarrow> (nat \<Rightarrow> 'r \<Rightarrow> fl) \<Rightarrow> (nat \<Rightarrow> 'r) \<Rightarrow> 'o \<Rightarrow> nat list \<Rightarrow> 'o \<times> nat \<times> fl list" where
  "retry_loop decide wait backend after_loop [] = (after_loop, 0, [])"
| "retry_loop decide wait backend after_loop (attempt # rest) =
     (case decide attempt (backend attempt) of
        Some result \<Rightarrow> (result, 1, [])
      | None \<Rightarrow>
          (case retry_loop decide wait backend after_loop rest of
             (result, n, waits) \<Rightarrow> (result, Suc n, wait attempt (backend attempt) # waits)))"

definition attempts :: "nat \<Rightarrow> nat list" where
  "attempts limit = [1 ..< Suc limit]"

text \<open>What a client promises: it decides at its last attempt at the latest, and never waits for long.\<close>

locale retrying =
  fixes limit :: nat and ceiling :: rat
    and decide :: "nat \<Rightarrow> 'r \<Rightarrow> 'o option" and wait :: "nat \<Rightarrow> 'r \<Rightarrow> fl"
  assumes some_attempt: "1 \<le> limit"
    and decides: "decide limit r \<noteq> None"
    and waits: "decide attempt r = None \<Longrightarrow> \<exists>q. wait attempt r = Fin q \<and> 0 \<le> q \<and> q \<le> ceiling"
begin

lemma loop_from:
  assumes "1 \<le> k" "k \<le> limit"
  shows "\<exists>n \<in> {k..limit}. \<exists>result ws. decide n (backend n) = Some result \<and>
    retry_loop decide wait backend after_loop [k ..< Suc limit] = (result, n - k + 1, ws) \<and>
    (\<forall>i \<in> {k..<n}. decide i (backend i) = None) \<and>
    length ws = n - k \<and> list_all (\<lambda>w. \<exists>q. w = Fin q \<and> 0 \<le> q \<and> q \<le> ceiling) ws"
  using assms
proof (induction "limit - k" arbitrary: k)
  case 0
  then have k: "k = limit" by simp
  then obtain result where "decide k (backend k) = Some result" using decides [of "backend k"] by auto
  with k show ?case by simp
next
  case (Suc m)
  then have upt: "[k ..< Suc limit] = k # [Suc k ..< Suc limit]" by (simp add: upt_conv_Cons)
  show ?case
  proof (cases "decide k (backend k)")
    case None
    from Suc have "\<exists>n \<in> {Suc k..limit}. \<exists>result ws. decide n (backend n) = Some result \<and>
        retry_loop decide wait backend after_loop [Suc k ..< Suc limit] = (result, n - Suc k + 1, ws) \<and>
        (\<forall>i \<in> {Suc k..<n}. decide i (backend i) = None) \<and>
        length ws = n - Suc k \<and> list_all (\<lambda>w. \<exists>q. w = Fin q \<and> 0 \<le> q \<and> q \<le> ceiling) ws" by simp
    then obtain n result ws where n: "Suc k \<le> n" "n \<le> limit" "decide n (backend n) = Some result"
      "retry_loop decide wait backend after_loop [Suc k ..< Suc limit] = (result, n - Suc k + 1, ws)"
      "\<forall>i \<in> {Suc k..<n}. decide i (backend i) = None" "length ws = n - Suc k"
      "list_all (\<lambda>w. \<exists>q. w = Fin q \<and> 0 \<le> q \<and> q \<le> ceiling) ws" by auto
    have "retry_loop decide wait backend after_loop [k ..< Suc limit] =
        (result, n - k + 1, wait k (backend k) # ws)"
      unfolding upt using n(1,4) None by simp
    moreover have "\<forall>i \<in> {k..<n}. decide i (backend i) = None"
    proof
      fix i
      assume "i \<in> {k..<n}"
      with n(5) None show "decide i (backend i) = None" by (cases "i = k") auto
    qed
    ultimately show ?thesis
      using n waits [OF None] by (intro bexI [of _ n] exI [of _ result] exI [of _ "wait k (backend k) # ws"]) auto
  next
    case (Some result)
    with Suc show ?thesis unfolding upt by (intro bexI [of _ k]) auto
  qed
qed

lemma loop_decides:
  "\<exists>n result ws. 1 \<le> n \<and> n \<le> limit \<and> decide n (backend n) = Some result \<and>
    (\<forall>i \<in> {1..<n}. decide i (backend i) = None) \<and>
    retry_loop decide wait backend after_loop (attempts limit) = (result, n, ws) \<and>
    length ws = n - 1 \<and> list_all (\<lambda>w. \<exists>q. w = Fin q \<and> 0 \<le> q \<and> q \<le> ceiling) ws"
proof -
  obtain n result ws where "n \<in> {1..limit}" "decide n (backend n) = Some result"
    "retry_loop decide wait backend after_loop [1 ..< Suc limit] = (result, n - 1 + 1, ws)"
    "\<forall>i \<in> {1..<n}. decide i (backend i) = None" "length ws = n - 1"
    "list_all (\<lambda>w. \<exists>q. w = Fin q \<and> 0 \<le> q \<and> q \<le> ceiling) ws"
    using loop_from [of 1 backend after_loop] some_attempt by blast
  then show ?thesis by (intro exI [of _ n] exI [of _ result] exI [of _ ws]) (simp add: attempts_def)
qed

end

section \<open>The protocol client\<close>

datatype reply = Reply nat string string | Request_Error | Other_Error string

text \<open>
  A reply has a status, the \<open>Retry-After\<close> header (empty when there is none) and a body.
  \<open>Request_Error\<close> is \<open>httpx.RequestError\<close>; any other exception is not caught by the loop.
\<close>

datatype answer = Payload json | Raise_Status nat | Raise_Request | Raise_Json | Raise_Other string

definition LLM_KEY_TIMEOUT :: fl where "LLM_KEY_TIMEOUT = Fin 10"
definition LLM_KEY_CONNECT_TIMEOUT :: fl where "LLM_KEY_CONNECT_TIMEOUT = Fin 5"

record llm_key_client =
  lc_base_url :: string
  lc_validator_token :: string
  lc_timeout :: fl
  lc_connect_timeout :: fl
  lc_max_retries :: nat

definition new_llm_key_client :: "env \<Rightarrow> string \<Rightarrow> string \<Rightarrow> fl \<Rightarrow> int \<Rightarrow> py_exc + llm_key_client" where
  "new_llm_key_client e base_url token timeout max_retries =
     (if base_url = [] \<or> token = [] then Inl ValueError
      else Inr \<lparr>lc_base_url = rstrip_slash base_url, lc_validator_token = token, lc_timeout = timeout,
        lc_connect_timeout = py_min timeout
          (env_float e ''MASXAI_LLM_KEY_CONNECT_TIMEOUT'' LLM_KEY_CONNECT_TIMEOUT),
        lc_max_retries = nat (max 1 max_retries)\<rparr>)"

definition open_llm_key_client_from_env :: "env \<Rightarrow> py_exc + llm_key_client option" where
  "open_llm_key_client_from_env e =
     (let token = py_strip (env_text e ''MASXAI_LLM_KEY_VALIDATOR_TOKEN'');
          base_url = py_strip (env_text e ''MASXAI_LLM_KEY_BASE_URL'')
      in if token = [] \<or> base_url = [] then Inr None
         else map_sum id Some (new_llm_key_client e base_url token
           (env_float e ''MASXAI_LLM_KEY_TIMEOUT'' LLM_KEY_TIMEOUT)
           (env_int e ''MASXAI_LLM_KEY_MAX_RETRIES'' LLM_KEY_MAX_RETRIES)))"

definition auth_headers :: "llm_key_client \<Rightarrow> (string, string) dict" where
  "auth_headers c = (if lc_validator_token c \<noteq> [] then [(''X-Validator-Key'', lc_validator_token c)] else [])"

text \<open>The wait before the next attempt: what the server asked for, capped, or a doubling delay.\<close>

definition doubling :: "rat \<Rightarrow> nat \<Rightarrow> fl" where
  "doubling cap attempt = Fin (min cap (1 / 4 * 2 ^ (attempt - 1)))"

definition retry_after_of :: "reply \<Rightarrow> fl option" where
  "retry_after_of r = (case r of Reply _ header _ \<Rightarrow> if header = [] then None else py_float header | _ \<Rightarrow> None)"

definition sleep_for_retry :: "env \<Rightarrow> nat \<Rightarrow> reply \<Rightarrow> fl" where
  "sleep_for_retry e attempt r = (case retry_after_of r of
      Some asked \<Rightarrow> py_min (py_max (Fin 0) asked)
        (env_float e ''MASXAI_LLM_KEY_RETRY_AFTER_MAX_SECONDS'' LLM_KEY_RETRY_AFTER_MAX_SECONDS)
    | None \<Rightarrow> doubling 3 attempt)"

definition answer_of :: "(string \<Rightarrow> json_outcome) \<Rightarrow> nat \<Rightarrow> string \<Rightarrow> answer" where
  "answer_of loads status body =
     (if status < 200 \<or> 300 \<le> status then Raise_Status status
      else if body = [] then Payload (JDict [])
      else case loads body of Json j \<Rightarrow> Payload j | Json_Recursion_Error \<Rightarrow> Raise_Other ''RecursionError'' | _ \<Rightarrow> Raise_Json)"

definition request_decision :: "(string \<Rightarrow> json_outcome) \<Rightarrow> nat \<Rightarrow> nat \<Rightarrow> reply \<Rightarrow> answer option" where
  "request_decision loads limit attempt r = (case r of
      Request_Error \<Rightarrow> if limit \<le> attempt then Some Raise_Request else None
    | Other_Error m \<Rightarrow> Some (Raise_Other m)
    | Reply status _ body \<Rightarrow>
        if (status = 429 \<or> 500 \<le> status \<and> status < 600) \<and> attempt < limit then None
        else Some (answer_of loads status body))"

definition request_json ::
  "env \<Rightarrow> (string \<Rightarrow> json_outcome) \<Rightarrow> llm_key_client \<Rightarrow> (nat \<Rightarrow> reply) \<Rightarrow> answer \<times> nat \<times> fl list" where
  "request_json e loads c backend =
     retry_loop (request_decision loads (lc_max_retries c)) (sleep_for_retry e) backend (Payload (JDict []))
       (attempts (lc_max_retries c))"

text \<open>
  The endpoints.  A list is taken from the payload under its key, its dictionaries are validated
  (\<open>None\<close> is a validation error), anything else in it is dropped.
\<close>

datatype 'a endpoint_result = Got 'a | Client_Raised answer | Attribute_Error | Type_Error | Validation_Error

fun validate_all :: "(json \<Rightarrow> 'a option) \<Rightarrow> json list \<Rightarrow> 'a list option" where
  "validate_all f [] = Some []"
| "validate_all f (JDict d # rest) = (case f (JDict d) of
     None \<Rightarrow> None | Some x \<Rightarrow> map_option ((#) x) (validate_all f rest))"
| "validate_all f (_ # rest) = validate_all f rest"

definition items_of :: "(json \<Rightarrow> 'a option) \<Rightarrow> string \<Rightarrow> (string \<times> json) list \<Rightarrow> 'a list endpoint_result" where
  "items_of f key d = (case dget d key of
      None \<Rightarrow> Got []
    | Some (JList xs) \<Rightarrow> (case validate_all f xs of Some ys \<Rightarrow> Got ys | None \<Rightarrow> Validation_Error)
    | Some (JDict _) \<Rightarrow> Got []
    | Some (JStr _) \<Rightarrow> Got []
    | Some _ \<Rightarrow> Type_Error)"

definition get_list :: "(json \<Rightarrow> 'a option) \<Rightarrow> string \<Rightarrow> answer \<Rightarrow> 'a list endpoint_result" where
  "get_list f key a = (case a of
      Payload (JDict d) \<Rightarrow> items_of f key d
    | Payload _ \<Rightarrow> Attribute_Error
    | other \<Rightarrow> Client_Raised other)"

definition get_allowed_models :: "(json \<Rightarrow> 'a option) \<Rightarrow> answer \<Rightarrow> 'a list endpoint_result" where
  "get_allowed_models f a = get_list f ''models'' a"

definition get_key_statuses :: "(json \<Rightarrow> 'a option) \<Rightarrow> answer \<Rightarrow> 'a list endpoint_result" where
  "get_key_statuses f a = get_list f ''entries'' a"

definition reports_path :: "string option \<Rightarrow> string" where
  "reports_path since = ''/llm-keys/reports'' @
     (case since of Some s \<Rightarrow> if s \<noteq> [] then ''?'' @ urlencode [(''since'', s)] else [] | None \<Rightarrow> [])"

definition get_reports :: "(json \<Rightarrow> 'a option) \<Rightarrow> answer \<Rightarrow> ('a list \<times> json) endpoint_result" where
  "get_reports f a = (case get_list f ''reports'' a of
      Got xs \<Rightarrow> (case a of Payload (JDict d) \<Rightarrow> Got (xs, item_get d ''next_since'') | _ \<Rightarrow> Attribute_Error)
    | Client_Raised r \<Rightarrow> Client_Raised r
    | Attribute_Error \<Rightarrow> Attribute_Error | Type_Error \<Rightarrow> Type_Error | Validation_Error \<Rightarrow> Validation_Error)"

text \<open>One object is validated as it is; \<open>validate\<close> gives \<open>None\<close> for a validation error.\<close>

definition get_object :: "(json \<Rightarrow> 'a option) \<Rightarrow> answer \<Rightarrow> 'a endpoint_result" where
  "get_object validate a = (case a of
      Payload j \<Rightarrow> (case validate j of Some x \<Rightarrow> Got x | None \<Rightarrow> Validation_Error)
    | other \<Rightarrow> Client_Raised other)"

definition get_public_key :: "(json \<Rightarrow> 'a option) \<Rightarrow> answer \<Rightarrow> 'a endpoint_result" where
  "get_public_key validate a = get_object validate a"

text \<open>The document that is posted for a batch, and the result read from the answer.\<close>

definition submit_body :: "string \<Rightarrow> int option \<Rightarrow> json list \<Rightarrow> json" where
  "submit_body hotkey uid keys = JDict [(''hotkey'', JStr hotkey),
     (''uid'', case uid of None \<Rightarrow> JNull | Some u \<Rightarrow> JInt u), (''keys'', JList keys)]"

definition submit_keys ::
  "(json \<Rightarrow> 'a option) \<Rightarrow> (json \<Rightarrow> answer) \<Rightarrow> string \<Rightarrow> int option \<Rightarrow> json list \<Rightarrow> 'a endpoint_result" where
  "submit_keys validate post hotkey uid keys = get_object validate (post (submit_body hotkey uid keys))"

section \<open>The marketplace client\<close>

definition FORBIDDEN_KEY_FRAGMENTS :: "string list" where
  "FORBIDDEN_KEY_FRAGMENTS = [''blob'', ''image'', ''ciphertext'', ''layer'', ''digest'', ''entrypoint'', ''repo_tag'',
     ''log'', ''findings'', ''payload'', ''url'']"

definition MAX_DISPLAY_CHARS :: nat where "MAX_DISPLAY_CHARS = 64"

definition display :: "string \<Rightarrow> string" where
  "display text = take MAX_DISPLAY_CHARS
     (py_strip (filter (\<lambda>c. \<not> (code c \<le> 31 \<or> code c = 127)) text))"


definition should_publish :: "rat \<Rightarrow> string option \<Rightarrow> string list \<Rightarrow> rat \<Rightarrow> rat \<Rightarrow> bool" where
  "should_publish standing agent_id listed min_score tolerance = (case agent_id of
      None \<Rightarrow> False
    | Some i \<Rightarrow> if i = [] then False else if i \<in> set listed then True else min_score \<le> standing + tolerance)"

text \<open>\<open>round(x, 4)\<close>.\<close>

definition round4 :: "rat \<Rightarrow> json" where
  "round4 q = JFloat (Fin (of_int (round_half_even (q * 10000)) / 10000))"

definition forbidden_in :: "string \<Rightarrow> string option" where
  "forbidden_in key = find (\<lambda>fragment. contains (py_lower key) fragment) FORBIDDEN_KEY_FRAGMENTS"

text \<open>The first offending key with its path, if there is one: the \<open>ValueError\<close>.\<close>

fun assert_publishable :: "string \<Rightarrow> json \<Rightarrow> (string \<times> string) option"
  and publishable_items :: "string \<Rightarrow> (string \<times> json) list \<Rightarrow> (string \<times> string) option"
  and publishable_list :: "string \<Rightarrow> json list \<Rightarrow> (string \<times> string) option" where
  "assert_publishable path (JDict d) = publishable_items path d"
| "assert_publishable path (JList xs) = publishable_list path xs"
| "assert_publishable path _ = None"
| "publishable_items path [] = None"
| "publishable_items path ((k, v) # rest) = (case forbidden_in k of
     Some fragment \<Rightarrow> Some (path @ k, fragment)
   | None \<Rightarrow> (case assert_publishable (path @ k @ ''.'') v of
       Some e \<Rightarrow> Some e
     | None \<Rightarrow> publishable_items path rest))"
| "publishable_list path [] = None"
| "publishable_list path (x # rest) = (case assert_publishable path x of
     Some e \<Rightarrow> Some e
   | None \<Rightarrow> publishable_list path rest)"

record listing =
  ls_agent_id :: string
  ls_miner_hotkey :: string
  ls_miner_uid :: int
  ls_netuid :: int
  ls_mechid :: int
  ls_validator_hotkey :: string
  ls_overall_score :: rat
  ls_category_scores :: "(string, rat) dict"
  ls_evaluated_at :: rat

definition agent_record :: "(rat \<Rightarrow> string) \<Rightarrow> listing \<Rightarrow> job_result \<Rightarrow> json" where
  "agent_record isoformat l job = JDict
     [(''agent_id'', JStr (ls_agent_id l)),
      (''miner_hotkey'', JStr (ls_miner_hotkey l)),
      (''miner_uid'', JInt (ls_miner_uid l)),
      (''netuid'', JInt (ls_netuid l)),
      (''mechid'', JInt (ls_mechid l)),
      (''validator_hotkey'', JStr (ls_validator_hotkey l)),
      (''name'', JStr (display (jr_agent_name job))),
      (''version'', JStr (display (jr_agent_version job))),
      (''overall_score'', round4 (ls_overall_score l)),
      (''category_scores'', JDict (map (\<lambda>(cat, score). (cat, round4 score)) (ls_category_scores l))),
      (''run'', JDict
        [(''run_id'', JStr (jr_run_id job)),
         (''category'', JStr (jr_category job)),
         (''variant'', JStr (jr_variant job)),
         (''score'', (case jr_task job of None \<Rightarrow> JFloat (Fin 0) | Some t \<Rightarrow> round4 (tr_score t))),
         (''safe'', JBool (jr_safe job)),
         (''accepted'', JBool (jr_accepted job)),
         (''requests'', JInt (jr_request_count job)),
         (''duration_ms'', JInt (int (jr_duration_ms job))),
         (''evaluated_at'', JStr (isoformat (ls_evaluated_at l)))])]"

definition build_agent_payload :: "(rat \<Rightarrow> string) \<Rightarrow> listing \<Rightarrow> job_result \<Rightarrow> py_exc + json" where
  "build_agent_payload isoformat l job =
     (case assert_publishable [] (agent_record isoformat l job) of
        Some _ \<Rightarrow> Inl ValueError
      | None \<Rightarrow> Inr (agent_record isoformat l job))"

record marketplace_client =
  mc_base_url :: string
  mc_token :: string
  mc_timeout :: fl
  mc_max_retries :: nat

definition new_marketplace_client :: "string \<Rightarrow> string \<Rightarrow> fl \<Rightarrow> int \<Rightarrow> py_exc + marketplace_client" where
  "new_marketplace_client base_url token timeout max_retries =
     (if base_url = [] \<or> token = [] then Inl ValueError
      else Inr \<lparr>mc_base_url = rstrip_slash base_url, mc_token = token, mc_timeout = timeout,
        mc_max_retries = nat (max 1 max_retries)\<rparr>)"

definition open_marketplace_client_from_env :: "env \<Rightarrow> py_exc + marketplace_client option" where
  "open_marketplace_client_from_env e =
     (let base_url = py_strip (env_text e ''MASXAI_MARKETPLACE_BASE_URL'');
          token = py_strip (env_text e ''MASXAI_MARKETPLACE_TOKEN'')
      in if base_url = [] \<or> token = [] then Inr None
         else map_sum id Some (new_marketplace_client base_url token
           (env_float e ''MASXAI_MARKETPLACE_TIMEOUT_SECONDS'' (Fin 10)) MARKETPLACE_MAX_RETRIES))"

definition backoff :: "nat \<Rightarrow> reply \<Rightarrow> fl" where
  "backoff attempt r = (case retry_after_of r of
      Some asked \<Rightarrow> py_min (py_max (Fin 0) asked) (Fin 5)
    | None \<Rightarrow> doubling 2 attempt)"

definition push_decision :: "nat \<Rightarrow> nat \<Rightarrow> reply \<Rightarrow> bool option" where
  "push_decision limit attempt r = (case r of
      Request_Error \<Rightarrow> if limit \<le> attempt then Some False else None
    | Other_Error _ \<Rightarrow> Some False
    | Reply status _ _ \<Rightarrow>
        if 200 \<le> status \<and> status < 300 then Some True
        else if (status = 429 \<or> 500 \<le> status) \<and> attempt < limit then None
        else Some False)"

definition push_agent :: "marketplace_client \<Rightarrow> (nat \<Rightarrow> reply) \<Rightarrow> json \<Rightarrow> bool \<times> nat \<times> fl list" where
  "push_agent c backend payload =
     (if assert_publishable [] payload \<noteq> None then (False, 0, [])
      else retry_loop (push_decision (mc_max_retries c)) backoff backend False (attempts (mc_max_retries c)))"

text \<open>The listed agents on disk; \<open>None\<close> is a file that cannot be read.\<close>

definition load_listed :: "(json \<Rightarrow> string) \<Rightarrow> json_outcome option \<Rightarrow> py_exc + string list" where
  "load_listed rp file = (case file of
      Some Json_Recursion_Error \<Rightarrow> Inl RuntimeError
    | Some (Json data) \<Rightarrow>
        (let ids = (case data of JDict d \<Rightarrow> (case dget d ''listed'' of None \<Rightarrow> JList [] | Some x \<Rightarrow> x) | other \<Rightarrow> other)
         in case ids of JList xs \<Rightarrow> Inr (remdups (map (py_str rp) xs)) | _ \<Rightarrow> Inr [])
    | _ \<Rightarrow> Inr [])"

definition listed_json :: "string list \<Rightarrow> json" where
  "listed_json listed = JDict [(''listed'', JList (map JStr (sorted_list_of_set (set listed))))]"

section \<open>Both clients retry within bounds\<close>

lemma doubling_bounds: "0 \<le> cap \<Longrightarrow> \<exists>q. doubling cap attempt = Fin q \<and> 0 \<le> q \<and> q \<le> cap"
  by (simp add: doubling_def)

lemma capped_bounds:
  assumes "0 \<le> cap"
  shows "\<exists>q. py_min (py_max (Fin 0) asked) (Fin cap) = Fin q \<and> 0 \<le> q \<and> q \<le> cap"
  using assms by (cases asked) (auto simp: py_min_def py_max_zero_cases)

lemma backoff_bounds: "\<exists>q. backoff attempt r = Fin q \<and> 0 \<le> q \<and> q \<le> 5"
proof (cases "retry_after_of r")
  case None
  obtain q where "doubling 2 attempt = Fin q" "0 \<le> q" "q \<le> 2" using doubling_bounds [of 2 attempt] by auto
  with None show ?thesis by (simp add: backoff_def)
next
  case (Some asked)
  with capped_bounds [of 5 asked] show ?thesis by (simp add: backoff_def)
qed

lemma sleep_bounds: "\<exists>q. sleep_for_retry no_env attempt r = Fin q \<and> 0 \<le> q \<and> q \<le> 30"
proof (cases "retry_after_of r")
  case None
  obtain q where "doubling 3 attempt = Fin q" "0 \<le> q" "q \<le> 3" using doubling_bounds [of 3 attempt] by auto
  with None show ?thesis by (simp add: sleep_for_retry_def)
next
  case (Some asked)
  with capped_bounds [of 30 asked] show ?thesis
    by (simp add: sleep_for_retry_def env_float_def LLM_KEY_RETRY_AFTER_MAX_SECONDS_def)
qed

interpretation pushing: retrying "nat (max 1 n)" 5 "push_decision (nat (max 1 n))" backoff for n :: int
proof
  show "1 \<le> nat (max 1 n)" by simp
  show "push_decision (nat (max 1 n)) (nat (max 1 n)) r \<noteq> None" for r
    by (cases r) (auto simp: push_decision_def)
  show "\<exists>q. backoff attempt r = Fin q \<and> 0 \<le> q \<and> q \<le> 5" for attempt r by (rule backoff_bounds)
qed

interpretation requesting: retrying "nat (max 1 n)" 30 "request_decision loads (nat (max 1 n))" "sleep_for_retry no_env"
  for loads :: "string \<Rightarrow> json_outcome" and n :: int
proof
  show "1 \<le> nat (max 1 n)" by simp
  show "request_decision loads (nat (max 1 n)) (nat (max 1 n)) r \<noteq> None" for r
    by (cases r) (simp_all add: request_decision_def)
  show "\<exists>q. sleep_for_retry no_env attempt r = Fin q \<and> 0 \<le> q \<and> q \<le> 30" for attempt r by (rule sleep_bounds)
qed

text \<open>The keys of a document, at any depth.\<close>

fun all_keys :: "json \<Rightarrow> string list"
  and item_keys :: "(string \<times> json) list \<Rightarrow> string list"
  and list_keys :: "json list \<Rightarrow> string list" where
  "all_keys (JDict d) = item_keys d"
| "all_keys (JList xs) = list_keys xs"
| "all_keys _ = []"
| "item_keys [] = []"
| "item_keys ((k, v) # rest) = k # all_keys v @ item_keys rest"
| "list_keys [] = []"
| "list_keys (x # rest) = all_keys x @ list_keys rest"

lemma publishable_iff:
  "assert_publishable path j = None \<longleftrightarrow> list_all (\<lambda>k. forbidden_in k = None) (all_keys j)"
  "publishable_items path d = None \<longleftrightarrow> list_all (\<lambda>k. forbidden_in k = None) (item_keys d)"
  "publishable_list path xs = None \<longleftrightarrow> list_all (\<lambda>k. forbidden_in k = None) (list_keys xs)"
  by (induction path j and path d and path xs rule: assert_publishable_publishable_items_publishable_list.induct)
    (auto split: option.splits)

lemma scalar_keys [simp]: "all_keys (round4 q) = []"
  by (simp add: round4_def)

lemma category_keys: "item_keys (map (\<lambda>(cat, q). (cat, round4 q)) cats) = map fst cats"
  by (induction cats) auto

lemma record_names_allowed:
  "list_all (\<lambda>k. forbidden_in k = None)
     [''agent_id'', ''miner_hotkey'', ''miner_uid'', ''netuid'', ''mechid'', ''validator_hotkey'', ''name'', ''version'',
      ''overall_score'', ''category_scores'', ''run'', ''run_id'', ''category'', ''variant'', ''score'', ''safe'', ''accepted'',
      ''requests'', ''duration_ms'', ''evaluated_at'']"
  by code_simp

lemma agent_record_publishable:
  "assert_publishable path (agent_record isoformat l job) = None \<longleftrightarrow>
     list_all (\<lambda>(cat, _). forbidden_in cat = None) (ls_category_scores l)"
proof -
  have "all_keys (agent_record isoformat l job) =
      [''agent_id'', ''miner_hotkey'', ''miner_uid'', ''netuid'', ''mechid'', ''validator_hotkey'', ''name'', ''version'',
      ''overall_score'', ''category_scores''] @ map fst (ls_category_scores l) @
      [''run'', ''run_id'', ''category'', ''variant'', ''score'', ''safe'', ''accepted'', ''requests'', ''duration_ms'',
      ''evaluated_at'']"
    by (simp add: agent_record_def category_keys split: option.split)
  with record_names_allowed show ?thesis
    unfolding publishable_iff by (auto simp: list_all_iff)
qed

lemma display_clean: "length (display s) \<le> 64 \<and> list_all (\<lambda>c. 32 \<le> code c \<and> code c \<noteq> 127) (display s)"
proof -
  let ?ok = "\<lambda>c. \<not> (code c \<le> 31 \<or> code c = 127)"
  have "set (py_strip (filter ?ok s)) \<subseteq> set (filter ?ok s)"
    by (auto simp only: py_strip_def py_lstrip_def py_rstrip_def set_rev dest!: set_dropWhileD)
  then have "set (display s) \<subseteq> set (filter ?ok s)"
    unfolding display_def by (meson order_trans set_take_subset)
  then show ?thesis by (auto simp: list_all_iff display_def MAX_DISPLAY_CHARS_def)
qed

section \<open>Properties\<close>

text \<open>C32: Publishing leaks nothing and costs little.  A record with a forbidden key at any depth is refused
  without one request; any other is sent at most \<open>max 1 n\<close> times, with a retry only after a network
  error, a 429 or a 5xx, every wait is between 0 and 5 seconds whatever the server asked for, and the
  push counts exactly if the last reply was a 2xx.  The record built for an evaluation is refused only
  for the name of a category, and its display texts hold at most 64 characters and no control
  character.\<close>

theorem publishing_is_clean_and_bounded:
  assumes "new_marketplace_client base_url token timeout n = Inr c"
  shows "(list_ex (\<lambda>k. forbidden_in k \<noteq> None) (all_keys payload) \<longrightarrow> push_agent c backend payload = (False, 0, [])) \<and>
    (list_all (\<lambda>k. forbidden_in k = None) (all_keys payload) \<longrightarrow>
      (\<exists>k published ws. push_agent c backend payload = (published, k, ws) \<and> 1 \<le> k \<and> int k \<le> max 1 n \<and>
        (published \<longleftrightarrow> (\<exists>status header body. backend k = Reply status header body \<and> 200 \<le> status \<and> status < 300)) \<and>
        (\<forall>i \<in> {1..<k}. backend i = Request_Error \<or>
          (\<exists>status header body. backend i = Reply status header body \<and> (status = 429 \<or> 500 \<le> status))) \<and>
        list_all (\<lambda>w. \<exists>q. w = Fin q \<and> 0 \<le> q \<and> q \<le> 5) ws)) \<and>
    (build_agent_payload isoformat l job = Inr (agent_record isoformat l job) \<longleftrightarrow>
      list_all (\<lambda>(cat, _). forbidden_in cat = None) (ls_category_scores l)) \<and>
    length (display text) \<le> 64 \<and> list_all (\<lambda>ch. 32 \<le> code ch \<and> code ch \<noteq> 127) (display text)"
proof -
  have limit: "mc_max_retries c = nat (max 1 n)"
    using assms by (auto simp: new_marketplace_client_def split: if_splits)
  have refused: "push_agent c backend payload = (False, 0, [])" if "list_ex (\<lambda>k. forbidden_in k \<noteq> None) (all_keys payload)"
    using that by (auto simp: push_agent_def publishable_iff list_ex_iff list_all_iff)
  have sent: "\<exists>k published ws. push_agent c backend payload = (published, k, ws) \<and> 1 \<le> k \<and> int k \<le> max 1 n \<and>
        (published \<longleftrightarrow> (\<exists>status header body. backend k = Reply status header body \<and> 200 \<le> status \<and> status < 300)) \<and>
        (\<forall>i \<in> {1..<k}. backend i = Request_Error \<or>
          (\<exists>status header body. backend i = Reply status header body \<and> (status = 429 \<or> 500 \<le> status))) \<and>
        list_all (\<lambda>w. \<exists>q. w = Fin q \<and> 0 \<le> q \<and> q \<le> 5) ws"
    if "list_all (\<lambda>k. forbidden_in k = None) (all_keys payload)"
  proof -
    from that have push: "push_agent c backend payload = retry_loop (push_decision (nat (max 1 n))) backoff backend False
        (attempts (nat (max 1 n)))"
      by (simp add: push_agent_def publishable_iff limit)
    obtain k result ws where k: "1 \<le> k" "k \<le> nat (max 1 n)" "push_decision (nat (max 1 n)) k (backend k) = Some result"
      "\<forall>i \<in> {1..<k}. push_decision (nat (max 1 n)) i (backend i) = None"
      "retry_loop (push_decision (nat (max 1 n))) backoff backend False (attempts (nat (max 1 n))) = (result, k, ws)"
      "list_all (\<lambda>w. \<exists>q. w = Fin q \<and> 0 \<le> q \<and> q \<le> 5) ws"
      using pushing.loop_decides [of n backend False] by blast
    have "result \<longleftrightarrow> (\<exists>status header body. backend k = Reply status header body \<and> 200 \<le> status \<and> status < 300)"
      using k(3) by (cases "backend k") (auto simp: push_decision_def split: if_splits)
    moreover have "\<forall>i \<in> {1..<k}. backend i = Request_Error \<or>
        (\<exists>status header body. backend i = Reply status header body \<and> (status = 429 \<or> 500 \<le> status))"
    proof
      fix i
      assume "i \<in> {1..<k}"
      with k(4) have "push_decision (nat (max 1 n)) i (backend i) = None" by blast
      then show "backend i = Request_Error \<or>
          (\<exists>status header body. backend i = Reply status header body \<and> (status = 429 \<or> 500 \<le> status))"
        by (cases "backend i") (auto simp: push_decision_def split: if_splits)
    qed
    moreover have "int k \<le> max 1 n" using k(2) by simp
    ultimately show ?thesis unfolding push using k(1,5,6) by blast
  qed
  have built: "build_agent_payload isoformat l job = Inr (agent_record isoformat l job) \<longleftrightarrow>
      list_all (\<lambda>(cat, _). forbidden_in cat = None) (ls_category_scores l)"
    unfolding build_agent_payload_def agent_record_publishable [of "[]" isoformat l job, symmetric]
    by (cases "assert_publishable [] (agent_record isoformat l job)") simp_all
  from refused sent built display_clean show ?thesis by blast
qed

theorem publishing_is_clean_and_bounded_witness:
  "\<exists>c k published ws. new_marketplace_client ''https://m/'' ''t'' (Fin 10) 3 = Inr c \<and>
     push_agent c (\<lambda>i. if i = 1 then Request_Error else Reply 503 ''9999'' []) (JDict [(''name'', JStr ''x'')]) = (published, k, ws) \<and>
     k \<le> 3 \<and> list_all (\<lambda>w. \<exists>q. w = Fin q \<and> 0 \<le> q \<and> q \<le> 5) ws"
proof -
  obtain c where c: "new_marketplace_client ''https://m/'' ''t'' (Fin 10) 3 = Inr c"
    by (simp add: new_marketplace_client_def)
  have "list_all (\<lambda>k. forbidden_in k = None) (all_keys (JDict [(''name'', JStr ''x'')]))" by code_simp
  with publishing_is_clean_and_bounded [OF c, of "JDict [(''name'', JStr ''x'')]"
      "\<lambda>i. if i = 1 then Request_Error else Reply 503 ''9999'' []"]
  obtain k published ws where "push_agent c (\<lambda>i. if i = 1 then Request_Error else Reply 503 ''9999'' [])
      (JDict [(''name'', JStr ''x'')]) = (published, k, ws)" "int k \<le> max 1 3"
    "list_all (\<lambda>w. \<exists>q. w = Fin q \<and> 0 \<le> q \<and> q \<le> 5) ws" by blast
  with c show ?thesis by (intro exI [of _ c] exI [of _ k] exI [of _ published] exI [of _ ws]) simp
qed

text \<open>The protocol client, likewise: one answer after at most its number of attempts, with capped waits.\<close>

lemma request_json_bounded:
  assumes "new_llm_key_client no_env base_url token timeout n = Inr c"
  shows "\<exists>k a ws. request_json no_env loads c backend = (a, k, ws) \<and> 1 \<le> k \<and> int k \<le> max 1 n \<and>
    (\<forall>j. a = Payload j \<longrightarrow> (\<exists>status header body. backend k = Reply status header body \<and> 200 \<le> status \<and> status < 300)) \<and>
    list_all (\<lambda>w. \<exists>q. w = Fin q \<and> 0 \<le> q \<and> q \<le> 30) ws"
proof -
  have limit: "lc_max_retries c = nat (max 1 n)"
    using assms by (auto simp: new_llm_key_client_def split: if_splits)
  obtain k a ws where k: "1 \<le> k" "k \<le> nat (max 1 n)" "request_decision loads (nat (max 1 n)) k (backend k) = Some a"
    "retry_loop (request_decision loads (nat (max 1 n))) (sleep_for_retry no_env) backend (Payload (JDict []))
       (attempts (nat (max 1 n))) = (a, k, ws)"
    "list_all (\<lambda>w. \<exists>q. w = Fin q \<and> 0 \<le> q \<and> q \<le> 30) ws"
    using requesting.loop_decides [of n loads backend "Payload (JDict [])"] by blast
  have "\<exists>status header body. backend k = Reply status header body \<and> 200 \<le> status \<and> status < 300" if "a = Payload j" for j
    using k(3) that by (cases "backend k") (auto simp: request_decision_def answer_of_def split: if_splits)
  with k show ?thesis
    by (intro exI [of _ k] exI [of _ a] exI [of _ ws]) (simp add: request_json_def limit)
qed

end
