(* ===== verification/Security_Round.thy ===== *)
theory Security_Round
  imports Clients Pipeline Llm_Validator
begin

text \<open>
  \<open>neurons/security_validator.py\<close>: one round of the security track.  Evaluating a candidate threads the
  database, the Docker calls and the web; the round folds the outcomes into the capability matrix, the
  listed agents and the scores.  The metagraph's hotkeys are read anew for every miner, as in the code.
\<close>

section \<open>Evaluating one candidate\<close>

record eval_outcome =
  eo_reward :: "rat option"
  eo_detail :: string
  eo_category :: "string option"
  eo_agent_id :: "string option"
  eo_job :: "job_result option"

definition unscored :: "rat option \<Rightarrow> string \<Rightarrow> string option \<Rightarrow> eval_outcome" where
  "unscored reward detail agent_id =
     \<lparr>eo_reward = reward, eo_detail = detail, eo_category = None, eo_agent_id = agent_id, eo_job = None\<rparr>"

text \<open>The database, the Docker calls so far, and the web requests so far.\<close>

type_synonym eval_world = "database \<times> docker_call list \<times> http_request list"

datatype fetched = Chunk string | Fetch_Raised string

text \<open>
  What an evaluation takes from outside.  \<open>ec_download\<close> is \<open>None\<close> for a request that raises with the given
  type name, else the blocks of the body; \<open>ec_file\<close> is how the intake sees a written tarball.
\<close>

record eval_context =
  ec_pipeline :: pipeline_env
  ec_services :: services
  ec_job :: job_env
  ec_draws :: draws
  ec_received_at :: string
  ec_download :: "string \<Rightarrow> fetched list"
  ec_decrypt :: "string \<Rightarrow> string \<Rightarrow> string option"
  ec_private_key :: string
  ec_file :: "string \<Rightarrow> submitted_file"
  ec_float_text :: "rat option \<Rightarrow> string"
  ec_failure_text :: "failure \<Rightarrow> string"
  ec_stage_text :: "stage \<Rightarrow> string"

definition bool_text :: "bool \<Rightarrow> string" where
  "bool_text b = (if b then ''True'' else ''False'')"

definition job_detail :: "eval_context \<Rightarrow> job_result \<Rightarrow> string" where
  "job_detail ctx job = ''job:variant='' @ jr_variant job @ '' accepted='' @ bool_text (jr_accepted job) @
     '' task='' @ ec_float_text ctx (map_option tr_score (jr_task job)) @ '' safe='' @ bool_text (jr_safe job) @
     '' requests='' @ show_int (jr_request_count job)"

definition job_outcome :: "eval_context \<Rightarrow> verdict \<Rightarrow> job_result \<Rightarrow> eval_outcome" where
  "job_outcome ctx v job = \<lparr>eo_reward = reward_for_job job, eo_detail = job_detail ctx job,
     eo_category = (if jr_category job = [] then None else Some (jr_category job)),
     eo_agent_id = ev_agent_digest (vd_evidence v), eo_job = Some job\<rparr>"

definition intake_outcome :: "eval_context \<Rightarrow> verdict \<Rightarrow> eval_outcome" where
  "intake_outcome ctx v = unscored (reward_for_verdict v) (''intake:'' @ ec_stage_text ctx (vd_stage_reached v))
     (ev_agent_digest (vd_evidence v))"

text \<open>Intake with the dry run skipped, against the database.\<close>

definition intake ::
  "eval_context \<Rightarrow> submission \<Rightarrow> string \<Rightarrow> eval_world \<Rightarrow> (string + verdict) \<times> eval_world" where
  "intake ctx s miner_id = (\<lambda>(db, h, w).
     case check_and_record ((ec_pipeline ctx)\<lparr>pe_skip_dry_run := True\<rparr>) True (ec_received_at ctx) s miner_id db h of
       (Inl f, db, h) \<Rightarrow> (Inl (ec_failure_text ctx f), (db, h, w))
     | (Inr (_, v), db, h) \<Rightarrow> (Inr v, (db, h, w)))"

definition evaluate_job ::
  "eval_context \<Rightarrow> verdict \<Rightarrow> string \<Rightarrow> eval_world \<Rightarrow> (string + eval_outcome) \<times> eval_world" where
  "evaluate_job ctx v image_ref = (\<lambda>(db, h, w).
     case run_job (ec_services ctx) (ec_job ctx) None (ec_draws ctx) image_ref (h, w) of
       (Inl e, (h, w), _) \<Rightarrow> (Inl (raised_text (ec_services ctx) e), (db, h, w))
     | (Inr job, (h, w), _) \<Rightarrow> (Inr (job_outcome ctx v job), (db, h, w)))"

definition evaluate ::
  "eval_context \<Rightarrow> string \<Rightarrow> string \<Rightarrow> eval_world \<Rightarrow> (string + eval_outcome) \<times> eval_world" where
  "evaluate ctx image_ref miner_id s = (case intake ctx (By_Reference image_ref) miner_id s of
      (Inl e, s) \<Rightarrow> (Inl e, s)
    | (Inr v, s) \<Rightarrow>
        if \<not> accepted v then (Inr (intake_outcome ctx v), s) else evaluate_job ctx v image_ref s)"

text \<open>The download: blocks up to an empty one, with the total capped.\<close>

fun read_chunks :: "int \<Rightarrow> fetched list \<Rightarrow> string + string" where
  "read_chunks seen [] = Inr []"
| "read_chunks seen (Fetch_Raised kind # rest) = Inl kind"
| "read_chunks seen (Chunk c # rest) =
     (if c = [] then Inr []
      else if int SECURITY_BLOB_MAX_BYTES < seen + int (length c) then Inl ''ValueError''
      else map_sum id ((@) c) (read_chunks (seen + int (length c)) rest))"

definition download_blob :: "eval_context \<Rightarrow> string \<Rightarrow> string + string" where
  "download_blob ctx url = read_chunks 0 (ec_download ctx url)"

text \<open>\<open>finally: remove_image\<close>: an exception of the removal replaces the outcome.\<close>

definition drop_image ::
  "eval_context \<Rightarrow> string \<Rightarrow> (string + eval_outcome) \<times> eval_world \<Rightarrow> (string + eval_outcome) \<times> eval_world" where
  "drop_image ctx ref = (\<lambda>(r, (db, h, w)). case remove_image (pe_runner (ec_pipeline ctx)) ref h of
      (Inl f, h) \<Rightarrow> (Inl (ec_failure_text ctx f), (db, h, w))
    | (Inr _, h) \<Rightarrow> (r, (db, h, w)))"

definition evaluate_tarball ::
  "eval_context \<Rightarrow> submitted_file \<Rightarrow> string \<Rightarrow> eval_world \<Rightarrow> (string + eval_outcome) \<times> eval_world" where
  "evaluate_tarball ctx f miner_id s = (case intake ctx (By_File f) miner_id s of
      (Inl e, s) \<Rightarrow> (Inl e, s)
    | (Inr v, s) \<Rightarrow>
        if \<not> accepted v then (Inr (intake_outcome ctx v), s)
        else (case s of (db, h, w) \<Rightarrow>
          (case load_image (pe_runner (ec_pipeline ctx)) (sf_path f) h of
             (Inl failed, h) \<Rightarrow> (Inl (ec_failure_text ctx failed), (db, h, w))
           | (Inr ref, h) \<Rightarrow> drop_image ctx ref (evaluate_job ctx v ref (db, h, w)))))"

definition evaluate_blob ::
  "eval_context \<Rightarrow> string \<Rightarrow> string \<Rightarrow> string \<Rightarrow> eval_world \<Rightarrow> (string + eval_outcome) \<times> eval_world" where
  "evaluate_blob ctx blob_url ciphertext_sha256 miner_id s = (case download_blob ctx blob_url of
      Inl kind \<Rightarrow> (Inr (unscored None (''download_failed:'' @ kind) None), s)
    | Inr blob \<Rightarrow>
        if ciphertext_sha256 \<noteq> [] \<and> pe_sha256 (ec_pipeline ctx) blob \<noteq> ciphertext_sha256
        then (Inr (unscored None ''sha256_mismatch'' None), s)
        else (case ec_decrypt ctx blob (ec_private_key ctx) of
            None \<Rightarrow> (Inr (unscored (Some 0) ''decrypt_failed'' None), s)
          | Some tar \<Rightarrow> evaluate_tarball ctx (ec_file ctx tar) miner_id s))"

datatype candidate = Blob string string | Image string

definition evaluate_candidate ::
  "eval_context \<Rightarrow> candidate \<Rightarrow> string \<Rightarrow> eval_world \<Rightarrow> (string + eval_outcome) \<times> eval_world" where
  "evaluate_candidate ctx c hotkey s = (case c of
      Blob url sha \<Rightarrow> evaluate_blob ctx url sha hotkey s
    | Image ref \<Rightarrow> evaluate ctx ref hotkey s)"

section \<open>The round\<close>

record response =
  rp_has_agent :: "bool option"
  rp_blob_url :: string
  rp_image_ref :: string
  rp_ciphertext_sha256 :: string

definition candidate_of :: "response \<Rightarrow> candidate option" where
  "candidate_of r =
     (if py_strip (rp_blob_url r) \<noteq> [] then Some (Blob (py_strip (rp_blob_url r)) (py_strip (rp_ciphertext_sha256 r)))
      else if py_strip (rp_image_ref r) \<noteq> [] then Some (Image (py_strip (rp_image_ref r)))
      else None)"

text \<open>
  The settings of the round.  \<open>rc_hotkeys\<close> and \<open>rc_elapsed\<close> are what the metagraph and the monotonic clock show
  when the loop reaches its \<open>i\<close>-th miner, \<open>rc_clock\<close> the wall clock when that miner's outcome is folded (\<open>rc_now\<close> is
  its reading at the start); \<open>rc_client\<close> is the marketplace, if it is configured.
\<close>

record round_context =
  rc_now :: rat
  rc_budget_s :: rat
  rc_freshness_s :: rat
  rc_categories :: "string list"
  rc_hotkeys :: "nat \<Rightarrow> string list"
  rc_elapsed :: "nat \<Rightarrow> rat"
  rc_clock :: "nat \<Rightarrow> rat"
  rc_client :: "marketplace_client option"
  rc_min_score :: rat
  rc_tolerance :: rat
  rc_netuid :: int
  rc_own_hotkey :: string
  rc_isoformat :: "rat \<Rightarrow> string"

record 'w round_state =
  rs_world :: 'w
  rs_matrix :: category_scores
  rs_listed :: "string list"
  rs_rewards :: "(nat, rat) dict"
  rs_skipped :: "nat list"
  rs_pending :: "json list"
  rs_answered :: nat
  rs_budget_reached :: bool

type_synonym 'w evaluator = "nat \<Rightarrow> candidate \<Rightarrow> string \<Rightarrow> 'w \<Rightarrow> (string + eval_outcome) \<times> 'w"

definition standing :: "round_context \<Rightarrow> category_scores \<Rightarrow> string \<Rightarrow> rat" where
  "standing ctx m hotkey = aggregate m hotkey (rc_categories ctx) (rc_now ctx) (Some (rc_freshness_s ctx))"

definition queue_marketplace_push ::
  "round_context \<Rightarrow> nat \<Rightarrow> string \<Rightarrow> eval_outcome \<Rightarrow> rat \<Rightarrow> 'w round_state \<Rightarrow> 'w round_state" where
  "queue_marketplace_push ctx uid hotkey outcome agg st = (case (rc_client ctx, eo_job outcome) of
      (Some _, Some job) \<Rightarrow>
        (if \<not> should_publish agg (eo_agent_id outcome) (rs_listed st) (rc_min_score ctx) (rc_tolerance ctx) then st
         else
           let agent_id = the (eo_agent_id outcome);
               st = st\<lparr>rs_listed := List.insert agent_id (rs_listed st)\<rparr>;
               l = \<lparr>ls_agent_id = agent_id, ls_miner_hotkey = hotkey, ls_miner_uid = int uid, ls_netuid = rc_netuid ctx,
                 ls_mechid = 1, ls_validator_hotkey = rc_own_hotkey ctx, ls_overall_score = agg,
                 ls_category_scores = List.map_filter (\<lambda>cat. map_option (Pair cat) (category_score (rs_matrix st) hotkey cat))
                   (rc_categories ctx),
                 ls_evaluated_at = rc_now ctx\<rparr>
           in case build_agent_payload (rc_isoformat ctx) l job of
               Inl _ \<Rightarrow> st
             | Inr rec \<Rightarrow> st\<lparr>rs_pending := rs_pending st @ [rec]\<rparr>)
    | _ \<Rightarrow> st)"

definition fold_outcome ::
  "round_context \<Rightarrow> nat \<Rightarrow> nat \<Rightarrow> string \<Rightarrow> eval_outcome \<Rightarrow> 'w round_state \<Rightarrow> 'w round_state" where
  "fold_outcome ctx i uid hotkey outcome st = (case eo_reward outcome of
      None \<Rightarrow> st\<lparr>rs_skipped := rs_skipped st @ [uid]\<rparr>
    | Some reward \<Rightarrow>
        let m = (case eo_category outcome of
              Some cat \<Rightarrow> snd (update_cell (rs_matrix st) hotkey cat reward (rc_clock ctx i))
            | None \<Rightarrow> rs_matrix st);
            agg = standing ctx m hotkey
        in queue_marketplace_push ctx uid hotkey outcome agg
             (st\<lparr>rs_matrix := m, rs_rewards := dput uid agg (rs_rewards st)\<rparr>))"

text \<open>The loop over the answers; the flag is false when a uid has no hotkey (an \<open>IndexError\<close> leaves the round).\<close>

fun round_loop ::
  "round_context \<Rightarrow> 'w evaluator \<Rightarrow> nat \<Rightarrow> (nat \<times> response) list \<Rightarrow> 'w round_state \<Rightarrow> bool \<times> 'w round_state" where
  "round_loop ctx eval i [] st = (True, st)"
| "round_loop ctx eval i ((uid, resp) # rest) st =
     (if rc_elapsed ctx i > rc_budget_s ctx then (True, st\<lparr>rs_budget_reached := True\<rparr>)
      else case rp_has_agent resp of
          None \<Rightarrow> round_loop ctx eval (Suc i) rest st
        | Some False \<Rightarrow> round_loop ctx eval (Suc i) rest (st\<lparr>rs_answered := rs_answered st + 1\<rparr>)
        | Some True \<Rightarrow>
            let st = st\<lparr>rs_answered := rs_answered st + 1\<rparr> in
            if length (rc_hotkeys ctx i) \<le> uid then (False, st)
            else
              let hotkey = rc_hotkeys ctx i ! uid in
              (case candidate_of resp of
                 None \<Rightarrow> round_loop ctx eval (Suc i) rest st
               | Some c \<Rightarrow>
                   (case eval i c hotkey (rs_world st) of
                      (Inl _, w) \<Rightarrow> round_loop ctx eval (Suc i) rest (st\<lparr>rs_world := w\<rparr>)
                    | (Inr outcome, w) \<Rightarrow>
                        round_loop ctx eval (Suc i) rest (fold_outcome ctx i uid hotkey outcome (st\<lparr>rs_world := w\<rparr>)))))"

definition hotkey_uids :: "string list \<Rightarrow> (string, nat) dict" where
  "hotkey_uids hotkeys = fold (\<lambda>(i, hk) m. dput hk i m) (enumerate 0 hotkeys) []"

definition recompute_all_scores :: "round_context \<Rightarrow> string list \<Rightarrow> category_scores \<Rightarrow> (nat, rat) dict" where
  "recompute_all_scores ctx hotkeys m =
     fold (\<lambda>hotkey out. case dget (hotkey_uids hotkeys) hotkey of
         None \<Rightarrow> out
       | Some uid \<Rightarrow> dput uid (standing ctx m hotkey) out) (dkeys (cs_cells m)) []"

definition update_from_rewards :: "(nat, rat) dict \<Rightarrow> rat list \<Rightarrow> rat list" where
  "update_from_rewards rewards scores =
     fold (\<lambda>(uid, v) scores. if uid < length scores then scores[uid := v] else scores) rewards scores"

record validator_state =
  va_matrix :: category_scores
  va_listed :: "string list"
  va_scores :: "rat list"
  va_last_round_at :: rat

text \<open>
  \<open>security_round\<close>.  \<open>uids\<close> are the miners to ask and \<open>ask\<close> their answers; the end of the round sees the
  metagraph as it is after the last miner.  The flag tells a round that raised.
\<close>

definition security_round ::
  "round_context \<Rightarrow> rat \<Rightarrow> 'w evaluator \<Rightarrow> nat list \<Rightarrow> response list \<Rightarrow> 'w \<times> validator_state
     \<Rightarrow> bool \<times> 'w \<times> validator_state \<times> json list" where
  "security_round ctx interval eval uids answers = (\<lambda>(w, va).
     if va_last_round_at va \<noteq> 0 \<and> rc_now ctx - va_last_round_at va < max 0 interval then (True, w, va, [])
     else if uids = [] then (True, w, va\<lparr>va_last_round_at := rc_now ctx\<rparr>, [])
     else
       let (finished, st) = round_loop ctx eval 0 (zip uids answers)
             \<lparr>rs_world = w, rs_matrix = va_matrix va, rs_listed = va_listed va, rs_rewards = [], rs_skipped = [],
              rs_pending = [], rs_answered = 0, rs_budget_reached = False\<rparr>
       in if \<not> finished
          then (False, rs_world st, va\<lparr>va_matrix := rs_matrix st, va_listed := rs_listed st\<rparr>, [])
          else
            let hotkeys = rc_hotkeys ctx (length (zip uids answers));
                m = (if rs_rewards st \<noteq> [] \<or> rs_skipped st \<noteq> [] then prune (rs_matrix st) hotkeys else rs_matrix st)
            in (True, rs_world st,
                \<lparr>va_matrix = m, va_listed = rs_listed st,
                 va_scores = update_from_rewards (recompute_all_scores ctx hotkeys m) (va_scores va),
                 va_last_round_at = rc_now ctx\<rparr>, rs_pending st))"

text \<open>\<open>publish_pending\<close>: how many of the round's records the backend took.\<close>

definition publish_pending :: "marketplace_client option \<Rightarrow> (json \<Rightarrow> nat \<Rightarrow> reply) \<Rightarrow> json list \<Rightarrow> nat" where
  "publish_pending client backend pending = (case client of
      None \<Rightarrow> 0
    | Some c \<Rightarrow> length (filter (\<lambda>r. fst (push_agent c (backend r) r)) pending))"

section \<open>The step of the neuron\<close>

text \<open>The background task: none yet, in flight, or over with or without an exception.\<close>

datatype round_task = No_Round | In_Flight | Over "string option"

text \<open>\<open>forward\<close> starts a round unless one is in flight; the flag says whether it did.\<close>

definition forward_step :: "round_task \<Rightarrow> round_task \<times> bool" where
  "forward_step t = (case t of In_Flight \<Rightarrow> (In_Flight, False) | _ \<Rightarrow> (In_Flight, True))"

section \<open>Setting up\<close>

definition get_security_miner_uids :: "env \<Rightarrow> string \<Rightarrow> metagraph \<Rightarrow> py_exc + nat list" where
  "get_security_miner_uids e own mg =
     miner_uids_from (env_flag_on e ''MASXAI_QUERY_VALIDATOR_UIDS'' False) own mg [0..<mg_n mg]"

text \<open>
  \<open>_load_or_create_keypair\<close>: the stored key if the file has one, else a generated one that is written.
  The file is \<open>None\<close> when it does not exist; any damage to it counts as no key.
\<close>

definition load_or_create_key :: "json_outcome option \<Rightarrow> string \<Rightarrow> json \<times> bool" where
  "load_or_create_key file generated = (case file of
      Some (Json (JDict d)) \<Rightarrow>
        (if json_truthy (item_get d ''private_key_b64'') then (item_get d ''private_key_b64'', False)
         else (JStr generated, True))
    | _ \<Rightarrow> (JStr generated, True))"

definition pubkey_id :: "(string \<Rightarrow> string) \<Rightarrow> string \<Rightarrow> string" where
  "pubkey_id sha256 pubkey_b64 = take 16 (sha256 pubkey_b64)"

section \<open>Lemmas\<close>

text \<open>The matrix holds averages: its weight and every score in it are between 0 and 1.\<close>

definition matrix_ok :: "category_scores \<Rightarrow> bool" where
  "matrix_ok m \<longleftrightarrow> 0 \<le> cs_alpha m \<and> cs_alpha m \<le> 1 \<and>
     (\<forall>h c s. category_score m h c = Some s \<longrightarrow> 0 \<le> s \<and> s \<le> 1)"

definition reward_ok :: "rat option \<Rightarrow> bool" where
  "reward_ok r \<longleftrightarrow> (case r of None \<Rightarrow> True | Some q \<Rightarrow> 0 \<le> q \<and> q \<le> 1)"

definition evaluator_ok :: "'w evaluator \<Rightarrow> bool" where
  "evaluator_ok eval \<longleftrightarrow> (\<forall>i c hk w out w'. eval i c hk w = (Inr out, w') \<longrightarrow> reward_ok (eo_reward out))"

lemma matrix_ok_update:
  assumes "matrix_ok m" "0 \<le> v" "v \<le> 1"
  shows "matrix_ok (snd (update_cell m h c v t))"
proof -
  have "0 \<le> fst (update_cell m h c v t) \<and> fst (update_cell m h c v t) \<le> 1"
  proof (cases "category_score m h c")
    case None
    with assms show ?thesis by (simp add: fst_update_cell blend_def)
  next
    case (Some s)
    with assms have "0 \<le> s \<and> s \<le> 1" "0 \<le> cs_alpha m" "cs_alpha m \<le> 1" by (auto simp: matrix_ok_def)
    with assms smoothing.between [OF smoothing_blend, of "cs_alpha m" 0 s 1 v] Some show ?thesis
      by (simp add: fst_update_cell)
  qed
  with assms(1) show ?thesis by (auto simp: matrix_ok_def update_cell_score split: if_splits)
qed

lemma dget_filter_keys: "dget (filter (\<lambda>(k, _). P k) m) k = (if P k then dget m k else None)"
  by (induction m) auto

lemma prune_score: "category_score (prune m valid) h c = (if h \<in> set valid then category_score m h c else None)"
  by (simp add: category_score_def prune_def row_of_def dget_filter_keys split: option.split)

lemma matrix_ok_prune: "matrix_ok m \<Longrightarrow> matrix_ok (prune m valid)"
  by (simp add: matrix_ok_def prune_score) (simp add: prune_def)

lemma queue_keeps_matrix [simp]: "rs_matrix (queue_marketplace_push ctx uid hk out agg st) = rs_matrix st"
  by (simp add: queue_marketplace_push_def Let_def split: option.split sum.split)

lemma queue_keeps_world [simp]: "rs_world (queue_marketplace_push ctx uid hk out agg st) = rs_world st"
  by (simp add: queue_marketplace_push_def Let_def split: option.split sum.split)

text \<open>What folding an outcome does to the matrix.\<close>

definition folded_matrix :: "round_context \<Rightarrow> nat \<Rightarrow> string \<Rightarrow> eval_outcome \<Rightarrow> category_scores \<Rightarrow> category_scores" where
  "folded_matrix ctx i hk out m = (case (eo_reward out, eo_category out) of
      (Some r, Some c) \<Rightarrow> snd (update_cell m hk c r (rc_clock ctx i))
    | _ \<Rightarrow> m)"

lemma fold_outcome_matrix [simp]:
  "rs_matrix (fold_outcome ctx i uid hk out st) = folded_matrix ctx i hk out (rs_matrix st)"
  "rs_world (fold_outcome ctx i uid hk out st) = rs_world st"
  by (simp_all add: fold_outcome_def folded_matrix_def Let_def split: option.split)

text \<open>What every evaluation and every folded outcome preserve, of the world and the matrix, holds at the end of the loop.\<close>

lemma round_loop_invariant:
  fixes eval :: "'w evaluator" and st :: "'w round_state"
  assumes folds: "\<And>i c hk out w w' m. eval i c hk w = (Inr out, w') \<Longrightarrow> Q w m \<Longrightarrow> Q w' (folded_matrix ctx i hk out m)"
    and fails: "\<And>i c hk e w w' m. eval i c hk w = (Inl e, w') \<Longrightarrow> Q w m \<Longrightarrow> Q w' m"
    and "Q (rs_world st) (rs_matrix st)"
  shows "Q (rs_world (snd (round_loop ctx eval i rs st))) (rs_matrix (snd (round_loop ctx eval i rs st)))"
  using assms(3)
proof (induction rs arbitrary: i st)
  case (Cons r rs)
  obtain uid resp where r: "r = (uid, resp)" by (cases r)
  show ?case
  proof (cases "rc_elapsed ctx i > rc_budget_s ctx \<or> rp_has_agent resp \<noteq> Some True \<or>
      length (rc_hotkeys ctx i) \<le> uid \<or> candidate_of resp = None")
    case True
    with Cons r show ?thesis by (auto simp: Let_def split: option.split bool.split)
  next
    case False
    then obtain c where c: "candidate_of resp = Some c" by auto
    obtain out w' where e: "eval i c (rc_hotkeys ctx i ! uid) (rs_world st) = (out, w')"
      by (rule prod.exhaust)
    show ?thesis
    proof (cases out)
      case (Inl x)
      with False c e r Cons fails [OF e [unfolded Inl]] show ?thesis by (simp add: Let_def)
    next
      case (Inr o')
      with False c e r Cons folds [OF e [unfolded Inr]] show ?thesis by (simp add: Let_def)
    qed
  qed
qed simp

lemma round_loop_matrix:
  fixes eval :: "'w evaluator" and st :: "'w round_state"
  assumes "\<And>i c hk w out w' m. eval i c hk w = (Inr out, w') \<Longrightarrow> Q m \<Longrightarrow> Q (folded_matrix ctx i hk out m)"
    and "Q (rs_matrix st)"
  shows "Q (rs_matrix (snd (round_loop ctx eval i rs st)))"
  using round_loop_invariant [of eval "\<lambda>_. Q" ctx st i rs] assms by blast

lemma round_loop_ok:
  assumes "evaluator_ok eval" "matrix_ok (rs_matrix st)"
  shows "matrix_ok (rs_matrix (snd (round_loop ctx eval i rs st)))"
proof (rule round_loop_matrix [where Q = matrix_ok, OF _ assms(2)])
  fix i c hk w out w' m
  assume "eval i c hk w = (Inr out, w')" "matrix_ok m"
  moreover from this(1) assms(1) have "reward_ok (eo_reward out)" unfolding evaluator_ok_def by blast
  ultimately show "matrix_ok (folded_matrix ctx i hk out m)"
    by (auto simp: folded_matrix_def reward_ok_def matrix_ok_update split: option.split)
qed

text \<open>
  A log beside the world changes nothing: an evaluator that keeps one and otherwise answers as another gives
  the same round.
\<close>

definition forget_log :: "('w \<times> 'l) round_state \<Rightarrow> 'w round_state" where
  "forget_log st = \<lparr>rs_world = fst (rs_world st), rs_matrix = rs_matrix st, rs_listed = rs_listed st,
     rs_rewards = rs_rewards st, rs_skipped = rs_skipped st, rs_pending = rs_pending st,
     rs_answered = rs_answered st, rs_budget_reached = rs_budget_reached st\<rparr>"

lemma forget_log_simps [simp]:
  "rs_world (forget_log st) = fst (rs_world st)" "rs_matrix (forget_log st) = rs_matrix st"
  "rs_listed (forget_log st) = rs_listed st" "rs_rewards (forget_log st) = rs_rewards st"
  "rs_skipped (forget_log st) = rs_skipped st" "rs_pending (forget_log st) = rs_pending st"
  "rs_answered (forget_log st) = rs_answered st" "rs_budget_reached (forget_log st) = rs_budget_reached st"
  by (simp_all add: forget_log_def)

lemma forget_log_fold:
  "forget_log (fold_outcome ctx i uid hk out st) = fold_outcome ctx i uid hk out (forget_log st)"
  by (simp add: fold_outcome_def queue_marketplace_push_def forget_log_def Let_def split: option.split sum.split)

definition keeps_a_log :: "('w \<times> 'l) evaluator \<Rightarrow> 'w evaluator \<Rightarrow> bool" where
  "keeps_a_log logged eval \<longleftrightarrow>
     (\<forall>i c hk w l. map_prod id fst (logged i c hk (w, l)) = eval i c hk w)"

lemma round_loop_logged:
  assumes "keeps_a_log logged eval"
  shows "round_loop ctx eval i rs (forget_log st) = map_prod id forget_log (round_loop ctx logged i rs st)"
proof (induction rs arbitrary: i st)
  case (Cons r rs)
  obtain uid resp where r: "r = (uid, resp)" by (cases r)
  have upd: "(forget_log st)\<lparr>rs_answered := n\<rparr> = forget_log (st\<lparr>rs_answered := n\<rparr>)"
    "(forget_log st)\<lparr>rs_budget_reached := b\<rparr> = forget_log (st\<lparr>rs_budget_reached := b\<rparr>)"
    "(forget_log st)\<lparr>rs_answered := n, rs_world := w\<rparr> = forget_log (st\<lparr>rs_answered := n, rs_world := (w, l)\<rparr>)"
    for n b w l by (simp_all add: forget_log_def)
  show ?case
  proof (cases "rc_elapsed ctx i > rc_budget_s ctx \<or> rp_has_agent resp \<noteq> Some True \<or>
      length (rc_hotkeys ctx i) \<le> uid \<or> candidate_of resp = None")
    case True
    then show ?thesis by (auto simp: r Let_def upd(1,2) Cons.IH split: option.split bool.split)
  next
    case False
    then obtain c where c: "candidate_of resp = Some c" by auto
    obtain w l where st: "rs_world st = (w, l)" by (cases "rs_world st")
    obtain out w' l' where logged: "logged i c (rc_hotkeys ctx i ! uid) (w, l) = (out, (w', l'))"
      by (metis prod.exhaust)
    then have e: "eval i c (rc_hotkeys ctx i ! uid) w = (out, w')"
      using assms [unfolded keeps_a_log_def, rule_format, of i c "rc_hotkeys ctx i ! uid" w l] by simp
    show ?thesis
    proof (cases out)
      case (Inl x)
      with False c logged show ?thesis by (simp add: r Let_def st e upd(3) [where w = w' and l = l'] Cons.IH)
    next
      case (Inr o')
      from False c logged Inr show ?thesis
        by (simp add: r Let_def st e upd(3) [where w = w' and l = l'] forget_log_fold [symmetric] Cons.IH)
    qed
  qed
qed simp

lemma logged_round:
  assumes "keeps_a_log logged eval"
  shows "security_round ctx interval eval uids answers (w, va) =
    (case security_round ctx interval logged uids answers ((w, l), va) of
       (finished, (w', _), va', pending) \<Rightarrow> (finished, w', va', pending))"
proof -
  let ?st = "\<lparr>rs_world = (w, l), rs_matrix = va_matrix va, rs_listed = va_listed va, rs_rewards = [], rs_skipped = [],
      rs_pending = [], rs_answered = 0, rs_budget_reached = False\<rparr>"
  obtain fin st where loop: "round_loop ctx logged 0 (zip uids answers) ?st = (fin, st)" by (rule prod.exhaust)
  have "round_loop ctx eval 0 (zip uids answers) (forget_log ?st) = (fin, forget_log st)"
    by (simp add: round_loop_logged [OF assms] loop)
  moreover have "forget_log ?st = \<lparr>rs_world = w, rs_matrix = va_matrix va, rs_listed = va_listed va, rs_rewards = [],
      rs_skipped = [], rs_pending = [], rs_answered = 0, rs_budget_reached = False\<rparr>" by (simp add: forget_log_def)
  ultimately show ?thesis
    using loop by (cases "rs_world st") (auto simp: security_round_def Let_def)
qed

text \<open>The evaluations a round made: for whom, and what came of each.\<close>

type_synonym evaluation = "nat \<times> string \<times> (string + eval_outcome)"

definition noted :: "'w evaluator \<Rightarrow> ('w \<times> evaluation list) evaluator" where
  "noted eval i c hk = (\<lambda>(w, es). case eval i c hk w of (res, w') \<Rightarrow> (res, (w', es @ [(i, hk, res)])))"

definition evaluations_made ::
  "round_context \<Rightarrow> rat \<Rightarrow> 'w evaluator \<Rightarrow> nat list \<Rightarrow> response list \<Rightarrow> 'w \<times> validator_state \<Rightarrow> evaluation list" where
  "evaluations_made ctx interval eval uids answers = (\<lambda>(w, va).
     case security_round ctx interval (noted eval) uids answers ((w, []), va) of (_, (_, es), _) \<Rightarrow> es)"

lemma noted_keeps_a_log: "keeps_a_log (noted eval) eval"
  by (simp add: keeps_a_log_def noted_def split: prod.split)

text \<open>What an evaluation does to the matrix: nothing if it raised or was the validator's fault.\<close>

definition fold_evaluation :: "round_context \<Rightarrow> evaluation \<Rightarrow> category_scores \<Rightarrow> category_scores" where
  "fold_evaluation ctx e m = (case e of (i, hk, res) \<Rightarrow>
     (case res of Inl _ \<Rightarrow> m | Inr out \<Rightarrow> folded_matrix ctx i hk out m))"

definition our_failure :: "string + eval_outcome \<Rightarrow> bool" where
  "our_failure res \<longleftrightarrow> (case res of Inl _ \<Rightarrow> True | Inr out \<Rightarrow> eo_reward out = None)"

lemma round_loop_noted:
  assumes "rs_matrix st = fold (fold_evaluation ctx) (snd (rs_world st)) m"
  shows "rs_matrix (snd (round_loop ctx (noted eval) i rs st)) =
     fold (fold_evaluation ctx) (snd (rs_world (snd (round_loop ctx (noted eval) i rs st)))) m"
  by (rule round_loop_invariant [where Q = "\<lambda>w m'. m' = fold (fold_evaluation ctx) (snd w) m"])
    (use assms in \<open>auto simp: noted_def fold_evaluation_def split: prod.splits\<close>)

lemma fold_evaluation_spares:
  "list_all (\<lambda>(_, h, res). h \<noteq> hk \<or> our_failure res) es \<Longrightarrow>
     category_score (fold (fold_evaluation ctx) es m) hk cat = category_score m hk cat"
proof (induction es arbitrary: m)
  case (Cons e es)
  obtain i h res where e: "e = (i, h, res)" by (cases e) auto
  have "category_score (fold_evaluation ctx e m) hk cat = category_score m hk cat"
    using Cons.prems
    by (auto simp: e fold_evaluation_def folded_matrix_def our_failure_def update_cell_score split: sum.splits option.splits)
  with Cons show ?case by simp
qed simp

text \<open>Both ways of evaluating give a reward between 0 and 1, or none.\<close>

lemma reward_for_verdict_ok: "reward_ok (reward_for_verdict v)"
  by (simp add: reward_ok_def reward_for_verdict_def REWARD_PASS_def REWARD_FAIL_def)

lemma reward_simple: "reward_ok None" "reward_ok (Some 0)"
  by (simp_all add: reward_ok_def)

lemma evaluate_job_ok:
  assumes "evaluate_job ctx v ref s = (Inr out, s')"
  shows "reward_ok (eo_reward out)"
proof -
  obtain db h w where s: "s = (db, h, w)" by (cases s) auto
  obtain job rest where job: "run_job (ec_services ctx) (ec_job ctx) None (ec_draws ctx) ref (h, w) = (Inr job, rest)"
    "out = job_outcome ctx v job"
    using assms by (auto simp: evaluate_job_def s split: prod.splits sum.splits)
  have "reward_ok (reward_for_job job)"
    using run_job_task_range [OF job(1)] by (auto simp: reward_ok_def reward_for_job_def split: option.split)
  with job(2) show ?thesis by (simp add: job_outcome_def)
qed

lemma evaluate_ok: "evaluate ctx ref miner s = (Inr out, s') \<Longrightarrow> reward_ok (eo_reward out)"
  using reward_for_verdict_ok evaluate_job_ok
  by (auto simp: evaluate_def intake_outcome_def unscored_def split: prod.splits sum.splits if_splits)

lemma drop_image_InrD: "drop_image ctx ref r = (Inr out, s') \<Longrightarrow> fst r = Inr out"
  by (auto simp: drop_image_def split: prod.splits sum.splits)

lemma evaluate_tarball_ok:
  assumes "evaluate_tarball ctx f miner s = (Inr out, s')"
  shows "reward_ok (eo_reward out)"
proof -
  have "(\<exists>v. out = intake_outcome ctx v) \<or> (\<exists>v ref s1. fst (evaluate_job ctx v ref s1) = Inr out)"
    using assms by (auto simp: evaluate_tarball_def split: prod.splits sum.splits if_splits dest!: drop_image_InrD)
  then show ?thesis
  proof (elim disjE exE)
    fix v
    assume "out = intake_outcome ctx v"
    then show ?thesis using reward_for_verdict_ok by (simp add: intake_outcome_def unscored_def)
  next
    fix v ref s1
    assume "fst (evaluate_job ctx v ref s1) = Inr out"
    then show ?thesis using evaluate_job_ok by (cases "evaluate_job ctx v ref s1") auto
  qed
qed

lemma evaluate_blob_ok: "evaluate_blob ctx url sha miner s = (Inr out, s') \<Longrightarrow> reward_ok (eo_reward out)"
  by (auto simp: evaluate_blob_def unscored_def reward_simple split: sum.splits if_splits option.splits
      dest: evaluate_tarball_ok)

lemma evaluate_candidate_ok: "evaluator_ok (\<lambda>i. evaluate_candidate (ctxs i))"
  using evaluate_blob_ok evaluate_ok
  by (auto simp: evaluator_ok_def evaluate_candidate_def split: candidate.splits)

lemma noted_ok: "evaluator_ok eval \<Longrightarrow> evaluator_ok (noted eval)"
  unfolding evaluator_ok_def noted_def by (fastforce split: prod.splits)

text \<open>Writing the scores.\<close>

lemma hotkey_uids_SomeD:
  assumes "dget (fold (\<lambda>(i, hk) m. dput hk i m) (enumerate n hs) m) hk = Some uid"
  shows "(n \<le> uid \<and> uid < n + length hs \<and> hs ! (uid - n) = hk) \<or> dget m hk = Some uid"
  using assms
proof (induction hs arbitrary: n m)
  case (Cons h hs)
  from Cons.IH [of "Suc n" "dput h n m"] Cons.prems
  have "(Suc n \<le> uid \<and> uid < Suc n + length hs \<and> hs ! (uid - Suc n) = hk) \<or> dget (dput h n m) hk = Some uid" by simp
  then show ?case
  proof (elim disjE conjE)
    assume "Suc n \<le> uid" "uid < Suc n + length hs" "hs ! (uid - Suc n) = hk"
    then show ?thesis by (auto simp: nth_Cons' Suc_diff_Suc)
  next
    assume "dget (dput h n m) hk = Some uid"
    then show ?thesis by (cases "hk = h") (auto simp: dget_dput)
  qed
qed simp

lemma hotkey_uids_found:
  "hk \<in> set hs \<Longrightarrow> \<exists>uid. dget (fold (\<lambda>(i, hk) m. dput hk i m) (enumerate n hs) m) hk = Some uid"
proof (induction hs arbitrary: n m)
  case (Cons h hs)
  show ?case
  proof (cases "hk \<in> set hs")
    case True
    with Cons.IH show ?thesis by simp
  next
    case False
    with Cons.prems have "hk = h" by simp
    moreover have "dget (fold (\<lambda>(i, hk) m. dput hk i m) (enumerate k hs) m') hk = dget m' hk" for k m'
      using False by (induction hs arbitrary: k m') (auto simp: dget_dput)
    ultimately show ?thesis by (simp add: dget_dput)
  qed
qed simp

lemma hotkey_uids_nth:
  assumes "distinct hs" "uid < length hs"
  shows "dget (hotkey_uids hs) (hs ! uid) = Some uid"
proof -
  obtain u where u: "dget (hotkey_uids hs) (hs ! uid) = Some u"
    using hotkey_uids_found [of "hs ! uid" hs 0 "[]"] assms(2) by (auto simp: hotkey_uids_def)
  with hotkey_uids_SomeD [of 0 hs "[]" "hs ! uid" u] have "u < length hs" "hs ! u = hs ! uid"
    by (auto simp: hotkey_uids_def)
  with assms u show ?thesis by (simp add: nth_eq_iff_index_eq)
qed

lemma hotkey_uids_inverse: "dget (hotkey_uids hs) hk = Some uid \<Longrightarrow> uid < length hs \<and> hs ! uid = hk"
  using hotkey_uids_SomeD [of 0 hs "[]" hk uid] by (auto simp: hotkey_uids_def)

lemma recompute_lookup:
  assumes "distinct hs" "uid < length hs"
  shows "dget (recompute_all_scores ctx hs m) uid =
    (if hs ! uid \<in> set (dkeys (cs_cells m)) then Some (standing ctx m (hs ! uid)) else None)"
proof -
  let ?step = "\<lambda>hk out. case dget (hotkey_uids hs) hk of None \<Rightarrow> out | Some u \<Rightarrow> dput u (standing ctx m hk) out"
  have "dget (fold ?step ks out) uid = (if hs ! uid \<in> set ks then Some (standing ctx m (hs ! uid)) else dget out uid)"
    for ks and out :: "(nat, rat) dict"
  proof (induction ks arbitrary: out)
    case (Cons k ks)
    have "dget (?step k out) uid = (if k = hs ! uid then Some (standing ctx m (hs ! uid)) else dget out uid)"
    proof (cases "k = hs ! uid")
      case True
      with hotkey_uids_nth [OF assms] show ?thesis by (simp add: dget_dput)
    next
      case False
      then have "dget (hotkey_uids hs) k \<noteq> Some uid" using hotkey_uids_inverse by auto
      with False show ?thesis by (cases "dget (hotkey_uids hs) k") (auto simp: dget_dput)
    qed
    with Cons.IH [of "?step k out"] show ?case by auto
  qed simp
  then show ?thesis by (simp add: recompute_all_scores_def)
qed

lemma recompute_keys: "distinct (map fst (recompute_all_scores ctx hs m))"
proof -
  have "distinct (map fst (fold (\<lambda>hk out. case dget (hotkey_uids hs) hk of None \<Rightarrow> out
      | Some u \<Rightarrow> dput u (standing ctx m hk) out) ks out))" if "distinct (map fst out)"
    for ks and out :: "(nat, rat) dict"
    using that by (induction ks arbitrary: out) (auto simp: distinct_update split: option.split)
  then show ?thesis by (simp add: recompute_all_scores_def)
qed

lemma update_from_rewards_nth:
  "distinct (map fst rs) \<Longrightarrow> uid < length scores \<Longrightarrow>
     update_from_rewards rs scores ! uid = (case dget rs uid of Some v \<Rightarrow> v | None \<Rightarrow> scores ! uid) \<and>
     length (update_from_rewards rs scores) = length scores"
  unfolding update_from_rewards_def
proof (induction rs arbitrary: scores)
  case (Cons r rs)
  obtain u v where r: "r = (u, v)" by (cases r)
  let ?scores = "if u < length scores then scores[u := v] else scores"
  have "uid < length ?scores" "distinct (map fst rs)" "u \<notin> fst ` set rs" using Cons.prems r by auto
  moreover from this(3) have "dget rs u = None" by (simp add: map_of_eq_None_iff)
  ultimately show ?case using Cons.IH [of ?scores] Cons.prems(2) r
    by (auto simp: nth_list_update split: option.split)
qed simp

lemma standing_unit: "matrix_ok m \<Longrightarrow> 0 \<le> standing ctx m hk \<and> standing ctx m hk \<le> 1"
  unfolding standing_def by (rule aggregate_unit) (auto simp: matrix_ok_def)

lemma update_length: "length (update_from_rewards rs scores) = length scores"
  unfolding update_from_rewards_def by (induction rs arbitrary: scores) auto

section \<open>Properties\<close>

text \<open>When a round is due and has somebody to ask.\<close>

definition round_due :: "round_context \<Rightarrow> rat \<Rightarrow> nat list \<Rightarrow> validator_state \<Rightarrow> bool" where
  "round_due ctx interval uids va \<longleftrightarrow>
     \<not> (va_last_round_at va \<noteq> 0 \<and> rc_now ctx - va_last_round_at va < max 0 interval) \<and> uids \<noteq> []"

text \<open>What a round leaves, with the evaluations it noted.\<close>

lemma round_result:
  assumes "matrix_ok (va_matrix va)" "distinct (rc_hotkeys ctx (length (zip uids answers)))"
    and "security_round ctx interval (\<lambda>i. evaluate_candidate (ctxs i)) uids answers (w, va) = (finished, w', va', pending)"
    and noted: "security_round ctx interval (noted (\<lambda>i. evaluate_candidate (ctxs i))) uids answers ((w, []), va) =
      (finished, (w', es), va', pending)"
  shows "matrix_ok (va_matrix va') \<and> (\<not> (round_due ctx interval uids va \<and> finished) \<longrightarrow> va_scores va' = va_scores va) \<and>
    (round_due ctx interval uids va \<and> finished \<longrightarrow>
      length (va_scores va') = length (va_scores va) \<and>
      (\<forall>uid hk. uid < length (va_scores va) \<and> uid < length (rc_hotkeys ctx (length (zip uids answers))) \<and>
         hk = rc_hotkeys ctx (length (zip uids answers)) ! uid \<longrightarrow>
         0 \<le> standing ctx (va_matrix va') hk \<and> standing ctx (va_matrix va') hk \<le> 1 \<and>
         va_scores va' ! uid =
           (if hk \<in> set (dkeys (cs_cells (va_matrix va'))) then standing ctx (va_matrix va') hk else va_scores va ! uid))) \<and>
    (\<forall>hk cat. hk \<in> set (rc_hotkeys ctx (length (zip uids answers))) \<longrightarrow>
       category_score (va_matrix va') hk cat = category_score (fold (fold_evaluation ctx) es (va_matrix va)) hk cat)"
proof (cases "round_due ctx interval uids va")
  case False
  then have "va_scores va' = va_scores va \<and> va_matrix va' = va_matrix va" "es = []"
    using noted by (auto simp: security_round_def round_due_def split: if_splits)
  with False assms(1) show ?thesis by simp
next
  case True
  let ?eval = "noted (\<lambda>i. evaluate_candidate (ctxs i))"
  let ?hotkeys = "rc_hotkeys ctx (length (zip uids answers))"
  let ?st = "\<lparr>rs_world = (w, []), rs_matrix = va_matrix va, rs_listed = va_listed va, rs_rewards = [], rs_skipped = [],
      rs_pending = [], rs_answered = 0, rs_budget_reached = False\<rparr>"
  obtain fin st where loop: "round_loop ctx ?eval 0 (zip uids answers) ?st = (fin, st)" by (rule prod.exhaust)
  have ok: "matrix_ok (rs_matrix st)"
    using round_loop_ok [OF noted_ok [OF evaluate_candidate_ok], of ?st ctx ctxs 0 "zip uids answers"] loop assms(1) by simp
  have es: "es = snd (rs_world st)"
    using noted True loop unfolding security_round_def round_due_def by (auto simp: Let_def split: if_splits)
  have folded: "rs_matrix st = fold (fold_evaluation ctx) es (va_matrix va)"
    using round_loop_noted [of ?st ctx "va_matrix va" "\<lambda>i. evaluate_candidate (ctxs i)" 0 "zip uids answers"] loop
    by (simp add: es)
  define m where "m = (if rs_rewards st \<noteq> [] \<or> rs_skipped st \<noteq> [] then prune (rs_matrix st) ?hotkeys else rs_matrix st)"
  have m_ok: "matrix_ok m" using ok matrix_ok_prune by (simp add: m_def)
  have m_score: "category_score m hk cat = category_score (rs_matrix st) hk cat" if "hk \<in> set ?hotkeys" for hk cat
    using that by (simp add: m_def prune_score)
  show ?thesis
  proof (cases fin)
    case False
    then have "\<not> finished" "va_matrix va' = rs_matrix st" "va_scores va' = va_scores va"
      using noted True loop unfolding security_round_def round_due_def by auto
    with ok folded show ?thesis by simp
  next
    case fin: True
    then have va': "finished" "va_matrix va' = m"
      "va_scores va' = update_from_rewards (recompute_all_scores ctx ?hotkeys m) (va_scores va)"
      using noted True loop unfolding security_round_def round_due_def m_def by (auto simp: Let_def)
    have "va_scores va' ! uid = (if ?hotkeys ! uid \<in> set (dkeys (cs_cells m)) then standing ctx m (?hotkeys ! uid)
        else va_scores va ! uid)" if "uid < length (va_scores va)" "uid < length ?hotkeys" for uid
      using update_from_rewards_nth [OF recompute_keys that(1), of ctx ?hotkeys m]
        recompute_lookup [OF assms(2) that(2), of ctx m] va'(3) by simp
    then show ?thesis
      using True va' m_ok standing_unit [OF m_ok] m_score folded by (auto simp: update_length)
  qed
qed

text \<open>C33: The scores follow the matrix, and the matrix only real verdicts.  For whatever miners answer,
  evaluated through either way of submission: the matrix stays one of averages between 0 and 1; what a
  hotkey that is still registered has in it after the round is what the evaluations made in this round,
  folded in their order into the cells it had before, leave there; so a miner for whom every evaluation
  that was made raised or failed on the validator's side keeps each of its cells as it was; and a
  round that finishes sets the score of every uid whose hotkey has a row to exactly that hotkey's
  fresh standing, a number between 0 and 1, and leaves every other score alone.  A round that
  is not due, or that raises, changes no score at all.\<close>

theorem scores_follow_the_matrix:
  assumes "matrix_ok (va_matrix va)" "distinct (rc_hotkeys ctx (length (zip uids answers)))"
    and "security_round ctx interval (\<lambda>i. evaluate_candidate (ctxs i)) uids answers (w, va) = (finished, w', va', pending)"
  shows "matrix_ok (va_matrix va') \<and>
    (\<not> (round_due ctx interval uids va \<and> finished) \<longrightarrow> va_scores va' = va_scores va) \<and>
    (round_due ctx interval uids va \<and> finished \<longrightarrow>
      length (va_scores va') = length (va_scores va) \<and>
      (\<forall>uid hk. uid < length (va_scores va) \<and> uid < length (rc_hotkeys ctx (length (zip uids answers))) \<and>
         hk = rc_hotkeys ctx (length (zip uids answers)) ! uid \<longrightarrow>
         0 \<le> standing ctx (va_matrix va') hk \<and> standing ctx (va_matrix va') hk \<le> 1 \<and>
         va_scores va' ! uid =
           (if hk \<in> set (dkeys (cs_cells (va_matrix va'))) then standing ctx (va_matrix va') hk else va_scores va ! uid))) \<and>
    (\<forall>hk cat. hk \<in> set (rc_hotkeys ctx (length (zip uids answers))) \<longrightarrow>
       category_score (va_matrix va') hk cat =
       category_score (fold (fold_evaluation ctx)
         (evaluations_made ctx interval (\<lambda>i. evaluate_candidate (ctxs i)) uids answers (w, va)) (va_matrix va)) hk cat) \<and>
    (\<forall>hk cat. hk \<in> set (rc_hotkeys ctx (length (zip uids answers))) \<and>
       list_all (\<lambda>(_, h, res). h \<noteq> hk \<or> our_failure res)
         (evaluations_made ctx interval (\<lambda>i. evaluate_candidate (ctxs i)) uids answers (w, va)) \<longrightarrow>
       category_score (va_matrix va') hk cat = category_score (va_matrix va) hk cat)"
proof -
  let ?eval = "\<lambda>i. evaluate_candidate (ctxs i)"
  let ?hotkeys = "rc_hotkeys ctx (length (zip uids answers))"
  let ?es = "evaluations_made ctx interval ?eval uids answers (w, va)"
  let ?folded = "fold (fold_evaluation ctx) ?es (va_matrix va)"
  obtain f w1 es va1 p where noted: "security_round ctx interval (noted ?eval) uids answers ((w, []), va) = (f, (w1, es), va1, p)"
    by (metis prod.exhaust)
  then have same: "(f, w1, va1, p) = (finished, w', va', pending)" and es: "?es = es"
    using logged_round [OF noted_keeps_a_log, of ctx interval ?eval uids answers w va "[]"] assms(3)
    by (simp_all add: evaluations_made_def)
  have main: "matrix_ok (va_matrix va') \<and> (\<not> (round_due ctx interval uids va \<and> finished) \<longrightarrow> va_scores va' = va_scores va) \<and>
    (round_due ctx interval uids va \<and> finished \<longrightarrow>
      length (va_scores va') = length (va_scores va) \<and>
      (\<forall>uid hk. uid < length (va_scores va) \<and> uid < length ?hotkeys \<and> hk = ?hotkeys ! uid \<longrightarrow>
         0 \<le> standing ctx (va_matrix va') hk \<and> standing ctx (va_matrix va') hk \<le> 1 \<and>
         va_scores va' ! uid =
           (if hk \<in> set (dkeys (cs_cells (va_matrix va'))) then standing ctx (va_matrix va') hk else va_scores va ! uid))) \<and>
    (\<forall>hk cat. hk \<in> set ?hotkeys \<longrightarrow> category_score (va_matrix va') hk cat = category_score ?folded hk cat)"
    using round_result [OF assms] noted same es by simp
  show ?thesis
  proof (intro conjI allI impI)
    fix hk cat
    assume hk: "hk \<in> set ?hotkeys \<and> list_all (\<lambda>(_, h, res). h \<noteq> hk \<or> our_failure res) ?es"
    with main fold_evaluation_spares [of hk ?es ctx "va_matrix va" cat]
    show "category_score (va_matrix va') hk cat = category_score (va_matrix va) hk cat" by simp
  qed (use main in blast)+
qed

text \<open>A miner that solved its category long ago and no longer answers.\<close>

definition idle_context :: round_context where
  "idle_context = \<lparr>rc_now = 5000, rc_budget_s = 240, rc_freshness_s = 1800, rc_categories = [''sqli''],
     rc_hotkeys = (\<lambda>_. [''alice'', ''bob'']), rc_elapsed = (\<lambda>_. 0), rc_clock = (\<lambda>_. 5001), rc_client = None, rc_min_score = MARKETPLACE_MIN_SCORE,
     rc_tolerance = MARKETPLACE_SCORE_TOLERANCE, rc_netuid = 501, rc_own_hotkey = ''v'', rc_isoformat = (\<lambda>_. [])\<rparr>"

definition idle_validator :: validator_state where
  "idle_validator = \<lparr>va_matrix = snd (update_cell (no_scores (1 / 2)) ''alice'' ''sqli'' 1 0), va_listed = [],
     va_scores = [1, 1 / 2], va_last_round_at = 0\<rparr>"

definition sample_eval_context :: eval_context where
  "sample_eval_context = \<lparr>ec_pipeline = sample_env, ec_services = sample_services, ec_job = sample_job_env,
     ec_draws = sample_draws, ec_received_at = ''now'', ec_download = (\<lambda>_. []), ec_decrypt = (\<lambda>_ _. None),
     ec_private_key = ''k'', ec_file = (\<lambda>_. sample_file), ec_float_text = (\<lambda>_. []), ec_failure_text = (\<lambda>_. []),
     ec_stage_text = (\<lambda>_. [])\<rparr>"

text \<open>The blob of its offer cannot be fetched.\<close>

definition offline_context :: eval_context where
  "offline_context = sample_eval_context\<lparr>ec_download := (\<lambda>_. [Fetch_Raised ''URLError''])\<rparr>"

definition blob_offer :: response where
  "blob_offer = \<lparr>rp_has_agent = Some True, rp_blob_url = ''http://m/blob'', rp_image_ref = [], rp_ciphertext_sha256 = []\<rparr>"

theorem scores_follow_the_matrix_witness:
  "\<exists>finished w' va' pending.
     security_round idle_context 300 (\<lambda>i. evaluate_candidate offline_context) [0] [blob_offer]
       ((empty_db, [], []), idle_validator) = (finished, w', va', pending) \<and>
     va_scores va' ! 0 = 0 \<and> category_score (va_matrix va') ''alice'' ''sqli'' = Some 1 \<and>
     evaluations_made idle_context 300 (\<lambda>i. evaluate_candidate offline_context) [0] [blob_offer]
       ((empty_db, [], []), idle_validator) = [(0, ''alice'', Inr (unscored None ''download_failed:URLError'' None))]"
proof -
  let ?eval = "\<lambda>i. evaluate_candidate offline_context"
  let ?run = "security_round idle_context 300 ?eval [0] [blob_offer] ((empty_db, [], []), idle_validator)"
  have ok: "matrix_ok (va_matrix idle_validator)"
    unfolding idle_validator_def validator_state.select_convs
    by (rule matrix_ok_update) (simp_all add: matrix_ok_def no_scores_def category_score_def row_of_def)
  obtain finished w' va' pending where run: "?run = (finished, w', va', pending)" by (cases ?run) auto
  have cand: "candidate_of blob_offer = Some (Blob ''http://m/blob'' [])" by code_simp
  have lost: "evaluate_candidate offline_context (Blob ''http://m/blob'' []) hk w =
      (Inr (unscored None ''download_failed:URLError'' None), w)" for hk w
    by (simp add: evaluate_candidate_def evaluate_blob_def download_blob_def offline_context_def)
  have es: "evaluations_made idle_context 300 ?eval [0] [blob_offer] ((empty_db, [], []), idle_validator) =
      [(0, ''alice'', Inr (unscored None ''download_failed:URLError'' None))]"
    using cand by (simp add: evaluations_made_def security_round_def idle_context_def idle_validator_def Let_def
        noted_def lost blob_offer_def fold_outcome_def unscored_def)
  have fin: finished
    using run cand by (auto simp: security_round_def idle_context_def idle_validator_def Let_def lost
        fold_outcome_def unscored_def blob_offer_def split: if_splits)
  have due: "round_due idle_context 300 [0] idle_validator" by code_simp
  have dist: "distinct (rc_hotkeys idle_context (length (zip [0 :: nat] [blob_offer])))" by (simp add: idle_context_def)
  have hk: "rc_hotkeys idle_context n = [''alice'', ''bob'']" for n by (simp add: idle_context_def)
  have len: "length (va_scores idle_validator) = 2" by (simp add: idle_validator_def)
  note props = scores_follow_the_matrix [OF ok dist run, unfolded es]
  have before: "category_score (va_matrix idle_validator) ''alice'' ''sqli'' = Some 1" by code_simp
  have kept: "category_score (va_matrix va') ''alice'' ''sqli'' = Some 1"
    using props [THEN conjunct2, THEN conjunct2, THEN conjunct2, THEN conjunct2, rule_format, of "''alice''" "''sqli''"]
    by (simp add: hk our_failure_def unscored_def before)
  have pruned: "va_matrix va' = prune (va_matrix idle_validator) [''alice'', ''bob'']"
    using run cand by (auto simp: security_round_def idle_context_def idle_validator_def Let_def lost
        fold_outcome_def unscored_def blob_offer_def split: if_splits)
  have stale: "standing idle_context (prune (va_matrix idle_validator) [''alice'', ''bob'']) ''alice'' = 0"
    "''alice'' \<in> set (dkeys (cs_cells (prune (va_matrix idle_validator) [''alice'', ''bob''])))" by code_simp+
  from props due fin have "\<forall>uid hk. uid < length (va_scores idle_validator) \<and>
      uid < length (rc_hotkeys idle_context (length (zip [0 :: nat] [blob_offer]))) \<and>
      hk = rc_hotkeys idle_context (length (zip [0 :: nat] [blob_offer])) ! uid \<longrightarrow>
      0 \<le> standing idle_context (va_matrix va') hk \<and> standing idle_context (va_matrix va') hk \<le> 1 \<and>
      va_scores va' ! uid = (if hk \<in> set (dkeys (cs_cells (va_matrix va'))) then standing idle_context (va_matrix va') hk
        else va_scores idle_validator ! uid)" by blast
  from this [rule_format, of 0 "''alice''"] have "va_scores va' ! 0 = 0"
    by (simp add: hk len pruned stale(1) stale(2) [simplified])
  with run kept es show ?thesis by blast
qed

text \<open>At most one round is in flight: \<open>forward\<close> never starts a second one, and always starts one that is over.\<close>

lemma forward_step_starts: "snd (forward_step t) \<longleftrightarrow> t \<noteq> In_Flight"
  by (simp add: forward_step_def split: round_task.split)

end
