(* ===== verification/Agent_Transport.thy ===== *)
theory Agent_Transport
  imports Miner Security_Round
begin

text \<open>
  Sealing: \<open>masxai/agent_crypto.py\<close> and \<open>masxai/llm_key_crypto.py\<close>, the blob server of
  \<open>masxai/agent_blob.py\<close> as \<open>neurons/security_miner.py\<close> starts it, and the way of an agent from the miner
  to the validator.  Bytes are characters; NaCl is a record of functions.
\<close>

section \<open>Base64\<close>

text \<open>\<open>base64.b64encode\<close> and the strict \<open>base64.b64decode(validate=True)\<close>.\<close>

definition b64_char :: "nat \<Rightarrow> char" where
  "b64_char n = char_of (if n < 26 then 65 + n else if n < 52 then 71 + n
     else if n < 62 then n - 4 else if n = 62 then 43 else 47 :: nat)"

definition b64_digit :: "char \<Rightarrow> nat option" where
  "b64_digit ch = (let c = code ch in
     if 65 \<le> c \<and> c \<le> 90 then Some (c - 65) else if 97 \<le> c \<and> c \<le> 122 then Some (c - 71)
     else if 48 \<le> c \<and> c \<le> 57 then Some (c + 4) else if c = 43 then Some 62
     else if c = 47 then Some 63 else None)"

fun b64_encode :: "nat list \<Rightarrow> string" where
  "b64_encode [] = []"
| "b64_encode [a] = [b64_char (a div 4), b64_char (a mod 4 * 16), CHR ''='', CHR ''='']"
| "b64_encode [a, b] = [b64_char (a div 4), b64_char (a mod 4 * 16 + b div 16), b64_char (b mod 16 * 4), CHR ''='']"
| "b64_encode (a # b # c # rest) =
     b64_char (a div 4) # b64_char (a mod 4 * 16 + b div 16) # b64_char (b mod 16 * 4 + c div 64) #
     b64_char (c mod 64) # b64_encode rest"

definition b64encode :: "string \<Rightarrow> string" where
  "b64encode s = b64_encode (map code s)"

fun b64_decode :: "string \<Rightarrow> nat list option" where
  "b64_decode [] = Some []"
| "b64_decode (p # q # r # s # rest) =
     (case (b64_digit p, b64_digit q) of
        (Some x, Some y) \<Rightarrow>
          if r = CHR ''='' \<and> s = CHR ''='' \<and> rest = [] then Some [x * 4 + y div 16]
          else (case b64_digit r of
              None \<Rightarrow> None
            | Some z \<Rightarrow>
                if s = CHR ''='' \<and> rest = [] then Some [x * 4 + y div 16, y mod 16 * 16 + z div 4]
                else (case b64_digit s of
                    None \<Rightarrow> None
                  | Some w \<Rightarrow> map_option (\<lambda>bs. (x * 4 + y div 16) # (y mod 16 * 16 + z div 4) # (z mod 4 * 64 + w) # bs)
                      (b64_decode rest)))
      | _ \<Rightarrow> None)"
| "b64_decode _ = None"

definition b64decode :: "string \<Rightarrow> string option" where
  "b64decode s = map_option (map char_of) (b64_decode s)"

section \<open>Keys and sealing\<close>

text \<open>
  NaCl: the public half of a private key, which bytes are a key, sealing for a public key with a fresh
  ephemeral key, and opening with a private key.
\<close>

record sealed_box =
  sb_public :: "string \<Rightarrow> string"
  sb_key_ok :: "string \<Rightarrow> bool"
  sb_seal :: "nat \<Rightarrow> string \<Rightarrow> string \<Rightarrow> string"
  sb_open :: "string \<Rightarrow> string \<Rightarrow> string option"

text \<open>\<open>None\<close> is an \<open>AgentCryptoError\<close> throughout.\<close>

definition load_key :: "sealed_box \<Rightarrow> string \<Rightarrow> string option" where
  "load_key box key_b64 = (case b64decode key_b64 of
      None \<Rightarrow> None
    | Some raw \<Rightarrow> if sb_key_ok box raw then Some raw else None)"

definition generate_keypair :: "sealed_box \<Rightarrow> string \<Rightarrow> string \<times> string" where
  "generate_keypair box drawn = (b64encode drawn, b64encode (sb_public box drawn))"

definition public_key_b64 :: "sealed_box \<Rightarrow> string \<Rightarrow> string option" where
  "public_key_b64 box private_key_b64 = map_option (\<lambda>sk. b64encode (sb_public box sk)) (load_key box private_key_b64)"

definition encrypt_agent :: "sealed_box \<Rightarrow> nat \<Rightarrow> string \<Rightarrow> string \<Rightarrow> string option" where
  "encrypt_agent box nonce tar_bytes validator_pubkey_b64 =
     map_option (\<lambda>pk. sb_seal box nonce pk tar_bytes) (load_key box validator_pubkey_b64)"

definition decrypt_agent :: "sealed_box \<Rightarrow> string \<Rightarrow> string \<Rightarrow> string option" where
  "decrypt_agent box blob private_key_b64 = (case load_key box private_key_b64 of
      None \<Rightarrow> None
    | Some sk \<Rightarrow> sb_open box sk blob)"

definition utf8 :: "string \<Rightarrow> string" where
  "utf8 s = concat (map (\<lambda>c. map char_of (utf8_bytes (code c))) s)"

definition encrypt_for_protocol :: "sealed_box \<Rightarrow> nat \<Rightarrow> string \<Rightarrow> string \<Rightarrow> string option" where
  "encrypt_for_protocol box nonce raw_key protocol_pubkey_b64 =
     map_option (\<lambda>pk. b64encode (sb_seal box nonce pk (utf8 raw_key))) (load_key box protocol_pubkey_b64)"

section \<open>The miner's blob server and gates\<close>

text \<open>\<open>_blob_host\<close>: the override, else the first advertised address that is not a wildcard.\<close>

definition blob_host :: "env \<Rightarrow> string option list \<Rightarrow> string option" where
  "blob_host e advertised =
     (let host = env_stripped e ''MASXAI_SECURITY_BLOB_HOST'' in
      if host \<noteq> [] then Some host
      else map_option the (find (\<lambda>ip. ip \<noteq> None \<and> the ip \<notin> {[], ''0.0.0.0'', ''[::]''}) advertised))"

definition SECURITY_BLOB_PORT :: int where "SECURITY_BLOB_PORT = 8912"

definition no_blobs :: blob_state where
  "no_blobs = \<lparr>bs_up = False, bs_host = [], bs_port = 0, bs_files = [], bs_tar = None, bs_blobs = []\<rparr>"

text \<open>A port that is no number raises out of the constructor; a port that is taken does not.\<close>

definition start_blob_server :: "env \<Rightarrow> string option list \<Rightarrow> (string \<Rightarrow> int \<Rightarrow> bool) \<Rightarrow> py_exc + blob_state" where
  "start_blob_server e advertised binds = (case blob_host e advertised of
      None \<Rightarrow> Inr no_blobs
    | Some host \<Rightarrow>
        (case (case e ''MASXAI_SECURITY_BLOB_PORT'' of None \<Rightarrow> Some SECURITY_BLOB_PORT | Some text \<Rightarrow> py_int text) of
           None \<Rightarrow> Inl ValueError
         | Some port \<Rightarrow> Inr (if binds host port then no_blobs\<lparr>bs_up := True, bs_host := host, bs_port := port\<rparr> else no_blobs)))"

definition new_security_miner :: "env \<Rightarrow> string option list \<Rightarrow> (string \<Rightarrow> int \<Rightarrow> bool) \<Rightarrow> py_exc + blob_state" where
  "new_security_miner e advertised binds =
     (if env_flag_not_off e ''MASXAI_SECURITY_AGENT_ENABLED'' False then start_blob_server e advertised binds
      else Inr no_blobs)"

definition security_blacklist :: "metagraph \<Rightarrow> string option \<Rightarrow> py_exc + gate" where
  "security_blacklist mg caller = require_validator mg caller"

definition security_priority :: "metagraph \<Rightarrow> rat list \<Rightarrow> string option \<Rightarrow> py_exc + rat" where
  "security_priority mg stake caller = stake_priority mg stake caller"

section \<open>Base64 round trip\<close>

lemma code_less: "code c < 256"
  by (rule nat_of_char_less_256)

lemma b64_digit_char: "n < 64 \<Longrightarrow> b64_digit (b64_char n) = Some n"
  by (auto simp: b64_digit_def b64_char_def Let_def)

lemma b64_char_pad: "n < 64 \<Longrightarrow> b64_char n \<noteq> CHR ''=''"
  using b64_digit_char [of n] by (auto simp: b64_digit_def)

lemma b64_char_space: "n < 64 \<Longrightarrow> \<not> is_space (b64_char n)"
  by (auto simp: is_space_def b64_char_def)

lemma b64_decode_encode: "\<forall>x \<in> set xs. x < 256 \<Longrightarrow> b64_decode (b64_encode xs) = Some xs"
proof (induction xs rule: b64_encode.induct)
  case (2 a)
  then have "a div 4 < 64" "a mod 4 * 16 < 64" by auto
  then show ?case by (simp add: b64_digit_char)
next
  case (3 a b)
  then have "a div 4 < 64" "a mod 4 * 16 + b div 16 < 64" "b mod 16 * 4 < 64" by auto
  moreover have "(a mod 4 * 16 + b div 16) div 16 = a mod 4" "(a mod 4 * 16 + b div 16) mod 16 = b div 16"
    using 3 by auto
  ultimately show ?case by (simp add: b64_digit_char b64_char_pad)
next
  case (4 a b c rest)
  then have lt: "a div 4 < 64" "a mod 4 * 16 + b div 16 < 64" "b mod 16 * 4 + c div 64 < 64" "c mod 64 < 64" by auto
  have "(a mod 4 * 16 + b div 16) div 16 = a mod 4" "(a mod 4 * 16 + b div 16) mod 16 = b div 16"
    "(b mod 16 * 4 + c div 64) div 4 = b mod 16" "(b mod 16 * 4 + c div 64) mod 4 = c div 64"
    using 4(2) by auto
  with lt 4 show ?case by (simp add: b64_digit_char b64_char_pad)
qed simp

lemma b64_roundtrip: "b64decode (b64encode s) = Some s"
proof -
  have "b64_decode (b64_encode (map code s)) = Some (map code s)"
    by (rule b64_decode_encode) (auto intro: code_less)
  then show ?thesis by (simp add: b64decode_def b64encode_def comp_def)
qed


lemma pad_space: "\<not> is_space (CHR ''='')"
  by (simp add: is_space_def)

lemma b64_encode_chars: "\<forall>x \<in> set xs. x < 256 \<Longrightarrow> c \<in> set (b64_encode xs) \<Longrightarrow> \<not> is_space c"
proof (induction xs rule: b64_encode.induct)
  case (2 a)
  then have "a div 4 < 64" "a mod 4 * 16 < 64" by auto
  with 2 show ?case by (auto simp: b64_char_space pad_space)
next
  case (3 a b)
  then have "a div 4 < 64" "a mod 4 * 16 + b div 16 < 64" "b mod 16 * 4 < 64" by auto
  with 3 show ?case by (auto simp: b64_char_space pad_space)
next
  case (4 a b c rest)
  then have "a div 4 < 64" "a mod 4 * 16 + b div 16 < 64" "b mod 16 * 4 + c div 64 < 64" "c mod 64 < 64" by auto
  with 4 show ?case by (auto simp: b64_char_space)
qed simp

lemma b64encode_stripped: "py_strip (b64encode s) = b64encode s"
proof (cases "b64encode s = []")
  case True
  then show ?thesis by (simp add: py_strip_idem_empty)
next
  case False
  have "\<not> is_space c" if "c \<in> set (b64encode s)" for c
    using that b64_encode_chars [of "map code s"] code_less by (auto simp: b64encode_def)
  with False show ?thesis by (intro py_strip_id) simp_all
qed

lemma b64encode_Nil: "b64encode s = [] \<longleftrightarrow> s = []"
  unfolding b64encode_def by (cases "map code s" rule: b64_encode.cases) auto

section \<open>Sealing round trip\<close>

text \<open>What NaCl documents: public halves are keys, and a private key opens what was sealed for its public half.\<close>

definition box_laws :: "sealed_box \<Rightarrow> bool" where
  "box_laws box \<longleftrightarrow> (\<forall>sk. sb_key_ok box sk \<longrightarrow> sk \<noteq> [] \<and> sb_key_ok box (sb_public box sk) \<and>
     (\<forall>nonce m. sb_open box sk (sb_seal box nonce (sb_public box sk) m) = Some m))"

lemma load_key_encoded: "load_key box (b64encode raw) = (if sb_key_ok box raw then Some raw else None)"
  by (simp add: load_key_def b64_roundtrip)

text \<open>A sealed agent opens again, with the key derived from the stored private one.\<close>

lemma sealed_agent_opens:
  assumes "box_laws box" "load_key box private_key_b64 = Some sk" "public_key_b64 box private_key_b64 = Some pub"
    and "encrypt_agent box nonce tar pub = Some blob"
  shows "decrypt_agent box blob private_key_b64 = Some tar"
proof -
  have "sb_key_ok box sk" using assms(2) by (auto simp: load_key_def split: option.splits if_splits)
  with assms show ?thesis
    by (auto simp: public_key_b64_def encrypt_agent_def decrypt_agent_def load_key_encoded box_laws_def)
qed

lemma generated_keypair_works:
  assumes "box_laws box" "sb_key_ok box drawn" "generate_keypair box drawn = (private_key_b64, pub)"
  shows "load_key box private_key_b64 = Some drawn \<and> public_key_b64 box private_key_b64 = Some pub"
  using assms by (auto simp: generate_keypair_def public_key_b64_def load_key_encoded)

section \<open>What the miner serves\<close>

text \<open>
  Every cached answer names a file that is there, has the announced hash, and is the current tarball
  sealed for the key it is cached under; \<open>ident\<close> gives the id each validator sends with its key, and
  \<open>keys\<close> are the validators' keys.
\<close>

definition blobs_served ::
  "sealed_box \<Rightarrow> (string \<Rightarrow> string) \<Rightarrow> (string \<Rightarrow> string) \<Rightarrow> string set \<Rightarrow> blob_state \<Rightarrow> bool" where
  "blobs_served box sha256 ident keys bs \<longleftrightarrow> (\<forall>pk tar_sha url cipher_sha.
     dget (bs_blobs bs) (pk, tar_sha) = Some (url, cipher_sha) \<longrightarrow> pk \<in> keys \<and>
     (\<exists>ref tar nonce blob. bs_tar bs = Some (ref, tar) \<and> tar_sha = sha256 tar \<and>
        url = blob_url_for bs (blob_name (ident pk) tar_sha) \<and> cipher_sha = sha256 blob \<and>
        dget (bs_files bs) (blob_name (ident pk) tar_sha) = Some blob \<and>
        encrypt_agent box nonce tar pk = Some blob))"

text \<open>The ids tell the keys apart within the part of them that names a file.\<close>

definition ids_distinguish :: "(string \<Rightarrow> string) \<Rightarrow> string set \<Rightarrow> bool" where
  "ids_distinguish ident keys \<longleftrightarrow> (\<forall>pk \<in> keys. ident pk \<noteq> []) \<and> inj_on (take 16 \<circ> ident) keys"

lemma blob_name_inj:
  assumes "ids_distinguish ident keys" "pk \<in> keys" "pk' \<in> keys" "blob_name (ident pk) sha = blob_name (ident pk') sha"
  shows "pk = pk'"
proof -
  have "ident pk \<noteq> []" "ident pk' \<noteq> []" using assms(1-3) by (simp_all add: ids_distinguish_def)
  then have "take 16 (ident pk) @ (''-'' @ take 12 sha @ ''.enc'') = take 16 (ident pk') @ (''-'' @ take 12 sha @ ''.enc'')"
    using assms(4) by (simp only: blob_name_def if_False)
  then have "take 16 (ident pk) = take 16 (ident pk')" by (rule append_same_eq [THEN iffD1])
  with assms(1-3) show ?thesis by (auto simp: ids_distinguish_def inj_on_def)
qed

lemma blob_url_for_cong:
  assumes "bs_host a = bs_host b" "bs_port a = bs_port b"
  shows "blob_url_for a = blob_url_for b"
  by (rule ext) (simp only: blob_url_for_def assms)

lemma blob_url_for_same [simp]:
  "blob_url_for (bs\<lparr>bs_files := f\<rparr>) = blob_url_for bs" "blob_url_for (bs\<lparr>bs_tar := t\<rparr>) = blob_url_for bs"
  "blob_url_for (bs\<lparr>bs_blobs := b\<rparr>) = blob_url_for bs"
  by (rule blob_url_for_cong; simp)+

text \<open>The answer of \<open>_agent_blob_for\<close> and the state after it.\<close>

definition delivered ::
  "sealed_box \<Rightarrow> (string \<Rightarrow> string) \<Rightarrow> (string \<Rightarrow> string) \<Rightarrow> string \<Rightarrow> string \<Rightarrow> string \<times> string \<Rightarrow> blob_state \<Rightarrow> bool" where
  "delivered box sha256 ident image_ref pk answer bs \<longleftrightarrow> (\<exists>tar nonce blob. bs_tar bs = Some (image_ref, tar) \<and>
     answer = (blob_url_for bs (blob_name (ident pk) (sha256 tar)), sha256 blob) \<and>
     dget (bs_files bs) (blob_name (ident pk) (sha256 tar)) = Some blob \<and>
     encrypt_agent box nonce tar pk = Some blob)"


text \<open>The second half of \<open>_agent_blob_for\<close>, with the tarball at hand.\<close>

definition cached_or_sealed ::
  "(string \<Rightarrow> string) \<Rightarrow> (string \<Rightarrow> string \<Rightarrow> string option) \<Rightarrow> string \<Rightarrow> string \<Rightarrow> string \<Rightarrow> blob_state
     \<Rightarrow> (string + string \<times> string) \<times> blob_state" where
  "cached_or_sealed sha256 encrypt pk pid tar bs = (case dget (bs_blobs bs) (pk, sha256 tar) of
      Some cached \<Rightarrow> (Inr cached, bs)
    | None \<Rightarrow>
        (case encrypt tar pk of
           None \<Rightarrow> (Inl ''encryption failed'', bs)
         | Some blob \<Rightarrow>
             (let (url, bs) = publish_blob blob (blob_name pid (sha256 tar)) bs;
                  answer = (url, sha256 blob)
              in (Inr answer, bs\<lparr>bs_blobs := dput (pk, sha256 tar) answer (bs_blobs bs)\<rparr>))))"

lemma agent_blob_for_parts:
  "agent_blob_for save sha256 encrypt image_ref pk pid bs =
     (case (if \<exists>tar. bs_tar bs = Some (image_ref, tar) then Inr (snd (the (bs_tar bs)), bs)
            else map_sum id (\<lambda>tar. (tar, bs\<lparr>bs_tar := Some (image_ref, tar), bs_blobs := []\<rparr>)) (save image_ref)) of
        Inl m \<Rightarrow> (Inl m, bs)
      | Inr (tar, bs) \<Rightarrow> cached_or_sealed sha256 encrypt pk pid tar bs)"
  by (simp add: agent_blob_for_def cached_or_sealed_def Let_def split: option.split sum.split prod.split)

text \<open>The tarball is the configured image's, and the caches agree with it.\<close>

lemma saved_tarball:
  assumes "blobs_served box sha256 ident keys bs"
    and "agent_blob_for save sha256 encrypt image_ref pk pid bs = (Inr answer, bs')"
  shows "\<exists>tar bs1. bs_tar bs1 = Some (image_ref, tar) \<and> blobs_served box sha256 ident keys bs1 \<and>
    (bs_tar bs = Some (image_ref, tar) \<or> save image_ref = Inr tar) \<and>
    cached_or_sealed sha256 encrypt pk pid tar bs1 = (Inr answer, bs')"
proof (cases "\<exists>tar. bs_tar bs = Some (image_ref, tar)")
  case True
  then obtain tar where "bs_tar bs = Some (image_ref, tar)" ..
  with assms show ?thesis by (auto simp: agent_blob_for_parts)
next
  case False
  with assms(2) obtain tar where tar: "save image_ref = Inr tar"
    by (cases "save image_ref") (auto simp: agent_blob_for_parts)
  let ?bs = "bs\<lparr>bs_tar := Some (image_ref, tar), bs_blobs := []\<rparr>"
  have "blobs_served box sha256 ident keys ?bs" by (simp add: blobs_served_def)
  moreover have "cached_or_sealed sha256 encrypt pk pid tar ?bs = (Inr answer, bs')"
    using assms(2) False tar by (simp add: agent_blob_for_parts)
  ultimately show ?thesis using tar by (intro exI [of _ tar] exI [of _ ?bs]) simp
qed

lemma blobs_servedD:
  assumes "blobs_served box sha256 ident keys bs" "dget (bs_blobs bs) (pk, tar_sha) = Some (url, c)"
    "bs_tar bs = Some (ref, tar)"
  obtains nonce blob where "pk \<in> keys" "tar_sha = sha256 tar" "url = blob_url_for bs (blob_name (ident pk) tar_sha)"
    "c = sha256 blob" "dget (bs_files bs) (blob_name (ident pk) tar_sha) = Some blob" "encrypt_agent box nonce tar pk = Some blob"
  using assms(1) [unfolded blobs_served_def, rule_format, OF assms(2)] assms(3) by auto

text \<open>A blob served from the cache, and one that is sealed and published now.\<close>

lemma cached_blob_delivered:
  assumes "blobs_served box sha256 ident keys bs" "bs_tar bs = Some (image_ref, tar)"
    "dget (bs_blobs bs) (pk, sha256 tar) = Some cached"
  shows "delivered box sha256 ident image_ref pk cached bs"
proof -
  obtain url cipher_sha where c: "cached = (url, cipher_sha)" by (cases cached)
  from blobs_servedD [OF assms(1) assms(3) [unfolded c] assms(2)]
  obtain nonce blob where "url = blob_url_for bs (blob_name (ident pk) (sha256 tar))" "cipher_sha = sha256 blob"
    "dget (bs_files bs) (blob_name (ident pk) (sha256 tar)) = Some blob" "encrypt_agent box nonce tar pk = Some blob"
    by metis
  with assms(2) show ?thesis unfolding c delivered_def by blast
qed

definition published_blob ::
  "(string \<Rightarrow> string) \<Rightarrow> (string \<Rightarrow> string) \<Rightarrow> string \<Rightarrow> string \<Rightarrow> string \<Rightarrow> blob_state \<Rightarrow> blob_state" where
  "published_blob sha256 ident pk tar blob bs =
     (let name = blob_name (ident pk) (sha256 tar) in
      bs\<lparr>bs_files := dput name blob (bs_files bs),
         bs_blobs := dput (pk, sha256 tar) (blob_url_for bs name, sha256 blob) (bs_blobs bs)\<rparr>)"

lemma published_blob_url [simp]: "blob_url_for (published_blob sha256 ident pk tar blob bs) = blob_url_for bs"
  by (rule blob_url_for_cong) (simp_all add: published_blob_def Let_def)

lemma published_blob_simps [simp]:
  "bs_tar (published_blob sha256 ident pk tar blob bs) = bs_tar bs"
  "bs_files (published_blob sha256 ident pk tar blob bs) = dput (blob_name (ident pk) (sha256 tar)) blob (bs_files bs)"
  "bs_blobs (published_blob sha256 ident pk tar blob bs) =
     dput (pk, sha256 tar) (blob_url_for bs (blob_name (ident pk) (sha256 tar)), sha256 blob) (bs_blobs bs)"
  by (simp_all add: published_blob_def Let_def)

lemma published_blob_served:
  assumes "blobs_served box sha256 ident keys bs" "ids_distinguish ident keys" "pk \<in> keys"
    "bs_tar bs = Some (image_ref, tar)" "encrypt_agent box nonce tar pk = Some blob"
  shows "blobs_served box sha256 ident keys (published_blob sha256 ident pk tar blob bs)" (is "blobs_served _ _ _ _ ?bs'")
  unfolding blobs_served_def
proof (intro allI impI)
  fix pk' tar_sha u c
  assume e: "dget (bs_blobs ?bs') (pk', tar_sha) = Some (u, c)"
  show "pk' \<in> keys \<and> (\<exists>ref tar nonce blob. bs_tar ?bs' = Some (ref, tar) \<and> tar_sha = sha256 tar \<and>
    u = blob_url_for ?bs' (blob_name (ident pk') tar_sha) \<and> c = sha256 blob \<and>
    dget (bs_files ?bs') (blob_name (ident pk') tar_sha) = Some blob \<and> encrypt_agent box nonce tar pk' = Some blob)"
  proof (cases "(pk', tar_sha) = (pk, sha256 tar)")
    case True
    with e have "u = blob_url_for bs (blob_name (ident pk) (sha256 tar))" "c = sha256 blob" by simp_all
    with True assms(3-5) show ?thesis by auto
  next
    case False
    with e have "dget (bs_blobs bs) (pk', tar_sha) = Some (u, c)" by (auto simp: dict_simps)
    from blobs_servedD [OF assms(1) this assms(4)] obtain nonce' blob'
      where o: "pk' \<in> keys" "tar_sha = sha256 tar" "u = blob_url_for bs (blob_name (ident pk') tar_sha)" "c = sha256 blob'"
        "dget (bs_files bs) (blob_name (ident pk') tar_sha) = Some blob'" "encrypt_agent box nonce' tar pk' = Some blob'"
      by metis
    with False have "blob_name (ident pk') tar_sha \<noteq> blob_name (ident pk) (sha256 tar)"
      using blob_name_inj [OF assms(2) o(1) assms(3)] by metis
    with o assms(4) show ?thesis by (auto simp: dict_simps)
  qed
qed

lemma agent_blob_delivered:
  assumes "blobs_served box sha256 ident keys bs" "ids_distinguish ident keys" "pk \<in> keys"
    and "agent_blob_for save sha256 (encrypt_agent box nonce) image_ref pk (ident pk) bs = (Inr answer, bs')"
  shows "delivered box sha256 ident image_ref pk answer bs' \<and> blobs_served box sha256 ident keys bs' \<and>
    (\<exists>tar. bs_tar bs' = Some (image_ref, tar) \<and> (bs_tar bs = Some (image_ref, tar) \<or> save image_ref = Inr tar))"
proof -
  from saved_tarball [OF assms(1,4)] obtain tar bs1
    where tar: "bs_tar bs1 = Some (image_ref, tar)" and served: "blobs_served box sha256 ident keys bs1"
    and source: "bs_tar bs = Some (image_ref, tar) \<or> save image_ref = Inr tar"
    and rest: "cached_or_sealed sha256 (encrypt_agent box nonce) pk (ident pk) tar bs1 = (Inr answer, bs')"
    by blast
  show ?thesis
  proof (cases "dget (bs_blobs bs1) (pk, sha256 tar)")
    case (Some cached)
    then have "answer = cached" "bs' = bs1" using rest by (simp_all add: cached_or_sealed_def)
    with cached_blob_delivered [OF served tar Some] served tar source show ?thesis by simp
  next
    case None
    with rest obtain blob where blob: "encrypt_agent box nonce tar pk = Some blob"
      by (auto simp: cached_or_sealed_def split: option.splits)
    have a: "answer = (blob_url_for bs1 (blob_name (ident pk) (sha256 tar)), sha256 blob)"
      and b: "bs' = published_blob sha256 ident pk tar blob bs1"
      using rest None blob by (auto simp: cached_or_sealed_def publish_blob_def published_blob_def Let_def)
    have "delivered box sha256 ident image_ref pk answer bs'"
      using tar blob unfolding delivered_def a b by auto
    with published_blob_served [OF served assms(2,3) tar blob] tar source show ?thesis by (simp add: b)
  qed
qed


section \<open>From the miner to the validator\<close>

lemma read_chunks_all:
  assumes "[] \<notin> set chunks" "seen + int (length (concat chunks)) \<le> int SECURITY_BLOB_MAX_BYTES" "0 \<le> seen"
  shows "read_chunks seen (map Chunk chunks) = Inr (concat chunks)"
  using assms
proof (induction chunks arbitrary: seen)
  case (Cons c chunks)
  have "read_chunks (seen + int (length c)) (map Chunk chunks) = Inr (concat chunks)"
    by (rule Cons.IH) (use Cons.prems in auto)
  with Cons.prems show ?case by auto
qed simp

text \<open>The web: what is hosted under a name can be downloaded, in blocks, and fits the validator's cap.\<close>

definition web_ok :: "eval_context \<Rightarrow> blob_state \<Rightarrow> bool" where
  "web_ok ctx bs \<longleftrightarrow> (\<forall>name blob. dget (bs_files bs) name = Some blob \<longrightarrow>
     length blob \<le> SECURITY_BLOB_MAX_BYTES \<and>
     (\<exists>chunks. ec_download ctx (blob_url_for bs name) = map Chunk chunks \<and> [] \<notin> set chunks \<and> concat chunks = blob))"

lemma download_hosted:
  assumes "web_ok ctx bs" "dget (bs_files bs) name = Some blob"
  shows "download_blob ctx (blob_url_for bs name) = Inr blob"
proof -
  from assms obtain chunks where c: "ec_download ctx (blob_url_for bs name) = map Chunk chunks" "[] \<notin> set chunks"
    "concat chunks = blob" "length blob \<le> SECURITY_BLOB_MAX_BYTES" by (auto simp: web_ok_def)
  then show ?thesis using read_chunks_all [of chunks 0] by (simp add: download_blob_def)
qed

lemma security_forward_blob:
  assumes "security_forward save sha256 encrypt e pub pid bs = (ans, bs')" "an_blob_url ans \<noteq> []"
  shows "agent_blob_for save sha256 encrypt (env_stripped e ''MASXAI_SECURITY_AGENT_IMAGE'') (py_strip pub) pid bs =
    (Inr (an_blob_url ans, an_ciphertext_sha256 ans), bs')"
  using assms by (auto simp: security_forward_def no_agent_def Let_def split: if_splits prod.splits sum.splits)

text \<open>C38: A published agent reaches the validator, and only as what the miner saved.  When a miner that has so
  far only answered validators with distinguishable ids answers this validator's ask with a blob, the
  validator's evaluation of that answer is the evaluation of exactly the tarball \<open>docker save\<close> gave for
  the configured image (now, or earlier for the same image): base64 keys, sealing, hosting, caching,
  chunked download, hash check and opening lose and change nothing.  The miner's caches stay right.\<close>

theorem published_agent_reaches_the_validator:
  assumes "box_laws box" "load_key box (ec_private_key ctx) = Some sk"
    and "public_key_b64 box (ec_private_key ctx) = Some pub"
    and "ec_decrypt ctx = decrypt_agent box" "pe_sha256 (ec_pipeline ctx) = sha256"
    and "ids_distinguish ident keys" "pub \<in> keys" "blobs_served box sha256 ident keys bs"
    and "security_forward save sha256 (encrypt_agent box nonce) e pub (ident pub) bs = (ans, bs')"
    and "an_blob_url ans \<noteq> []" "web_ok ctx bs'"
  shows "\<exists>tar. (bs_tar bs = Some (env_stripped e ''MASXAI_SECURITY_AGENT_IMAGE'', tar) \<or>
      save (env_stripped e ''MASXAI_SECURITY_AGENT_IMAGE'') = Inr tar) \<and>
    evaluate_blob ctx (an_blob_url ans) (an_ciphertext_sha256 ans) miner_id s =
      evaluate_tarball ctx (ec_file ctx tar) miner_id s \<and>
    blobs_served box sha256 ident keys bs'"
proof -
  let ?image = "env_stripped e ''MASXAI_SECURITY_AGENT_IMAGE''"
  obtain raw where pub: "pub = b64encode raw" using assms(3) by (auto simp: public_key_b64_def)
  have "agent_blob_for save sha256 (encrypt_agent box nonce) ?image pub (ident pub) bs =
      (Inr (an_blob_url ans, an_ciphertext_sha256 ans), bs')"
    using security_forward_blob [OF assms(9,10)] by (simp add: pub b64encode_stripped)
  note d = agent_blob_delivered [OF assms(8,6,7) this]
  then obtain tar nonce' blob where tar: "bs_tar bs' = Some (?image, tar)"
    and url: "an_blob_url ans = blob_url_for bs' (blob_name (ident pub) (sha256 tar))"
    and sha: "an_ciphertext_sha256 ans = sha256 blob"
    and hosted: "dget (bs_files bs') (blob_name (ident pub) (sha256 tar)) = Some blob"
    and sealed: "encrypt_agent box nonce' tar pub = Some blob"
    by (auto simp: delivered_def)
  have "download_blob ctx (an_blob_url ans) = Inr blob"
    unfolding url by (rule download_hosted [OF assms(11) hosted])
  moreover have "ec_decrypt ctx blob (ec_private_key ctx) = Some tar"
    using sealed_agent_opens [OF assms(1,2,3) sealed] assms(4) by simp
  ultimately have "evaluate_blob ctx (an_blob_url ans) (an_ciphertext_sha256 ans) miner_id s =
      evaluate_tarball ctx (ec_file ctx tar) miner_id s"
    using assms(5) sha by (simp add: evaluate_blob_def)
  with d tar show ?thesis by auto
qed

text \<open>A toy cipher that satisfies the laws, and a miner asked for the first time.\<close>

definition toy_box :: sealed_box where
  "toy_box = \<lparr>sb_public = (\<lambda>sk. sk), sb_key_ok = (\<lambda>k. k \<noteq> []), sb_seal = (\<lambda>nonce pk m. pk @ m),
     sb_open = (\<lambda>sk blob. if take (length sk) blob = sk then Some (drop (length sk) blob) else None)\<rparr>"

definition toy_env :: env where
  "toy_env = [''MASXAI_SECURITY_AGENT_ENABLED'' \<mapsto> ''1'', ''MASXAI_SECURITY_AGENT_IMAGE'' \<mapsto> ''agent'']"

definition toy_blobs :: blob_state where
  "toy_blobs = no_blobs\<lparr>bs_up := True, bs_host := ''h'', bs_port := 1\<rparr>"

definition toy_context :: eval_context where
  "toy_context = sample_eval_context\<lparr>ec_pipeline := sample_env\<lparr>pe_sha256 := (\<lambda>s. s)\<rparr>, ec_decrypt := decrypt_agent toy_box,
     ec_private_key := b64encode ''k'', ec_download := (\<lambda>url. [Chunk ''kt'', Chunk ''ar''])\<rparr>"

theorem published_agent_reaches_the_validator_witness:
  "\<exists>ans bs'. security_forward (\<lambda>_. Inr ''tar'') (\<lambda>s. s) (encrypt_agent toy_box 0) toy_env (b64encode ''k'') ''id'' toy_blobs
      = (ans, bs') \<and> an_blob_url ans \<noteq> [] \<and>
     evaluate_blob toy_context (an_blob_url ans) (an_ciphertext_sha256 ans) ''m'' (empty_db, [], []) =
       evaluate_tarball toy_context (ec_file toy_context ''tar'') ''m'' (empty_db, [], [])"
proof -
  let ?run = "security_forward (\<lambda>_. Inr ''tar'') (\<lambda>s. s) (encrypt_agent toy_box 0) toy_env (b64encode ''k'') ''id'' toy_blobs"
  have url: "an_blob_url (fst ?run) \<noteq> []" and files: "bs_files (snd ?run) = [(''id-tar.enc'', ''ktar'')]"
    by code_simp+
  have laws: "box_laws toy_box" by (simp add: box_laws_def toy_box_def)
  have key: "load_key toy_box (ec_private_key toy_context) = Some ''k''"
      "public_key_b64 toy_box (ec_private_key toy_context) = Some (b64encode ''k'')"
    by code_simp+
  have fields: "ec_decrypt toy_context = decrypt_agent toy_box" "pe_sha256 (ec_pipeline toy_context) = (\<lambda>s. s)"
    by (simp_all add: toy_context_def)
  have ids: "ids_distinguish (\<lambda>_. ''id'') {b64encode ''k''}" by (simp add: ids_distinguish_def)
  have served: "blobs_served toy_box (\<lambda>s. s) (\<lambda>_. ''id'') {b64encode ''k''} toy_blobs"
    by (simp add: blobs_served_def toy_blobs_def no_blobs_def)
  have web: "web_ok toy_context (snd ?run)"
    unfolding web_ok_def files
    by (auto simp: toy_context_def SECURITY_BLOB_MAX_BYTES_def intro!: exI [of _ "[''kt'', ''ar'']"])
  have "\<exists>tar. (bs_tar toy_blobs = Some (env_stripped toy_env ''MASXAI_SECURITY_AGENT_IMAGE'', tar) \<or>
      Inr ''tar'' = (Inr tar :: string + string)) \<and>
    evaluate_blob toy_context (an_blob_url (fst ?run)) (an_ciphertext_sha256 (fst ?run)) ''m'' (empty_db, [], []) =
      evaluate_tarball toy_context (ec_file toy_context tar) ''m'' (empty_db, [], []) \<and>
    blobs_served toy_box (\<lambda>s. s) (\<lambda>_. ''id'') {b64encode ''k''} (snd ?run)"
    by (rule published_agent_reaches_the_validator [OF laws key fields ids _ served])
      (use url web in simp_all)
  then show ?thesis using url by (intro exI [of _ "fst ?run"] exI [of _ "snd ?run"]) (auto simp: toy_blobs_def no_blobs_def)
qed

end
