(* ===== verification/Sqli_Target.thy ===== *)
theory Sqli_Target
  imports Job
begin

text \<open>
  \<open>secqurityVali/targets/sqli_v1/app.py\<close>: the deliberately vulnerable target.  SQLite, the JSON printer and
  the decoding of bytes that are not ASCII are arguments; a request target is in origin form, which
  \<open>BaseHTTPRequestHandler\<close> hands over as text starting with one slash.  Composed with \<open>Replay\<close>, the target
  shows that a blind replay confirms whatever recipe the agent sent.
\<close>

section \<open>Requests\<close>

text \<open>\<open>urllib.parse.unquote_to_bytes\<close>: a percent sign without two hexadecimal digits stays.\<close>

fun percent_decode :: "string \<Rightarrow> string" where
  "percent_decode (a # b # c # cs) =
     (if a = CHR ''%'' then
        (case (hex_value b, hex_value c) of
           (Some x, Some y) \<Rightarrow> char_of (16 * x + y) # percent_decode cs
         | _ \<Rightarrow> a # percent_decode (b # c # cs))
      else a # percent_decode (b # c # cs))"
| "percent_decode (a # cs) = a # percent_decode cs"
| "percent_decode [] = []"

definition only_ascii :: "string \<Rightarrow> bool" where
  "only_ascii s = list_all (\<lambda>c. code c < 128) s"

definition unquote_plus :: "(string \<Rightarrow> string) \<Rightarrow> string \<Rightarrow> string" where
  "unquote_plus other s =
     (let t = map (\<lambda>c. if c = CHR ''+'' then CHR '' '' else c) s; b = percent_decode t in
      if only_ascii b then b else other t)"

text \<open>\<open>parse_qs\<close> as the pairs in order: pieces without a sign or without a value are dropped.\<close>

definition parse_pair :: "(string \<Rightarrow> string) \<Rightarrow> string \<Rightarrow> (string \<times> string) list" where
  "parse_pair other piece =
     (case dropWhile (\<lambda>c. c \<noteq> CHR ''='') piece of
        [] \<Rightarrow> []
      | _ # v \<Rightarrow> if v = [] then [] else [(unquote_plus other (takeWhile (\<lambda>c. c \<noteq> CHR ''='') piece), unquote_plus other v)])"

definition parse_qs :: "(string \<Rightarrow> string) \<Rightarrow> string \<Rightarrow> (string \<times> string) list" where
  "parse_qs other query = concat (map (parse_pair other) (split_char (CHR ''&'') query))"

text \<open>\<open>urlparse\<close>: fragment off, query apart, and the parameters of the last segment off the path.\<close>

definition url_parts :: "string \<Rightarrow> string \<times> string" where
  "url_parts target =
     (let url = takeWhile (\<lambda>c. c \<noteq> CHR ''#'') target;
          path = takeWhile (\<lambda>c. c \<noteq> CHR ''?'') url;
          lead = rev (dropWhile (\<lambda>c. c \<noteq> CHR ''/'') (rev path));
          segment = rev (takeWhile (\<lambda>c. c \<noteq> CHR ''/'') (rev path))
      in (lead @ takeWhile (\<lambda>c. c \<noteq> CHR '';'') segment, drop 1 (dropWhile (\<lambda>c. c \<noteq> CHR ''?'') url)))"

section \<open>The application\<close>

record target_config =
  tg_canary :: string
  tg_secret_table :: string
  tg_secret_column :: string
  tg_vuln_endpoint :: string
  tg_vuln_param :: string
  tg_all_endpoints :: "string list"
  tg_error_trap :: string
  tg_variant :: string

text \<open>A statement with its bound parameters, and what SQLite makes of it: an error or the rows.\<close>

datatype sql_call = Sql string "string list"

type_synonym sql_engine = "sql_call \<Rightarrow> string + json list list"

text \<open>The statements of \<open>build_db\<close>, in order.\<close>

definition dq :: "string \<Rightarrow> string" where
  "dq s = [char_of (34 :: nat)] @ s @ [char_of (34 :: nat)]"

definition build_db :: "target_config \<Rightarrow> sql_call list" where
  "build_db cfg =
     [Sql ''CREATE TABLE products (id INTEGER, name TEXT, price REAL)'' [],
      Sql ''INSERT INTO products VALUES (?, ?, ?)'' [''1'', ''Widget'', ''9.99''],
      Sql ''INSERT INTO products VALUES (?, ?, ?)'' [''2'', ''Gadget'', ''19.99''],
      Sql ''INSERT INTO products VALUES (?, ?, ?)'' [''3'', ''Sprocket'', ''4.50''],
      Sql ''INSERT INTO products VALUES (?, ?, ?)'' [''4'', ''Cog'', ''2.25''],
      Sql (''CREATE TABLE '' @ dq (tg_secret_table cfg) @ '' (id INTEGER, '' @ dq (tg_secret_column cfg) @ '' TEXT)'') [],
      Sql (''INSERT INTO '' @ dq (tg_secret_table cfg) @ '' (id, '' @ dq (tg_secret_column cfg) @ '') VALUES (1, ?)'')
        [tg_canary cfg]]"

type_synonym target_reply = "nat \<times> json"

definition rows_json :: "json list list \<Rightarrow> json" where
  "rows_json rows = JList (map JList rows)"

definition vuln_union :: "sql_engine \<Rightarrow> string \<Rightarrow> bool \<Rightarrow> target_reply" where
  "vuln_union execute param numeric =
     (let query = (if numeric then ''SELECT id, name, price FROM products WHERE id = '' @ param
                   else ''SELECT id, name, price FROM products WHERE name LIKE '' @ [char_of (39 :: nat)] @ ''%'' @ param @
                     ''%'' @ [char_of (39 :: nat)])
      in case execute (Sql query []) of
          Inl e \<Rightarrow> (200, JDict [(''error'', JStr (''sql error: '' @ e)), (''query'', JStr query)])
        | Inr rows \<Rightarrow> (200, JDict [(''results'', rows_json rows)]))"

definition boolean_query :: "bool \<Rightarrow> string \<Rightarrow> string" where
  "boolean_query numeric param =
     (if numeric then ''SELECT 1 FROM products WHERE id = '' @ param @ '' LIMIT 1''
      else ''SELECT 1 FROM products WHERE name = '' @ [char_of (39 :: nat)] @ param @ [char_of (39 :: nat)] @ '' LIMIT 1'')"

definition vuln_boolean :: "sql_engine \<Rightarrow> string \<Rightarrow> bool \<Rightarrow> target_reply" where
  "vuln_boolean execute param numeric = (case execute (Sql (boolean_query numeric param) []) of
      Inl e \<Rightarrow> (200, JDict [(''error'', JStr (''sql error: '' @ e))])
    | Inr rows \<Rightarrow> (200, JDict [(''found'', JBool (rows \<noteq> []))]))"

definition vulnerable_search :: "target_config \<Rightarrow> sql_engine \<Rightarrow> (string \<times> string) list \<Rightarrow> target_reply" where
  "vulnerable_search cfg execute params =
     (let param = (case map_of params (tg_vuln_param cfg) of Some v \<Rightarrow> v | None \<Rightarrow> []);
          numeric = ends_with (tg_variant cfg) ''numeric''
      in if starts_with (tg_variant cfg) ''boolean'' then vuln_boolean execute param numeric
         else vuln_union execute param numeric)"

definition SEARCH_PARAMS :: "string list" where
  "SEARCH_PARAMS = [''q'', ''id'', ''name'', ''filter'', ''search'', ''query'']"

text \<open>A decoy: \<open>None\<close> if SQLite raised, which nothing catches.\<close>

definition safe_search :: "sql_engine \<Rightarrow> string \<Rightarrow> (string \<times> string) list \<Rightarrow> target_reply option" where
  "safe_search execute path params =
     (let param = (case find (\<lambda>n. map_of params n \<noteq> None) SEARCH_PARAMS of
                     Some n \<Rightarrow> the (map_of params n) | None \<Rightarrow> [])
      in case execute (Sql ''SELECT id, name, price FROM products WHERE name LIKE ?'' [''%'' @ param @ ''%'']) of
          Inl _ \<Rightarrow> None
        | Inr rows \<Rightarrow> Some (200, JDict [(''endpoint'', JStr path), (''results'', rows_json rows)]))"

definition error_trap :: "target_config \<Rightarrow> (string \<times> string) list \<Rightarrow> target_reply" where
  "error_trap cfg params =
     (let param = (case map_of params ''q'' of Some v \<Rightarrow> v | None \<Rightarrow> []) in
      if char_of (39 :: nat) \<in> set param \<or> char_of (34 :: nat) \<in> set param \<or> contains param ''--''
      then (200, JDict [(''error'', JStr ''SQL syntax error near unexpected token; query aborted''),
                        (''code'', JStr ''ER_PARSE_ERROR'')])
      else (200, JDict [(''endpoint'', JStr (tg_error_trap cfg)), (''results'', JList [])]))"



definition route_path :: "string \<Rightarrow> string" where
  "route_path p = (if rstrip_slash p = [] then ''/'' else rstrip_slash p)"


definition target_answer ::
  "target_config \<Rightarrow> sql_engine \<Rightarrow> (string \<Rightarrow> string) \<Rightarrow> string \<Rightarrow> target_reply option" where
  "target_answer cfg execute other target =
     (let path = route_path (fst (url_parts target)); params = parse_qs other (snd (url_parts target)) in
      if path = ''/'' \<or> path = ''/health'' then Some (200, JDict [(''ok'', JBool True), (''service'', JStr ''sqli-target'')])
      else if path = rstrip_slash (tg_vuln_endpoint cfg) then Some (vulnerable_search cfg execute params)
      else if path = rstrip_slash (tg_error_trap cfg) then Some (error_trap cfg params)
      else if path \<in> set (map rstrip_slash (tg_all_endpoints cfg)) then safe_search execute path params
      else Some (404, JDict [(''error'', JStr ''no such endpoint'')]))"




text \<open>The configuration a challenge's environment gives the application.\<close>

definition config_of_challenge :: "challenge \<Rightarrow> target_config" where
  "config_of_challenge ch =
     \<lparr>tg_canary = ch_canary ch, tg_secret_table = ch_secret_table ch, tg_secret_column = ch_secret_column ch,
      tg_vuln_endpoint = ch_vulnerable_endpoint ch, tg_vuln_param = ch_vulnerable_parameter ch,
      tg_all_endpoints = ch_vulnerable_endpoint ch # ch_safe_endpoints ch,
      tg_error_trap = ch_error_trap_endpoint ch, tg_variant = ch_variant ch\<rparr>"


section \<open>Reading back what a client wrote\<close>

lemma percent_decode_plain: "a \<noteq> CHR ''%'' \<Longrightarrow> percent_decode (a # cs) = a # percent_decode cs"
  by (cases cs; cases "tl cs") auto

definition url_safe :: "char \<Rightarrow> bool" where
  "url_safe c \<longleftrightarrow> is_alnum_ascii c \<or> c \<in> {CHR ''_'', CHR ''.'', CHR ''-'', CHR ''~'', CHR ''%'', CHR ''+''}"

lemma alnum_not: "is_alnum_ascii c \<Longrightarrow> c \<notin> {CHR ''%'', CHR ''+'', CHR ''&'', CHR ''='', CHR '';'', CHR ''#'', CHR ''?''}"
  by (auto simp: is_alnum_ascii_def is_alpha_ascii_def is_decimal_def)

lemma hex_digit_alnum: "n < 16 \<Longrightarrow> is_alnum_ascii (hex_digit n)"
  by (auto simp: hex_digit_def is_alnum_ascii_def is_alpha_ascii_def is_decimal_def)

lemma hex_value_digit: "n < 16 \<Longrightarrow> hex_value (hex_digit n) = Some n"
  by (auto simp: hex_digit_def hex_value_def Let_def)

abbreviation plus_to_space :: "string \<Rightarrow> string" where
  "plus_to_space \<equiv> map (\<lambda>c. if c = CHR ''+'' then CHR '' '' else c)"

lemma decode_percent:
  assumes "n < 128"
  shows "percent_decode (plus_to_space (percent n) @ rest) = char_of n # percent_decode rest"
proof -
  have lt: "n div 16 < 16" "n mod 16 < 16" using assms by auto
  have "hex_digit (n div 16) \<noteq> CHR ''+''" "hex_digit (n mod 16) \<noteq> CHR ''+''"
    using alnum_not hex_digit_alnum lt by blast+
  then show ?thesis using lt by (simp add: percent_def hex_value_digit)
qed

lemma decode_quoted_char:
  assumes "code c < 128"
  shows "percent_decode (plus_to_space (quote_char c) @ rest) = c # percent_decode rest"
proof (cases "is_alnum_ascii c \<or> c \<in> {CHR ''_'', CHR ''.'', CHR ''-'', CHR ''~''}")
  case True
  then have "c \<noteq> CHR ''%''" "c \<noteq> CHR ''+''" using alnum_not by auto
  with True show ?thesis by (simp add: quote_char_def percent_decode_plain)
next
  case False
  show ?thesis
  proof (cases "c = CHR '' ''")
    case True
    then show ?thesis by (simp add: quote_char_def is_alnum_ascii_def is_alpha_ascii_def is_decimal_def percent_decode_plain)
  next
    case space: False
    have "quote_char c = percent (code c)"
      using False space assms by (simp add: quote_char_def utf8_bytes_def)
    then show ?thesis using decode_percent [OF assms] by simp
  qed
qed

lemma percent_decode_quoted: "only_ascii s \<Longrightarrow> percent_decode (plus_to_space (quote_plus s)) = s"
proof (induction s)
  case (Cons c s)
  have "quote_plus (c # s) = quote_char c @ quote_plus s" by (simp add: quote_plus_def)
  with Cons decode_quoted_char [of c "plus_to_space (quote_plus s)"] show ?case by (simp add: only_ascii_def)
qed (simp add: quote_plus_def)

text \<open>What \<open>urlencode\<close> quoted, \<open>parse_qs\<close> reads back.\<close>

lemma unquote_quote: "only_ascii s \<Longrightarrow> unquote_plus other (quote_plus s) = s"
  by (simp add: unquote_plus_def Let_def percent_decode_quoted)

lemma quoted_safe: "c \<in> set (quote_plus s) \<Longrightarrow> only_ascii s \<Longrightarrow> url_safe c"
proof (induction s)
  case (Cons a s)
  have "url_safe x" if "x \<in> set (quote_char a)" for x
  proof -
    have lt: "code a div 16 < 16" "code a mod 16 < 16" "code a < 128" using Cons.prems(2) by (auto simp: only_ascii_def)
    show ?thesis
      using that lt hex_digit_alnum
      by (auto simp: quote_char_def utf8_bytes_def percent_def url_safe_def split: if_splits)
  qed
  with Cons show ?case by (auto simp: quote_plus_def only_ascii_def)
qed (simp add: quote_plus_def)

lemma url_safe_not: "url_safe c \<Longrightarrow> c \<notin> {CHR ''&'', CHR ''='', CHR '';'', CHR ''#'', CHR ''?''}"
  using alnum_not by (auto simp: url_safe_def)

lemma quote_plus_Nil: "quote_plus s = [] \<longleftrightarrow> s = []"
  by (cases s) (auto simp: quote_plus_def quote_char_def utf8_bytes_def percent_def split: if_splits)

lemma parse_qs_urlencode:
  assumes "only_ascii k" "only_ascii v" "v \<noteq> []"
  shows "parse_qs other (urlencode [(k, v)]) = [(k, v)]"
proof -
  have safe: "\<forall>c \<in> set (quote_plus k). url_safe c" "\<forall>c \<in> set (quote_plus v). url_safe c"
    using quoted_safe assms by blast+
  let ?s = "quote_plus k @ CHR ''='' # quote_plus v"
  have "CHR ''&'' \<notin> set ?s" using safe url_safe_not by force
  then have split: "split_char (CHR ''&'') ?s = [?s]" by (rule split_char_none)
  have no: "\<forall>c \<in> set (quote_plus k). c \<noteq> CHR ''=''" using safe(1) url_safe_not by blast
  have key: "takeWhile (\<lambda>c. c \<noteq> CHR ''='') ?s = quote_plus k"
    using no by (simp add: takeWhile_append2)
  have val: "dropWhile (\<lambda>c. c \<noteq> CHR ''='') ?s = CHR ''='' # quote_plus v"
    using no by (simp add: dropWhile_append3)
  have enc: "urlencode [(k, v)] = ?s" by (simp add: urlencode_def)
  show ?thesis
    unfolding parse_qs_def enc split
    using assms by (simp add: parse_pair_def key val unquote_quote quote_plus_Nil)
qed

lemma urlencode_safe:
  assumes "only_ascii k" "only_ascii v"
  shows "\<forall>c \<in> set (urlencode [(k, v)]). c \<notin> {CHR ''#'', CHR ''?'', CHR '';''}"
proof
  fix c
  assume "c \<in> set (urlencode [(k, v)])"
  then have "c \<in> set (quote_plus k) \<or> c = CHR ''='' \<or> c \<in> set (quote_plus v)" by (auto simp: urlencode_def)
  then have "url_safe c \<or> c = CHR ''=''" using quoted_safe assms by blast
  then show "c \<notin> {CHR ''#'', CHR ''?'', CHR '';''}" using url_safe_not [of c] by auto
qed

lemma url_parts_query:
  assumes "\<forall>c \<in> set p. c \<notin> {CHR ''#'', CHR ''?'', CHR '';''}" "\<forall>c \<in> set q. c \<noteq> CHR ''#''"
  shows "url_parts (p @ ''?'' @ q) = (p, q)"
proof -
  have e: "p @ ''?'' @ q = p @ CHR ''?'' # q" by simp
  have p: "CHR ''#'' \<notin> set p" "CHR ''?'' \<notin> set p" "CHR '';'' \<notin> set p" "CHR ''#'' \<notin> set q" using assms by auto
  have 1: "takeWhile (\<lambda>c. c \<noteq> CHR ''#'') (p @ CHR ''?'' # q) = p @ CHR ''?'' # q"
    unfolding takeWhile_eq_all_conv using p by auto
  have 2: "takeWhile (\<lambda>c. c \<noteq> CHR ''?'') (p @ CHR ''?'' # q) = p"
    using assms(1) by (simp add: takeWhile_append2)
  have 3: "dropWhile (\<lambda>c. c \<noteq> CHR ''?'') (p @ CHR ''?'' # q) = CHR ''?'' # q"
    using assms(1) by (simp add: dropWhile_append3)
  have "c \<noteq> CHR '';''" if "c \<in> set (rev (takeWhile (\<lambda>c. c \<noteq> CHR ''/'') (rev p)))" for c
    using that p(3) by (auto dest: set_takeWhileD)
  then have 4: "takeWhile (\<lambda>c. c \<noteq> CHR '';'') (rev (takeWhile (\<lambda>c. c \<noteq> CHR ''/'') (rev p))) =
      rev (takeWhile (\<lambda>c. c \<noteq> CHR ''/'') (rev p))"
    unfolding takeWhile_eq_all_conv by blast
  have 5: "rev (dropWhile (\<lambda>c. c \<noteq> CHR ''/'') (rev p)) @ rev (takeWhile (\<lambda>c. c \<noteq> CHR ''/'') (rev p)) = p"
    by (metis rev_append rev_rev_ident takeWhile_dropWhile_id)
  show ?thesis unfolding e url_parts_def Let_def 1 2 3 4 5 by simp
qed


section \<open>The target as the validator's replay sees it\<close>

text \<open>The target behind a base address; \<open>urlopen\<close> raises on a dropped connection and on an error status.\<close>

definition target_web ::
  "string \<Rightarrow> target_config \<Rightarrow> sql_engine \<Rightarrow> (string \<Rightarrow> string) \<Rightarrow> (json \<Rightarrow> string) \<Rightarrow> web" where
  "target_web base cfg execute other dumps w rq =
     (if hq_method rq = ''GET'' \<and> starts_with (hq_url rq) base
      then (case target_answer cfg execute other (drop (length base) (hq_url rq)) of
          None \<Rightarrow> None
        | Some (status, payload) \<Rightarrow> if 400 \<le> status then None else Some (status, dumps payload))
      else None)"

definition probe_payload :: "target_config \<Rightarrow> nat \<Rightarrow> char \<Rightarrow> string" where
  "probe_payload cfg i c =
     (if ends_with (tg_variant cfg) ''numeric'' then ''0 OR'' else ''zzz'' @ [char_of (39 :: nat)] @ '' OR'') @
     '' ('' @ probe_condition (tg_secret_table cfg) (tg_secret_column cfg) i c @ '')-- -''"

text \<open>
  SQLite on the injected condition: \<open>substr\<close> of the secret is compared with the character, and the rest of
  the statement is a comment.
\<close>

definition secret_oracle :: "target_config \<Rightarrow> sql_engine \<Rightarrow> bool" where
  "secret_oracle cfg execute \<longleftrightarrow> (\<forall>i c. 1 \<le> i \<longrightarrow> c \<in> set HEX \<longrightarrow>
     (\<exists>rows. execute (Sql (boolean_query (ends_with (tg_variant cfg) ''numeric'') (probe_payload cfg i c)) []) = Inr rows \<and>
        (rows \<noteq> [] \<longleftrightarrow> i \<le> length (tg_canary cfg) \<and> tg_canary cfg ! (i - 1) = c)))"

definition blind_target :: "target_config \<Rightarrow> bool" where
  "blind_target cfg \<longleftrightarrow> starts_with (tg_variant cfg) ''boolean'' \<and> tg_vuln_endpoint cfg \<in> set CANDIDATE_ENDPOINTS \<and>
     tg_vuln_param cfg \<in> set PARAMETERS \<and> only_ascii (tg_secret_table cfg) \<and> only_ascii (tg_secret_column cfg)"

lemma candidate_endpoint:
  assumes "e \<in> set CANDIDATE_ENDPOINTS"
  shows "route_path e = e \<and> rstrip_slash e = e \<and> e \<notin> {''/'', ''/health''} \<and>
    (\<forall>c \<in> set e. c \<notin> {CHR ''#'', CHR ''?'', CHR '';''})"
proof -
  have "list_all (\<lambda>e. route_path e = e \<and> rstrip_slash e = e \<and> e \<notin> {''/'', ''/health''} \<and>
      (\<forall>c \<in> set e. c \<notin> {CHR ''#'', CHR ''?'', CHR '';''})) CANDIDATE_ENDPOINTS"
    by code_simp
  with assms show ?thesis by (simp only: list_all_iff) blast
qed

lemma only_ascii_append [simp]: "only_ascii (a @ b) \<longleftrightarrow> only_ascii a \<and> only_ascii b"
  by (simp add: only_ascii_def)

lemma only_ascii_Cons [simp]: "only_ascii (c # s) \<longleftrightarrow> code c < 128 \<and> only_ascii s"
  by (simp add: only_ascii_def)

lemma only_ascii_Nil [simp]: "only_ascii []"
  by (simp add: only_ascii_def)

lemma only_ascii_show_nat: "only_ascii (show_nat n)"
  using show_nat_decimal [of n] by (auto simp: only_ascii_def list_all_iff is_decimal_def)

lemma hex_ascii: "c \<in> set HEX \<Longrightarrow> code c < 128"
  by (auto simp: HEX_def)

lemma parameter_ascii: "k \<in> set PARAMETERS \<Longrightarrow> only_ascii k"
  by (auto simp: PARAMETERS_def)

lemma probe_payload_ok:
  assumes "blind_target cfg" "c \<in> set HEX"
  shows "only_ascii (probe_payload cfg i c) \<and> probe_payload cfg i c \<noteq> []"
  using assms hex_ascii only_ascii_show_nat by (simp add: probe_payload_def probe_condition_def blind_target_def)

lemma target_answer_probe:
  assumes "blind_target cfg" "secret_oracle cfg execute" "1 \<le> i" "c \<in> set HEX"
  shows "target_answer cfg execute other (tg_vuln_endpoint cfg @ ''?'' @ urlencode [(tg_vuln_param cfg, probe_payload cfg i c)]) =
    Some (200, JDict [(''found'', JBool (i \<le> length (tg_canary cfg) \<and> tg_canary cfg ! (i - 1) = c))])"
proof -
  let ?e = "tg_vuln_endpoint cfg" and ?k = "tg_vuln_param cfg" and ?v = "probe_payload cfg i c"
  have e: "route_path ?e = ?e" "rstrip_slash ?e = ?e" "?e \<noteq> ''/''" "?e \<noteq> ''/health''"
    "\<forall>c \<in> set ?e. c \<notin> {CHR ''#'', CHR ''?'', CHR '';''}"
    using candidate_endpoint [of ?e] assms(1) unfolding blind_target_def by blast+
  have k: "only_ascii ?k" using assms(1) parameter_ascii by (simp add: blind_target_def)
  have v: "only_ascii ?v" "?v \<noteq> []" using probe_payload_ok [OF assms(1,4)] by simp_all
  have parts: "url_parts (?e @ ''?'' @ urlencode [(?k, ?v)]) = (?e, urlencode [(?k, ?v)])"
    using urlencode_safe [OF k v(1)] by (intro url_parts_query [OF e(5)]) blast
  have params: "parse_qs other (urlencode [(?k, ?v)]) = [(?k, ?v)]"
    by (rule parse_qs_urlencode [OF k v])
  have blind: "starts_with (tg_variant cfg) ''boolean''" using assms(1) by (simp add: blind_target_def)
  obtain rows where rows: "execute (Sql (boolean_query (ends_with (tg_variant cfg) ''numeric'') ?v) []) = Inr rows"
    "rows \<noteq> [] \<longleftrightarrow> i \<le> length (tg_canary cfg) \<and> tg_canary cfg ! (i - 1) = c"
    using assms(2-4) by (auto simp: secret_oracle_def)
  have search: "vulnerable_search cfg execute [(?k, ?v)] = (200, JDict [(''found'', JBool (rows \<noteq> []))])"
    using blind rows(1) by (simp add: vulnerable_search_def vuln_boolean_def Let_def del: starts_with.simps)
  show ?thesis
    unfolding target_answer_def parts fst_conv snd_conv Let_def params e(1,2) search rows(2) [symmetric]
    using e(3,4) by (simp only: simp_thms if_True if_False)
qed

lemma starts_with_self: "starts_with (p @ s) p"
  by (induction p) auto

definition reads_back :: "(string \<Rightarrow> json_outcome) \<Rightarrow> (json \<Rightarrow> string) \<Rightarrow> bool" where
  "reads_back loads dumps \<longleftrightarrow> (\<forall>b. loads (dumps (JDict [(''found'', JBool b)])) = Json (JDict [(''found'', JBool b)]))"

lemma target_is_truthful:
  assumes "blind_target (config_of_challenge ch)" "secret_oracle (config_of_challenge ch) execute"
    and "reads_back loads dumps" "rstrip_slash base = base"
  shows "truthful loads (target_web base (config_of_challenge ch) execute other dumps) base ch (ch_canary ch)"
  unfolding truthful_def
proof (intro allI impI)
  fix w i c
  assume i: "(1 :: nat) \<le> i" and c: "c \<in> set HEX"
  let ?cfg = "config_of_challenge ch"
  let ?found = "i \<le> length (ch_canary ch) \<and> ch_canary ch ! (i - 1) = c"
  let ?target = "tg_vuln_endpoint ?cfg @ ''?'' @ urlencode [(tg_vuln_param ?cfg, probe_payload ?cfg i c)]"
  have rq: "hq_method (probe_request base ch i c) = ''GET''" "hq_url (probe_request base ch i c) = base @ ?target"
    using assms(4) by (simp_all add: probe_request_def Let_def probe_payload_def config_of_challenge_def)
  have "target_answer ?cfg execute other ?target = Some (200, JDict [(''found'', JBool ?found)])"
    using target_answer_probe [OF assms(1,2) i c] by (simp add: config_of_challenge_def)
  then have "target_web base ?cfg execute other dumps w (probe_request base ch i c) =
      Some (200, dumps (JDict [(''found'', JBool ?found)]))"
    by (simp only: target_web_def rq append_eq_conv_conj drop_append starts_with_self) simp
  then show "found_answer loads (target_web base ?cfg execute other dumps w (probe_request base ch i c)) = Some ?found"
    using assms(3) by (simp add: found_answer_def jget_def reads_back_def)
qed


definition docker_works :: "runner \<Rightarrow> bool" where
  "docker_works runner \<longleftrightarrow> (\<forall>h args. \<exists>out err. runner h args = Ran 0 out err)"

definition replay_base :: "replay_draws \<Rightarrow> string" where
  "replay_base d = ''http://127.0.0.1:'' @ show_nat (rd_port d)"

lemma rstrip_slash_digits: "rstrip_slash (p @ show_nat n) = p @ show_nat n"
proof -
  obtain ds x where x: "show_nat n = ds @ [x]" using show_nat_nonempty [of n] by (cases "show_nat n" rule: rev_cases) auto
  have "is_decimal x" using show_nat_decimal [of n] by (simp add: x)
  then have "x \<noteq> CHR ''/''" by (auto simp: is_decimal_def)
  then show ?thesis by (simp add: x rstrip_slash_def rstrip_chars_def)
qed

lemma target_is_healthy:
  assumes "rstrip_slash base = base"
  shows "\<exists>body. target_web base cfg execute other dumps w (health_request base) = Some (200, body)"
proof -
  have parts: "fst (url_parts ''/health'') = ''/health''" "route_path ''/health'' = ''/health''" by code_simp+
  have "target_answer cfg execute other ''/health'' = Some (200, JDict [(''ok'', JBool True), (''service'', JStr ''sqli-target'')])"
    by (simp add: target_answer_def Let_def parts)
  then show ?thesis using assms
    by (simp add: target_web_def health_request_def starts_with_self del: starts_with.simps)
qed

text \<open>
  In the blind variants the validator extracts the canary with probes of its own, so against the planted flaw
  any recipe that is not empty is confirmed, one that names another endpoint included: when Docker runs the fresh
  target, SQLite evaluates the injected comparison of one character of the secret, and JSON reads back what it
  printed, the URL of the probe, its parsing on the other side, the statement, the answer and the extraction fit
  together for every generated endpoint, parameter, table and column.
\<close>

lemma blind_replay_confirms:
  assumes "steps \<noteq> []" "docker_works runner" "blind_target (config_of_challenge ch)"
    and "set (rd_canary d) \<subseteq> set HEX" "length (rd_canary d) \<le> 32"
    and "secret_oracle (config_of_challenge (fresh_canary_challenge (rd_canary d) ch)) execute"
    and "reads_back loads dumps"
  shows "fst (run_replay loads runner
    (target_web (replay_base d) (config_of_challenge (fresh_canary_challenge (rd_canary d) ch)) execute other dumps)
    d ch steps h w) = Inr True"
proof -
  let ?fresh = "fresh_canary_challenge (rd_canary d) ch" and ?b = "replay_base d"
  let ?web = "target_web ?b (config_of_challenge ?fresh) execute other dumps"
  have base: "rstrip_slash ?b = ?b" unfolding replay_base_def by (rule rstrip_slash_digits)
  have blind: "blind_target (config_of_challenge ?fresh)" "starts_with (ch_variant ?fresh) ''boolean''"
    using assms(3) by (simp_all add: blind_target_def config_of_challenge_def fresh_canary_challenge_def)
  have canary: "ch_canary ?fresh = rd_canary d" by (simp add: fresh_canary_challenge_def)
  have truth: "truthful loads ?web ?b ?fresh (rd_canary d)"
    using target_is_truthful [OF blind(1) assms(6,7) base] unfolding canary .
  have "fst (boolean_extract loads ?web ?b ?fresh w') = take 32 (rd_canary d)" for w'
    using extract_from_truthful [OF truth assms(4), of 1 32 w'] by (simp add: boolean_extract_def)
  then have pulled: "fst (boolean_extract loads ?web ?b ?fresh w') = rd_canary d" for w' using assms(5) by simp
  have confirm: "fst (confirm loads ?web ?b ?fresh steps w')" for w'
    using blind(2) pulled [of w'] by (simp add: confirm_def canary split_beta del: starts_with.simps)
  have ready: "fst (wait_ready ?web ?b 30 w')" for w'
    using target_is_healthy [OF base, of "config_of_challenge ?fresh" execute other dumps w']
    by (auto simp: eval_nat_numeral)
  obtain out err where started: "runner h (target_args d ?fresh) = Ran 0 out err"
    using assms(2) unfolding docker_works_def by blast
  then have run: "run_raw runner DOCKER_CLI_TIMEOUT_S (target_args d ?fresh) h =
      (Inr \<lparr>p_returncode = 0, p_stdout = out, p_stderr = err\<rparr>, h @ [target_args d ?fresh])"
    by (simp add: run_raw_def)
  have judged: "fst (judge_replay loads ?web ?b ?fresh steps (Inr \<lparr>p_returncode = 0, p_stdout = out, p_stderr = err\<rparr>) w)"
    using ready [of w] confirm by (auto simp: judge_replay_def split: prod.split bool.split)
  obtain out' err' where removed: "runner (h @ [target_args d ?fresh]) [''rm'', ''--force'', ''--volumes'', rd_name d] = Ran 0 out' err'"
    using assms(2) unfolding docker_works_def by blast
  show ?thesis
    unfolding run_replay_def Let_def run replay_base_def [symmetric] prod.case
    using assms(1) judged removed by (simp add: run_raw_def split_beta)
qed

section \<open>Requests are counted\<close>









section \<open>Only the planted flaw depends on the secret\<close>

text \<open>The decoys, the trap, the health check and unknown paths answer alike for any two canaries, as long as
  the prepared product search does.\<close>

theorem decoys_never_leak:
  assumes "\<forall>v. execute' (Sql ''SELECT id, name, price FROM products WHERE name LIKE ?'' [v]) =
      execute (Sql ''SELECT id, name, price FROM products WHERE name LIKE ?'' [v])"
    and "route_path (fst (url_parts target)) \<noteq> rstrip_slash (tg_vuln_endpoint cfg)"
  shows "target_answer (cfg\<lparr>tg_canary := canary\<rparr>) execute' other target = target_answer cfg execute other target"
proof -
  have fields: "tg_error_trap (cfg\<lparr>tg_canary := canary\<rparr>) = tg_error_trap cfg"
    "tg_vuln_endpoint (cfg\<lparr>tg_canary := canary\<rparr>) = tg_vuln_endpoint cfg"
    "tg_all_endpoints (cfg\<lparr>tg_canary := canary\<rparr>) = tg_all_endpoints cfg" by simp_all
  have trap: "error_trap (cfg\<lparr>tg_canary := canary\<rparr>) = error_trap cfg"
    by (rule ext) (simp only: error_trap_def fields)
  have safe: "safe_search execute' = safe_search execute"
    by (intro ext) (simp only: safe_search_def assms(1) [rule_format])
  show ?thesis
    unfolding target_answer_def Let_def trap safe fields using assms(2) by (simp only: if_False)
qed

section \<open>Witnesses\<close>

definition toy_challenge :: challenge where
  "toy_challenge = (generate_challenge sample_draws)\<lparr>ch_variant := ''boolean''\<rparr>"

definition toy_draws :: replay_draws where
  "toy_draws = \<lparr>rd_canary = ''c0ffee'', rd_name = ''r'', rd_port = 8001, rd_runtime = ''runsc''\<rparr>"

text \<open>An engine that knows the probes of the blind variant.\<close>

definition toy_engine :: "target_config \<Rightarrow> sql_engine" where
  "toy_engine cfg call = (case call of Sql q _ \<Rightarrow>
     Inr (if list_ex (\<lambda>i. q = boolean_query (ends_with (tg_variant cfg) ''numeric'')
              (probe_payload cfg (Suc i) (tg_canary cfg ! i))) [0..<length (tg_canary cfg)]
          then [[JInt 1]] else []))"

lemma probe_payload_inj:
  assumes "probe_payload cfg i c = probe_payload cfg j d"
  shows "i = j \<and> c = d"
proof -
  let ?pre = "''substr((SELECT '' @ [char_of (34 :: nat)] @ tg_secret_column cfg @ [char_of (34 :: nat)] @ '' FROM '' @
     [char_of (34 :: nat)] @ tg_secret_table cfg @ [char_of (34 :: nat)] @ '' LIMIT 1),''"
  have "probe_condition (tg_secret_table cfg) (tg_secret_column cfg) i c =
      probe_condition (tg_secret_table cfg) (tg_secret_column cfg) j d"
    using assms unfolding probe_payload_def by (simp only: same_append_eq append_same_eq)
  then have e: "show_nat i @ '',1)='' @ [char_of (39 :: nat), c, char_of (39 :: nat)] =
      show_nat j @ '',1)='' @ [char_of (39 :: nat), d, char_of (39 :: nat)]"
    by (simp add: probe_condition_def)
  have digits: "\<forall>x \<in> set (show_nat k). x \<noteq> CHR '',''" for k
    using show_nat_decimal [of k] by (auto simp: list_all_iff is_decimal_def)
  have "takeWhile (\<lambda>x. x \<noteq> CHR '','') (show_nat k @ '',1)='' @ r) = show_nat k" for k r
    using digits by (simp add: takeWhile_append2)
  with e have "show_nat i = show_nat j" by metis
  with e show ?thesis using show_nat_inj by simp
qed

lemma toy_engine_oracle: "secret_oracle cfg (toy_engine cfg)"
  unfolding secret_oracle_def
proof (intro allI impI)
  fix i :: nat and c
  assume i: "1 \<le> i"
  have "boolean_query n p = boolean_query n p' \<longleftrightarrow> p = p'" for n p p'
    by (simp add: boolean_query_def)
  then have "list_ex (\<lambda>k. boolean_query (ends_with (tg_variant cfg) ''numeric'') (probe_payload cfg i c) =
        boolean_query (ends_with (tg_variant cfg) ''numeric'') (probe_payload cfg (Suc k) (tg_canary cfg ! k)))
        [0..<length (tg_canary cfg)] \<longleftrightarrow> i \<le> length (tg_canary cfg) \<and> tg_canary cfg ! (i - 1) = c"
    using i probe_payload_inj [of cfg i c] by (auto simp: list_ex_iff Suc_le_eq intro!: bexI [of _ "i - 1"])
  then show "\<exists>rows. toy_engine cfg (Sql (boolean_query (ends_with (tg_variant cfg) ''numeric'') (probe_payload cfg i c)) []) = Inr rows \<and>
        (rows \<noteq> [] \<longleftrightarrow> i \<le> length (tg_canary cfg) \<and> tg_canary cfg ! (i - 1) = c)"
    by (simp add: toy_engine_def)
qed



theorem decoys_never_leak_witness:
  "target_answer ((config_of_challenge toy_challenge)\<lparr>tg_canary := ''other''\<rparr>)
     (toy_engine ((config_of_challenge toy_challenge)\<lparr>tg_canary := ''other''\<rparr>)) (\<lambda>s. s) ''/api/users?q=a'' =
   target_answer (config_of_challenge toy_challenge) (toy_engine (config_of_challenge toy_challenge)) (\<lambda>s. s) ''/api/users?q=a''"
proof (rule decoys_never_leak)
  have no: "boolean_query b p \<noteq> ''SELECT id, name, price FROM products WHERE name LIKE ?''" for b p
    by (simp add: boolean_query_def)
  show "\<forall>v. toy_engine ((config_of_challenge toy_challenge)\<lparr>tg_canary := ''other''\<rparr>)
        (Sql ''SELECT id, name, price FROM products WHERE name LIKE ?'' [v]) =
      toy_engine (config_of_challenge toy_challenge) (Sql ''SELECT id, name, price FROM products WHERE name LIKE ?'' [v])"
    using no [THEN not_sym] by (simp add: toy_engine_def list_ex_iff)
  show "route_path (fst (url_parts ''/api/users?q=a'')) \<noteq> rstrip_slash (tg_vuln_endpoint (config_of_challenge toy_challenge))"
    by code_simp
qed


definition toy_dumps :: "json \<Rightarrow> string" where
  "toy_dumps j = (if j = JDict [(''found'', JBool True)] then ''T'' else ''F'')"

lemma useless_recipe_is_confirmed:
  "fst (run_replay sample_answers (\<lambda>_ _. Ran 0 [] [])
     (target_web (replay_base toy_draws) (config_of_challenge (fresh_canary_challenge ''c0ffee'' toy_challenge))
        (toy_engine (config_of_challenge (fresh_canary_challenge ''c0ffee'' toy_challenge))) (\<lambda>s. s) toy_dumps)
     toy_draws toy_challenge [\<lparr>rep_finding_index = 0, rep_method = ''GET'', rep_path = ''/nowhere'', rep_query = []\<rparr>] [] []) =
   Inr True"
proof -
  have works: "docker_works (\<lambda>_ _. Ran 0 [] [])" by (simp add: docker_works_def)
  have blind: "blind_target (config_of_challenge toy_challenge)" by code_simp
  have canary: "set (rd_canary toy_draws) \<subseteq> set HEX" "length (rd_canary toy_draws) \<le> 32" by code_simp+
  have json: "reads_back sample_answers toy_dumps" by (simp add: reads_back_def sample_answers_def toy_dumps_def)
  have draw: "rd_canary toy_draws = ''c0ffee''" by (simp add: toy_draws_def)
  show ?thesis
    using blind_replay_confirms [OF _ works blind canary toy_engine_oracle json] unfolding draw by simp
qed

end
