(* ===== verification/Announcements.thy ===== *)
theory Announcements
  imports Llm_Validator
begin

text \<open>
  \<open>masxai/discord.py\<close>: what a submission round tells the channel.  Texts of numbers are \<open>show_int\<close>; the
  middle dot is character 183.
\<close>

section \<open>Rendering\<close>

definition MAX_CONTENT_CHARS :: nat where "MAX_CONTENT_CHARS = 1900"
definition MAX_LINES :: nat where "MAX_LINES = 12"

definition FORBIDDEN_SUBSTRINGS :: "string list" where
  "FORBIDDEN_SUBSTRINGS = [''encrypted_key_blob'', ''key_fingerprint'', ''api_key'', ''sk-'']"

definition short_hotkey :: "string \<Rightarrow> string" where
  "short_hotkey hotkey =
     (if length hotkey \<le> 8 + 4 + 1 then hotkey
      else take 8 hotkey @ ''...'' @ drop (length hotkey - 4) hotkey)"

definition network_tag :: "int option \<Rightarrow> string option \<Rightarrow> string" where
  "network_tag netuid network =
     (let named = (case network of None \<Rightarrow> [] | Some [] \<Rightarrow> [] | Some n \<Rightarrow> [n]);
          numbered = (case netuid of None \<Rightarrow> [] | Some i \<Rightarrow> [''netuid '' @ show_int i])
      in if netuid = None \<and> (network = None \<or> network = Some []) then []
         else ''['' @ py_join ('' '' @ [char_of (183 :: nat)] @ '' '') (named @ numbered) @ ''] '')"

definition newline :: string where "newline = [char_of (10 :: nat)]"
definition backtick :: string where "backtick = [char_of (96 :: nat)]"

definition uid_part :: "nat option \<Rightarrow> string" where
  "uid_part uid = (case uid of None \<Rightarrow> [] | Some u \<Rightarrow> '' | UID '' @ show_nat u)"

definition slot_line :: "key_result \<Rightarrow> string" where
  "slot_line r =
     (let name = backtick @ kr_provider r @ ''/'' @ kr_model r @ backtick in
      if kr_accepted r then '':white_check_mark: slot '' @ show_int (kr_slot r) @ '' '' @ name
      else '':x: slot '' @ show_int (kr_slot r) @ '' '' @ name @
        (case kr_reason r of None \<Rightarrow> [] | Some [] \<Rightarrow> [] | Some reason \<Rightarrow> '' - '' @ reason))"

definition more_line :: "nat \<Rightarrow> string list" where
  "more_line n = (if MAX_LINES < n then [''...and '' @ show_nat (n - MAX_LINES) @ '' more''] else [])"

definition format_submission_message ::
  "string \<Rightarrow> nat option \<Rightarrow> key_result list \<Rightarrow> int option \<Rightarrow> string option \<Rightarrow> string option" where
  "format_submission_message hotkey uid results netuid network =
     (let rows = sort_key kr_slot results; accepted = length (filter kr_accepted rows) in
      if rows = [] then None
      else Some (take MAX_CONTENT_CHARS (py_join newline
        ((network_tag netuid network @ ''**LLM key submission** '' @ backtick @ short_hotkey hotkey @ backtick @
          uid_part uid @ '' - '' @ show_nat accepted @ ''/'' @ show_nat (length rows) @ '' accepted'') #
         map slot_line (take MAX_LINES rows) @ more_line (length rows)))))"

definition failure_line :: "string \<times> nat option \<times> string option \<Rightarrow> string" where
  "failure_line = (\<lambda>(hotkey, uid, err). backtick @ short_hotkey hotkey @ backtick @ uid_part uid @
     (case err of None \<Rightarrow> [] | Some [] \<Rightarrow> [] | Some e \<Rightarrow> '' - '' @ e))"

definition format_round_summary ::
  "nat \<Rightarrow> nat \<Rightarrow> nat \<Rightarrow> (string \<times> nat option \<times> string option) list \<Rightarrow> int option \<Rightarrow> string option \<Rightarrow> string" where
  "format_round_summary asked answered contributed failures netuid network =
     take MAX_CONTENT_CHARS (py_join newline
       ((network_tag netuid network @ ''**Key round** - asked '' @ show_nat asked @ '' | answered '' @ show_nat answered @
         '' | contributed '' @ show_nat contributed) #
        (if failures = [] then []
         else ('':warning: '' @ show_nat (length failures) @ '' submission(s) could not be relayed:'') #
           map failure_line (take MAX_LINES failures) @ more_line (length failures))))"

section \<open>Posting\<close>

text \<open>What the webhook did: a status, or any exception.\<close>

datatype posted = Post_Status nat | Post_Raised

definition webhook_url :: "env \<Rightarrow> string" where
  "webhook_url e = py_strip (env_text e ''MASXAI_DISCORD_WEBHOOK_URL'')"

definition discord_timeout :: "env \<Rightarrow> fl" where
  "discord_timeout e = env_float e ''MASXAI_DISCORD_TIMEOUT'' (Fin 5)"

text \<open>The requests made, with their timeout and content, and whether the post counts as done.\<close>

definition post_message ::
  "env \<Rightarrow> (string \<Rightarrow> string \<Rightarrow> posted) \<Rightarrow> string \<Rightarrow> string option \<Rightarrow> bool \<times> (string \<times> fl \<times> string) list" where
  "post_message e hook content url =
     (let target = py_strip (case url of None \<Rightarrow> webhook_url e | Some [] \<Rightarrow> webhook_url e | Some u \<Rightarrow> u) in
      if target = [] then (False, [])
      else ((case hook target content of Post_Status s \<Rightarrow> s < 400 | Post_Raised \<Rightarrow> False),
            [(target, discord_timeout e, content)]))"

definition publish_round_summary ::
  "env \<Rightarrow> (string \<Rightarrow> string \<Rightarrow> posted) \<Rightarrow> nat \<Rightarrow> nat \<Rightarrow> nat \<Rightarrow> (string \<times> nat option \<times> string option) list
     \<Rightarrow> int option \<Rightarrow> string option \<Rightarrow> (string \<times> fl \<times> string) list" where
  "publish_round_summary e hook asked answered contributed failures netuid network =
     (if webhook_url e = [] then []
      else snd (post_message e hook (format_round_summary asked answered contributed failures netuid network) None))"

definition publish_key_submission ::
  "env \<Rightarrow> (string \<Rightarrow> string \<Rightarrow> posted) \<Rightarrow> string \<Rightarrow> nat option \<Rightarrow> key_result list \<Rightarrow> int option \<Rightarrow> string option
     \<Rightarrow> (string \<times> fl \<times> string) list" where
  "publish_key_submission e hook hotkey uid results netuid network =
     (if webhook_url e = [] then []
      else case format_submission_message hotkey uid results netuid network of
          None \<Rightarrow> []
        | Some content \<Rightarrow> snd (post_message e hook content None))"

text \<open>Everything a round posts, from the log of the round.\<close>

definition announce_round ::
  "env \<Rightarrow> (string \<Rightarrow> string \<Rightarrow> posted) \<Rightarrow> int option \<Rightarrow> string option \<Rightarrow> nat \<Rightarrow> round_log \<Rightarrow> (string \<times> fl \<times> string) list" where
  "announce_round e hook netuid network asked lg =
     concat (map (\<lambda>(hotkey, uid, results). publish_key_submission e hook hotkey (Some uid) results netuid network) (rl_announced lg)) @
     publish_round_summary e hook asked (rl_answered lg) (rl_submitted lg)
       (map (\<lambda>(hotkey, uid, err). (hotkey, Some uid, Some err)) (rl_failures lg)) netuid network"

section \<open>Lemmas\<close>

lemma short_hotkey_length: "length (short_hotkey hotkey) \<le> 15"
  by (simp add: short_hotkey_def)

lemma post_message_requests:
  "rq \<in> set (snd (post_message e hook content url)) \<Longrightarrow> snd (snd rq) = content"
  by (auto simp: post_message_def Let_def split: if_splits)

lemma format_submission_message_length:
  "format_submission_message hotkey uid results netuid network = Some content \<Longrightarrow> length content \<le> 1900"
  by (auto simp: format_submission_message_def MAX_CONTENT_CHARS_def Let_def split: if_splits)

lemma format_round_summary_length: "length (format_round_summary asked answered contributed failures netuid network) \<le> 1900"
  by (simp add: format_round_summary_def MAX_CONTENT_CHARS_def)

text \<open>
  Whatever a round brings, every post stays below Discord's limit, there is at most one per announced
  miner and one for the round, and without a webhook there is none.
\<close>

theorem announcements_are_bounded:
  "(\<forall>rq \<in> set (announce_round e hook netuid network asked lg). length (snd (snd rq)) \<le> 1900) \<and>
   length (announce_round e hook netuid network asked lg) \<le> length (rl_announced lg) + 1 \<and>
   (webhook_url e = [] \<longrightarrow> announce_round e hook netuid network asked lg = [])"
proof -
  have one: "length (snd (post_message e hook content None)) \<le> 1" for content
    by (simp add: post_message_def Let_def)
  have sub: "length (publish_key_submission e hook h u rs netuid network) \<le> 1" for h u rs
    using one by (auto simp: publish_key_submission_def split: option.split)
  have round1: "length (publish_round_summary e hook a b c fs netuid network) \<le> 1" for a b c fs
    using one by (simp add: publish_round_summary_def)
  have count: "length (concat (map (\<lambda>(h, u, rs). publish_key_submission e hook h (Some u) rs netuid network) xs)) \<le> length xs" for xs
  proof (induction xs)
    case (Cons x xs)
    obtain h u rs where "x = (h, u, rs)" by (cases x)
    with Cons sub [of h "Some u" rs] show ?case by simp
  qed simp
  have "length (snd (snd rq)) \<le> 1900" if "rq \<in> set (announce_round e hook netuid network asked lg)" for rq
    using that format_submission_message_length format_round_summary_length
    by (auto simp: announce_round_def publish_key_submission_def publish_round_summary_def
        dest!: post_message_requests split: if_splits option.splits)
  moreover have "webhook_url e = [] \<longrightarrow> announce_round e hook netuid network asked lg = []"
    by (auto simp: announce_round_def publish_key_submission_def publish_round_summary_def)
  ultimately show ?thesis
    using count [of "rl_announced lg"] round1 [of asked "rl_answered lg" "rl_submitted lg"
        "map (\<lambda>(hotkey, uid, err). (hotkey, Some uid, Some err)) (rl_failures lg)"]
    by (simp add: announce_round_def)
qed

text \<open>The forbidden fragments are not looked for: a reason that holds one is posted.\<close>

theorem reason_is_echoed:
  "\<exists>content. format_submission_message ''5F'' None
      [\<lparr>kr_slot = 0, kr_key_id = None, kr_provider = ''p'', kr_model = ''m'', kr_accepted = False, kr_status = [],
        kr_reason = Some ''sk-1''\<rparr>] None None = Some content \<and> list_ex (contains content) FORBIDDEN_SUBSTRINGS"
proof -
  let ?m = "format_submission_message ''5F'' None
      [\<lparr>kr_slot = 0, kr_key_id = None, kr_provider = ''p'', kr_model = ''m'', kr_accepted = False, kr_status = [],
        kr_reason = Some ''sk-1''\<rparr>] None None"
  have "(case ?m of None \<Rightarrow> False | Some content \<Rightarrow> list_ex (contains content) FORBIDDEN_SUBSTRINGS)"
    by code_simp
  then show ?thesis by (cases ?m) simp_all
qed

text \<open>A redirect counts as posted.\<close>

theorem redirect_counts_as_posted:
  "fst (post_message e (\<lambda>_ _. Post_Status 302) content (Some ''https://hook''))"
proof -
  have "py_strip ''https://hook'' = ''https://hook''" by code_simp
  then show ?thesis by (simp add: post_message_def Let_def)
qed

end
