(* ===== verification/Validator_Cli.thy ===== *)
theory Validator_Cli
  imports Pipeline Submission_Api
begin

text \<open>
  \<open>neurons/security_vali.py\<close>: the command line of the validator.  Parsing the arguments and printing are
  not modelled, the exit codes and what reaches the database are.
\<close>

section \<open>Commands\<close>

definition EXIT_ACCEPTED :: nat where "EXIT_ACCEPTED = 0"
definition EXIT_REJECTED :: nat where "EXIT_REJECTED = 1"
definition EXIT_NOT_CHECKED :: nat where "EXIT_NOT_CHECKED = 2"

record cli_args =
  ca_miner_id :: string
  ca_keep_image :: bool
  ca_no_dry_run :: bool
  ca_skip_daemon_check :: bool

definition verdict_exit :: "verdict \<Rightarrow> nat" where
  "verdict_exit v = (if accepted v then EXIT_ACCEPTED
     else if validator_fault v then EXIT_NOT_CHECKED else EXIT_REJECTED)"

text \<open>The probe of the daemon, skipped on request; then the check.  \<open>Inl\<close> is an exception that escapes.\<close>

definition checked ::
  "pipeline_env \<Rightarrow> string \<Rightarrow> submission \<Rightarrow> cli_args \<Rightarrow> database \<Rightarrow> docker_call list
     \<Rightarrow> (failure + nat) \<times> database \<times> docker_call list" where
  "checked env now s args db h =
     (case (if ca_skip_daemon_check args then (Inr True, h) else docker_available (pe_runner env) h) of
        (Inl f, h) \<Rightarrow> (Inl f, db, h)
      | (Inr False, h) \<Rightarrow> (Inr EXIT_NOT_CHECKED, db, h)
      | (Inr True, h) \<Rightarrow>
          (case check_and_record (env\<lparr>pe_keep_image := ca_keep_image args, pe_skip_dry_run := ca_no_dry_run args\<rparr>)
                  True now s (ca_miner_id args) db h of
             (Inl f, db, h) \<Rightarrow> (Inl f, db, h)
           | (Inr (row_id, v), db, h) \<Rightarrow> (Inr (verdict_exit v), db, h)))"

definition cmd_validate ::
  "pipeline_env \<Rightarrow> string \<Rightarrow> submitted_file \<Rightarrow> cli_args \<Rightarrow> database \<Rightarrow> docker_call list
     \<Rightarrow> (failure + nat) \<times> database \<times> docker_call list" where
  "cmd_validate env now f args db h = checked env now (By_File f) args db h"

definition cmd_validate_image ::
  "pipeline_env \<Rightarrow> string \<Rightarrow> string \<Rightarrow> cli_args \<Rightarrow> database \<Rightarrow> docker_call list
     \<Rightarrow> (failure + nat) \<times> database \<times> docker_call list" where
  "cmd_validate_image env now ref args db h = checked env now (By_Reference ref) args db h"

text \<open>The rows each listing command prints, with its exit code.\<close>

definition cmd_list :: "database \<Rightarrow> int \<Rightarrow> submission_row list \<times> nat" where
  "cmd_list db n = (recent_submissions db n, EXIT_ACCEPTED)"

definition cmd_agents :: "database \<Rightarrow> int \<Rightarrow> agent_row list \<times> nat" where
  "cmd_agents db n = (list_agents db n, EXIT_ACCEPTED)"

definition cmd_show :: "database \<Rightarrow> nat \<Rightarrow> submission_row option \<times> nat" where
  "cmd_show db row_id = (case get_submission db row_id of
      None \<Rightarrow> (None, EXIT_REJECTED)
    | Some row \<Rightarrow> (Some row, EXIT_ACCEPTED))"

text \<open>The status of the process: an escaping exception is Python's 1.\<close>

definition process_status :: "failure + nat \<Rightarrow> nat" where
  "process_status r = (case r of Inl _ \<Rightarrow> 1 | Inr status \<Rightarrow> status)"

section \<open>Exit codes\<close>

text \<open>The row a check appended.\<close>

definition appended :: "database \<Rightarrow> database \<Rightarrow> (verdict \<Rightarrow> bool) \<Rightarrow> bool" where
  "appended db db' P \<longleftrightarrow> (\<exists>q. db_submissions db' = db_submissions db @ [q] \<and> P (sr_verdict q))"

lemma check_and_record_appends:
  assumes "check_and_record env True t s m db h = (Inr (i, v), db', h')"
  shows "\<exists>q. db_submissions db' = db_submissions db @ [q] \<and> sr_verdict q = v"
  by (rule check_and_record_InrE [OF assms])
    (auto simp: record_verdict_def register_verdict_def register_agent_def Let_def split: option.split)

lemma check_and_record_Inl: "check_and_record env d t s m db h = (Inl f, db', h') \<Longrightarrow> db' = db"
  by (auto simp: check_and_record_def split: prod.splits sum.splits)

text \<open>The exit code tells what was recorded.  0 means that an accepting verdict was appended, 1 that a
  rejection was which is the miner's own doing, 2 that nothing was recorded because Docker was not
  reachable or that a rejection was recorded which is the validator's fault; if an exception escapes
  instead, nothing was recorded.\<close>

theorem exit_code_reports_the_verdict:
  "(case checked env now s args db h of (result, db', h') \<Rightarrow>
     (case result of
        Inl _ \<Rightarrow> db' = db
      | Inr status \<Rightarrow>
          (status = 0 \<and> appended db db' (\<lambda>v. vd_status v = ACCEPTED)) \<or>
          (status = 1 \<and> appended db db' (\<lambda>v. vd_status v = REJECTED \<and> vd_reject_reason v \<notin> Some ` set VALIDATOR_FAULT_REASONS)) \<or>
          (status = 2 \<and> (db' = db \<or>
             appended db db' (\<lambda>v. vd_status v = REJECTED \<and> vd_reject_reason v \<in> Some ` set VALIDATOR_FAULT_REASONS)))))"
proof -
  obtain r h1 where probe: "(if ca_skip_daemon_check args then (Inr True, h) else docker_available (pe_runner env) h) = (r, h1)"
    by (cases "if ca_skip_daemon_check args then (Inr True, h) else docker_available (pe_runner env) h") auto
  let ?env = "env\<lparr>pe_keep_image := ca_keep_image args, pe_skip_dry_run := ca_no_dry_run args\<rparr>"
  obtain r2 db2 h2 where run: "check_and_record ?env True now s (ca_miner_id args) db h1 = (r2, db2, h2)"
    by (cases "check_and_record ?env True now s (ca_miner_id args) db h1") auto
  show ?thesis
  proof (cases "r = Inr True")
    case False
    with probe show ?thesis
      by (cases r) (auto simp: checked_def EXIT_NOT_CHECKED_def split: bool.splits)
  next
    case True
    show ?thesis
    proof (cases r2)
      case (Inl f)
      then show ?thesis using probe True run check_and_record_Inl [OF run [unfolded Inl]] by (simp add: checked_def)
    next
      case (Inr iv)
      then obtain i v where r2: "r2 = Inr (i, v)" by (cases iv) auto
      obtain q where q: "db_submissions db2 = db_submissions db @ [q]" "sr_verdict q = v"
        using check_and_record_appends [OF run [unfolded r2]] by blast
      have "checked env now s args db h = (Inr (verdict_exit v), db2, h2)"
        using probe True run r2 by (simp add: checked_def)
      then show ?thesis
        using q by (cases "vd_status v"; cases "vd_reject_reason v")
          (auto simp: verdict_exit_def accepted_def validator_fault_def appended_def
            EXIT_ACCEPTED_def EXIT_REJECTED_def EXIT_NOT_CHECKED_def)
    qed
  qed
qed


text \<open>A Docker CLI that breaks while the image is removed: the failure is ours, and the process exits with 1.\<close>

definition breaking_env :: pipeline_env where
  "breaking_env = sample_env\<lparr>pe_runner := (\<lambda>h args. if take 2 args = [''image'', ''rm''] then Run_Crash ''broken'' else pe_runner sample_env h args)\<rparr>"

theorem escaping_failure_exits_as_rejected:
  "(case fst (cmd_validate_image breaking_env ''now'' ''ghcr.io/org/agent:1''
       \<lparr>ca_miner_id = ''alice'', ca_keep_image = False, ca_no_dry_run = True, ca_skip_daemon_check = True\<rparr> empty_db []) of
      Inl f \<Rightarrow> process_status (Inl f) = EXIT_REJECTED
    | Inr _ \<Rightarrow> False)"
  by code_simp

end
