(* ===== verification/Db_Rows.thy ===== *)
theory Db_Rows
  imports Agent_Db Replay
begin

text \<open>
  The columns of \<open>secqurityVali/db.py\<close>: how a verdict becomes a row of \<open>submissions\<close> and a row becomes a
  dictionary again, and the migration of an older table.  The rendering of a float in a text column and
  the JSON reader are arguments.
\<close>

section \<open>Values\<close>

fun stage_value :: "stage \<Rightarrow> string" where
  "stage_value FILE = ''file''" | "stage_value STRUCTURE = ''structure''" | "stage_value LOAD = ''load''"
| "stage_value INSPECT = ''inspect''" | "stage_value DRY_RUN = ''dry_run''"

fun status_value :: "status \<Rightarrow> string" where
  "status_value ACCEPTED = ''accepted''" | "status_value REJECTED = ''rejected''"

fun reason_value :: "reject_reason \<Rightarrow> string" where
  "reason_value FILE_MISSING = ''file_missing''" | "reason_value FILE_EMPTY = ''file_empty''"
| "reason_value FILE_TOO_LARGE = ''file_too_large''" | "reason_value NOT_AN_ARCHIVE = ''not_an_archive''"
| "reason_value NOT_A_DOCKER_IMAGE = ''not_a_docker_image''" | "reason_value UNSAFE_TAR_ENTRY = ''unsafe_tar_entry''"
| "reason_value MALFORMED_ARCHIVE = ''malformed_archive''" | "reason_value MALFORMED_MANIFEST = ''malformed_manifest''"
| "reason_value MULTIPLE_IMAGES = ''multiple_images''" | "reason_value DECOMPRESSION_BOMB = ''decompression_bomb''"
| "reason_value TOO_MANY_ENTRIES = ''too_many_entries''" | "reason_value LOAD_FAILED = ''load_failed''"
| "reason_value BAD_IMAGE_REF = ''bad_image_ref''" | "reason_value PULL_FAILED = ''pull_failed''"
| "reason_value REGISTRY_UNAUTHORIZED = ''registry_unauthorized''" | "reason_value IMAGE_NOT_FOUND = ''image_not_found''"
| "reason_value DIGEST_UNRESOLVED = ''digest_unresolved''" | "reason_value ARCH_MISMATCH = ''arch_mismatch''"
| "reason_value OS_MISMATCH = ''os_mismatch''" | "reason_value NO_ENTRYPOINT = ''no_entrypoint''"
| "reason_value TOO_MANY_LAYERS = ''too_many_layers''" | "reason_value IMAGE_TOO_LARGE = ''image_too_large''"
| "reason_value CREATE_FAILED = ''create_failed''" | "reason_value START_FAILED = ''start_failed''"
| "reason_value DRY_RUN_TIMEOUT = ''dry_run_timeout''" | "reason_value DRY_RUN_NONZERO_EXIT = ''dry_run_nonzero_exit''"
| "reason_value DUPLICATE_AGENT = ''duplicate_agent''" | "reason_value DOCKER_UNAVAILABLE = ''docker_unavailable''"
| "reason_value INTERNAL_ERROR = ''internal_error''"

definition opt_text :: "string option \<Rightarrow> json" where
  "opt_text s = (case s of None \<Rightarrow> JNull | Some t \<Rightarrow> JStr t)"

definition opt_int :: "int option \<Rightarrow> json" where
  "opt_int s = (case s of None \<Rightarrow> JNull | Some i \<Rightarrow> JInt i)"

text \<open>\<open>Verdict.to_dict\<close>, in the order of \<open>_COLUMNS\<close>.\<close>

definition verdict_dict :: "string \<Rightarrow> verdict \<Rightarrow> (string \<times> json) list" where
  "verdict_dict received_at v = (let e = vd_evidence v in
     [(''miner_id'', JStr (vd_miner_id v)), (''received_at'', JStr received_at), (''file_path'', JStr (vd_file_path v)),
      (''status'', JStr (status_value (vd_status v))), (''stage_reached'', JStr (stage_value (vd_stage_reached v))),
      (''reject_reason'', opt_text (map_option reason_value (vd_reject_reason v))),
      (''file_sha256'', opt_text (ev_file_sha256 e)), (''file_size'', opt_int (map_option int (ev_file_size e))),
      (''source'', JStr (ev_source e)), (''image_ref'', opt_text (ev_image_ref e)),
      (''image_id'', opt_text (ev_image_id e)), (''repo_tags'', JList (map JStr (ev_repo_tags e))),
      (''arch'', ev_arch e), (''os_name'', ev_os_name e), (''layer_count'', opt_int (map_option int (ev_layer_count e))),
      (''image_size'', opt_int (ev_image_size e)), (''entrypoint'', JList (map JStr (ev_entrypoint e))),
      (''image_user'', ev_image_user e), (''dry_run_exit_code'', opt_int (ev_dry_run_exit_code e)),
      (''dry_run_ms'', opt_int (map_option int (ev_dry_run_ms e))), (''log_excerpt'', opt_text (ev_log_excerpt e)),
      (''agent_digest'', opt_text (ev_agent_digest e)), (''duplicate_of'', opt_int (map_option int (vd_duplicate_of v))),
      (''from_cache'', JBool (vd_from_cache v)), (''error_detail'', opt_text (vd_error_detail v))])"

section \<open>Rows\<close>

definition COLUMNS :: "string list" where
  "COLUMNS = [''miner_id'', ''received_at'', ''file_path'', ''status'', ''stage_reached'', ''reject_reason'',
     ''file_sha256'', ''file_size'', ''source'', ''image_ref'', ''image_id'', ''repo_tags'', ''arch'', ''os_name'',
     ''layer_count'', ''image_size'', ''entrypoint'', ''image_user'', ''dry_run_exit_code'', ''dry_run_ms'',
     ''log_excerpt'', ''agent_digest'', ''duplicate_of'', ''from_cache'', ''error_detail'']"

definition JSON_COLUMNS :: "string list" where "JSON_COLUMNS = [''repo_tags'', ''entrypoint'']"

text \<open>The columns the schema declares as integers; the others are text.\<close>

definition INTEGER_COLUMNS :: "string list" where
  "INTEGER_COLUMNS = [''file_size'', ''layer_count'', ''image_size'', ''dry_run_exit_code'', ''dry_run_ms'',
     ''duplicate_of'', ''from_cache'']"

datatype cell = Null | Integer int | Real fl | Text string

text \<open>Binding a value: SQLite takes no list, no object and no integer beyond 64 bits.\<close>

fun bind_value :: "json \<Rightarrow> cell option" where
  "bind_value JNull = Some Null"
| "bind_value (JBool b) = Some (Integer (if b then 1 else 0))"
| "bind_value (JInt i) = (if - (2 ^ 63) \<le> i \<and> i < 2 ^ 63 then Some (Integer i) else None)"
| "bind_value (JFloat f) = Some (Real f)"
| "bind_value (JStr s) = Some (Text s)"
| "bind_value (JList xs) = None"
| "bind_value (JDict d) = None"

text \<open>A number put into a text column becomes text.\<close>

definition store_cell :: "(fl \<Rightarrow> string) \<Rightarrow> string \<Rightarrow> cell \<Rightarrow> cell" where
  "store_cell real_text column c =
     (if column \<in> set INTEGER_COLUMNS then c
      else case c of Integer i \<Rightarrow> Text (show_int i) | Real f \<Rightarrow> Text (real_text f) | _ \<Rightarrow> c)"

definition column_value :: "string \<Rightarrow> json \<Rightarrow> json" where
  "column_value column j =
     (if column \<in> set JSON_COLUMNS
      then (case j of JList xs \<Rightarrow> JStr (dump_texts (map (\<lambda>x. case x of JStr s \<Rightarrow> s | _ \<Rightarrow> []) xs)) | _ \<Rightarrow> j)
      else if column = ''from_cache'' then JInt (if json_truthy j then 1 else 0)
      else j)"

fun bound_columns :: "(fl \<Rightarrow> string) \<Rightarrow> (string \<times> json) list \<Rightarrow> string list \<Rightarrow> (string \<times> cell) list option" where
  "bound_columns real_text data [] = Some []"
| "bound_columns real_text data (column # columns) =
     (case dget data column of
        None \<Rightarrow> None
      | Some j \<Rightarrow>
         (case bind_value (column_value column j) of
            None \<Rightarrow> None
          | Some c \<Rightarrow>
             map_option (Cons (column, store_cell real_text column c)) (bound_columns real_text data columns)))"

definition verdict_to_row :: "(fl \<Rightarrow> string) \<Rightarrow> (string \<times> json) list \<Rightarrow> (string \<times> cell) list option" where
  "verdict_to_row real_text data = bound_columns real_text data COLUMNS"

fun cell_value :: "cell \<Rightarrow> json" where
  "cell_value Null = JNull"
| "cell_value (Integer i) = JInt i"
| "cell_value (Real f) = JFloat f"
| "cell_value (Text s) = JStr s"

text \<open>\<open>_row_to_dict\<close>; \<open>None\<close>: the JSON of a column does not parse.\<close>

definition read_cell :: "(string \<Rightarrow> json_outcome) \<Rightarrow> string \<Rightarrow> cell \<Rightarrow> json option" where
  "read_cell loads column c =
     (if column \<in> set JSON_COLUMNS then
        (case c of
           Text s \<Rightarrow> if s = [] then Some (JList []) else (case loads s of Json j \<Rightarrow> Some j | _ \<Rightarrow> None)
         | _ \<Rightarrow> Some (JList []))
      else if column = ''from_cache'' then Some (JBool (json_truthy (cell_value c)))
      else Some (cell_value c))"

fun row_to_dict :: "(string \<Rightarrow> json_outcome) \<Rightarrow> (string \<times> cell) list \<Rightarrow> (string \<times> json) list option" where
  "row_to_dict loads [] = Some []"
| "row_to_dict loads ((column, c) # rest) =
     (case read_cell loads column c of
        None \<Rightarrow> None
      | Some j \<Rightarrow> map_option (Cons (column, j)) (row_to_dict loads rest))"

section \<open>Migration\<close>

definition ADDED_COLUMNS :: "string list" where
  "ADDED_COLUMNS = [''agent_digest'', ''duplicate_of'', ''from_cache'', ''source'', ''image_ref'']"

definition migrate :: "string list \<Rightarrow> string list" where
  "migrate existing = existing @ filter (\<lambda>c. c \<notin> set existing) ADDED_COLUMNS"

text \<open>\<open>init_schema\<close> on a database without the table (\<open>None\<close>) or with an older one.\<close>

definition init_schema :: "string list option \<Rightarrow> string list" where
  "init_schema existing = migrate (case existing of None \<Rightarrow> ''id'' # COLUMNS | Some cols \<Rightarrow> cols)"

lemma migrate_idempotent: "migrate (migrate cols) = migrate cols"
proof -
  have "filter (\<lambda>c. c \<notin> set (migrate cols)) ADDED_COLUMNS = []"
    by (auto simp: migrate_def filter_empty_conv)
  then show ?thesis unfolding migrate_def [of "migrate cols"] by simp
qed

text \<open>Every column an insert names exists after the schema was applied, and applying it again changes nothing.\<close>

theorem schema_has_all_columns:
  assumes "case existing of None \<Rightarrow> True | Some cols \<Rightarrow> set COLUMNS - set ADDED_COLUMNS \<subseteq> set cols"
  shows "set COLUMNS \<subseteq> set (init_schema existing) \<and> init_schema (Some (init_schema existing)) = init_schema existing"
  using assms by (cases existing) (auto simp: init_schema_def migrate_idempotent migrate_def [symmetric], auto simp: migrate_def)

section \<open>Reading back what was written\<close>

lemma stage_value_inj: "stage_value a = stage_value b \<Longrightarrow> a = b"
  by (cases a; cases b) simp_all

lemma status_value_inj: "status_value a = status_value b \<Longrightarrow> a = b"
  by (cases a; cases b) simp_all

definition text_or_none :: "json \<Rightarrow> bool" where
  "text_or_none j \<longleftrightarrow> j = JNull \<or> (\<exists>s. j = JStr s)"

text \<open>A value and the column it goes to.\<close>

definition fits :: "string \<Rightarrow> json \<Rightarrow> bool" where
  "fits column j \<longleftrightarrow>
     (if column \<in> set JSON_COLUMNS then \<exists>xs. j = JList (map JStr xs)
      else if column = ''from_cache'' then \<exists>b. j = JBool b
      else if column \<in> set INTEGER_COLUMNS then j = JNull \<or> (\<exists>i. j = JInt i)
      else text_or_none j)"

lemma written_cell_reads_back:
  assumes "fits column j" "bind_value (column_value column j) = Some c"
    and "\<And>xs. j = JList (map JStr xs) \<Longrightarrow> loads (dump_texts xs) = Json (JList (map JStr xs))"
  shows "read_cell loads column (store_cell real_text column c) = Some j"
proof (cases "column \<in> set JSON_COLUMNS")
  case True
  then obtain xs where xs: "j = JList (map JStr xs)" using assms(1) by (auto simp: fits_def)
  have ne: "dump_texts xs \<noteq> []" by (simp add: dump_texts_def)
  have "column \<notin> set INTEGER_COLUMNS" using True by (auto simp: JSON_COLUMNS_def INTEGER_COLUMNS_def)
  moreover have "c = Text (dump_texts xs)" using assms(2) True xs by (simp add: column_value_def comp_def)
  ultimately show ?thesis using True xs ne assms(3) by (simp add: read_cell_def store_cell_def)
next
  case False
  show ?thesis
  proof (cases "column = ''from_cache''")
    case True
    then have "column \<in> set INTEGER_COLUMNS" by (simp add: INTEGER_COLUMNS_def)
    with True False assms(1,2) show ?thesis
      by (auto simp: fits_def column_value_def read_cell_def store_cell_def split: if_splits)
  next
    case plain: False
    then have v: "column_value column j = j" using False by (simp add: column_value_def)
    show ?thesis
      using assms(1,2) False plain unfolding v
      by (auto simp: fits_def text_or_none_def read_cell_def store_cell_def split: if_splits)
  qed
qed

lemma bound_columns_read_back:
  assumes "\<forall>(column, j) \<in> set data. fits column j" "bound_columns real_text data columns = Some row"
    and "\<forall>xs. JList (map JStr xs) \<in> snd ` set data \<longrightarrow> loads (dump_texts xs) = Json (JList (map JStr xs))"
  shows "row_to_dict loads row = Some (map (\<lambda>column. (column, the (dget data column))) columns)"
  using assms(2)
proof (induction columns arbitrary: row)
  case (Cons column columns)
  then obtain j c rest where j: "dget data column = Some j" and c: "bind_value (column_value column j) = Some c"
    and rest: "bound_columns real_text data columns = Some rest" "row = (column, store_cell real_text column c) # rest"
    by (auto split: option.splits)
  note in_data = dget_in_set [OF j]
  have "read_cell loads column (store_cell real_text column c) = Some j"
    by (rule written_cell_reads_back [OF _ c]) (use assms(1,3) in_data in force)+
  with Cons.IH [OF rest(1)] j show ?case by (simp add: rest(2))
qed simp

lemma bound_columns_names: "bound_columns real_text data columns = Some row \<Longrightarrow> map fst row = columns"
  by (induction columns arbitrary: row) (auto split: option.splits)

lemma dict_of_its_keys:
  assumes "distinct (map fst data)"
  shows "map (\<lambda>k. (k, the (dget data k))) (map fst data) = data"
  using assms by (auto simp: map_of_is_SomeI intro!: map_idI)

lemma verdict_dict_columns: "map fst (verdict_dict t v) = COLUMNS"
  by (simp add: verdict_dict_def COLUMNS_def Let_def)

lemma distinct_COLUMNS: "distinct COLUMNS"
  by (simp add: COLUMNS_def)

lemma verdict_dict_fits:
  assumes "text_or_none (ev_arch (vd_evidence v))" "text_or_none (ev_os_name (vd_evidence v))"
    and "text_or_none (ev_image_user (vd_evidence v))"
  shows "\<forall>(column, j) \<in> set (verdict_dict t v). fits column j"
proof -
  have txts: "text_or_none (opt_text s)" for s by (simp add: text_or_none_def opt_text_def split: option.split)
  have ints: "opt_int s = JNull \<or> (\<exists>i. opt_int s = JInt i)" for s by (simp add: opt_int_def split: option.split)
  show ?thesis
    using assms txts ints
    by (auto simp: verdict_dict_def Let_def fits_def JSON_COLUMNS_def INTEGER_COLUMNS_def text_or_none_def)
qed

lemma not_list:
  "JList ys \<noteq> opt_text s" "JList ys \<noteq> opt_int i" "text_or_none j \<Longrightarrow> JList ys \<noteq> j"
  by (auto simp: opt_text_def opt_int_def text_or_none_def split: option.splits)

lemma verdict_dict_lists:
  assumes "text_or_none (ev_arch (vd_evidence v))" "text_or_none (ev_os_name (vd_evidence v))"
    and "text_or_none (ev_image_user (vd_evidence v))"
    and "JList (map JStr xs) \<in> snd ` set (verdict_dict t v)"
  shows "xs = ev_repo_tags (vd_evidence v) \<or> xs = ev_entrypoint (vd_evidence v)"
proof -
  have inj: "map JStr xs = map JStr ys \<longleftrightarrow> xs = ys" for ys by (simp add: inj_map_eq_map inj_def)
  show ?thesis
    using assms(4) not_list(3) [OF assms(1)] not_list(3) [OF assms(2)] not_list(3) [OF assms(3)]
    by (simp add: verdict_dict_def Let_def not_list(1,2) inj)
qed

text \<open>C40: A stored verdict reads back as it was.  If its architecture, operating system and user are text or
  missing and SQLite accepts the row, then the row has every column in order and turning it back into a
  dictionary gives each field of the verdict again, lists and the cache flag included.\<close>

theorem stored_verdict_reads_back:
  assumes "text_or_none (ev_arch (vd_evidence v))" "text_or_none (ev_os_name (vd_evidence v))"
    and "text_or_none (ev_image_user (vd_evidence v))"
    and "verdict_to_row real_text (verdict_dict t v) = Some row"
    and "loads (dump_texts (ev_repo_tags (vd_evidence v))) = Json (JList (map JStr (ev_repo_tags (vd_evidence v))))"
    and "loads (dump_texts (ev_entrypoint (vd_evidence v))) = Json (JList (map JStr (ev_entrypoint (vd_evidence v))))"
  shows "map fst row = COLUMNS \<and> row_to_dict loads row = Some (verdict_dict t v)"
proof -
  note row = assms(4) [unfolded verdict_to_row_def]
  have "\<forall>xs. JList (map JStr xs) \<in> snd ` set (verdict_dict t v) \<longrightarrow> loads (dump_texts xs) = Json (JList (map JStr xs))"
    using verdict_dict_lists [OF assms(1-3)] assms(5,6) by metis
  from bound_columns_read_back [OF verdict_dict_fits [OF assms(1-3)] row this] bound_columns_names [OF row]
  show ?thesis using dict_of_its_keys [of "verdict_dict t v"] by (simp add: verdict_dict_columns distinct_COLUMNS)
qed

definition sample_evidence :: evidence where
  "sample_evidence = no_evidence\<lparr>ev_repo_tags := [''a:1''], ev_entrypoint := [''run''], ev_file_size := Some 7\<rparr>"

definition row_loads :: "string \<Rightarrow> json_outcome" where
  "row_loads s = (if s = dump_texts [''a:1''] then Json (JList [JStr ''a:1''])
     else if s = dump_texts [''run''] then Json (JList [JStr ''run'']) else Json_Decode_Error)"

theorem stored_verdict_reads_back_witness:
  "\<exists>row. verdict_to_row (\<lambda>_. []) (verdict_dict ''now'' (accept ''m'' ''f'' INSPECT sample_evidence)) = Some row \<and>
     row_to_dict row_loads row = Some (verdict_dict ''now'' (accept ''m'' ''f'' INSPECT sample_evidence))"
proof -
  let ?v = "accept ''m'' ''f'' INSPECT sample_evidence"
  have "verdict_to_row (\<lambda>_. []) (verdict_dict ''now'' ?v) \<noteq> None" by code_simp
  then obtain row where row: "verdict_to_row (\<lambda>_. []) (verdict_dict ''now'' ?v) = Some row" by auto
  have txts: "text_or_none (ev_arch (vd_evidence ?v))" "text_or_none (ev_os_name (vd_evidence ?v))"
    "text_or_none (ev_image_user (vd_evidence ?v))"
    by (simp_all add: accept_def sample_evidence_def no_evidence_def text_or_none_def)
  have "row_loads (dump_texts (ev_repo_tags (vd_evidence ?v))) = Json (JList (map JStr (ev_repo_tags (vd_evidence ?v))))"
    "row_loads (dump_texts (ev_entrypoint (vd_evidence ?v))) = Json (JList (map JStr (ev_entrypoint (vd_evidence ?v))))"
    by code_simp+
  with stored_verdict_reads_back [OF txts row] row show ?thesis by blast
qed

text \<open>An architecture that is an object cannot be bound, so recording the verdict raises.\<close>

theorem odd_architecture_cannot_be_stored:
  "ev_arch (vd_evidence v) = JDict d \<Longrightarrow> verdict_to_row real_text (verdict_dict t v) = None"
  by (simp add: verdict_to_row_def COLUMNS_def verdict_dict_def Let_def column_value_def JSON_COLUMNS_def split: option.split)

text \<open>The condition of the query for a replayable row, on the stored columns, is \<open>replayable\<close>.\<close>

lemma replayable_on_columns:
  "replayable r \<longleftrightarrow> \<not> vd_from_cache (sr_verdict r) \<and>
     (case opt_text (map_option reason_value (vd_reject_reason (sr_verdict r))) of
        JStr s \<Rightarrow> s \<notin> set (map reason_value VALIDATOR_FAULT_REASONS)
      | _ \<Rightarrow> True)"
proof -
  have "reason_value a \<in> set (map reason_value VALIDATOR_FAULT_REASONS) \<longleftrightarrow> a \<in> set VALIDATOR_FAULT_REASONS" for a
    by (cases a) (simp_all add: VALIDATOR_FAULT_REASONS_def)
  then show ?thesis by (auto simp: replayable_def opt_text_def split: option.split)
qed

end
