(* ===== verification/Security_Life.thy ===== *)
theory Security_Life
  imports Security_Round Weights
begin

text \<open>
  The security validator over its whole life: rounds, synchronisations with the metagraph and restarts from
  the file of the matrix follow each other in any order.  Every outcome a round folds is kept in a log, and a
  positive score always leads back to an entry of the log: an admitted agent of that hotkey that proved its
  exploit.
\<close>

section \<open>Keeping a log\<close>

record judgement =
  jd_hotkey :: string
  jd_context :: eval_context
  jd_candidate :: candidate
  jd_world :: eval_world
  jd_outcome :: eval_outcome

text \<open>\<open>evaluate_candidate\<close> with a log of its outcomes beside the world; the log is read by nobody.\<close>

definition evaluate_logged :: "(nat \<Rightarrow> eval_context) \<Rightarrow> (eval_world \<times> judgement list) evaluator" where
  "evaluate_logged ctxs i c hotkey = (\<lambda>(w, js).
     case evaluate_candidate (ctxs i) c hotkey w of
       (Inl e, w') \<Rightarrow> (Inl e, (w', js))
     | (Inr out, w') \<Rightarrow>
         (Inr out, (w', js @ [\<lparr>jd_hotkey = hotkey, jd_context = ctxs i, jd_candidate = c, jd_world = w, jd_outcome = out\<rparr>])))"

text \<open>
  How a candidate reaches its run: admitted under this hotkey, with the verdict, and run as an image.  A
  reference is run as it was admitted; of a blob the file that was decrypted from it is admitted and, in the
  world its admission left, loaded, and what Docker calls the loaded image is run.  The job starts where this ends.
\<close>

definition admitted_as ::
  "eval_context \<Rightarrow> candidate \<Rightarrow> string \<Rightarrow> eval_world \<Rightarrow> verdict \<Rightarrow> string \<Rightarrow> eval_world \<Rightarrow> bool" where
  "admitted_as ctx c hotkey s v img s' \<longleftrightarrow> accepted v \<and> (case c of
      Image ref \<Rightarrow> img = ref \<and> intake ctx (By_Reference ref) hotkey s = (Inr v, s')
    | Blob url sha \<Rightarrow> (\<exists>blob tar db h w h'. download_blob ctx url = Inr blob \<and>
        (sha \<noteq> [] \<longrightarrow> pe_sha256 (ec_pipeline ctx) blob = sha) \<and>
        ec_decrypt ctx blob (ec_private_key ctx) = Some tar \<and>
        intake ctx (By_File (ec_file ctx tar)) hotkey s = (Inr v, (db, h, w)) \<and>
        load_image (pe_runner (ec_pipeline ctx)) (sf_path (ec_file ctx tar)) h = (Inr img, h') \<and>
        s' = (db, h', w)))"

text \<open>
  What a judgement says when it is worth something: the candidate was evaluated there and then, admitted, and
  the run of just that image, right after its admission, is proven.
\<close>

definition proven_judgement :: "judgement \<Rightarrow> string \<Rightarrow> bool" where
  "proven_judgement j cat \<longleftrightarrow>
     (\<exists>w. evaluate_candidate (jd_context j) (jd_candidate j) (jd_hotkey j) (jd_world j) = (Inr (jd_outcome j), w)) \<and>
     (\<exists>v img db h w h' w' gone job.
        admitted_as (jd_context j) (jd_candidate j) (jd_hotkey j) (jd_world j) v img (db, h, w) \<and>
        run_job (ec_services (jd_context j)) (ec_job (jd_context j)) None (ec_draws (jd_context j)) img (h, w) =
          (Inr job, (h', w'), gone) \<and>
        jd_outcome j = job_outcome (jd_context j) v job \<and> jr_category job = cat \<and>
        proven_run (ec_services (jd_context j)) (ec_job (jd_context j))
          (generate_challenge (ec_draws (jd_context j))) img h h' job)"

section \<open>The life of the validator\<close>

record security_node =
  sn_world :: eval_world
  sn_validator :: validator_state
  sn_metagraph :: metagraph
  sn_hotkeys :: "string list"
  sn_file :: "json option"

text \<open>\<open>__init__\<close>: the matrix from its file, which may be missing, and scores of zero.\<close>

definition started :: "rat \<Rightarrow> metagraph \<Rightarrow> string list \<Rightarrow> json option \<Rightarrow> eval_world \<Rightarrow> security_node option" where
  "started alpha mg listed saved w = (case load (map_option Json saved) alpha of
      Inr (Matrix m) \<Rightarrow> Some \<lparr>sn_world = w,
         sn_validator = \<lparr>va_matrix = m, va_listed = listed, va_scores = replicate (mg_n mg) 0, va_last_round_at = 0\<rparr>,
         sn_metagraph = mg, sn_hotkeys = mg_hotkeys mg, sn_file = saved\<rparr>
    | _ \<Rightarrow> None)"

text \<open>A metagraph has a hotkey for every uid.\<close>

definition graph_ok :: "metagraph \<Rightarrow> bool" where
  "graph_ok mg \<longleftrightarrow> mg_n mg = length (mg_hotkeys mg)"

text \<open>
  One event, labelled with the outcomes it logged.  A round ends on the metagraph as it is then; only a
  finished one writes the file, and the write may fail.  An axon names its hotkey, so equal axons mean equal
  hotkeys.  Others use the database, Docker and the web in between.
\<close>

inductive security_step :: "security_node \<Rightarrow> judgement list \<Rightarrow> security_node \<Rightarrow> bool" where
  rounds: "security_round ctx interval (evaluate_logged ctxs) uids answers ((sn_world n, []), sn_validator n) =
      (finished, (w, new), va, pending) \<Longrightarrow>
    rc_categories ctx = SECURITY_ACTIVE_CATEGORIES \<Longrightarrow>
    rc_hotkeys ctx (length (zip uids answers)) = mg_hotkeys (sn_metagraph n) \<Longrightarrow>
    saved = sn_file n \<or> finished \<and> saved = Some (to_dict (va_matrix va)) \<Longrightarrow>
    security_step n new (n\<lparr>sn_world := w, sn_validator := va, sn_file := saved\<rparr>)"
| resyncs: "resync_metagraph mg \<lparr>b_hotkeys = sn_hotkeys n, b_scores = va_scores (sn_validator n),
      b_metagraph = sn_metagraph n\<rparr> = Inr b \<Longrightarrow>
    graph_ok mg \<Longrightarrow> (mg_axons (sn_metagraph n) = mg_axons mg \<Longrightarrow> mg_hotkeys (sn_metagraph n) = mg_hotkeys mg) \<Longrightarrow>
    security_step n [] (n\<lparr>sn_metagraph := b_metagraph b, sn_hotkeys := b_hotkeys b,
      sn_validator := (sn_validator n)\<lparr>va_scores := b_scores b\<rparr>\<rparr>)"
| elsewhere: "security_step n [] (n\<lparr>sn_world := w\<rparr>)"
| restarts: "started alpha mg listed (sn_file n) w = Some n' \<Longrightarrow> graph_ok mg \<Longrightarrow> 0 \<le> alpha \<Longrightarrow> alpha \<le> 1 \<Longrightarrow>
    security_step n [] n'"

inductive security_run :: "judgement list \<Rightarrow> security_node \<Rightarrow> bool" where
  starts: "started alpha mg listed None w = Some n \<Longrightarrow> graph_ok mg \<Longrightarrow> 0 \<le> alpha \<Longrightarrow> alpha \<le> 1 \<Longrightarrow> security_run [] n"
| continues: "security_run js n \<Longrightarrow> security_step n new n' \<Longrightarrow> security_run (js @ new) n'"

inductive_cases security_stepE: "security_step n new n'"

section \<open>Lemmas: a paid run is a proven run\<close>

lemma collected_job_accepted:
  assumes "collect sv env ch cid s = (Inr job, s')" "jr_safe job" "jr_task job = Some t" "0 < tr_score t"
  shows "jr_accepted job"
  using assms(1)
proof (rule collect_InrE)
  fix e r'
  assume a: "assemble_result (sv_loads sv) (je_run_id env) ch e = Inr r'" "job = r'\<lparr>jr_request_count := jr_request_count job\<rparr>"
  have eqs: "jr_accepted job = jr_accepted r'" "jr_safe job = jr_safe r'" "jr_task job = jr_task r'"
    by (subst a(2), simp)+
  from a(1) show ?thesis
    using assms(2-4) grade_needs_canary unfolding eqs
    by (auto simp: assemble_result_def Let_def score_task_grade split: prod.splits sum.splits parse_failure.splits)
qed

lemma paid_job_accepted:
  assumes "run_job sv env given d img s = (Inr job, rest)" "reward_for_job job = Some q" "0 < q"
  shows "jr_accepted job"
proof -
  obtain t where t: "jr_safe job" "jr_task job = Some t" "0 < tr_score t"
    using assms(2,3) by (auto simp: reward_for_job_def split: if_splits option.splits)
  let ?ch = "case given of Some c \<Rightarrow> c | None \<Rightarrow> generate_challenge d"
  obtain s' where "job_handled sv env ?ch img s = (job, s')" using run_job_result [OF assms(1)] .
  then have "job_body sv env ?ch img s = (Inr job, s')"
    using t(2) by (auto simp: job_handled_def split: prod.splits sum.splits)
  from job_body_cases [OF this] t(2) obtain cid s1 where "collect sv env ?ch cid s1 = (Inr job, s')" by auto
  from collected_job_accepted [OF this t] show ?thesis .
qed

text \<open>An outcome with a category is that of the job for the image that was admitted.\<close>

lemma evaluate_candidate_job:
  assumes "evaluate_candidate ctx c hk s = (Inr out, s')" "eo_category out = Some cat"
  shows "\<exists>v img s1. admitted_as ctx c hk s v img s1 \<and> fst (evaluate_job ctx v img s1) = Inr out"
proof (cases c)
  case (Image ref)
  with assms obtain v s1 where "intake ctx (By_Reference ref) hk s = (Inr v, s1)" "accepted v"
    "evaluate_job ctx v ref s1 = (Inr out, s')"
    by (auto simp: evaluate_candidate_def evaluate_def intake_outcome_def unscored_def
        split: prod.splits sum.splits if_splits)
  with Image show ?thesis by (auto simp: admitted_as_def)
next
  case (Blob url sha)
  with assms obtain blob tar where blob: "download_blob ctx url = Inr blob"
    "sha \<noteq> [] \<longrightarrow> pe_sha256 (ec_pipeline ctx) blob = sha" "ec_decrypt ctx blob (ec_private_key ctx) = Some tar"
    and "evaluate_tarball ctx (ec_file ctx tar) hk s = (Inr out, s')"
    by (auto simp: evaluate_candidate_def evaluate_blob_def unscored_def split: sum.splits if_splits option.splits)
  with assms(2) obtain v db h w img h2 where
    "intake ctx (By_File (ec_file ctx tar)) hk s = (Inr v, (db, h, w))" "accepted v"
    "load_image (pe_runner (ec_pipeline ctx)) (sf_path (ec_file ctx tar)) h = (Inr img, h2)"
    "drop_image ctx img (evaluate_job ctx v img (db, h2, w)) = (Inr out, s')"
    by (auto simp: evaluate_tarball_def intake_outcome_def unscored_def split: prod.splits sum.splits if_splits)
  with blob Blob show ?thesis using drop_image_InrD unfolding admitted_as_def by fastforce
qed

lemma evaluate_job_InrE:
  assumes "fst (evaluate_job ctx v img (db, h, w)) = Inr out"
  obtains job h' w' gone where
    "run_job (ec_services ctx) (ec_job ctx) None (ec_draws ctx) img (h, w) = (Inr job, (h', w'), gone)"
    "out = job_outcome ctx v job"
  using assms by (auto simp: evaluate_job_def split: prod.splits sum.splits)

lemma paid_outcome_proven:
  assumes "evaluate_candidate ctx c hk w = (Inr out, w')" "eo_category out = Some cat" "eo_reward out = Some r" "0 < r"
  shows "proven_judgement \<lparr>jd_hotkey = hk, jd_context = ctx, jd_candidate = c, jd_world = w, jd_outcome = out\<rparr> cat"
proof -
  from evaluate_candidate_job [OF assms(1,2)] obtain v img db h web where
    adm: "admitted_as ctx c hk w v img (db, h, web)" and "fst (evaluate_job ctx v img (db, h, web)) = Inr out"
    by (metis prod.exhaust)
  from this(2) obtain job h' web' gone where
    job: "run_job (ec_services ctx) (ec_job ctx) None (ec_draws ctx) img (h, web) = (Inr job, (h', web'), gone)"
    "out = job_outcome ctx v job"
    by (rule evaluate_job_InrE)
  have "jr_accepted job" using paid_job_accepted [OF job(1)] assms(3,4) job(2) by (simp add: job_outcome_def)
  from accepted_run_proven [OF job(1) this]
  have "proven_run (ec_services ctx) (ec_job ctx) (generate_challenge (ec_draws ctx)) img h h' job" by simp
  moreover have "jr_category job = cat" using job(2) assms(2) by (simp add: job_outcome_def split: if_splits)
  ultimately show ?thesis
    using assms(1) adm job unfolding proven_judgement_def judgement.simps by blast
qed

section \<open>Lemmas: what is earned\<close>

definition earned :: "judgement list \<Rightarrow> string \<Rightarrow> string \<Rightarrow> bool" where
  "earned js hotkey cat \<longleftrightarrow> (\<exists>j \<in> set js. jd_hotkey j = hotkey \<and> proven_judgement j cat)"

definition matrix_earned :: "judgement list \<Rightarrow> category_scores \<Rightarrow> bool" where
  "matrix_earned js m \<longleftrightarrow> (\<forall>hk cat s. category_score m hk cat = Some s \<and> 0 < s \<longrightarrow> earned js hk cat)"

definition score_earned :: "judgement list \<Rightarrow> string list \<Rightarrow> nat \<Rightarrow> rat \<Rightarrow> bool" where
  "score_earned js hotkeys uid s \<longleftrightarrow> 0 \<le> s \<and> s \<le> 1 \<and>
     (0 < s \<longrightarrow> uid < length hotkeys \<and> (\<exists>cat \<in> set SECURITY_ACTIVE_CATEGORIES. earned js (hotkeys ! uid) cat))"

definition scores_earned :: "judgement list \<Rightarrow> string list \<Rightarrow> rat list \<Rightarrow> bool" where
  "scores_earned js hotkeys scores \<longleftrightarrow> (\<forall>uid < length scores. score_earned js hotkeys uid (scores ! uid))"

definition security_ok :: "judgement list \<Rightarrow> security_node \<Rightarrow> bool" where
  "security_ok js n \<longleftrightarrow> graph_ok (sn_metagraph n) \<and> sn_hotkeys n = mg_hotkeys (sn_metagraph n) \<and>
     matrix_ok (va_matrix (sn_validator n)) \<and> matrix_earned js (va_matrix (sn_validator n)) \<and>
     scores_earned js (sn_hotkeys n) (va_scores (sn_validator n)) \<and>
     (\<forall>j. sn_file n = Some j \<longrightarrow> (\<exists>m. j = to_dict m \<and> matrix_ok m \<and> matrix_earned js m))"

lemma earned_more: "earned js hk cat \<Longrightarrow> earned (js @ new) hk cat"
  by (auto simp: earned_def)

lemma matrix_earned_more: "matrix_earned js m \<Longrightarrow> matrix_earned (js @ new) m"
  by (auto simp: matrix_earned_def earned_more)

lemma score_earned_more: "score_earned js hs uid s \<Longrightarrow> score_earned (js @ new) hs uid s"
  by (auto simp: score_earned_def intro: earned_more)

lemma scores_earned_more: "scores_earned js hs scores \<Longrightarrow> scores_earned (js @ new) hs scores"
  by (simp add: scores_earned_def score_earned_more)

lemma score_earned_zero [simp]: "score_earned js hs uid 0"
  by (simp add: score_earned_def)

lemma blend_positive:
  assumes "0 < blend alpha old v" "0 \<le> alpha" "alpha \<le> 1"
  shows "0 < v \<or> (\<exists>s. old = Some s \<and> 0 < s)"
proof (rule ccontr)
  assume "\<not> ?thesis"
  then have "v \<le> 0" "\<And>s. old = Some s \<Longrightarrow> s \<le> 0" by (auto simp: not_less)
  with assms(2,3) have "blend alpha old v \<le> 0"
    by (auto simp: blend_def mult_nonneg_nonpos add_nonpos_nonpos split: option.split)
  with assms(1) show False by simp
qed

lemma matrix_earned_update:
  assumes "matrix_ok m" "matrix_earned js m" "0 < v \<Longrightarrow> earned js hk cat"
  shows "matrix_earned js (snd (update_cell m hk cat v t))"
proof -
  have "earned js hk cat" if "0 < fst (update_cell m hk cat v t)"
    using blend_positive [OF that [unfolded fst_update_cell]] assms
    by (auto simp: matrix_ok_def matrix_earned_def)
  with assms(2) show ?thesis by (auto simp: matrix_earned_def update_cell_score split: if_splits)
qed

text \<open>The loop logs what it folds.\<close>

lemma round_loop_earned:
  assumes "matrix_ok (rs_matrix st)" "matrix_earned (js @ snd (rs_world st)) (rs_matrix st)"
    and "round_loop ctx (evaluate_logged ctxs) i rs st = (fin, st')"
  shows "matrix_ok (rs_matrix st') \<and> matrix_earned (js @ snd (rs_world st')) (rs_matrix st')"
proof -
  let ?Q = "\<lambda>w m. matrix_ok m \<and> matrix_earned (js @ snd w) m"
  have "?Q (rs_world (snd (round_loop ctx (evaluate_logged ctxs) i rs st)))
      (rs_matrix (snd (round_loop ctx (evaluate_logged ctxs) i rs st)))"
  proof (rule round_loop_invariant [where Q = ?Q])
    fix i c hk out uid and w w' :: "eval_world \<times> judgement list" and m
    assume e: "evaluate_logged ctxs i c hk w = (Inr out, w')" and q: "?Q w m"
    then obtain w2 where c: "evaluate_candidate (ctxs i) c hk (fst w) = (Inr out, w2)"
      and js: "snd w' = snd w @ [\<lparr>jd_hotkey = hk, jd_context = ctxs i, jd_candidate = c, jd_world = fst w, jd_outcome = out\<rparr>]"
      by (auto simp: evaluate_logged_def split: prod.splits sum.splits)
    have more: "matrix_earned (js @ snd w') m" using q matrix_earned_more [of "js @ snd w"] by (simp add: js)
    show "?Q w' (folded_matrix ctx i hk out m)"
    proof (cases "\<exists>r cat. eo_reward out = Some r \<and> eo_category out = Some cat")
      case False
      with q more show ?thesis by (auto simp: folded_matrix_def split: option.split)
    next
      case True
      then obtain r cat where r: "eo_reward out = Some r" "eo_category out = Some cat" by blast
      have "reward_ok (eo_reward out)" using evaluate_candidate_ok c unfolding evaluator_ok_def by blast
      then have unit: "0 \<le> r" "r \<le> 1" by (simp_all add: r reward_ok_def)
      have "earned (js @ snd w') hk cat" if "0 < r"
        using paid_outcome_proven [OF c r(2,1) that] by (auto simp: earned_def js)
      with q more r unit show ?thesis by (simp add: folded_matrix_def matrix_ok_update matrix_earned_update)
    qed
  next
    fix i c hk e and w w' :: "eval_world \<times> judgement list" and m
    assume "evaluate_logged ctxs i c hk w = (Inl e, w')" "?Q w m"
    then show "?Q w' m" by (auto simp: evaluate_logged_def split: prod.splits sum.splits)
  qed (use assms in auto)
  with assms(3) show ?thesis by simp
qed

lemma matrix_earned_prune: "matrix_earned js m \<Longrightarrow> matrix_earned js (prune m valid)"
  by (auto simp: matrix_earned_def prune_score)

lemma standing_earned:
  assumes "matrix_ok m" "matrix_earned js m" "rc_categories ctx = SECURITY_ACTIVE_CATEGORIES" "uid < length hs"
  shows "score_earned js hs uid (standing ctx m (hs ! uid))"
proof -
  let ?worth = "\<lambda>c. cell_worth (rc_now ctx) (Some (rc_freshness_s ctx)) (dget (row_of (cs_cells m) (hs ! uid)) c)"
  have "\<exists>cat \<in> set SECURITY_ACTIVE_CATEGORIES. earned js (hs ! uid) cat" if "0 < standing ctx m (hs ! uid)"
  proof -
    have "0 < sum_list (map ?worth SECURITY_ACTIVE_CATEGORIES)"
      using that by (simp add: standing_def aggregate_sum assms(3) zero_less_divide_iff split: if_splits)
    then obtain cat where cat: "cat \<in> set SECURITY_ACTIVE_CATEGORIES" "0 < ?worth cat"
      using sum_list_nonpos [of "map ?worth SECURITY_ACTIVE_CATEGORIES"] by (auto simp: not_less [symmetric])
    from cat(2) obtain s where "category_score m (hs ! uid) cat = Some s" "0 < s"
      by (auto simp: cell_worth_def category_score_def split: option.splits if_splits)
    with assms(2) have "earned js (hs ! uid) cat" by (auto simp: matrix_earned_def)
    with cat(1) show ?thesis by blast
  qed
  with standing_unit [OF assms(1)] assms(4) show ?thesis by (simp add: score_earned_def)
qed

lemma recompute_SomeD:
  assumes "dget (recompute_all_scores ctx hs m) uid = Some v"
  shows "uid < length hs \<and> v = standing ctx m (hs ! uid)"
proof -
  let ?step = "\<lambda>hk out. case dget (hotkey_uids hs) hk of None \<Rightarrow> out | Some u \<Rightarrow> dput u (standing ctx m hk) out"
  have "dget (fold ?step ks out) uid = Some v \<Longrightarrow> dget out uid = Some v \<or> uid < length hs \<and> v = standing ctx m (hs ! uid)"
    for ks and out :: "(nat, rat) dict"
  proof (induction ks arbitrary: out)
    case (Cons k ks)
    then have "dget (?step k out) uid = Some v \<or> uid < length hs \<and> v = standing ctx m (hs ! uid)" by simp
    then show ?case
      using hotkey_uids_inverse [of hs k uid] by (auto simp: dget_dput split: option.splits if_splits)
  qed simp
  from this [of "dkeys (cs_cells m)" "[]"] assms show ?thesis by (simp add: recompute_all_scores_def)
qed

lemma recomputed_earned:
  assumes "matrix_ok m" "matrix_earned js m" "rc_categories ctx = SECURITY_ACTIVE_CATEGORIES" "scores_earned js hs scores"
  shows "scores_earned js hs (update_from_rewards (recompute_all_scores ctx hs m) scores)"
  unfolding scores_earned_def update_length
proof (intro allI impI)
  fix uid
  assume uid: "uid < length scores"
  have "update_from_rewards (recompute_all_scores ctx hs m) scores ! uid =
      (case dget (recompute_all_scores ctx hs m) uid of Some v \<Rightarrow> v | None \<Rightarrow> scores ! uid)"
    using update_from_rewards_nth [OF recompute_keys uid] by simp
  then show "score_earned js hs uid (update_from_rewards (recompute_all_scores ctx hs m) scores ! uid)"
    using assms(4) uid standing_earned [OF assms(1-3)]
    by (auto simp: scores_earned_def dest: recompute_SomeD split: option.split)
qed

section \<open>Lemmas: every event keeps it\<close>

lemma security_round_earned:
  assumes "security_round ctx interval (evaluate_logged ctxs) uids answers ((w, []), va) = (finished, (w', new), va', pending)"
    and "rc_categories ctx = SECURITY_ACTIVE_CATEGORIES" "rc_hotkeys ctx (length (zip uids answers)) = hs"
    and "matrix_ok (va_matrix va)" "matrix_earned js (va_matrix va)" "scores_earned js hs (va_scores va)"
  shows "matrix_ok (va_matrix va') \<and> matrix_earned (js @ new) (va_matrix va') \<and> scores_earned (js @ new) hs (va_scores va')"
proof (cases "round_due ctx interval uids va")
  case False
  then have "va_matrix va' = va_matrix va" "va_scores va' = va_scores va" "new = []"
    using assms(1) by (auto simp: security_round_def round_due_def split: if_splits)
  with assms(4-6) show ?thesis by simp
next
  case True
  let ?st = "\<lparr>rs_world = (w, []), rs_matrix = va_matrix va, rs_listed = va_listed va, rs_rewards = [], rs_skipped = [],
      rs_pending = [], rs_answered = 0, rs_budget_reached = False\<rparr>"
  obtain fin st where loop: "round_loop ctx (evaluate_logged ctxs) 0 (zip uids answers) ?st = (fin, st)" by (rule prod.exhaust)
  have st: "matrix_ok (rs_matrix st)" "matrix_earned (js @ snd (rs_world st)) (rs_matrix st)"
    using round_loop_earned [OF _ _ loop, of js] assms(4,5) by auto
  have new: "new = snd (rs_world st)" and m: "va_matrix va' = rs_matrix st \<or> va_matrix va' = prune (rs_matrix st) hs"
    and scores: "va_scores va' = va_scores va \<or>
      va_scores va' = update_from_rewards (recompute_all_scores ctx hs (va_matrix va')) (va_scores va)"
    using assms(1,3) True loop unfolding security_round_def round_due_def by (auto simp: Let_def split: if_splits)
  have ok: "matrix_ok (va_matrix va')" "matrix_earned (js @ new) (va_matrix va')"
    using m st matrix_ok_prune matrix_earned_prune by (auto simp: new)
  have old: "scores_earned (js @ new) hs (va_scores va)" by (rule scores_earned_more [OF assms(6)])
  with scores recomputed_earned [OF ok assms(2) old] ok show ?thesis by auto
qed

lemma zero_replaced_nth:
  "zero_replaced uids old new scores = Inr scores' \<Longrightarrow> length scores' = length scores \<and>
     (\<forall>u < length scores. scores' ! u = (if u \<in> set uids \<and> old ! u \<noteq> new ! u then 0 else scores ! u))"
proof (induction uids arbitrary: scores)
  case (Cons uid uids)
  show ?case
  proof (cases "old ! uid \<noteq> new ! uid")
    case True
    with Cons.prems have "zero_replaced uids old new (scores[uid := 0]) = Inr scores'" by (simp split: if_splits)
    from Cons.IH [OF this] have len: "length scores' = length scores"
      and nth: "\<And>u. u < length scores \<Longrightarrow> scores' ! u = (if u \<in> set uids \<and> old ! u \<noteq> new ! u then 0 else scores[uid := 0] ! u)"
      by simp_all
    have "scores' ! u = (if u \<in> set (uid # uids) \<and> old ! u \<noteq> new ! u then 0 else scores ! u)" if "u < length scores" for u
      using nth [OF that] True that by (cases "u = uid") simp_all
    with len show ?thesis by blast
  next
    case False
    with Cons show ?thesis by auto
  qed
qed simp

lemma resync_earned:
  assumes "resync_metagraph mg \<lparr>b_hotkeys = hs, b_scores = scores, b_metagraph = old\<rparr> = Inr b"
    and "graph_ok mg" "mg_axons old = mg_axons mg \<Longrightarrow> mg_hotkeys old = mg_hotkeys mg"
    and "hs = mg_hotkeys old" "scores_earned js hs scores"
  shows "b_metagraph b = mg \<and> b_hotkeys b = mg_hotkeys mg \<and> scores_earned js (mg_hotkeys mg) (b_scores b)"
proof (cases "mg_axons old = mg_axons mg")
  case True
  then show ?thesis using assms(1,3-5) by (auto simp: resync_metagraph_def Let_def)
next
  case False
  then obtain scores' where z: "zero_replaced [0..<min (length hs) (length (mg_hotkeys mg))] hs (mg_hotkeys mg) scores = Inr scores'"
    and b: "b = \<lparr>b_hotkeys = mg_hotkeys mg, b_scores = resize_scores (mg_n mg) scores', b_metagraph = mg\<rparr>"
    using assms(1) by (auto simp: resync_metagraph_def Let_def split: sum.splits)
  have "score_earned js (mg_hotkeys mg) uid (scores' ! uid)"
    if uid: "uid < length scores'" "uid < length (mg_hotkeys mg)" for uid
    using zero_replaced_nth [OF z] assms(5) [unfolded scores_earned_def, rule_format, of uid] uid
    by (auto simp: score_earned_def split: if_splits)
  then have "scores_earned js (mg_hotkeys mg) (resize_scores (length (mg_hotkeys mg)) scores')"
    by (auto simp: scores_earned_def resize_scores_def nth_append)
  with b assms(2) show ?thesis by (simp add: graph_ok_def)
qed

lemma started_ok:
  assumes "started alpha mg listed saved w = Some n" "graph_ok mg" "0 \<le> alpha" "alpha \<le> 1"
    and "\<And>j. saved = Some j \<Longrightarrow> \<exists>m. j = to_dict m \<and> matrix_ok m \<and> matrix_earned js m"
  shows "security_ok js n"
proof (cases saved)
  case None
  with assms(1-4) show ?thesis
    by (auto simp: started_def load_def security_ok_def matrix_ok_def matrix_earned_def scores_earned_def
        category_score_def row_of_def)
next
  case (Some j)
  with assms(5) obtain m where m: "j = to_dict m" "matrix_ok m" "matrix_earned js m" by blast
  have same: "category_score (m\<lparr>cs_alpha := alpha\<rparr>) hk cat = category_score m hk cat" for hk cat
    by (simp add: category_score_def)
  have "n = \<lparr>sn_world = w, sn_validator = \<lparr>va_matrix = m\<lparr>cs_alpha := alpha\<rparr>, va_listed = listed,
        va_scores = replicate (mg_n mg) 0, va_last_round_at = 0\<rparr>,
      sn_metagraph = mg, sn_hotkeys = mg_hotkeys mg, sn_file = Some (to_dict m)\<rparr>"
    using assms(1) Some m(1) by (simp add: started_def load_to_dict)
  moreover have "matrix_ok (m\<lparr>cs_alpha := alpha\<rparr>)" "matrix_earned js (m\<lparr>cs_alpha := alpha\<rparr>)"
    using m(2,3) assms(3,4) by (auto simp: matrix_ok_def matrix_earned_def same)
  ultimately show ?thesis using m(2,3) assms(2) by (auto simp: security_ok_def scores_earned_def)
qed

lemma security_step_ok:
  assumes "security_step n new n'" "security_ok js n"
  shows "security_ok (js @ new) n'"
  using assms(1)
proof (cases rule: security_step.cases)
  case (rounds ctx interval ctxs uids answers finished w va pending saved)
  have hs: "sn_hotkeys n = mg_hotkeys (sn_metagraph n)" using assms(2) by (simp add: security_ok_def)
  have now: "matrix_ok (va_matrix va) \<and> matrix_earned (js @ new) (va_matrix va) \<and>
      scores_earned (js @ new) (mg_hotkeys (sn_metagraph n)) (va_scores va)"
    by (rule security_round_earned [OF rounds(2-4)]) (use assms(2) hs in \<open>simp_all add: security_ok_def\<close>)
  have "\<exists>m. j = to_dict m \<and> matrix_ok m \<and> matrix_earned (js @ new) m" if "saved = Some j" for j
  proof (cases "saved = sn_file n")
    case True
    with assms(2) that obtain m where "j = to_dict m" "matrix_ok m" "matrix_earned js m" by (auto simp: security_ok_def)
    then show ?thesis using matrix_earned_more by blast
  next
    case False
    with rounds(5) that now show ?thesis by auto
  qed
  with now assms(2) rounds(1) show ?thesis by (simp add: security_ok_def)
next
  case (resyncs mg b)
  have "sn_hotkeys n = mg_hotkeys (sn_metagraph n)" "scores_earned js (sn_hotkeys n) (va_scores (sn_validator n))"
    using assms(2) unfolding security_ok_def by blast+
  from resync_earned [OF resyncs(3-5) this] assms(2) resyncs(1,2,4) show ?thesis by (simp add: security_ok_def)
next
  case (elsewhere w)
  with assms(2) show ?thesis by (auto simp: security_ok_def)
next
  case (restarts alpha mg listed w)
  have "security_ok js n'"
    by (rule started_ok [OF restarts(2-5)]) (use assms(2) in \<open>simp add: security_ok_def\<close>)
  with restarts(1) show ?thesis by simp
qed

lemma security_run_ok: "security_run js n \<Longrightarrow> security_ok js n"
  by (induction rule: security_run.induct) (auto intro: started_ok security_step_ok)

text \<open>The log changes nothing: a logged round is the round.\<close>

lemma evaluate_logged_keeps_a_log: "keeps_a_log (evaluate_logged ctxs) (\<lambda>i. evaluate_candidate (ctxs i))"
  by (simp add: keeps_a_log_def evaluate_logged_def split: prod.split sum.split)

lemma logged_round_is_the_round:
  assumes "security_round ctx interval (evaluate_logged ctxs) uids answers ((w, js), va) = (finished, (w', js'), va', pending)"
  shows "security_round ctx interval (\<lambda>i. evaluate_candidate (ctxs i)) uids answers (w, va) = (finished, w', va', pending)"
  using logged_round [OF evaluate_logged_keeps_a_log, of ctx interval ctxs uids answers w va js] assms by simp

section \<open>Properties\<close>

text \<open>C4: Nobody is paid without a proven exploit.  In every life of the security validator, whatever miners,
  agents, Docker, the web and the database do, however rounds, synchronisations and restarts from the file of
  the matrix follow each other: every score lies between 0 and 1, and a positive one belongs to a uid whose
  present hotkey is one under which the validator once evaluated a candidate of an active category with
  success.  That candidate was admitted, as the reference it named or as the archive that came out of its blob;
  right after, the job created one container from that same reference, or from the name under which Docker
  loaded that same archive, with the sandbox limits and on the job's internal network; the log of system calls
  kept under the id of that container is not blank and shows nothing above medium; and the report it left
  returned the canary of the challenge drawn for this run.  (The code runs names: that a name still denotes the
  image that was admitted under it is up to Docker.)\<close>

theorem pay_needs_proven_exploit:
  assumes "security_run js n" "uid < length (va_scores (sn_validator n))"
  shows "0 \<le> va_scores (sn_validator n) ! uid \<and> va_scores (sn_validator n) ! uid \<le> 1 \<and>
    (0 < va_scores (sn_validator n) ! uid \<longrightarrow> uid < length (mg_hotkeys (sn_metagraph n)) \<and>
      (\<exists>j \<in> set js. jd_hotkey j = mg_hotkeys (sn_metagraph n) ! uid \<and>
        (\<exists>w. evaluate_candidate (jd_context j) (jd_candidate j) (jd_hotkey j) (jd_world j) = (Inr (jd_outcome j), w)) \<and>
        (\<exists>v img db h w h' w' gone job.
          admitted_as (jd_context j) (jd_candidate j) (jd_hotkey j) (jd_world j) v img (db, h, w) \<and>
          run_job (ec_services (jd_context j)) (ec_job (jd_context j)) None (ec_draws (jd_context j)) img (h, w) =
            (Inr job, (h', w'), gone) \<and>
          jd_outcome j = job_outcome (jd_context j) v job \<and>
          jr_category job \<in> set SECURITY_ACTIVE_CATEGORIES \<and>
          proven_run (ec_services (jd_context j)) (ec_job (jd_context j))
            (generate_challenge (ec_draws (jd_context j))) img h h' job)))"
proof -
  have score: "score_earned js (mg_hotkeys (sn_metagraph n)) uid (va_scores (sn_validator n) ! uid)"
    using security_run_ok [OF assms(1)] assms(2) by (auto simp: security_ok_def scores_earned_def)
  show ?thesis
  proof (intro conjI impI)
    assume "0 < va_scores (sn_validator n) ! uid"
    with score obtain cat j where "cat \<in> set SECURITY_ACTIVE_CATEGORIES" "j \<in> set js"
      "jd_hotkey j = mg_hotkeys (sn_metagraph n) ! uid" "proven_judgement j cat"
      by (auto simp: score_earned_def earned_def)
    then show "\<exists>j \<in> set js. jd_hotkey j = mg_hotkeys (sn_metagraph n) ! uid \<and>
        (\<exists>w. evaluate_candidate (jd_context j) (jd_candidate j) (jd_hotkey j) (jd_world j) = (Inr (jd_outcome j), w)) \<and>
        (\<exists>v img db h w h' w' gone job.
          admitted_as (jd_context j) (jd_candidate j) (jd_hotkey j) (jd_world j) v img (db, h, w) \<and>
          run_job (ec_services (jd_context j)) (ec_job (jd_context j)) None (ec_draws (jd_context j)) img (h, w) =
            (Inr job, (h', w'), gone) \<and>
          jd_outcome j = job_outcome (jd_context j) v job \<and>
          jr_category job \<in> set SECURITY_ACTIVE_CATEGORIES \<and>
          proven_run (ec_services (jd_context j)) (ec_job (jd_context j))
            (generate_challenge (ec_draws (jd_context j))) img h h' job)"
      unfolding proven_judgement_def by blast
  qed (use score in \<open>simp_all add: score_earned_def\<close>)
qed

text \<open>A life of one round, in which the sample agent solves its category to a half.\<close>

definition paying_context :: round_context where
  "paying_context = idle_context\<lparr>rc_hotkeys := (\<lambda>_. [''alice''])\<rparr>"

definition paying_graph :: metagraph where
  "paying_graph = \<lparr>mg_n = 1, mg_uids = [0], mg_hotkeys = [''alice''],
     mg_axons = [\<lparr>ax_serving = True, ax_info = []\<rparr>], mg_validator_permit = None\<rparr>"

definition paying_answer :: response where
  "paying_answer = \<lparr>rp_has_agent = Some True, rp_blob_url = [], rp_image_ref = ''ghcr.io/org/agent:1'',
     rp_ciphertext_sha256 = []\<rparr>"

lemma paying_intake:
  "\<exists>v s. intake sample_eval_context (By_Reference ''ghcr.io/org/agent:1'') ''alice'' (empty_db, [], []) = (Inr v, s) \<and> accepted v"
proof -
  let ?r = "intake sample_eval_context (By_Reference ''ghcr.io/org/agent:1'') ''alice'' (empty_db, [], [])"
  have "map_sum id accepted (fst ?r) = Inr True" by code_simp
  then show ?thesis by (cases ?r; cases "fst ?r") auto
qed

lemma paying_evaluation:
  "\<exists>out w. evaluate_candidate sample_eval_context (Image ''ghcr.io/org/agent:1'') ''alice'' (empty_db, [], []) = (Inr out, w) \<and>
     eo_reward out = Some (1 / 2) \<and> eo_category out = Some ''sqli''"
proof -
  obtain v db h w where v: "intake sample_eval_context (By_Reference ''ghcr.io/org/agent:1'') ''alice'' (empty_db, [], []) =
      (Inr v, (db, h, w))" "accepted v"
    using paying_intake by auto
  obtain s' where "run_job sample_services sample_job_env None sample_draws ''ghcr.io/org/agent:1'' (h, w) =
      (Inr sample_outcome, s', True)"
    by (meson sample_job_run [of None] insertI1)
  moreover have "reward_for_job sample_outcome = Some (1 / 2)" "jr_category sample_outcome = ''sqli''" by code_simp+
  ultimately show ?thesis
    using v by (cases s') (simp add: evaluate_candidate_def evaluate_def evaluate_job_def sample_eval_context_def job_outcome_def)
qed

theorem pay_needs_proven_exploit_witness:
  "\<exists>js n. security_run js n \<and> va_scores (sn_validator n) = [1 / 2] \<and> js \<noteq> [] \<and>
     (\<exists>j \<in> set js. jd_hotkey j = ''alice'' \<and> (\<exists>img h h' job. eo_job (jd_outcome j) = Some job \<and>
        proven_run (ec_services (jd_context j)) (ec_job (jd_context j)) (generate_challenge (ec_draws (jd_context j))) img h h' job))"
proof -
  obtain n where n: "started (1 / 2) paying_graph [] None (empty_db, [], []) = Some n"
    "sn_world n = (empty_db, [], [])" "sn_metagraph n = paying_graph" "sn_file n = None"
    "sn_validator n = \<lparr>va_matrix = no_scores (1 / 2), va_listed = [], va_scores = [0], va_last_round_at = 0\<rparr>"
    by (auto simp: started_def load_def no_scores_def paying_graph_def)
  obtain out w where out: "evaluate_candidate sample_eval_context (Image ''ghcr.io/org/agent:1'') ''alice'' (empty_db, [], []) = (Inr out, w)"
    "eo_reward out = Some (1 / 2)" "eo_category out = Some ''sqli''"
    using paying_evaluation by blast
  have start: "security_run [] n" using n(1) by (rule security_run.starts) (simp_all add: graph_ok_def paying_graph_def)
  let ?ctxs = "\<lambda>_. sample_eval_context"
  let ?round = "security_round paying_context 300 (evaluate_logged ?ctxs) [0] [paying_answer] ((sn_world n, []), sn_validator n)"
  obtain finished w' new va pending where round: "?round = (finished, (w', new), va, pending)" by (cases ?round) auto
  have cand: "candidate_of paying_answer = Some (Image ''ghcr.io/org/agent:1'')" by code_simp
  let ?m = "snd (update_cell (no_scores (1 / 2)) ''alice'' ''sqli'' (1 / 2) 5001)"
  have ctx: "rc_elapsed paying_context i = 0" "rc_budget_s paying_context = 240" "rc_hotkeys paying_context i = [''alice'']"
    "rc_clock paying_context i = 5001" "rc_now paying_context = 5000" for i
    by (simp_all add: paying_context_def idle_context_def)
  have ask: "rp_has_agent paying_answer = Some True" by (simp add: paying_answer_def)
  have "va_matrix va \<in> {?m, prune ?m [''alice'']}" and
    "va_scores va = update_from_rewards (recompute_all_scores paying_context [''alice''] (va_matrix va)) [0]"
    using round by (auto simp: security_round_def Let_def n ctx ask cand evaluate_logged_def out folded_matrix_def split: if_splits)
  moreover have "update_from_rewards (recompute_all_scores paying_context [''alice''] m) [0] = [1 / 2]"
    if "m \<in> {?m, prune ?m [''alice'']}" for m
    using that by (elim insertE emptyE; hypsubst) code_simp+
  ultimately have scores: "va_scores va = [1 / 2]" by simp
  have run: "security_run new (n\<lparr>sn_world := w', sn_validator := va, sn_file := None\<rparr>)"
    using security_run.continues [OF start security_step.rounds [OF round, where saved = None]] n
    by (simp add: paying_context_def idle_context_def paying_graph_def SECURITY_ACTIVE_CATEGORIES_def)
  let ?n = "n\<lparr>sn_world := w', sn_validator := va, sn_file := None\<rparr>"
  from pay_needs_proven_exploit [OF run, of 0] obtain j v img h h' job where
    "j \<in> set new" "jd_hotkey j = ''alice''" "jd_outcome j = job_outcome (jd_context j) v job"
    "proven_run (ec_services (jd_context j)) (ec_job (jd_context j)) (generate_challenge (ec_draws (jd_context j))) img h h' job"
    using scores n(3) by (auto simp: paying_graph_def)
  moreover from this(3) have "eo_job (jd_outcome j) = Some job" by (simp add: job_outcome_def)
  ultimately have "\<exists>j \<in> set new. jd_hotkey j = ''alice'' \<and> (\<exists>img h h' job. eo_job (jd_outcome j) = Some job \<and>
      proven_run (ec_services (jd_context j)) (ec_job (jd_context j)) (generate_challenge (ec_draws (jd_context j))) img h h' job)"
    by blast
  moreover from this have "new \<noteq> []" by auto
  ultimately show ?thesis using run scores by (intro exI [of _ new] exI [of _ ?n]) simp
qed

end
