(* ===== verification/Neuron_Setup.thy ===== *)
theory Neuron_Setup
  imports Neuron_Loop Rewards
begin

text \<open>
  How a neuron comes into being: \<open>__init__\<close> of \<open>template/base/neuron.py\<close> and \<open>template/base/validator.py\<close> with its
  first synchronisation, the checkpoint of the base class, the settings \<open>neurons/security_validator.py\<close> takes from
  the process environment, and the waiting loops of the two validator programs.
\<close>

section \<open>The checkpoint\<close>

text \<open>\<open>save_state\<close> writes three arrays.  An array of texts forgets the null characters they end with.\<close>

record checkpoint =
  cp_step :: int
  cp_scores :: "rat list"
  cp_hotkeys :: "string list"

datatype npy = Npy_Int int | Npy_Floats "rat list" | Npy_Texts "string list"

definition without_nulls :: "string \<Rightarrow> string" where
  "without_nulls s = rev (dropWhile (\<lambda>c. c = CHR 0x00) (rev s))"

definition save_state :: "checkpoint \<Rightarrow> (string, npy) dict" where
  "save_state st = [(''step'', Npy_Int (cp_step st)), (''scores'', Npy_Floats (cp_scores st)),
     (''hotkeys'', if cp_hotkeys st = [] then Npy_Floats [] else Npy_Texts (map without_nulls (cp_hotkeys st)))]"

text \<open>\<open>load_state\<close>: a missing array is a \<open>KeyError\<close>; arrays of other types are no state of this program.\<close>

fun texts_of :: "npy \<Rightarrow> string list option" where
  "texts_of (Npy_Texts ts) = Some ts"
| "texts_of (Npy_Floats []) = Some []"
| "texts_of _ = None"

definition load_state :: "(string, npy) dict \<Rightarrow> checkpoint option" where
  "load_state arrays = (case (dget arrays ''step'', dget arrays ''scores'', dget arrays ''hotkeys'') of
      (Some (Npy_Int n), Some (Npy_Floats xs), Some h) \<Rightarrow>
        map_option (\<lambda>hs. \<lparr>cp_step = n, cp_scores = xs, cp_hotkeys = hs\<rparr>) (texts_of h)
    | _ \<Rightarrow> None)"

section \<open>Construction\<close>

fun first_index :: "string \<Rightarrow> string list \<Rightarrow> nat option" where
  "first_index x [] = None"
| "first_index x (y # ys) = (if y = x then Some 0 else map_option Suc (first_index x ys))"

text \<open>
  \<open>BaseNeuron.__init__\<close> from the metagraph on: the registration, the uid (a \<open>ValueError\<close> when the metagraph does
  not know the hotkey), the step, and the block of the metagraph.  The last field of the loop is set by \<open>run\<close>.
\<close>

definition base_neuron_init ::
  "registration_read \<Rightarrow> string \<Rightarrow> metagraph \<Rightarrow> int \<Rightarrow> loop_exc + nat \<times> loop_state" where
  "base_neuron_init registration hotkey mg metagraph_block =
     (case check_registered registration hotkey (mg_hotkeys mg) of
        Raise_Error \<Rightarrow> Inl Failed
      | Exit_Process \<Rightarrow> Inl System_Exit
      | Go_On \<Rightarrow>
          (case first_index hotkey (mg_hotkeys mg) of
             None \<Rightarrow> Inl Failed
           | Some uid \<Rightarrow> Inr (uid,
               \<lparr>lp_step = 0, lp_last_sync = 0, lp_metagraph_sync = metagraph_block, lp_effects = []\<rparr>)))"

record started_validator =
  sv_uid :: nat
  sv_base :: base_state
  sv_loop :: loop_state
  sv_threads :: thread_state

fun is_resync :: "loop_effect \<Rightarrow> bool" where
  "is_resync (Resynced b) = True"
| "is_resync _ = False"

text \<open>
  \<open>BaseValidatorNeuron.__init__\<close>: local hotkeys, scores of zero, the first \<open>sync\<close>, in which the metagraph becomes
  \<open>synced\<close> if it is old enough.  Serving the axon catches what it raises, and the runners are set last.
\<close>

definition validator_init ::
  "neuron_conf \<Rightarrow> registration_read \<Rightarrow> string \<Rightarrow> metagraph \<Rightarrow> int \<Rightarrow> sync_reads \<Rightarrow> metagraph
     \<Rightarrow> loop_exc + started_validator" where
  "validator_init cfg registration hotkey mg metagraph_block reads synced =
     (case base_neuron_init registration hotkey mg metagraph_block of
        Inl x \<Rightarrow> Inl x
      | Inr (uid, st) \<Rightarrow>
          let base = \<lparr>b_hotkeys = mg_hotkeys mg, b_scores = replicate (mg_n mg) 0, b_metagraph = mg\<rparr>;
              resynced = resync_metagraph synced base;
              reads = reads\<lparr>sy_resync_ok := sy_resync_ok reads \<and> \<not> isl resynced\<rparr>
          in (case sync (cfg\<lparr>n_uid := uid\<rparr>) hotkey (mg_hotkeys mg) reads st of
                (Inl x, _) \<Rightarrow> Inl x
              | (Inr _, st) \<Rightarrow> Inr
                  \<lparr>sv_uid = uid, sv_base = (if list_ex is_resync (lp_effects st) then projr resynced else base),
                   sv_loop = st, sv_threads = new_threads\<rparr>))"

section \<open>The settings of the security validator\<close>

record validator_settings =
  se_alpha :: fl
  se_freshness_s :: fl
  se_round_budget_s :: fl
  se_min_score :: fl
  se_tolerance :: fl
  se_db_path :: string
  se_scores_path :: string
  se_listed_path :: string

definition env_path :: "env \<Rightarrow> string \<Rightarrow> string \<Rightarrow> string" where
  "env_path e name dflt = (case e name of None \<Rightarrow> dflt | Some t \<Rightarrow> t)"

definition security_settings :: "env \<Rightarrow> validator_settings" where
  "security_settings e =
     \<lparr>se_alpha = env_float e ''MASXAI_SECURITY_CATEGORY_EMA_ALPHA'' (Fin SECURITY_CATEGORY_EMA_ALPHA),
      se_freshness_s = env_float e ''MASXAI_SECURITY_CATEGORY_FRESHNESS_SECONDS'' (Fin 1800),
      se_round_budget_s = env_float e ''MASXAI_SECURITY_ROUND_BUDGET_SECONDS'' (Fin 240),
      se_min_score = env_float e ''MASXAI_MARKETPLACE_MIN_SCORE'' (Fin MARKETPLACE_MIN_SCORE),
      se_tolerance = env_float e ''MASXAI_MARKETPLACE_SCORE_TOLERANCE'' (Fin MARKETPLACE_SCORE_TOLERANCE),
      se_db_path = env_path e ''MASXAI_SECURITY_DB_PATH'' ''secqurityVali.db'',
      se_scores_path = env_path e ''MASXAI_SECURITY_CATEGORY_SCORES_FILE'' ''security_category_scores.json'',
      se_listed_path = env_path e ''MASXAI_MARKETPLACE_LISTED_FILE'' ''security_marketplace_listed.json''\<rparr>"

text \<open>The pause between rounds: \<open>max(0.0, x)\<close> keeps its first argument unless the second is greater.\<close>

definition security_interval :: "env \<Rightarrow> fl" where
  "security_interval e =
     (let x = env_float e ''MASXAI_SECURITY_SUBMISSION_INTERVAL_SECONDS'' SECURITY_SUBMISSION_INTERVAL_SECONDS
      in if fl_lt (Fin 0) x then x else Fin 0)"

text \<open>The test at the head of the round's loop, and the test for a stale cell, on the floats the program has.\<close>

definition budget_spent :: "fl \<Rightarrow> rat \<Rightarrow> bool" where
  "budget_spent budget elapsed = fl_lt budget (Fin elapsed)"

definition cell_stale :: "fl \<Rightarrow> rat \<Rightarrow> rat \<Rightarrow> bool" where
  "cell_stale freshness now updated_at = fl_lt freshness (Fin (now - updated_at))"

section \<open>The programs\<close>

text \<open>
  Each turn of \<open>__main__\<close> shows whether the background thread is alive; the result is the exit status.  The
  LLM-key validator looks at the thread, the security validator does not.
\<close>

fun llm_validator_main :: "bool list \<Rightarrow> int option" where
  "llm_validator_main [] = None"
| "llm_validator_main (alive # turns) = (if \<not> alive then Some 1 else llm_validator_main turns)"

fun security_validator_main :: "bool list \<Rightarrow> int option" where
  "security_validator_main [] = None"
| "security_validator_main (_ # turns) = security_validator_main turns"

section \<open>Lemmas\<close>

lemma without_nulls_idem [simp]: "without_nulls (without_nulls s) = without_nulls s"
  by (simp add: without_nulls_def dropWhile_idem comp_def)

lemma without_nulls_id: "s = [] \<or> last s \<noteq> CHR 0x00 \<Longrightarrow> without_nulls s = s"
  by (cases s rule: rev_cases) (simp_all add: without_nulls_def)

text \<open>Restarts from the checkpoint settle after the first; hotkeys that do not end in a null character are kept.\<close>

interpretation checkpoint_file: persisted save_state load_state
  "\<lambda>st. st\<lparr>cp_hotkeys := map without_nulls (cp_hotkeys st)\<rparr>" "\<lambda>_. True"
  by unfold_locales (simp_all add: save_state_def load_state_def)

lemma checkpoint_reads_back:
  "list_all (\<lambda>h. h = [] \<or> last h \<noteq> CHR 0x00) (cp_hotkeys st) \<Longrightarrow> load_state (save_state st) = Some st"
  by (simp add: checkpoint_file.load_save list_all_iff without_nulls_id map_idI)

lemma first_index_Some:
  "first_index x xs = Some i \<Longrightarrow> i < length xs \<and> xs ! i = x \<and> x \<notin> set (take i xs)"
  by (induction xs arbitrary: i) (auto split: if_splits)

lemma first_index_None: "first_index x xs = None \<longleftrightarrow> x \<notin> set xs"
  by (induction xs) auto

lemma zero_replaced_zeros:
  "zero_replaced uids old new scores = Inr scores' \<Longrightarrow> set scores \<subseteq> {0} \<Longrightarrow>
     length scores' = length scores \<and> set scores' \<subseteq> {0}"
proof (induction uids arbitrary: scores)
  case (Cons u uids)
  have "set (scores[u := 0]) \<subseteq> {0}" using Cons.prems(2) set_update_subset_insert [of scores u 0] by auto
  with Cons show ?case by (auto split: if_splits)
qed simp

lemma resync_zeros:
  assumes "resync_metagraph mg st = Inr st'" "set (b_scores st) \<subseteq> {0}"
  shows "set (b_scores st') \<subseteq> {0}"
proof (cases "mg_axons (b_metagraph st) = mg_axons mg")
  case False
  with assms(1) obtain scores where z: "zero_replaced [0..<min (length (b_hotkeys st)) (length (mg_hotkeys mg))]
      (b_hotkeys st) (mg_hotkeys mg) (b_scores st) = Inr scores" and st': "b_scores st' = resize_scores (mg_n mg) scores"
    by (auto simp: resync_metagraph_def Let_def split: sum.splits)
  from zero_replaced_zeros [OF z assms(2)] have "set scores \<subseteq> {0}" by simp
  then show ?thesis by (auto simp: st' resize_scores_def dest: in_set_takeD split: if_splits)
qed (use assms in \<open>auto simp: resync_metagraph_def Let_def\<close>)

section \<open>Properties\<close>

text \<open>
  A validator that starts owns its uid, has scored nobody and has set no weights, whatever the chain said
  during its first synchronisation.
\<close>

lemma validator_starts_neutral:
  assumes "validator_init cfg registration hotkey mg metagraph_block reads synced = Inr v"
  shows "sv_uid v < length (mg_hotkeys mg) \<and> mg_hotkeys mg ! sv_uid v = hotkey \<and>
    set (b_scores (sv_base v)) \<subseteq> {0} \<and> lp_step (sv_loop v) = 0 \<and>
    (\<forall>x \<in> set (lp_effects (sv_loop v)). case x of Weights_Set _ _ \<Rightarrow> False | _ \<Rightarrow> True)"
proof -
  let ?base = "\<lparr>b_hotkeys = mg_hotkeys mg, b_scores = replicate (mg_n mg) 0, b_metagraph = mg\<rparr>"
  let ?st = "\<lparr>lp_step = 0, lp_last_sync = 0, lp_metagraph_sync = metagraph_block, lp_effects = []\<rparr>"
  let ?reads = "reads\<lparr>sy_resync_ok := sy_resync_ok reads \<and> \<not> isl (resync_metagraph synced ?base)\<rparr>"
  obtain uid st where uid: "first_index hotkey (mg_hotkeys mg) = Some uid"
    and syn: "sync (cfg\<lparr>n_uid := uid\<rparr>) hotkey (mg_hotkeys mg) ?reads ?st = (Inr (), st)"
    and v: "v = \<lparr>sv_uid = uid, sv_base = (if list_ex is_resync (lp_effects st) then projr (resync_metagraph synced ?base) else ?base),
      sv_loop = st, sv_threads = new_threads\<rparr>"
    using assms
    by (auto simp: validator_init_def base_neuron_init_def Let_def split: registration_verdict.splits option.splits
        sum.splits prod.splits)
  have app: "Neuron_Loop.appends (sync_effect_ok (cfg\<lparr>n_uid := uid\<rparr>) 0) ?st st" using sync_appends [OF syn] by simp
  then have none: "\<forall>x \<in> set (lp_effects st). case x of Weights_Set _ _ \<Rightarrow> False | _ \<Rightarrow> True" and step: "lp_step st = 0"
    by (auto simp: Neuron_Loop.appends_def sync_effect_ok_def split: loop_effect.splits)
  have "set (b_scores (sv_base v)) \<subseteq> {0}"
  proof (cases "list_ex is_resync (lp_effects st)")
    case True
    have "\<not> isl (resync_metagraph synced ?base)"
    proof (rule ccontr)
      assume "\<not> ?thesis"
      then have "lp_effects st = [State_Saved]"
        using syn by (auto simp: sync_def sync_metagraph_def sync_weights_def happens_def
            split: registration_verdict.splits option.splits if_splits)
      with True show False by simp
    qed
    then obtain b where b: "resync_metagraph synced ?base = Inr b" by (cases "resync_metagraph synced ?base") auto
    from resync_zeros [OF b] have "set (b_scores b) \<subseteq> {0}" by (simp add: set_replicate_conv_if)
    with b True show ?thesis by (simp add: v)
  qed (auto simp: v)
  with first_index_Some [OF uid] none step show ?thesis by (simp add: v)
qed

text \<open>A process whose hotkey the metagraph does not show cannot start, even if the chain calls it registered.\<close>

lemma unknown_hotkey_cannot_start:
  assumes "hotkey \<notin> set (mg_hotkeys mg)"
  shows "\<exists>x. validator_init cfg registration hotkey mg metagraph_block reads synced = Inl x"
proof -
  have "first_index hotkey (mg_hotkeys mg) = None" using assms by (simp add: first_index_None)
  then show ?thesis
    by (auto simp: validator_init_def base_neuron_init_def split: registration_verdict.split)
qed

text \<open>
  A setting that is no number falls back to its default, but every number is taken as it is: \<open>nan\<close> switches the
  budget of the round and the decay of the scores off, and a factor above 1 lets a score leave the unit interval.
\<close>

lemma settings_default: "e = (\<lambda>_. None) \<Longrightarrow> se_round_budget_s (security_settings e) = Fin 240 \<and>
    se_freshness_s (security_settings e) = Fin 1800 \<and> se_alpha (security_settings e) = Fin (1/2)"
  by (simp add: security_settings_def env_float_def SECURITY_CATEGORY_EMA_ALPHA_def)

lemma nan_budget_is_never_spent:
  "se_round_budget_s (security_settings [''MASXAI_SECURITY_ROUND_BUDGET_SECONDS'' \<mapsto> ''nan'']) = NaN \<and>
   \<not> budget_spent NaN elapsed \<and> \<not> cell_stale NaN now updated_at"
proof -
  have "py_float ''nan'' = Some NaN" by code_simp
  then show ?thesis by (simp add: security_settings_def env_float_def budget_spent_def cell_stale_def)
qed

lemma unchecked_alpha_overshoots:
  "se_alpha (security_settings [''MASXAI_SECURITY_CATEGORY_EMA_ALPHA'' \<mapsto> ''2'']) = Fin 2 \<and> blend 2 (Some 0) 1 = 2"
proof -
  have "py_float ''2'' = Some (Fin 2)" by code_simp
  then show ?thesis by (simp add: security_settings_def env_float_def blend_def)
qed

lemma interval_not_negative: "security_interval e = Fin q \<Longrightarrow> 0 \<le> q"
  by (auto simp: security_interval_def Let_def split: if_splits)

text \<open>The LLM-key validator's process ends with the thread, the security validator's goes on without it.\<close>

lemma dead_thread_is_noticed_once: "False \<in> set turns \<Longrightarrow> llm_validator_main turns = Some 1"
  by (induction turns) auto

lemma dead_thread_is_not_noticed: "security_validator_main turns = None"
  by (induction turns) auto

end
