(* ===== verification/Neuron_Config.thy ===== *)
theory Neuron_Config
  imports Constants
begin

text \<open>
  \<open>template/utils/config.py\<close> and \<open>logging.py\<close>: the device, the directory of a neuron, the arguments and their defaults, and the
  environment variable that is set while the configuration is built.  \<open>argparse\<close> itself is a parameter: what is
  modelled is which options are declared, with which defaults, and that no two of them clash.
\<close>

section \<open>The device\<close>

text \<open>Output of a command: \<open>None\<close> when running it raises.\<close>

definition is_cuda_available :: "string option \<Rightarrow> string option \<Rightarrow> string" where
  "is_cuda_available smi nvcc =
     (if (case smi of Some out \<Rightarrow> contains out ''NVIDIA'' | None \<Rightarrow> False) then ''cuda''
      else if (case nvcc of Some out \<Rightarrow> contains out ''release'' | None \<Rightarrow> False) then ''cuda''
      else ''cpu'')"

section \<open>The directory\<close>

text \<open>\<open>int(mechid or 0)\<close>: a missing identifier is that of mechanism 0.\<close>

definition neuron_dir_name :: "string \<Rightarrow> int option \<Rightarrow> string" where
  "neuron_dir_name name mechid =
     (let m = (case mechid of None \<Rightarrow> 0 | Some i \<Rightarrow> i) in
      if m = 0 then name else name @ ''_mech'' @ show_int m)"

record config_paths =
  cp_logging_dir :: string
  cp_wallet_name :: string
  cp_wallet_hotkey :: string
  cp_netuid :: int
  cp_neuron_name :: string

definition full_path :: "(string \<Rightarrow> string) \<Rightarrow> config_paths \<Rightarrow> int option \<Rightarrow> string" where
  "full_path expanduser c mechid = expanduser (cp_logging_dir c @ ''/'' @ cp_wallet_name c @ ''/'' @
     cp_wallet_hotkey c @ ''/netuid'' @ show_int (cp_netuid c) @ ''/'' @ neuron_dir_name (cp_neuron_name c) mechid)"

section \<open>Settings\<close>

text \<open>A value an option has: a switch, a number or a text, as its \<open>type\<close> says.\<close>

datatype setting = Flag | Int_Setting int | Float_Setting rat | Text_Setting string

section \<open>The log of events\<close>

text \<open>
  \<open>template/utils/logging.py\<close>: the logger of events gets one more file handler: its file, its size and the number
  of old files.  The handler compares the size with 0, which a text cannot be.
\<close>

definition setup_events_logger ::
  "string \<Rightarrow> setting \<Rightarrow> (string \<times> int \<times> nat) list \<Rightarrow> py_exc + (string \<times> int \<times> nat) list" where
  "setup_events_logger path retention handlers = (case retention of
      Int_Setting bytes \<Rightarrow> Inr (handlers @ [(path @ ''/events.log'', bytes, 10)])
    | _ \<Rightarrow> Inl TypeError)"

text \<open>\<open>check_config\<close>: the directories that exist afterwards, the path, and the handlers of the log.\<close>

definition check_config ::
  "(string \<Rightarrow> string) \<Rightarrow> config_paths \<Rightarrow> int option \<Rightarrow> bool \<Rightarrow> setting \<Rightarrow> string list
     \<Rightarrow> (string \<times> int \<times> nat) list \<Rightarrow> py_exc + string list \<times> string \<times> (string \<times> int \<times> nat) list" where
  "check_config expanduser c mechid dont_save_events retention dirs handlers =
     (let path = expanduser (full_path expanduser c mechid);
          dirs = (if path \<in> set dirs then dirs else dirs @ [path])
      in if dont_save_events then Inr (dirs, path, handlers)
         else map_sum id (\<lambda>handlers. (dirs, path, handlers)) (setup_events_logger path retention handlers))"

section \<open>The arguments\<close>

record argument =
  ag_flags :: "string list"
  ag_default :: setting

definition arg :: "string \<Rightarrow> setting \<Rightarrow> argument" where
  "arg flag d = \<lparr>ag_flags = [flag], ag_default = d\<rparr>"

definition add_args :: "string \<Rightarrow> argument list" where
  "add_args device =
     [arg ''--netuid'' (Int_Setting 1),
      arg ''--neuron.device'' (Text_Setting device),
      arg ''--neuron.epoch_length'' (Int_Setting 100),
      arg ''--mock'' Flag,
      arg ''--neuron.events_retention_size'' (Int_Setting (2 * 1024 * 1024 * 1024)),
      arg ''--neuron.dont_save_events'' Flag,
      arg ''--wandb.off'' Flag,
      arg ''--wandb.offline'' Flag,
      arg ''--wandb.notes'' (Text_Setting [])]"

definition add_miner_args :: "argument list" where
  "add_miner_args =
     [arg ''--neuron.name'' (Text_Setting ''miner''),
      arg ''--blacklist.force_validator_permit'' Flag,
      arg ''--blacklist.allow_non_registered'' Flag,
      arg ''--wandb.project_name'' (Text_Setting ''template-miners''),
      arg ''--wandb.entity'' (Text_Setting ''opentensor-dev'')]"

definition add_validator_args :: "argument list" where
  "add_validator_args =
     [arg ''--neuron.name'' (Text_Setting ''validator''),
      arg ''--neuron.timeout'' (Float_Setting 10),
      arg ''--neuron.num_concurrent_forwards'' (Int_Setting 1),
      arg ''--neuron.sample_size'' (Int_Setting 50),
      arg ''--neuron.disable_set_weights'' Flag,
      arg ''--neuron.moving_average_alpha'' (Float_Setting (1 / 10)),
      \<lparr>ag_flags = [''--neuron.axon_off'', ''--axon_off''], ag_default = Flag\<rparr>,
      arg ''--neuron.vpermit_tao_limit'' (Int_Setting 4096),
      arg ''--wandb.project_name'' (Text_Setting ''template-validators''),
      arg ''--wandb.entity'' (Text_Setting ''opentensor-dev'')]"

text \<open>\<open>add_argument\<close> on a parser: an option that is already declared raises.\<close>

fun declare_all :: "argument list \<Rightarrow> argument list \<Rightarrow> argument list option" where
  "declare_all parser [] = Some parser"
| "declare_all parser (a # rest) =
     (if list_ex (\<lambda>f. list_ex (\<lambda>b. f \<in> set (ag_flags b)) parser) (ag_flags a) then None
      else declare_all (parser @ [a]) rest)"

definition default_of :: "argument list \<Rightarrow> string \<Rightarrow> setting option" where
  "default_of parser flag = map_option ag_default (List.find (\<lambda>a. flag \<in> set (ag_flags a)) parser)"

section \<open>Building the configuration\<close>

text \<open>
  \<open>config\<close>: \<open>build\<close> is \<open>bt.Config\<close>, which sees the environment it is called in and may raise; \<open>finally\<close> puts the
  variable back.
\<close>

definition config :: "(env \<Rightarrow> string + 'c) \<Rightarrow> env \<Rightarrow> (string + 'c) \<times> env" where
  "config build e =
     (let previous = e ''BT_NO_PARSE_CLI_ARGS'';
          during = e(''BT_NO_PARSE_CLI_ARGS'' \<mapsto> ''0'')
      in (build during, during(''BT_NO_PARSE_CLI_ARGS'' := previous)))"

section \<open>Lemmas\<close>

lemma show_int_inj: "show_int i = show_int j \<Longrightarrow> i = j"
proof -
  have minus: "show_nat n \<noteq> CHR ''-'' # s" for n s
    using show_nat_decimal [of n] by (auto simp: is_decimal_def)
  assume "show_int i = show_int j"
  with minus [of "nat i"] minus [of "nat j"] show "i = j"
    by (auto simp: show_int_def dest!: show_nat_inj split: if_splits dest: sym)
qed

lemma config_restores: "snd (config build e) = e"
  by (simp add: config_def Let_def)

lemma config_parses: "fst (config build e) = build (e(''BT_NO_PARSE_CLI_ARGS'' \<mapsto> ''0''))"
  by (simp add: config_def Let_def)

text \<open>Two neurons of one hotkey on one subnet share a directory only if they serve the same mechanism.\<close>

lemma neuron_dirs_apart:
  assumes "neuron_dir_name name m = neuron_dir_name name m'"
  shows "(case m of None \<Rightarrow> 0 | Some i \<Rightarrow> i) = (case m' of None \<Rightarrow> 0 | Some i \<Rightarrow> i)"
  using assms by (auto simp: neuron_dir_name_def Let_def dest!: show_int_inj split: if_splits)

lemma mechanisms_have_own_paths:
  assumes "inj expanduser" "full_path expanduser c (Some m) = full_path expanduser c (Some m')"
  shows "m = m'"
  using assms neuron_dirs_apart [of _ "Some m" "Some m'"] by (auto simp: full_path_def dest: injD)

text \<open>No option is declared twice, so building a parser raises nothing, and the sizes are the documented ones.\<close>

lemma parsers_build:
  "declare_all (add_args device) add_miner_args = Some (add_args device @ add_miner_args)"
  "declare_all (add_args device) add_validator_args = Some (add_args device @ add_validator_args)"
  by (simp_all add: add_args_def add_miner_args_def add_validator_args_def arg_def)

text \<open>
  The directory is there afterwards.  The size of the log is declared as a text with a number as its default, so
  giving the option on the command line stops the neuron; \<open>type\<close> turns what is given into a text.
\<close>

lemma check_config_once:
  assumes "check_config expanduser c mechid quiet bytes dirs handlers = Inr (dirs', path, handlers')"
  shows "path \<in> set dirs' \<and> check_config expanduser c mechid True bytes dirs' handlers' = Inr (dirs', path, handlers')"
  using assms
  by (cases "setup_events_logger (expanduser (full_path expanduser c mechid)) bytes handlers")
    (auto simp: check_config_def Let_def split: if_splits)

lemma default_retention_is_a_number:
  "default_of (add_args device) ''--neuron.events_retention_size'' = Some (Int_Setting 2147483648)"
  by (simp add: default_of_def add_args_def arg_def)

lemma given_retention_stops_the_neuron:
  "check_config expanduser c mechid False (Text_Setting t) dirs handlers = Inl TypeError"
  by (simp add: check_config_def setup_events_logger_def Let_def)

end
