(* ===== verification/Template_Demo.thy ===== *)
theory Template_Demo
  imports Weights "HOL-Library.Multiset"
begin

text \<open>
  The demonstration task the subnet template ships beside the real neurons: the choice of uids
  (\<open>template/utils/uids.py\<close>), the doubling task and its reward (\<open>template/validator/\<close>), the clients of
  \<open>template/api/\<close> and the mock network of \<open>template/mock.py\<close>, composed with \<open>update_scores\<close> of the base class.
\<close>

section \<open>Random choice\<close>

text \<open>
  \<open>random.sample\<close>, with the random numbers as an argument: every selection in every order is the result for
  some \<open>pick\<close>.
\<close>

fun draw :: "(nat \<Rightarrow> nat) \<Rightarrow> 'a list \<Rightarrow> nat \<Rightarrow> 'a list" where
  "draw pick xs 0 = []"
| "draw pick xs (Suc k) =
     (let i = pick k mod length xs in xs ! i # draw pick (take i xs @ drop (Suc i) xs) k)"

definition random_sample :: "(nat \<Rightarrow> nat) \<Rightarrow> 'a list \<Rightarrow> int \<Rightarrow> py_exc + 'a list" where
  "random_sample pick xs k =
     (if k < 0 \<or> int (length xs) < k then Inl ValueError else Inr (draw pick xs (nat k)))"

section \<open>Choosing uids\<close>

definition check_uid_availability :: "metagraph \<Rightarrow> rat list \<Rightarrow> rat \<Rightarrow> nat \<Rightarrow> py_exc + bool" where
  "check_uid_availability mg stake vpermit_tao_limit uid =
     (if length (mg_axons mg) \<le> uid then Inl IndexError
      else if \<not> ax_serving (mg_axons mg ! uid) then Inr False
      else case mg_validator_permit mg of
          None \<Rightarrow> Inl TypeError
        | Some permit \<Rightarrow>
            if length permit \<le> uid then Inl IndexError
            else if \<not> permit ! uid then Inr True
            else if length stake \<le> uid then Inl IndexError
            else Inr (stake ! uid \<le> vpermit_tao_limit))"

text \<open>The loop over the uids: those available, and those of them that are not excluded.\<close>

fun collect_uids ::
  "(nat \<Rightarrow> py_exc + bool) \<Rightarrow> nat list option \<Rightarrow> nat list \<Rightarrow> nat list \<Rightarrow> nat list \<Rightarrow> py_exc + nat list \<times> nat list" where
  "collect_uids check exclude [] avail cand = Inr (avail, cand)"
| "collect_uids check exclude (uid # uids) avail cand = (case check uid of
      Inl x \<Rightarrow> Inl x
    | Inr False \<Rightarrow> collect_uids check exclude uids avail cand
    | Inr True \<Rightarrow> collect_uids check exclude uids (avail @ [uid])
        (if (case exclude of None \<Rightarrow> True | Some ex \<Rightarrow> uid \<notin> set ex) then cand @ [uid] else cand))"

definition get_random_uids ::
  "(nat \<Rightarrow> nat) \<Rightarrow> (nat \<Rightarrow> nat) \<Rightarrow> metagraph \<Rightarrow> rat list \<Rightarrow> rat \<Rightarrow> int \<Rightarrow> nat list option \<Rightarrow> py_exc + nat list" where
  "get_random_uids pick1 pick2 mg stake limit k exclude =
     (case collect_uids (check_uid_availability mg stake limit) exclude [0..<mg_n mg] [] [] of
        Inl x \<Rightarrow> Inl x
      | Inr (avail, cand) \<Rightarrow>
          let k = min k (int (length avail)) in
          if int (length cand) < k then
            (case random_sample pick1 (filter (\<lambda>uid. uid \<notin> set cand) avail) (k - int (length cand)) of
               Inl x \<Rightarrow> Inl x
             | Inr extra \<Rightarrow> random_sample pick2 (cand @ extra) k)
          else random_sample pick2 cand k)"

section \<open>The doubling task\<close>

definition reward :: "int \<Rightarrow> int option \<Rightarrow> rat" where
  "reward query response = (if response = Some (query * 2) then 1 else 0)"

definition get_rewards :: "int \<Rightarrow> int option list \<Rightarrow> rat list" where
  "get_rewards query responses = map (reward query) responses"

text \<open>\<open>forward\<close>: \<open>dendrite\<close> answers the query of a uid with what the miner deserialises to.\<close>

definition forward ::
  "(nat \<Rightarrow> nat) \<Rightarrow> (nat \<Rightarrow> nat) \<Rightarrow> metagraph \<Rightarrow> rat list \<Rightarrow> rat \<Rightarrow> int \<Rightarrow> rat \<Rightarrow> int
     \<Rightarrow> (nat \<Rightarrow> int \<Rightarrow> int option) \<Rightarrow> rat list \<Rightarrow> py_exc + rat list" where
  "forward pick1 pick2 mg stake limit sample_size alpha step dendrite scores =
     (case get_random_uids pick1 pick2 mg stake limit sample_size None of
        Inl x \<Rightarrow> Inl x
      | Inr uids \<Rightarrow>
          let responses = map (\<lambda>uid. dendrite uid step) uids;
              rewards = get_rewards step responses
          in update_scores alpha (map Some rewards) (map int uids) scores)"

section \<open>The API client\<close>

datatype api_failure = Name_Error

text \<open>\<open>prepare_synapse\<close> writes to a name that was never bound.\<close>

definition prepare_synapse :: "int \<Rightarrow> api_failure + int" where
  "prepare_synapse dummy_input = Inl Name_Error"

text \<open>
  \<open>process_responses\<close>: status and output of each response; \<open>return outputs.append(...)\<close> at the first that
  succeeded returns \<open>None\<close>.
\<close>

fun process_responses :: "(int \<times> int option) list \<Rightarrow> int option list option" where
  "process_responses [] = Some []"
| "process_responses ((status, out) # rest) = (if status \<noteq> 200 then process_responses rest else None)"

section \<open>API nodes\<close>

text \<open>\<open>ping_uids\<close>: the status codes, or \<open>None\<close> when the dendrite raises.\<close>

definition ping_uids :: "(nat list \<Rightarrow> int list option) \<Rightarrow> nat list \<Rightarrow> nat list \<times> nat list" where
  "ping_uids dendrite uids = (case dendrite uids of
      None \<Rightarrow> ([], uids)
    | Some codes \<Rightarrow>
        (map fst (filter (\<lambda>(_, code). code = 200) (zip uids codes)),
         map fst (filter (\<lambda>(_, code). code \<noteq> 200) (zip uids codes))))"

text \<open>\<open>np.quantile\<close> of a non-empty array, by linear interpolation.\<close>

definition quantile :: "rat list \<Rightarrow> rat \<Rightarrow> rat" where
  "quantile xs q =
     (let s = sort xs; pos = q * of_nat (length xs - 1); i = nat \<lfloor>pos\<rfloor>; t = pos - of_nat i in
      if Suc i < length s then s ! i + t * (s ! Suc i - s ! i) else last s)"

text \<open>The nodes are a set, which is listed in an order the program does not choose: \<open>order\<close>.\<close>

definition get_query_api_nodes ::
  "(nat \<Rightarrow> nat) \<Rightarrow> (nat \<Rightarrow> nat) \<Rightarrow> (nat list \<Rightarrow> int list option) \<Rightarrow> nat list \<Rightarrow> rat list \<Rightarrow> rat list \<Rightarrow> rat
     \<Rightarrow> py_exc + nat list" where
  "get_query_api_nodes order pick dendrite uids vtrust stake n =
     (let vtrust_uids = filter (\<lambda>uid. 0 < vtrust ! uid) uids;
          top_uids = filter (\<lambda>uid. quantile stake (1 - n) < stake ! uid) [0..<length stake];
          init_query_uids = filter (\<lambda>uid. uid \<in> set vtrust_uids) top_uids;
          query_uids = fst (ping_uids dendrite (draw order init_query_uids (length init_query_uids)))
      in if 3 < length query_uids then random_sample pick query_uids 3 else Inr query_uids)"

datatype asked_uids = All_Nodes | One_Uid nat | Some_Uids "nat list"

definition get_query_api_axons ::
  "(nat \<Rightarrow> nat) \<Rightarrow> (nat \<Rightarrow> nat) \<Rightarrow> (nat list \<Rightarrow> int list option) \<Rightarrow> nat list \<Rightarrow> rat list \<Rightarrow> rat list \<Rightarrow> rat
     \<Rightarrow> asked_uids \<Rightarrow> axon list \<Rightarrow> py_exc + axon list" where
  "get_query_api_axons order pick dendrite uids vtrust stake n asked axons =
     (case (case asked of
              All_Nodes \<Rightarrow> get_query_api_nodes order pick dendrite uids vtrust stake n
            | One_Uid uid \<Rightarrow> Inr [uid]
            | Some_Uids us \<Rightarrow> Inr us) of
        Inl x \<Rightarrow> Inl x
      | Inr us \<Rightarrow> if list_all (\<lambda>uid. uid < length axons) us then Inr (map ((!) axons) us) else Inl IndexError)"

section \<open>The mock network\<close>

definition mock_hotkeys :: "string option \<Rightarrow> nat \<Rightarrow> string list" where
  "mock_hotkeys wallet n = (case wallet of None \<Rightarrow> [] | Some hk \<Rightarrow> [hk]) @
     map (\<lambda>i. ''miner-hotkey-'' @ show_nat i) [1..<Suc n]"

text \<open>One answer of \<open>MockDendrite\<close>: \<open>process_time\<close> is the random number drawn for it.\<close>

record mock_response =
  mk_output :: int
  mk_status :: int

definition single_axon_response :: "rat \<Rightarrow> int \<Rightarrow> rat \<Rightarrow> mock_response" where
  "single_axon_response timeout dummy_input process_time =
     (if process_time < timeout then \<lparr>mk_output = dummy_input * 2, mk_status = 200\<rparr>
      else \<lparr>mk_output = 0, mk_status = 408\<rparr>)"

definition mock_dendrite ::
  "bool \<Rightarrow> rat \<Rightarrow> (nat \<Rightarrow> rat) \<Rightarrow> int \<Rightarrow> nat list \<Rightarrow> string + int option list" where
  "mock_dendrite streaming timeout process_time dummy_input uids =
     (if streaming then Inl ''NotImplementedError''
      else Inr (map (\<lambda>uid. Some (mk_output (single_axon_response timeout dummy_input (process_time uid)))) uids))"

section \<open>Lemmas: sampling\<close>

lemma draw_mset:
  "k \<le> length xs \<Longrightarrow> length (draw pick xs k) = k \<and> set (draw pick xs k) \<subseteq> set xs \<and>
     (distinct xs \<longrightarrow> distinct (draw pick xs k)) \<and> (k = length xs \<longrightarrow> set (draw pick xs k) = set xs)"
proof (induction k arbitrary: xs)
  case (Suc k)
  let ?i = "pick k mod length xs"
  let ?rest = "take ?i xs @ drop (Suc ?i) xs"
  have i: "?i < length xs" using Suc.prems by (cases xs) simp_all
  then have rest: "length ?rest = length xs - 1" by simp
  have parts: "xs = take ?i xs @ xs ! ?i # drop (Suc ?i) xs" using i by (rule id_take_nth_drop)
  have sets: "set xs = insert (xs ! ?i) (set ?rest)" by (subst parts) simp
  have dist: "distinct xs \<Longrightarrow> distinct ?rest \<and> xs ! ?i \<notin> set ?rest"
  proof -
    assume "distinct xs"
    then have "distinct (take ?i xs @ xs ! ?i # drop (Suc ?i) xs)" by (subst (asm) parts)
    then show ?thesis by auto
  qed
  have "k \<le> length ?rest" using Suc.prems unfolding rest by simp
  note IH = Suc.IH [OF this]
  show ?case
  proof (intro conjI impI)
    show "length (draw pick xs (Suc k)) = Suc k" using IH by (simp add: Let_def)
    show "set (draw pick xs (Suc k)) \<subseteq> set xs" using IH unfolding sets by (auto simp: Let_def)
    show "distinct (draw pick xs (Suc k))" if "distinct xs" using IH dist [OF that] by (auto simp: Let_def)
    show "set (draw pick xs (Suc k)) = set xs" if "Suc k = length xs"
    proof -
      have "k = length ?rest" using that unfolding rest by simp
      with IH have "set (draw pick ?rest k) = set ?rest" by blast
      then show ?thesis unfolding sets by (simp add: Let_def)
    qed
  qed
qed simp

lemma random_sample_InrD:
  assumes "random_sample pick xs k = Inr ys"
  shows "0 \<le> k \<and> k \<le> int (length xs) \<and> length ys = nat k \<and> set ys \<subseteq> set xs \<and> (distinct xs \<longrightarrow> distinct ys) \<and>
    (k = int (length xs) \<longrightarrow> set ys = set xs)"
proof -
  have k: "0 \<le> k" "nat k \<le> length xs" "ys = draw pick xs (nat k)"
    using assms by (auto simp: random_sample_def split: if_splits)
  then show ?thesis using draw_mset [OF k(2), of pick] by auto
qed

lemma collect_uids_InrD:
  "collect_uids check exclude uids avail cand = Inr (avail', cand') \<Longrightarrow>
     avail' = avail @ filter (\<lambda>u. check u = Inr True) uids \<and>
     cand' = cand @ filter (\<lambda>u. check u = Inr True \<and> (case exclude of None \<Rightarrow> True | Some ex \<Rightarrow> u \<notin> set ex)) uids"
proof (induction uids arbitrary: avail cand)
  case (Cons u uids)
  from Cons.prems show ?case
    by (auto split: sum.splits bool.splits dest!: Cons.IH split del: option.split)
qed simp

section \<open>Properties\<close>

text \<open>
  What is chosen: as many different available uids as were asked for or exist.  Excluded uids are chosen only
  when there are not enough others, and then every other one is chosen too.
\<close>

lemma random_uids_are_available:
  assumes "get_random_uids pick1 pick2 mg stake limit k exclude = Inr uids"
  defines "avail \<equiv> filter (\<lambda>u. check_uid_availability mg stake limit u = Inr True) [0..<mg_n mg]"
  defines "cand \<equiv> filter (\<lambda>u. case exclude of None \<Rightarrow> True | Some ex \<Rightarrow> u \<notin> set ex) avail"
  shows "distinct uids \<and> set uids \<subseteq> set avail \<and> int (length uids) = min k (int (length avail)) \<and>
    (min k (int (length avail)) \<le> int (length cand) \<longrightarrow> set uids \<subseteq> set cand) \<and>
    (int (length cand) \<le> k \<longrightarrow> set cand \<subseteq> set uids)"
proof -
  obtain a c where coll: "collect_uids (check_uid_availability mg stake limit) exclude [0..<mg_n mg] [] [] = Inr (a, c)"
    using assms(1) by (auto simp: get_random_uids_def split: sum.splits)
  from collect_uids_InrD [OF coll] have a: "a = avail" and c: "c = cand"
    by (auto simp: avail_def cand_def conj_commute)
  have dist: "distinct avail" "distinct cand" "set cand \<subseteq> set avail"
    by (auto simp: avail_def cand_def)
  show ?thesis
  proof (cases "int (length cand) < min k (int (length avail))")
    case True
    then obtain extra where extra: "random_sample pick1 (filter (\<lambda>uid. uid \<notin> set cand) avail)
        (min k (int (length avail)) - int (length cand)) = Inr extra"
      and uids: "random_sample pick2 (cand @ extra) (min k (int (length avail))) = Inr uids"
      using assms(1) coll a c by (auto simp: get_random_uids_def Let_def split: sum.splits)
    note m = random_sample_InrD [OF extra] and u = random_sample_InrD [OF uids]
    have all: "distinct (cand @ extra)" "min k (int (length avail)) = int (length (cand @ extra))" "set extra \<subseteq> set avail"
      using m dist by auto
    with u have "set uids = set cand \<union> set extra" "distinct uids" "length uids = nat (min k (int (length avail)))" by auto
    with all dist True u show ?thesis by simp
  next
    case False
    then have "random_sample pick2 cand (min k (int (length avail))) = Inr uids"
      using assms(1) coll a c by (auto simp: get_random_uids_def Let_def)
    note u = random_sample_InrD [OF this]
    have "length cand \<le> length avail" by (simp add: cand_def)
    with u dist False show ?thesis by auto
  qed
qed

text \<open>With no exclusion the choice fails only for a negative size, given a consistent metagraph.\<close>

lemma excluded_uid_is_returned:
  "get_random_uids (\<lambda>_. 0) (\<lambda>_. 0) \<lparr>mg_n = 1, mg_uids = [0], mg_hotkeys = [''a''],
     mg_axons = [\<lparr>ax_serving = True, ax_info = []\<rparr>], mg_validator_permit = Some [False]\<rparr> [0] 4096 1 (Some [0]) = Inr [0]"
  by code_simp

lemma process_responses_loses:
  "process_responses rs = (if list_ex (\<lambda>(status, _). status = 200) rs then None else Some [])"
  by (induction rs rule: process_responses.induct) auto

lemma ping_partition:
  assumes "dendrite uids = Some codes" "length codes = length uids"
  shows "mset (fst (ping_uids dendrite uids)) + mset (snd (ping_uids dendrite uids)) = mset uids"
proof -
  have "mset (map fst (filter P z)) + mset (map fst (filter (\<lambda>x. \<not> P x) z)) = mset (map fst z)"
    for P and z :: "(nat \<times> int) list" by (induction z) auto
  from this [of "\<lambda>(_, code). code = 200" "zip uids codes"] assms show ?thesis
    by (simp add: ping_uids_def case_prod_unfold)
qed

text \<open>At step 0 a mock miner that timed out answers 0, which is the doubled query.\<close>

lemma timeout_is_rewarded_at_step_zero:
  "get_rewards 0 [Some (mk_output (single_axon_response timeout 0 t))] = [1]"
  by (simp add: get_rewards_def reward_def single_axon_response_def)

end
