(* ===== verification/Operator_Checks.thy ===== *)
theory Operator_Checks
  imports Llm_Validator
begin

text \<open>
  Tools an operator runs beside the validator: \<open>scripts/check_per_epoch_emission.py\<close>, which predicts from chain
  reads and a copy of the state file what the validator will pay, and \<open>scripts/setup_mechanisms.py\<close>, with which
  the owner gives the subnet its two mechanisms.  The lemmas say that the prediction is the validator's decision
  and that nothing is sent unasked.
\<close>

section \<open>Checking the epoch reads\<close>

datatype gap_verdict = Folded_Sliver | Paid_Previous | Discarded

definition gap_verdict_of :: "int \<Rightarrow> int \<Rightarrow> gap_verdict" where
  "gap_verdict_of gap epoch_length =
     (if (of_int gap :: rat) < of_int epoch_length / 2 then Folded_Sliver
      else if of_int gap \<le> (3 / 2 :: rat) * of_int epoch_length then Paid_Previous
      else Discarded)"

text \<open>
  \<open>check_chain\<close>: \<open>reads\<close> are the five reads of the epoch's start, \<open>length_read\<close> the read of its length and
  \<open>next_start\<close> what the chain names as the start of the next.
\<close>

definition check_chain :: "chain_reads list \<Rightarrow> chain_reads \<Rightarrow> int option \<Rightarrow> bool" where
  "check_chain reads length_read next_start =
     (let starts = map current_epoch_start_block reads in
      case epoch_length_blocks length_read of
        None \<Rightarrow> False
      | Some epoch_length \<Rightarrow>
          if None \<in> set starts then False
          else (case next_start of
              None \<Rightarrow> False
            | Some nxt \<Rightarrow>
                let stable = card (set starts) = 1;
                    gap = nxt - the (last starts);
                    passed = (gap_verdict_of gap epoch_length = Paid_Previous);
                    rejected = ((3 / 2 :: rat) * of_int epoch_length < 2 * of_int gap)
                in stable \<and> passed \<and> rejected))"

section \<open>What a state would pay\<close>

text \<open>
  \<open>check_state\<close>: \<open>st\<close> is the validator object after the copy of its state file was loaded.  The final weights are
  \<open>None\<close> when the burn uid is not in the metagraph.
\<close>

definition split_weights :: "rat list \<Rightarrow> rat list" where
  "split_weights ws = (if 0 < sum_list ws then map (\<lambda>w. w / sum_list ws) ws else replicate (length ws) 0)"

definition state_weights ::
  "env \<Rightarrow> fl \<Rightarrow> int \<Rightarrow> chain_reads \<Rightarrow> metagraph \<Rightarrow> vstate \<Rightarrow> py_exc + (int list \<times> rat list) option" where
  "state_weights e burn_percentage burn_uid c mg st =
     (case roll_epoch_if_needed e c (mg_hotkeys mg) st of
        Inl x \<Rightarrow> Inl x
      | Inr st \<Rightarrow> (case score_last_epoch e (mg_hotkeys mg) st of
          Inl x \<Rightarrow> Inl x
        | Inr st \<Rightarrow>
            if burn_uid \<notin> set (mg_uids mg) then Inr None
            else map_sum id Some (apply_burn_allocation burn_uid burn_percentage (mg_uids mg) (mg_uids mg)
              (Some (split_weights (blended_weight_array (mg_hotkeys mg) st))))))"

definition check_state :: "env \<Rightarrow> fl \<Rightarrow> int \<Rightarrow> chain_reads \<Rightarrow> metagraph \<Rightarrow> vstate \<Rightarrow> py_exc + bool" where
  "check_state e burn_percentage burn_uid c mg st =
     map_sum id (\<lambda>r. case r of None \<Rightarrow> False | Some (_, final) \<Rightarrow> \<bar>sum_list final - 1\<bar> < 1 / 10 ^ 6)
       (state_weights e burn_percentage burn_uid c mg st)"

text \<open>\<open>main\<close>: the state is optional.\<close>

definition emission_check_exit :: "bool \<Rightarrow> (py_exc + bool) option \<Rightarrow> py_exc + int" where
  "emission_check_exit chain_ok state = (case state of
      None \<Rightarrow> Inr (if chain_ok then 0 else 1)
    | Some (Inl x) \<Rightarrow> Inl x
    | Some (Inr ok) \<Rightarrow> Inr (if chain_ok \<and> ok then 0 else 1))"

section \<open>Setting up the mechanisms\<close>

fun ints_of :: "string list \<Rightarrow> int list option" where
  "ints_of [] = Some []"
| "ints_of (x # xs) =
     (if py_strip x = [] then ints_of xs
      else case (py_int x, ints_of xs) of (Some i, Some is) \<Rightarrow> Some (i # is) | _ \<Rightarrow> None)"

definition parse_split :: "string \<Rightarrow> int \<Rightarrow> int list option" where
  "parse_split text count =
     (if text = [] then Some []
      else case ints_of (split_char (CHR '','') text) of
          None \<Rightarrow> None
        | Some split \<Rightarrow> if int (length split) \<noteq> count \<or> list_ex (\<lambda>x. x \<le> 0) split then None else Some split)"

datatype admin_call = Set_Mechanism_Count int | Set_Emission_Split "int list"

definition planned_calls :: "int \<Rightarrow> int \<Rightarrow> int list \<Rightarrow> admin_call list" where
  "planned_calls current count split =
     (if current \<noteq> count then [Set_Mechanism_Count count] else []) @
     (if split \<noteq> [] then [Set_Emission_Split split] else [])"

text \<open>The calls are sent until one fails; \<open>chain\<close> tells whether the chain takes a call after those before it.\<close>

fun send_calls :: "(admin_call list \<Rightarrow> admin_call \<Rightarrow> bool) \<Rightarrow> admin_call list \<Rightarrow> admin_call list \<Rightarrow> int \<times> admin_call list" where
  "send_calls chain sent [] = (0, sent)"
| "send_calls chain sent (c # cs) =
     (if chain sent c then send_calls chain (sent @ [c]) cs else (1, sent @ [c]))"

definition setup_mechanisms ::
  "(admin_call list \<Rightarrow> admin_call \<Rightarrow> bool) \<Rightarrow> int \<Rightarrow> string \<Rightarrow> bool \<Rightarrow> int \<Rightarrow> int \<times> admin_call list" where
  "setup_mechanisms chain count split_text confirmed current = (case parse_split split_text count of
      None \<Rightarrow> (2, [])
    | Some split \<Rightarrow>
        let todo = planned_calls current count split in
        if todo = [] \<or> \<not> confirmed then (0, []) else send_calls chain [] todo)"

section \<open>Lemmas\<close>

text \<open>The tool names the branch the validator takes at the next epoch.\<close>

lemma check_chain_predicts:
  assumes "check_chain reads c next_start" "reads \<noteq> []"
    and "llm_key_epoch_start_block st = current_epoch_start_block (last reads)"
    and "current_epoch_start_block c' = next_start" "epoch_length_blocks c' = epoch_length_blocks c"
    and "\<exists>len. epoch_length_blocks c = Some len \<and> 0 < len"
  shows "roll_epoch_if_needed e c' hotkeys st = score_last_epoch e hotkeys
     (st\<lparr>llm_key_last_epoch_calls := llm_key_pending_calls st, llm_key_pending_calls := [],
         llm_key_epoch_start_block := next_start\<rparr>)"
proof -
  obtain len where len: "epoch_length_blocks c = Some len" "0 < len" using assms(6) by blast
  obtain nxt where nxt: "next_start = Some nxt" using assms(1) by (auto simp: check_chain_def len Let_def split: option.splits if_splits)
  have "last (map current_epoch_start_block reads) \<in> set (map current_epoch_start_block reads)"
    using assms(2) by (intro last_in_set) simp
  then obtain s where s: "current_epoch_start_block (last reads) = Some s"
    using assms(1,2) by (cases "current_epoch_start_block (last reads)")
      (auto simp: check_chain_def len nxt last_map)
  have "gap_verdict_of (nxt - s) len = Paid_Previous"
    using assms(1,2) by (auto simp: check_chain_def len nxt last_map s Let_def split: if_splits)
  then have gap: "\<not> (of_int (nxt - s) :: rat) < of_int len / 2" "(of_int (nxt - s) :: rat) \<le> 3 / 2 * of_int len"
    by (auto simp: gap_verdict_of_def split: if_splits)
  have pos: "0 < nxt - s"
  proof (rule ccontr)
    assume "\<not> ?thesis"
    then have "(of_int (nxt - s) :: rat) \<le> 0" by simp
    moreover have "(0 :: rat) < of_int len / 2" using len(2) by simp
    ultimately show False using gap(1) by linarith
  qed
  with gap show ?thesis
    by (simp add: roll_epoch_if_needed_def assms(3-5) s nxt len Let_def)
qed

lemma gap_discarded_pays_nothing:
  assumes "llm_key_epoch_start_block st = Some s" "current_epoch_start_block c = Some nxt" "nxt \<noteq> s"
    and "epoch_length_blocks c = Some len" "gap_verdict_of (nxt - s) len = Discarded"
  shows "roll_epoch_if_needed e c hotkeys st = score_last_epoch e hotkeys
     (st\<lparr>llm_key_last_epoch_calls := [], llm_key_pending_calls := [], llm_key_epoch_start_block := Some nxt\<rparr>)"
proof -
  have "\<not> (of_int (nxt - s) :: rat) < of_int len / 2" "\<not> (of_int (nxt - s) :: rat) \<le> 3 / 2 * of_int len"
    using assms(5) by (auto simp: gap_verdict_of_def split: if_splits)
  with assms(1-4) show ?thesis by (simp add: roll_epoch_if_needed_def Let_def)
qed

text \<open>The weights it prints are those of the validator's own functions, and always a distribution.\<close>

lemma map_sum_Inr: "map_sum id g x = Inr y \<longleftrightarrow> (\<exists>z. x = Inr z \<and> y = g z)"
  by (cases x) auto

lemma burn_result_sum:
  assumes "apply_burn_allocation burn_uid (Fin p) current uids (Some ws) = Inr (us, vs)"
  shows "sum_list vs = 1"
proof -
  have "burn_uid \<in> set current" "0 \<le> p" "p \<le> 1" "length ws = length uids"
    using assms by (auto simp: apply_burn_allocation_def Let_def split: if_splits)
  note cases = burn_cases [OF this]
  show ?thesis
  proof (cases "0 < sum_list (map snd (miners_of burn_uid uids ws)) \<and> p < 1")
    case True
    with cases assms have "vs = map (\<lambda>(u, w). w / sum_list (map snd (miners_of burn_uid uids ws)) * (1 - p))
        (miners_of burn_uid uids ws) @ [p]" by (simp add: Let_def)
    with True show ?thesis
      using sum_list_zip_split [of "sum_list (map snd (miners_of burn_uid uids ws))" "1 - p" "miners_of burn_uid uids ws"]
      by simp
  qed (use cases assms in \<open>auto simp: Let_def\<close>)
qed

lemma check_state_passes:
  assumes "state_weights e (Fin p) burn_uid c mg st = Inr r"
  shows "check_state e (Fin p) burn_uid c mg st = Inr (burn_uid \<in> set (mg_uids mg))"
proof (cases r)
  case None
  with assms show ?thesis
    by (cases "burn_uid \<in> set (mg_uids mg)")
      (auto simp: check_state_def state_weights_def map_sum_Inr split: sum.splits if_splits)
next
  case (Some w)
  obtain us vs where w: "w = (us, vs)" by (cases w)
  with assms Some have "burn_uid \<in> set (mg_uids mg)" and
    "\<exists>ws. apply_burn_allocation burn_uid (Fin p) (mg_uids mg) (mg_uids mg) (Some ws) = Inr (us, vs)"
    by (auto simp: state_weights_def map_sum_Inr split: sum.splits if_splits)
  with burn_result_sum assms Some w show ?thesis by (auto simp: check_state_def)
qed

text \<open>Nothing is sent without confirmation, and what is sent is the plan up to the first call the chain refuses.\<close>

lemma send_calls_plan:
  "\<exists>pre rest. cs = pre @ rest \<and> snd (send_calls chain sent cs) = sent @ pre \<and>
     (fst (send_calls chain sent cs) = 0 \<longrightarrow> rest = [] \<and> (\<forall>i < length cs. chain (sent @ take i cs) (cs ! i)))"
proof (induction cs arbitrary: sent)
  case (Cons c cs)
  show ?case
  proof (cases "chain sent c")
    case True
    from Cons.IH [of "sent @ [c]"] obtain pre rest where "cs = pre @ rest"
      "snd (send_calls chain (sent @ [c]) cs) = (sent @ [c]) @ pre"
      "fst (send_calls chain (sent @ [c]) cs) = 0 \<longrightarrow> rest = [] \<and> (\<forall>i < length cs. chain ((sent @ [c]) @ take i cs) (cs ! i))"
      by blast
    with True show ?thesis
      by (intro exI [of _ "c # pre"] exI [of _ rest]) (auto simp: less_Suc_eq_0_disj)
  next
    case False
    then show ?thesis by (intro exI [of _ "[c]"] exI [of _ cs]) simp
  qed
qed simp

lemma send_calls_status: "send_calls chain sent cs = (status, sent') \<Longrightarrow> status = 0 \<or> status = 1"
  by (induction cs arbitrary: sent) (auto split: if_splits)

lemma setup_sends_the_plan:
  assumes "setup_mechanisms chain count text confirmed current = (status, sent)"
  shows "(\<not> confirmed \<longrightarrow> sent = []) \<and> (status = 2 \<longrightarrow> sent = []) \<and>
    (\<exists>split rest. planned_calls current count split = sent @ rest \<and>
      (sent \<noteq> [] \<longrightarrow> parse_split text count = Some split \<and> (status = 0 \<longrightarrow> rest = [])))"
proof (cases "parse_split text count")
  case (Some split)
  let ?todo = "planned_calls current count split"
  show ?thesis
  proof (cases "?todo = [] \<or> \<not> confirmed")
    case True
    with assms Some have "sent = []" "status = 0" by (auto simp: setup_mechanisms_def Let_def)
    then show ?thesis by auto
  next
    case False
    with assms Some have sends: "send_calls chain [] ?todo = (status, sent)" by (simp add: setup_mechanisms_def Let_def)
    with send_calls_plan [of ?todo chain "[]"] obtain rest where
      "?todo = sent @ rest" "status = 0 \<longrightarrow> rest = []" by auto
    moreover have "status \<noteq> 2" using send_calls_status [OF sends] by auto
    ultimately show ?thesis using False Some by auto
  qed
qed (use assms in \<open>auto simp: setup_mechanisms_def\<close>)

lemma parse_split_Some:
  "parse_split text count = Some split \<Longrightarrow> text \<noteq> [] \<Longrightarrow> int (length split) = count \<and> list_all (\<lambda>x. 0 < x) split"
  by (auto simp: parse_split_def list_ex_iff list_all_iff not_le split: option.splits if_splits)

end
