(* ===== verification/Signed_Messages.thy ===== *)
theory Signed_Messages
  imports Py_Text
begin

text \<open>
  \<open>verify/generate.py\<close> and \<open>verify/verify.py\<close>: a message signed with a coldkey, written to a text file, and read
  back.  The signature scheme is a parameter; what is proved is that the file format carries message, address and
  signature unharmed when the message holds neither the separator nor a carriage return.
\<close>

section \<open>Text\<close>

text \<open>\<open>bytes.hex\<close> and \<open>unhexlify\<close>, with a byte as a character.\<close>

definition bytes_hex :: "string \<Rightarrow> string" where
  "bytes_hex bs = concat (map (\<lambda>c. [hex_lower (code c div 16), hex_lower (code c mod 16)]) bs)"

fun unhexlify :: "string \<Rightarrow> string option" where
  "unhexlify [] = Some []"
| "unhexlify [c] = None"
| "unhexlify (a # b # rest) = (case (hex_value a, hex_value b, unhexlify rest) of
      (Some i, Some j, Some bs) \<Rightarrow> Some (char_of (16 * i + j) # bs)
    | _ \<Rightarrow> None)"

text \<open>\<open>str.split\<close> on a separator of two different characters.\<close>

fun split_pair :: "char \<Rightarrow> char \<Rightarrow> string \<Rightarrow> string list" where
  "split_pair a b [] = [[]]"
| "split_pair a b [x] = [[x]]"
| "split_pair a b (x # y # rest) =
     (if x = a \<and> y = b then [] # split_pair a b rest
      else case split_pair a b (y # rest) of p # ps \<Rightarrow> (x # p) # ps | [] \<Rightarrow> [[x]])"

text \<open>Text mode: every way to end a line is read as a newline.\<close>

fun read_newlines :: "string \<Rightarrow> string" where
  "read_newlines [] = []"
| "read_newlines [c] = [if c = CHR 0x0D then CHR 0x0A else c]"
| "read_newlines (c # d # rest) =
     (if c = CHR 0x0D \<and> d = CHR 0x0A then CHR 0x0A # read_newlines rest
      else (if c = CHR 0x0D then CHR 0x0A else c) # read_newlines (d # rest))"

definition cut_prefix :: "string \<Rightarrow> string \<Rightarrow> string" where
  "cut_prefix prefix s = (if starts_with s prefix then drop (length prefix) s else s)"

section \<open>Signing and verifying\<close>

definition wrapped_message :: "string \<Rightarrow> string \<Rightarrow> string \<Rightarrow> string" where
  "wrapped_message timestamp timezone message =
     ''<Bytes>'' @ ''On '' @ timestamp @ '' '' @ timezone @ '' '' @ message @ ''</Bytes>''"

definition signed_file :: "(string \<Rightarrow> string) \<Rightarrow> string \<Rightarrow> string \<Rightarrow> string" where
  "signed_file sign address message =
     message @ [CHR 0x0A, CHR 0x09] @ ''Signed by: '' @ address @ [CHR 0x0A, CHR 0x09] @
     ''Signature: '' @ bytes_hex (sign message)"

definition generate :: "(string \<Rightarrow> string) \<Rightarrow> string \<Rightarrow> string \<Rightarrow> string \<Rightarrow> string \<Rightarrow> string" where
  "generate sign address timestamp timezone message =
     signed_file sign address (wrapped_message timestamp timezone message)"

text \<open>
  \<open>verify\<close>: the address of the signer.  \<open>keypair\<close> is \<open>None\<close> for an address that is none, else the check of a
  signature over a message.
\<close>

datatype verify_error = Missing_Line | Bad_Address | Not_Wrapped | Bad_Hex | Invalid_Signature

definition verify :: "(string \<Rightarrow> (string \<Rightarrow> string \<Rightarrow> bool) option) \<Rightarrow> string \<Rightarrow> verify_error + string" where
  "verify keypair content =
     (case split_pair (CHR 0x0A) (CHR 0x09) (read_newlines content) of
        message # address_line # rest \<Rightarrow>
          let address = cut_prefix ''Signed by: '' address_line in
          (case keypair address of
             None \<Rightarrow> Inl Bad_Address
           | Some check \<Rightarrow>
               if \<not> starts_with message ''<Bytes>'' \<or> \<not> ends_with message ''</Bytes>'' then Inl Not_Wrapped
               else (case rest of
                   [] \<Rightarrow> Inl Missing_Line
                 | signature_line # _ \<Rightarrow>
                     (case unhexlify (cut_prefix ''Signature: '' signature_line) of
                        None \<Rightarrow> Inl Bad_Hex
                      | Some signature \<Rightarrow>
                          if check message signature then Inr address else Inl Invalid_Signature)))
      | _ \<Rightarrow> Inl Missing_Line)"

section \<open>Lemmas\<close>

fun holds_pair :: "char \<Rightarrow> char \<Rightarrow> string \<Rightarrow> bool" where
  "holds_pair a b (x # y # rest) = (x = a \<and> y = b \<or> holds_pair a b (y # rest))"
| "holds_pair a b _ = False"

lemma split_pair_nonempty: "split_pair a b s \<noteq> []"
  by (induction a b s rule: split_pair.induct) (auto split: list.split)

lemma split_pair_none: "\<not> holds_pair a b s \<Longrightarrow> split_pair a b s = [s]"
  by (induction a b s rule: split_pair.induct) auto

lemma split_pair_at:
  assumes "a \<noteq> b" "\<not> holds_pair a b m"
  shows "split_pair a b (m @ a # b # rest) = m # split_pair a b rest"
  using assms
proof (induction a b m rule: split_pair.induct)
  case (3 a b x y m)
  then show ?case by simp
qed simp_all

lemma unhexlify_hex: "unhexlify (bytes_hex bs) = Some bs"
proof (induction bs)
  case (Cons c bs)
  have "16 * (code c div 16) + code c mod 16 = code c" by simp
  with Cons show ?case by (simp add: bytes_hex_def hex_value_lower code_div_16)
qed (simp add: bytes_hex_def)

lemma hex_no_control:
  assumes "hex_value x = None"
  shows "x \<notin> set (bytes_hex bs)"
proof -
  have "hex_lower n \<noteq> x" if "n < 16" for n using hex_value_lower [OF that] assms by auto
  then have "x \<noteq> hex_lower (code c div 16)" "x \<noteq> hex_lower (code c mod 16)" for c
    using code_div_16 by (metis, metis mod_less_divisor zero_less_numeral)
  then show ?thesis by (simp add: bytes_hex_def)
qed

lemma hex_no_newline: "CHR 0x0A \<notin> set (bytes_hex bs)" "CHR 0x0D \<notin> set (bytes_hex bs)"
  by (rule hex_no_control; code_simp)+

lemma read_newlines_id: "CHR 0x0D \<notin> set s \<Longrightarrow> read_newlines s = s"
  by (induction s rule: read_newlines.induct) auto

lemma no_newline_no_pair: "a \<notin> set s \<Longrightarrow> \<not> holds_pair a b s"
  by (induction a b s rule: holds_pair.induct) auto

lemma cut_prefix_append [simp]: "cut_prefix p (p @ s) = s"
  by (simp add: cut_prefix_def starts_with_append)

lemma wrapped_is_wrapped:
  "starts_with (wrapped_message t z m) ''<Bytes>''" "ends_with (wrapped_message t z m) ''</Bytes>''"
  by (simp_all add: wrapped_message_def ends_with_def)

text \<open>What was signed verifies, unless it holds the separator or a carriage return.\<close>

lemma generated_file_verifies:
  assumes "keypair address = Some check" "check (wrapped_message t z m) (sign (wrapped_message t z m))"
    and "CHR 0x0A \<notin> set address" "CHR 0x0D \<notin> set address" "CHR 0x0D \<notin> set (wrapped_message t z m)"
      "\<not> holds_pair (CHR 0x0A) (CHR 0x09) (wrapped_message t z m)"
  shows "verify keypair (generate sign address t z m) = Inr address"
proof -
  let ?msg = "wrapped_message t z m"
  have "\<not> holds_pair (CHR 0x0A) (CHR 0x09) (''Signed by: '' @ address)"
    "\<not> holds_pair (CHR 0x0A) (CHR 0x09) (''Signature: '' @ bytes_hex (sign ?msg))"
    using assms(3) hex_no_newline by (intro no_newline_no_pair; simp)+
  moreover have "read_newlines (generate sign address t z m) = generate sign address t z m"
    using assms(4,5) hex_no_newline by (intro read_newlines_id) (simp add: generate_def signed_file_def)
  ultimately have "split_pair (CHR 0x0A) (CHR 0x09) (read_newlines (generate sign address t z m)) =
      [?msg, ''Signed by: '' @ address, ''Signature: '' @ bytes_hex (sign ?msg)]"
    using split_pair_at [of "CHR 0x0A" "CHR 0x09" ?msg] split_pair_at [of "CHR 0x0A" "CHR 0x09" "''Signed by: '' @ address"]
      split_pair_none assms(6)
    by (simp add: generate_def signed_file_def)
  then show ?thesis
    using assms(1,2) wrapped_is_wrapped by (simp add: verify_def Let_def unhexlify_hex del: append_Cons)
qed

text \<open>A message that holds one of them is signed without complaint and never verifies.\<close>

lemma tab_after_newline_breaks:
  "verify (\<lambda>_. Some (\<lambda>_ _. True)) (generate (\<lambda>_. ''s'') ''addr'' ''1'' ''UTC'' [CHR ''a'', CHR 0x0A, CHR 0x09, CHR ''b'']) =
     Inl Not_Wrapped"
  by code_simp

lemma carriage_return_breaks:
  "verify (\<lambda>_. Some (\<lambda>m _. m = wrapped_message ''1'' ''UTC'' [CHR 0x0D]))
     (generate (\<lambda>_. []) ''addr'' ''1'' ''UTC'' [CHR 0x0D]) = Inl Invalid_Signature"
  by (simp add: verify_def generate_def signed_file_def wrapped_message_def bytes_hex_def cut_prefix_def ends_with_def)

end
