(* ===== verification/Btcli_Patch.thy ===== *)
theory Btcli_Patch
  imports Py_Text
begin

text \<open>
  \<open>scripts/patch_btcli_compat.py\<close>: six textual patches to an installed package, each applied once.  The script
  promises to be safe to rerun; that rests on no patch destroying the text another one looks for, which is
  checked here on the snippets of the source.
\<close>

section \<open>One replacement\<close>

record patch =
  pa_old :: string
  pa_new :: string
  pa_compatible :: "string list"

text \<open>\<open>text.replace(old, new, 1)\<close>.\<close>

fun replace_first :: "string \<Rightarrow> string \<Rightarrow> string \<Rightarrow> string" where
  "replace_first old new text =
     (if starts_with text old then new @ drop (length old) text
      else case text of [] \<Rightarrow> [] | c # cs \<Rightarrow> c # replace_first old new cs)"

declare replace_first.simps [simp del]

text \<open>\<open>_replace_once\<close> on the text of a file: \<open>None\<close> is the exit, else the text and whether it was written.\<close>

definition replace_once :: "patch \<Rightarrow> string \<Rightarrow> (string \<times> bool) option" where
  "replace_once p text =
     (if contains text (pa_new p) \<or> list_ex (contains text) (pa_compatible p) then Some (text, False)
      else if \<not> contains text (pa_old p) then None
      else Some (replace_first (pa_old p) (pa_new p) text, True))"

section \<open>The snippets\<close>

text \<open>Lines with their indentation, in steps of four blanks.\<close>

definition py_lines :: "(nat \<times> string) list \<Rightarrow> string" where
  "py_lines ls = concat (map (\<lambda>(n, l). replicate (4 * n) (CHR '' '') @ l @ [CHR 0x0A]) ls)"

definition old_single :: string where \<open>
  old_single = py_lines
     [(2, ''current_sqrt_price = await self.query(''),
      (3, ''module="Swap",''),
      (3, ''storage_function="AlphaSqrtPrice",''),
      (3, ''params=[netuid],''),
      (3, ''block_hash=block_hash,''),
      (2, '')'')]\<close>

definition new_single :: string where \<open>
  new_single = py_lines
     [(2, ''try:''),
      (3, ''current_sqrt_price = await self.query(''),
      (4, ''module="Swap",''),
      (4, ''storage_function="AlphaSqrtPrice",''),
      (4, ''params=[netuid],''),
      (4, ''block_hash=block_hash,''),
      (3, '')''),
      (2, ''except Exception:''),
      (3, ''return Balance.from_tao(1.0)'')]\<close>

definition old_map :: string where \<open>
  old_map = py_lines
     [(2, ''query = await self.substrate.query_map(''),
      (3, ''module="Swap",''),
      (3, ''storage_function="AlphaSqrtPrice",''),
      (3, ''page_size=page_size,''),
      (3, ''block_hash=block_hash,''),
      (3, ''fully_exhaust=True,''),
      (2, '')'')]\<close>

definition new_map :: string where \<open>
  new_map = py_lines
     [(2, ''try:''),
      (3, ''query = await self.substrate.query_map(''),
      (4, ''module="Swap",''),
      (4, ''storage_function="AlphaSqrtPrice",''),
      (4, ''page_size=page_size,''),
      (4, ''block_hash=block_hash,''),
      (4, ''fully_exhaust=True,''),
      (3, '')''),
      (2, ''except Exception:''),
      (3, ''return {}'')]\<close>

definition old_discovery :: string where \<open>
  old_discovery = py_lines
     [(2, ''netuids_with_registered_hotkeys = [''),
      (3, ''item''),
      (3, ''for sublist in await asyncio.gather(''),
      (4, ''*[''),
      (5, ''self.get_netuids_for_hotkey(''),
      (6, ''get_hotkey_pub_ss58(wallet),''),
      (6, ''block_hash=block_hash,''),
      (5, '')''),
      (5, ''for wallet in all_hotkeys''),
      (4, '']''),
      (3, '')''),
      (3, ''for item in sublist''),
      (2, '']''),
      (0, ''''),
      (2, ''if not filter_for_netuids:''),
      (3, ''all_netuids = netuids_with_registered_hotkeys''),
      (0, ''''),
      (2, ''else:''),
      (3, ''filtered_netuids = [''),
      (4, ''netuid for netuid in all_netuids if netuid in filter_for_netuids''),
      (3, '']''),
      (0, ''''),
      (3, ''registered_hotkeys_filtered = [''),
      (4, ''netuid''),
      (4, ''for netuid in netuids_with_registered_hotkeys''),
      (4, ''if netuid in filter_for_netuids''),
      (3, '']''),
      (0, ''''),
      (3, ''# Combine both filtered lists''),
      (3, ''all_netuids = filtered_netuids + registered_hotkeys_filtered''),
      (0, ''''),
      (2, ''return list(set(all_netuids))'')]\<close>

definition new_discovery :: string where \<open>
  new_discovery = py_lines
     [(2, ''if filter_for_netuids:''),
      (3, ''return list(''),
      (4, ''set(netuid for netuid in all_netuids if netuid in filter_for_netuids)''),
      (3, '')''),
      (0, ''''),
      (2, ''netuids_with_registered_hotkeys = [''),
      (3, ''item''),
      (3, ''for sublist in await asyncio.gather(''),
      (4, ''*[''),
      (5, ''self.get_netuids_for_hotkey(''),
      (6, ''get_hotkey_pub_ss58(wallet),''),
      (6, ''block_hash=block_hash,''),
      (5, '')''),
      (5, ''for wallet in all_hotkeys''),
      (4, '']''),
      (3, '')''),
      (3, ''for item in sublist''),
      (2, '']''),
      (0, ''''),
      (2, ''return list(set(netuids_with_registered_hotkeys))'')]\<close>

definition old_era :: string where \<open>
  old_era = py_lines
     [(3, ''validity_period = tempo - blocks_since_last_step''),
      (3, ''era_ = {''),
      (4, ''"period": validity_period,''),
      (4, ''"current": current_block,''),
      (3, ''}'')]\<close>

definition new_era :: string where \<open>
  new_era = py_lines
     [(3, ''validity_period = tempo - blocks_since_last_step''),
      (3, ''if validity_period <= 0:''),
      (4, ''validity_period = tempo if tempo and tempo > 0 else 64''),
      (3, ''era_ = {''),
      (4, ''"period": validity_period,''),
      (4, ''"current": current_block,''),
      (3, ''}'')]\<close>

definition compatible_era :: string where \<open>
  compatible_era = py_lines
     [(3, ''validity_period = max(tempo - blocks_since_last_step, 8)'')]\<close>

definition old_gather :: string where \<open>
  old_gather = py_lines
     [(2, ''(''),
      (3, ''(all_hotkeys, total_balance),''),
      (3, ''_dynamic_info,''),
      (3, ''block,''),
      (3, ''all_netuids,''),
      (2, '') = await asyncio.gather(''),
      (3, ''_get_total_balance(''),
      (4, ''total_balance, subtensor, wallet, all_wallets, block_hash=block_hash''),
      (3, ''),''),
      (3, ''subtensor.all_subnets(block_hash=block_hash),''),
      (3, ''subtensor.substrate.get_block_number(block_hash=block_hash),''),
      (3, ''subtensor.get_all_subnet_netuids(block_hash=block_hash),''),
      (2, '')''),
      (2, ''dynamic_info = {info.netuid: info for info in _dynamic_info}'')]\<close>

definition new_gather :: string where \<open>
  new_gather = py_lines
     [(2, ''if netuids_filter:''),
      (3, ''(''),
      (4, ''(all_hotkeys, total_balance),''),
      (4, ''block,''),
      (3, '') = await asyncio.gather(''),
      (4, ''_get_total_balance(''),
      (5, ''total_balance, subtensor, wallet, all_wallets, block_hash=block_hash''),
      (4, ''),''),
      (4, ''subtensor.substrate.get_block_number(block_hash=block_hash),''),
      (3, '')''),
      (3, ''all_netuids = netuids_filter''),
      (3, ''dynamic_info = {}''),
      (2, ''else:''),
      (3, ''(''),
      (4, ''(all_hotkeys, total_balance),''),
      (4, ''_dynamic_info,''),
      (4, ''block,''),
      (4, ''all_netuids,''),
      (3, '') = await asyncio.gather(''),
      (4, ''_get_total_balance(''),
      (5, ''total_balance, subtensor, wallet, all_wallets, block_hash=block_hash''),
      (4, ''),''),
      (4, ''subtensor.all_subnets(block_hash=block_hash),''),
      (4, ''subtensor.substrate.get_block_number(block_hash=block_hash),''),
      (4, ''subtensor.get_all_subnet_netuids(block_hash=block_hash),''),
      (3, '')''),
      (3, ''dynamic_info = {info.netuid: info for info in _dynamic_info}'')]\<close>

definition old_filter :: string where \<open>
  old_filter = py_lines
     [(2, ''netuids = await subtensor.filter_netuids_by_registered_hotkeys(''),
      (3, ''all_netuids, netuids_filter, all_hotkeys''),
      (2, '')''),
      (0, ''''),
      (2, ''for netuid in netuids:'')]\<close>

definition new_filter :: string where \<open>
  new_filter = py_lines
     [(2, ''netuids = await subtensor.filter_netuids_by_registered_hotkeys(''),
      (3, ''all_netuids, netuids_filter, all_hotkeys, block_hash=block_hash''),
      (2, '')''),
      (0, ''''),
      (2, ''if netuids_filter and netuids:''),
      (3, ''_dynamic_info = await asyncio.gather(''),
      (4, ''*[''),
      (5, ''subtensor.subnet(netuid, block_hash=block_hash)''),
      (5, ''for netuid in netuids''),
      (4, '']''),
      (3, '')''),
      (3, ''dynamic_info = {info.netuid: info for info in _dynamic_info}''),
      (0, ''''),
      (2, ''for netuid in netuids:'')]\<close>

section \<open>The script\<close>

type_synonym files = "string \<Rightarrow> string option"

definition interface_path :: string where "interface_path = ''src/bittensor/subtensor_interface.py''"
definition registration_path :: string where "registration_path = ''src/bittensor/extrinsics/registration.py''"
definition wallets_path :: string where "wallets_path = ''src/commands/wallets.py''"

definition patch_alpha_sqrt_price :: "(string \<times> patch) list" where
  "patch_alpha_sqrt_price =
     [(interface_path, \<lparr>pa_old = old_single, pa_new = new_single, pa_compatible = []\<rparr>),
      (interface_path, \<lparr>pa_old = old_map, pa_new = new_map, pa_compatible = []\<rparr>)]"

definition patch_filtered_netuid_discovery :: "(string \<times> patch) list" where
  "patch_filtered_netuid_discovery =
     [(interface_path, \<lparr>pa_old = old_discovery, pa_new = new_discovery, pa_compatible = []\<rparr>)]"

definition patch_negative_era :: "(string \<times> patch) list" where
  "patch_negative_era =
     [(registration_path, \<lparr>pa_old = old_era, pa_new = new_era, pa_compatible = [compatible_era]\<rparr>)]"

definition patch_wallet_overview_netuid_filter :: "(string \<times> patch) list" where
  "patch_wallet_overview_netuid_filter =
     [(wallets_path, \<lparr>pa_old = old_gather, pa_new = new_gather, pa_compatible = []\<rparr>),
      (wallets_path, \<lparr>pa_old = old_filter, pa_new = new_filter, pa_compatible = []\<rparr>)]"

text \<open>The patches in order: the files as they are left, and \<open>None\<close> when the script exits or a file is missing.\<close>

fun run_patches :: "(string \<times> patch) list \<Rightarrow> files \<Rightarrow> files \<times> bool option" where
  "run_patches [] files = (files, Some False)"
| "run_patches ((path, p) # rest) files = (case files path of
      None \<Rightarrow> (files, None)
    | Some text \<Rightarrow> (case replace_once p text of
        None \<Rightarrow> (files, None)
      | Some (text', changed) \<Rightarrow>
          map_prod id (map_option (\<lambda>later. changed \<or> later))
            (run_patches rest (if changed then files(path \<mapsto> text') else files))))"

definition all_patches :: "(string \<times> patch) list" where
  "all_patches = patch_alpha_sqrt_price @ patch_filtered_netuid_discovery @
     patch_wallet_overview_netuid_filter @ patch_negative_era"

text \<open>\<open>main\<close>: \<open>None\<close> when the package is not installed.\<close>

definition patch_btcli :: "files option \<Rightarrow> (files \<times> bool option) option" where
  "patch_btcli package = map_option (run_patches all_patches) package"

section \<open>Texts that cannot overlap\<close>

definition first_line :: "string \<Rightarrow> string" where
  "first_line s = takeWhile (\<lambda>c. c \<noteq> CHR 0x0A) s"

text \<open>Two texts of whole lines cannot overlap when neither holds the other's first line.\<close>

definition apart :: "string \<Rightarrow> string \<Rightarrow> bool" where
  "apart s old \<longleftrightarrow> s \<noteq> [] \<and> old \<noteq> [] \<and> last s = CHR 0x0A \<and> last old = CHR 0x0A \<and>
     \<not> contains s (first_line old) \<and> \<not> contains old (first_line s)"

definition satisfied_by :: "patch \<Rightarrow> string list" where
  "satisfied_by p = pa_new p # pa_compatible p"

text \<open>What satisfies an earlier patch of a file is apart from what a later one replaces.\<close>

fun independent :: "(string \<times> patch) list \<Rightarrow> bool" where
  "independent [] = True"
| "independent ((path, p) # rest) =
     (list_all (\<lambda>(path', q). path' = path \<longrightarrow> list_all (\<lambda>s. apart s (pa_old q)) (satisfied_by p)) rest \<and>
      independent rest)"

section \<open>Lemmas\<close>

lemma starts_with_split: "starts_with s p \<longleftrightarrow> (\<exists>b. s = p @ b)"
  unfolding starts_with_iff by (metis append_take_drop_id append_eq_conv_conj)

lemma contains_split: "contains s n \<longleftrightarrow> (\<exists>a b. s = a @ n @ b)"
proof (induction s)
  case Nil
  show ?case by (subst contains.simps) (simp add: starts_with_split)
next
  case (Cons c s)
  have "contains (c # s) n \<longleftrightarrow> starts_with (c # s) n \<or> contains s n" by (subst contains.simps) simp
  also have "\<dots> \<longleftrightarrow> (\<exists>b. c # s = n @ b) \<or> (\<exists>a b. s = a @ n @ b)" by (simp add: starts_with_split Cons.IH)
  also have "\<dots> \<longleftrightarrow> (\<exists>a b. c # s = a @ n @ b)"
    by (metis append_Cons append_Nil list.exhaust list.inject)
  finally show ?case .
qed

lemma replace_first_split: "contains s old \<Longrightarrow> \<exists>a b. s = a @ old @ b \<and> replace_first old new s = a @ new @ b"
proof (induction s)
  case Nil
  then have "old = []" by (simp add: contains_split)
  then show ?case by (subst replace_first.simps) simp
next
  case (Cons c s)
  show ?case
  proof (cases "starts_with (c # s) old")
    case True
    then obtain b where b: "c # s = old @ b" by (auto simp: starts_with_split)
    have "replace_first old new (c # s) = new @ drop (length old) (c # s)"
      by (subst replace_first.simps) (simp only: True if_True)
    then have "replace_first old new (c # s) = new @ b" by (simp add: b)
    with b show ?thesis by (intro exI [of _ "[]"] exI [of _ b]) simp
  next
    case False
    with Cons.prems have "contains s old" by (subst (asm) contains.simps) simp
    from Cons.IH [OF this] obtain a b where "s = a @ old @ b" "replace_first old new s = a @ new @ b" by blast
    moreover have "replace_first old new (c # s) = c # replace_first old new s"
      by (subst replace_first.simps) (simp only: False if_False list.case)
    ultimately show ?thesis by (intro exI [of _ "c # a"] exI [of _ b]) simp
  qed
qed

lemma overlap_holds_first_line:
  assumes "a @ n @ b = p @ o' @ q" "length a \<le> length p" "length p < length a + length n"
    and "last n = CHR 0x0A"
  shows "contains n (first_line o')"
proof -
  define u where "u = drop (length p - length a) n"
  have n: "n = take (length p - length a) n @ u" by (simp add: u_def)
  have "drop (length p) (a @ n @ b) = o' @ q" by (simp add: assms(1))
  then have eq: "u @ b = o' @ q" using assms(2,3) by (simp add: u_def)
  have u: "u \<noteq> []" "last u = CHR 0x0A" using assms(2-4) by (auto simp: u_def)
  obtain r where r: "o' = first_line o' @ r" unfolding first_line_def by (metis takeWhile_dropWhile_id)
  have "length (first_line o') \<le> length u"
  proof (rule ccontr)
    assume "\<not> ?thesis"
    then have "u = take (length u) (first_line o')"
      using arg_cong [OF eq, of "take (length u)"] by (subst (asm) r) simp
    then have "set u \<subseteq> set (first_line o')" by (metis set_take_subset)
    with u have "CHR 0x0A \<in> set (first_line o')" by (metis last_in_set subsetD)
    then show False by (auto simp: first_line_def dest: set_takeWhileD)
  qed
  then have "take (length (first_line o')) u = first_line o'"
    using arg_cong [OF eq, of "take (length (first_line o'))"] by (subst (asm) (2) r) simp
  then have "u = first_line o' @ drop (length (first_line o')) u" by (metis append_take_drop_id)
  with n show ?thesis unfolding contains_split by metis
qed

lemma replaced_keeps:
  assumes "contains text s" "contains text old" "apart s old"
  shows "contains (replace_first old new text) s"
proof -
  obtain a b where s: "text = a @ s @ b" using assms(1) by (auto simp: contains_split)
  obtain p q where o: "text = p @ old @ q" "replace_first old new text = p @ new @ q"
    using replace_first_split [OF assms(2)] by blast
  have eq: "a @ s @ b = p @ old @ q" using s o(1) by simp
  have "length a + length s \<le> length p \<or> length p + length old \<le> length a"
  proof (rule ccontr)
    assume "\<not> ?thesis"
    then have "length a \<le> length p \<and> length p < length a + length s \<or>
        length p \<le> length a \<and> length a < length p + length old" by linarith
    then show False
      using overlap_holds_first_line [OF eq] overlap_holds_first_line [OF eq [symmetric]] assms(3)
      by (auto simp: apart_def)
  qed
  then show ?thesis
  proof
    assume le: "length a + length s \<le> length p"
    then have "take (length a + length s) p = take (length a + length s) (p @ old @ q)" by simp
    also have "\<dots> = a @ s" by (simp only: eq [symmetric]) simp
    finally have "take (length a + length s) p = a @ s" .
    then have "p = (a @ s) @ drop (length a + length s) p" by (metis append_take_drop_id)
    then show ?thesis unfolding contains_split o(2) by (metis append.assoc)
  next
    assume le: "length p + length old \<le> length a"
    then have "take (length p + length old) a = take (length p + length old) (a @ s @ b)" by simp
    also have "\<dots> = p @ old" by (simp only: eq) simp
    finally have "take (length p + length old) a = p @ old" .
    then have "a = (p @ old) @ drop (length p + length old) a" by (metis append_take_drop_id)
    with eq have "q = drop (length p + length old) a @ s @ b" by (metis append.assoc same_append_eq)
    then show ?thesis unfolding contains_split o(2) by (metis append.assoc)
  qed
qed

text \<open>A patch is in place when the text holds something that satisfies it.\<close>

definition in_place :: "files \<Rightarrow> string \<times> patch \<Rightarrow> bool" where
  "in_place files = (\<lambda>(path, p). \<exists>text. files path = Some text \<and> (\<exists>s \<in> set (satisfied_by p). contains text s))"

lemma replace_once_places:
  "replace_once p text = Some (text', changed) \<Longrightarrow> (\<exists>s \<in> set (satisfied_by p). contains text' s) \<and> (\<not> changed \<longrightarrow> text' = text)"
proof -
  assume r: "replace_once p text = Some (text', changed)"
  have "contains (replace_first (pa_old p) (pa_new p) text) (pa_new p)" if "contains text (pa_old p)"
    using replace_first_split [OF that, of "pa_new p"] by (auto simp: contains_split)
  with r show ?thesis by (auto simp: replace_once_def satisfied_by_def list_ex_iff split: if_splits)
qed

lemma later_run: "map_prod id (map_option g) r = (files', Some changed) \<Longrightarrow> \<exists>c. r = (files', Some c)"
  by (cases r) auto

lemma run_patches_keeps:
  assumes "run_patches steps files = (files', Some changed)"
    and "files path = Some body" "contains body s"
    and "list_all (\<lambda>(path', q). path' = path \<longrightarrow> apart s (pa_old q)) steps"
  shows "\<exists>text'. files' path = Some text' \<and> contains text' s"
  using assms
proof (induction steps arbitrary: files body changed)
  case (Cons step steps)
  obtain path' q where step: "step = (path', q)" by (cases step)
  obtain t t' ch where t: "files path' = Some t" "replace_once q t = Some (t', ch)"
    using Cons.prems(1) by (auto simp: step split: option.splits)
  let ?files = "if ch then files(path' \<mapsto> t') else files"
  obtain ch' where run: "run_patches steps ?files = (files', Some ch')"
    using Cons.prems(1) by (auto simp: step t dest: later_run)
  have "\<exists>u. ?files path = Some u \<and> contains u s"
  proof (cases "ch \<and> path' = path")
    case True
    then have "contains t (pa_old q)" "t' = replace_first (pa_old q) (pa_new q) t" "t = body"
      using t Cons.prems(2) by (auto simp: replace_once_def split: if_splits)
    with True replaced_keeps [of t s "pa_old q"] Cons.prems(3,4) show ?thesis by (simp add: step)
  qed (use Cons.prems(2,3) in auto)
  with Cons.IH [OF run] Cons.prems(4) show ?case by (auto simp: step)
qed simp

lemma run_patches_places:
  "run_patches steps files = (files', Some changed) \<Longrightarrow> independent steps \<Longrightarrow> list_all (in_place files') steps"
proof (induction steps arbitrary: files changed)
  case (Cons step steps)
  obtain path p where step: "step = (path, p)" by (cases step)
  obtain t t' ch where t: "files path = Some t" "replace_once p t = Some (t', ch)"
    using Cons.prems(1) by (auto simp: step split: option.splits)
  let ?files = "if ch then files(path \<mapsto> t') else files"
  obtain ch' where run: "run_patches steps ?files = (files', Some ch')"
    using Cons.prems(1) by (auto simp: step t dest: later_run)
  obtain s where s: "s \<in> set (satisfied_by p)" "contains t' s" using replace_once_places [OF t(2)] by blast
  have place: "?files path = Some t'" using replace_once_places [OF t(2)] t(1) by auto
  have "list_all (\<lambda>(path', q). path' = path \<longrightarrow> apart s (pa_old q)) steps"
    using Cons.prems(2) s(1) by (auto simp: step list_all_iff)
  from run_patches_keeps [OF run place s(2) this] s(1) have "in_place files' step" by (auto simp: in_place_def step)
  with Cons.IH [OF run] Cons.prems(2) show ?case by (simp add: step)
qed simp

lemma in_place_run: "list_all (in_place files) steps \<Longrightarrow> run_patches steps files = (files, Some False)"
proof (induction steps)
  case (Cons step steps)
  obtain path p where step: "step = (path, p)" by (cases step)
  with Cons.prems obtain t where "files path = Some t" "\<exists>s \<in> set (satisfied_by p). contains t s" by (auto simp: in_place_def)
  then have "replace_once p t = Some (t, False)" by (auto simp: replace_once_def satisfied_by_def list_ex_iff)
  with Cons \<open>files path = Some t\<close> show ?case by (simp add: step)
qed simp

text \<open>A text without a line break and without leading blanks lies inside one line.\<close>

lemma contains_append_break:
  assumes "contains (l @ CHR 0x0A # rest) m" "CHR 0x0A \<notin> set m"
  shows "contains l m \<or> contains rest m"
proof -
  obtain a b where eq: "l @ CHR 0x0A # rest = a @ m @ b" using assms(1) by (auto simp: contains_split)
  then consider us where "l = a @ us" "us @ CHR 0x0A # rest = m @ b" | us where "a = l @ us" "CHR 0x0A # rest = us @ m @ b"
    by (auto simp: append_eq_append_conv2)
  then show ?thesis
  proof cases
    case 1
    from 1(2) consider vs where "us = m @ vs" | vs where "m = us @ vs" "CHR 0x0A # rest = vs @ b"
      by (auto simp: append_eq_append_conv2)
    then show ?thesis
    proof cases
      case 2
      with assms(2) have "vs = []" by (auto simp: Cons_eq_append_conv)
      with 1(1) 2(1) have "l = a @ m @ []" by simp
      then show ?thesis unfolding contains_split by blast
    qed (use 1(1) in \<open>auto simp: contains_split\<close>)
  next
    case 2
    show ?thesis
    proof (cases "m = []")
      case True
      then show ?thesis by (subst contains.simps) simp
    next
      case False
      with 2 assms(2) show ?thesis by (cases us) (auto simp: contains_split Cons_eq_append_conv)
    qed
  qed
qed

lemma contains_indented:
  "contains (replicate k (CHR '' '') @ l) (x # m) \<Longrightarrow> x \<noteq> CHR '' '' \<Longrightarrow> contains l (x # m)"
proof (induction k)
  case (Suc k)
  then show ?case by (simp add: contains.simps [of "CHR '' '' # _"])
qed simp

lemma contains_py_lines:
  assumes "contains (py_lines ls) (x # m)" "x \<noteq> CHR '' ''" "CHR 0x0A \<notin> set (x # m)"
  shows "list_ex (\<lambda>(_, l). contains l (x # m)) ls"
  using assms(1)
proof (induction ls)
  case Nil
  then show ?case by (simp add: py_lines_def contains.simps)
next
  case (Cons nl ls)
  obtain n l where nl: "nl = (n, l)" by (cases nl)
  have "contains ((replicate (4 * n) (CHR '' '') @ l) @ CHR 0x0A # py_lines ls) (x # m)"
    using Cons.prems by (simp add: py_lines_def nl)
  from contains_append_break [OF this assms(3)] contains_indented [OF _ assms(2)] Cons.IH show ?case
    by (auto simp: nl)
qed

definition plain_line :: "string \<Rightarrow> bool" where
  "plain_line l \<longleftrightarrow> l \<noteq> [] \<and> hd l \<noteq> CHR '' '' \<and> CHR 0x0A \<notin> set l"

lemma first_line_py: "plain_line l \<Longrightarrow> first_line (py_lines ((n, l) # ls)) = replicate (4 * n) (CHR '' '') @ l"
  by (auto simp: first_line_def py_lines_def plain_line_def takeWhile_append)

lemma last_py: "ls \<noteq> [] \<Longrightarrow> py_lines ls \<noteq> [] \<and> last (py_lines ls) = CHR 0x0A"
  by (induction ls rule: rev_induct) (auto simp: py_lines_def)

lemma apart_lines:
  assumes "plain_line l" "plain_line l'"
    and "list_all (\<lambda>(_, x). \<not> contains x l') ((n, l) # ls)" "list_all (\<lambda>(_, x). \<not> contains x l) ((n', l') # ls')"
  shows "apart (py_lines ((n, l) # ls)) (py_lines ((n', l') # ls'))"
proof -
  have inside: "contains s (replicate k (CHR '' '') @ m) \<Longrightarrow> contains s m" for s k m
    unfolding contains_split by (metis append.assoc)
  have "\<not> contains (py_lines xs) (replicate k (CHR '' '') @ m)"
    if "plain_line m" "list_all (\<lambda>(_, x). \<not> contains x m) xs" for xs k m
  proof
    assume "contains (py_lines xs) (replicate k (CHR '' '') @ m)"
    then have "contains (py_lines xs) m" by (rule inside)
    with that show False
      using contains_py_lines [of xs "hd m" "tl m"] by (auto simp: plain_line_def list_ex_iff list_all_iff)
  qed
  from this [OF assms(2,3)] this [OF assms(1,4)] show ?thesis
    using last_py [of "(n, l) # ls"] last_py [of "(n', l') # ls'"] by (simp add: apart_def first_line_py assms(1,2))
qed

text \<open>The snippets of the script are independent.\<close>

lemma snippets_apart:
  "apart new_single old_map" "apart new_single old_discovery" "apart new_map old_discovery" "apart new_gather old_filter"
  unfolding new_single_def old_map_def old_discovery_def new_map_def new_gather_def old_filter_def
  by (rule apart_lines; code_simp)+

lemma all_patches_independent: "independent all_patches"
proof -
  have "interface_path \<noteq> registration_path" "interface_path \<noteq> wallets_path" "wallets_path \<noteq> registration_path"
    by code_simp+
  with snippets_apart show ?thesis
    by (auto simp: all_patches_def patch_alpha_sqrt_price_def patch_filtered_netuid_discovery_def
        patch_wallet_overview_netuid_filter_def patch_negative_era_def satisfied_by_def)
qed

text \<open>
  The script is safe to rerun: whatever version of the package it meets, once it has run to its end a second
  run reports that nothing is to be done and writes no file.
\<close>

theorem rerun_changes_nothing:
  assumes "patch_btcli (Some files) = Some (files', Some changed)"
  shows "patch_btcli (Some files') = Some (files', Some False)"
  using assms in_place_run [OF run_patches_places [OF _ all_patches_independent]] by (auto simp: patch_btcli_def)

text \<open>It stops at the first patch that does not apply, with the earlier ones written.\<close>

lemma stopped_run_is_partial:
  "run_patches [(''f'', \<lparr>pa_old = ''a'', pa_new = ''b'', pa_compatible = []\<rparr>),
      (''f'', \<lparr>pa_old = ''x'', pa_new = ''y'', pa_compatible = []\<rparr>)] [''f'' \<mapsto> ''a''] = ([''f'' \<mapsto> ''b''], None)"
  by (simp add: replace_once_def contains.simps replace_first.simps)

end
