(* ===== verification/Wire_Types.thy ===== *)
theory Wire_Types
  imports Security_Round Miner
begin

text \<open>
  \<open>masxai/protocol.py\<close>: the message of the security track, which the validator asks with and the miner fills in.
  The other side of the wire sees exactly these fields; what the validator's round reads of them is
  \<open>response_of\<close>.
\<close>

section \<open>SecurityAgentSynapse\<close>

definition SECURITY_SYNAPSE_VERSION :: int where "SECURITY_SYNAPSE_VERSION = 2"

record security_synapse =
  sa_request_id :: string
  sa_validator_pubkey_b64 :: string
  sa_pubkey_id :: string
  sa_issued_at :: rat
  sa_version :: int
  sa_has_agent :: "bool option"
  sa_blob_url :: string
  sa_ciphertext_sha256 :: string
  sa_blob_encoding :: string
  sa_pubkey_id_used :: string
  sa_image_ref :: string
  sa_timestamp :: string

text \<open>The question as \<open>security_round\<close> builds it; the fields of the answer have their defaults.\<close>

definition security_ask :: "string \<Rightarrow> rat \<Rightarrow> string \<Rightarrow> string \<Rightarrow> security_synapse" where
  "security_ask request_id now pubkey_b64 key_id =
     \<lparr>sa_request_id = request_id, sa_validator_pubkey_b64 = pubkey_b64, sa_pubkey_id = key_id,
      sa_issued_at = now, sa_version = SECURITY_SYNAPSE_VERSION,
      sa_has_agent = None, sa_blob_url = [], sa_ciphertext_sha256 = [], sa_blob_encoding = [],
      sa_pubkey_id_used = [], sa_image_ref = [], sa_timestamp = []\<rparr>"

definition deserialize :: "security_synapse \<Rightarrow> (string, json) dict" where
  "deserialize s =
     [(''has_agent'', case sa_has_agent s of None \<Rightarrow> JNull | Some b \<Rightarrow> JBool b),
      (''blob_url'', JStr (sa_blob_url s)),
      (''ciphertext_sha256'', JStr (sa_ciphertext_sha256 s)),
      (''blob_encoding'', JStr (sa_blob_encoding s)),
      (''pubkey_id_used'', JStr (sa_pubkey_id_used s)),
      (''image_ref'', JStr (sa_image_ref s)),
      (''timestamp'', JStr (sa_timestamp s))]"

text \<open>
  What \<open>forward\<close> of the miner writes into the message it was asked with, whose answer fields are still empty; a
  refusal has no time.
\<close>

definition answered :: "agent_answer \<Rightarrow> string \<Rightarrow> security_synapse \<Rightarrow> security_synapse" where
  "answered a timestamp s = s\<lparr>sa_has_agent := Some (an_has_agent a), sa_blob_url := an_blob_url a,
     sa_ciphertext_sha256 := an_ciphertext_sha256 a, sa_blob_encoding := an_blob_encoding a,
     sa_pubkey_id_used := an_pubkey_id_used a, sa_image_ref := an_image_ref a,
     sa_timestamp := (if an_has_agent a then timestamp else sa_timestamp s)\<rparr>"

text \<open>What the round reads of a message that came back.\<close>

definition response_of :: "security_synapse \<Rightarrow> response" where
  "response_of s = \<lparr>rp_has_agent = sa_has_agent s, rp_blob_url = sa_blob_url s, rp_image_ref = sa_image_ref s,
     rp_ciphertext_sha256 = sa_ciphertext_sha256 s\<rparr>"

section \<open>Lemmas\<close>

text \<open>The round reads nothing that \<open>deserialize\<close> would not hand over.\<close>

lemma response_in_deserialized:
  assumes "deserialize s = deserialize s'"
  shows "response_of s = response_of s'"
  using assms by (auto simp: deserialize_def response_of_def split: option.splits)

text \<open>A question that comes back as it was sent, as after a timeout, costs the miner nothing and counts as no answer.\<close>

lemma unanswered_is_skipped:
  assumes "rc_elapsed ctx i \<le> rc_budget_s ctx"
  shows "round_loop ctx eval i ((uid, response_of (security_ask rid now pub pid)) # rest) st = round_loop ctx eval (Suc i) rest st"
  using assms by (simp add: response_of_def security_ask_def)

text \<open>A miner that declines is counted and not evaluated.\<close>

lemma declined_is_not_evaluated:
  assumes "rc_elapsed ctx i \<le> rc_budget_s ctx"
  shows "round_loop ctx eval i ((uid, response_of (answered no_agent t s)) # rest) st =
    round_loop ctx eval (Suc i) rest (st\<lparr>rs_answered := rs_answered st + 1\<rparr>)"
  using assms by (simp add: response_of_def answered_def no_agent_def)

text \<open>
  Whatever the settings of a miner and its services, it declines or offers exactly one of a blob and an image,
  and the round takes it for a candidate unless what it offers is blank.
\<close>

lemma offer_is_blob_or_image:
  assumes "security_forward save sha256 encrypt e pub pid bs = (a, bs')"
  shows "a = no_agent \<or> an_has_agent a \<and>
    (an_image_ref a = [] \<and> candidate_of (response_of (answered a t s)) =
       (if py_strip (an_blob_url a) = [] then None
        else Some (Blob (py_strip (an_blob_url a)) (py_strip (an_ciphertext_sha256 a)))) \<or>
     an_blob_url a = [] \<and> candidate_of (response_of (answered a t s)) = Some (Image (an_image_ref a)))"
proof -
  have strip: "py_strip [] = []" by code_simp
  have image: "py_strip (env_stripped e n) = env_stripped e n" for n
    by (simp add: env_stripped_def py_strip_idem)
  from assms show ?thesis
    by (auto simp: security_forward_def no_agent_def Let_def candidate_of_def response_of_def answered_def strip image
        split: if_splits prod.splits sum.splits)
qed

end
