(* ===== verification/Spec2Isabelle.thy ===== *)
theory Spec2Isabelle
  imports Llm_Node Submission_Api Neuron_Loop Agent_Transport Sqli_Target Announcements Validator_Cli Db_Rows
    Security_Life Neuron_Setup Neuron_Config Template_Demo Operator_Checks Signed_Messages Btcli_Patch Sandbox_Checks Wire_Types
begin

text \<open>
  A model of the subnet's program and the theorems that make it correct.

  \<^bold>\<open>The program.\<close>  Two tracks share one chain.  In the LLM-key track miners (\<open>neurons/miner.py\<close>) contribute
  sealed API keys; the validator (\<open>neurons/validator.py\<close>) relays complete batches to a backend, polls the
  usage of the keys, keeps a window of counters per key and epoch, scores the closed epoch and turns the
  scores into weights.  In the security track a miner (\<open>neurons/security_miner.py\<close>) publishes the image of
  an agent as a sealed blob; the validator (\<open>neurons/security_validator.py\<close>) downloads it, admits it through
  the stages of \<open>secqurityVali/pipeline.py\<close> and a database, runs it once in isolation against a target that
  was generated for the run (\<open>secqurityVali/job.py\<close>), and folds the reward into a matrix of categories from
  which the score of the hotkey follows.  The pipeline is also reachable from a command line
  (\<open>neurons/security_vali.py\<close>) and an HTTP API (\<open>secqurityVali/api.py\<close>).  Both validators run in the loop of
  \<open>template/base\<close>, which sets the weights.

  \<^bold>\<open>Foundations.\<close>  \<open>Prelude\<close>: Python floats, exceptions, dictionaries in insertion order with the locale
  \<open>keyed_store\<close> of their laws, the locales \<open>persisted\<close> (a state and its file) and \<open>draining\<close> (a worker and its
  queue), shared lemmas and collections.  \<open>Py_Text\<close>: \<open>str\<close> operations, number parsers,
  JSON values.  \<open>Constants\<close>: \<open>masxai/constants.py\<close>; a setting the process environment can change is a
  function of the environment.

  \<^bold>\<open>LLM-key track.\<close>
  \<open>Scoring\<close> (\<open>masxai/scoring.py\<close>): the reward of one window lies in the unit interval, needs both floors and
  is monotone.
  \<open>Key_Windows\<close> (\<open>neurons/validator.py\<close>): folding a report touches one bucket, killing a key its rows only.
  \<open>Epochs\<close>: the roll closes a window only when it is exactly the previous epoch; scoring refines a
  specification by hotkey; an invariant of the windows is kept by every operation.
  \<open>Llm_Validator\<close>: the three rounds; only complete, sanitised batches are relayed, one conclusive report ends
  a key and leaves all others alone, the rounds return on every answer of the backend, the state file reads back, weights need evidence.
  \<open>Llm_Node\<close>: one \<open>forward\<close> and the life of a node, a step relation of forwards, weight settings,
  synchronisations and restarts, from the state file or without one; over every life no call is counted twice,
  nobody is paid without reported use of a key that counts as alive, and with positive floors the node never wedges.
  \<open>Weights\<close> (\<open>template/base/validator.py\<close>, \<open>weight_utils.py\<close>): burn allocation, quantisation, resynchronisation with the metagraph.
  \<open>Miner\<close>: both miners; the LLM miner works from five keys or none and offers those
  whose model is allowed, an honest batch is relayed whole.

  \<^bold>\<open>Admission of agents.\<close>
  \<open>Verdicts\<close> (\<open>models.py\<close>), \<open>Docker_Ops\<close> (\<open>docker_ops.py\<close>), \<open>Archive\<close> (\<open>file_checks.py\<close>, \<open>structure.py\<close>),
  \<open>Registry_Intake\<close> (\<open>registry.py\<close>), \<open>Dry_Run\<close> (\<open>dry_run.py\<close>): the stages and what an accepting stage shows.
  \<open>Agent_Db\<close> (\<open>db.py\<close>): ledger, agents (locale \<open>agent_registry\<close>) and the job queue as a step relation
  (\<open>queue_step\<close>) of submissions, starts, races for a job and deaths of workers.  A start requeues every running
  job and stops nobody, as in the code, so only while no worker starts beside one that is at work
  do the reachable states keep a job to one worker; \<open>overlapping_start_shares_a_job\<close> shows what happens otherwise.  \<open>Db_Rows\<close> (\<open>db.py\<close>): columns, conversion and migration.
  \<open>Pipeline\<close> (\<open>pipeline.py\<close>): no Docker command without a checked file, removal of what was loaded under a
  readable name on every path, the ledger stays sound, an accepted agent has one owner.
  \<open>Submission_Api\<close> (\<open>api.py\<close>): what a request may change, and that the worker finishes every job.
  \<open>Validator_Cli\<close> (\<open>neurons/security_vali.py\<close>): the exit codes.

  \<^bold>\<open>Evaluation.\<close>
  \<open>Findings\<close> (\<open>eval/findings.py\<close>): the report of the agent is parsed as untrusted data.
  \<open>Task_Score\<close> (\<open>eval/challenge.py\<close>, \<open>eval/task_score.py\<close>): the answer key and the grade, whose flags are tied
  to the findings (\<open>proof_at\<close>, \<open>proof_located\<close>, \<open>decoys_named\<close>).
  \<open>Behaviour\<close> (\<open>behavior.py\<close>): the log of system calls and the safety verdict.
  \<open>Replay\<close> (\<open>replay.py\<close>, \<open>provision.py\<close>): reproduction of a finding on a fresh target.
  \<open>Sqli_Target\<close> (\<open>targets/sqli_v1/app.py\<close>): the target itself, with its exact count of
  requests, and \<open>Replay\<close> composed with it: the boolean variants confirm any recipe that is not empty.
  \<open>Job\<close> (\<open>job.py\<close>): the whole run over the Docker and web interfaces; acceptance needs proof from this very run
  (\<open>proven_run\<close>), and every run answers and removes what it created.
  \<open>Rewards\<close> (\<open>reward.py\<close>, \<open>category_scores.py\<close>, \<open>capability.py\<close>): the memory of a category is the weighted
  history of its rewards (locale \<open>smoothing\<close>), the standing is bounded.
  \<open>Security_Round\<close> (\<open>neurons/security_validator.py\<close>): the round over all miners; scores follow the matrix,
  and the matrix the evaluations made (\<open>evaluations_made\<close>), of which those that failed on our side change nothing.
  \<open>Wire_Types\<close> (\<open>masxai/protocol.py\<close>): the message of the security track, as the miner fills it and the round reads it.
  \<open>Security_Life\<close>: rounds, synchronisations and restarts in any order, a step relation that logs every outcome;
  over every life a positive score leads back to an admitted agent under that hotkey, whose run proved its exploit.

  \<^bold>\<open>Around them.\<close>
  \<open>Clients\<close> (\<open>llm_key_client.py\<close>, \<open>marketplace_client.py\<close>): bounded retries (locale \<open>retrying\<close>) and the
  publication policy.  \<open>Announcements\<close> (\<open>masxai/discord.py\<close>): bounded messages.  \<open>Agent_Transport\<close>
  (\<open>agent_crypto.py\<close>, \<open>llm_key_crypto.py\<close>, \<open>agent_blob.py\<close>): an agent arrives as it was published.
  \<open>Neuron_Loop\<close> (\<open>template/base/neuron.py\<close>, \<open>validator.py\<close>, \<open>miner.py\<close>): pacing of the weights, survival of
  the loop, background threads.  \<open>Neuron_Setup\<close> (the same and \<open>neurons/security_validator.py\<close>): construction with
  its first synchronisation, the checkpoint, the settings of the security validator.  \<open>Neuron_Config\<close>
  (\<open>template/utils/config.py\<close>, \<open>logging.py\<close>): options, directories and the log of events.

  \<^bold>\<open>Tools and template.\<close>
  \<open>Operator_Checks\<close> (\<open>scripts/check_per_epoch_emission.py\<close>, \<open>setup_mechanisms.py\<close>): the check predicts what the
  validator pays.  \<open>Sandbox_Checks\<close> (\<open>behavior_check.py\<close>, \<open>escape_suite.py\<close>, \<open>security_probe.py\<close>): what their
  exit codes and counts mean.  \<open>Btcli_Patch\<close> (\<open>patch_btcli_compat.py\<close>): a rerun changes nothing.
  \<open>Signed_Messages\<close> (\<open>verify/generate.py\<close>, \<open>verify.py\<close>): a generated file verifies.  \<open>Template_Demo\<close>
  (\<open>template/utils/uids.py\<close>, \<open>template/validator\<close>, \<open>template/api\<close>, \<open>template/mock.py\<close>): the doubling task and the
  choice of uids.

  \<^bold>\<open>Conventions.\<close>  State is a record that is passed and returned updated; an exception is the left side of a
  sum and an early return a branch.  A remote party is an argument: Docker, the web, backends and SQLite's
  evaluation of arbitrary SQL answer the request they are given, most of them knowing all earlier ones, so
  a theorem holds for every behaviour of them.  Loops run over the list the program iterates or over the
  attempts its settings allow, so no definition needs fuel and each is total.  The validator's main loop and
  the worker are given the sequence of iterations they live through; their theorems hold for every sequence.
  Python's integers are unbounded, and the quantised weights are naturals with the bound of 16 bits proved.

  \<^bold>\<open>Not modelled.\<close>  Rounding of floats, and with it overflow to infinity.  The \<open>OverflowError\<close> of an integer that no
  float can hold, in \<open>scoring.py\<close> and in the counters of \<open>neurons/validator.py\<close>: it needs counts beyond
  \<open>FLOAT_OVERFLOW\<close>, and \<open>node_never_wedges\<close> shows that the node's counters stay below it while the reported calls do
  (the parser of findings, which reads numbers of the agent, has it).  Text beyond Latin-1, and with it the lone
  surrogates SQLite refuses to encode.  The ledger's \<open>record_verdict\<close> always stores; which verdicts SQLite
  takes is the business of \<open>Db_Rows\<close>.  The \<open>limits\<close> argument of \<open>create_args\<close> in \<open>dry_run.py\<close>, which only tests
  pass.  Errors of the tar stream other than those of \<open>tarfile\<close>, such as a failing disk or a damaged
  \<open>lzma\<close> stream.  The
  scheduling of \<open>asyncio\<close> inside one round: its awaits are sequential, and the metagraph of a round is one
  argument.  The mechanics of libraries: \<open>argparse\<close>, \<open>http.server\<close> sockets, SQL parsing, pydantic,
  serialisation of bittensor, \<open>tarfile\<close>, NaCl.  The state an exception leaves half-way inside a round
  of the LLM-key validator, which is excluded by positive floors and a consistent metagraph.  Log output.
  Loading of \<open>.env\<close> files and the import shims
  (\<open>masxai/env.py\<close>, \<open>bt_compat.py\<close>), the scripts that only print (\<open>show_metagraph.py\<close>, \<open>run_job_demo.py\<close>,
  \<open>run_capability_demo.py\<close>), the streaming tutorial and the tests, which make no decision of the running system.
\<close>

end
